(* ===== verification/Prelude.thy ===== *)
theory Prelude
  imports Main "HOL-Library.Word" "HOL-Library.Multiset" "HOL-Library.List_Lexorder"
    "HOL-Library.Char_ord"
begin

text \<open>
  What the component theories share: names for the machine types of the code, the Go
  standard-library operations on strings and big integers that the code calls, and the
  generic lemmas on lists and sums that several components use.

  A Go string is a sequence of bytes, so it is a \<^typ>\<open>string\<close> (a list of 8-bit
  characters), and \<open>len\<close> is \<^const>\<open>length\<close>. A slice of bytes is a list of \<open>8 word\<close>.
  \<open>uint64\<close> and \<open>int64\<close> are \<open>64 word\<close>, read with \<^const>\<open>unat\<close> or \<^const>\<open>uint\<close> and with
  \<^const>\<open>sint\<close>. A \<open>big.Int\<close> is an \<^typ>\<open>int\<close>. A Go result \<open>(T, error)\<close> is a sum
  \<open>'e + 'a\<close> with \<open>Inl\<close> the error, and \<open>(T, bool)\<close> or a pointer that may be nil is an option.
\<close>

named_theorems go_simps "unfolding rules for the Go standard library operations"
named_theorems input_defs "definitions of the transaction-input operations"

type_synonym byte = "8 word"
type_synonym bytes = "8 word list"
type_synonym u32 = "32 word"
type_synonym u64 = "64 word"
type_synonym i64 = "64 word"
type_synonym i32 = "32 word"

type_synonym address = string
type_synonym contract_address = string
type_synonym native_asset = string

subsection \<open>Big integers\<close>

text \<open>
  \<open>big.Int.Uint64\<close> returns the low 64 bits of the absolute value, \<open>big.Int.Int64\<close> negates
  that when the number is negative; \<open>big.Int.Div\<close> is Euclidean division and panics on a zero
  divisor (\<open>None\<close>), \<open>big.Int.Quo\<close> and \<open>big.Int.Rem\<close> truncate towards zero.
\<close>

definition big_uint64 :: "int \<Rightarrow> u64" where
  "big_uint64 n = word_of_int \<bar>n\<bar>"

definition big_int64 :: "int \<Rightarrow> i64" where
  "big_int64 n = word_of_int n"

definition big_div :: "int \<Rightarrow> int \<Rightarrow> int option" where
  "big_div x y = (if y = 0 then None else if 0 < y then Some (x div y) else Some (- (x div (- y))))"

definition big_quo :: "int \<Rightarrow> int \<Rightarrow> int" where
  "big_quo x y = sgn x * sgn y * (\<bar>x\<bar> div \<bar>y\<bar>)"

definition big_rem :: "int \<Rightarrow> int \<Rightarrow> int" where
  "big_rem x y = x - big_quo x y * y"

lemma uint_eq_sint: "0 \<le> sint (w :: i64) \<Longrightarrow> uint w = sint w"
  using sint_lt [of w] by (simp add: uint_sint take_bit_int_eq_self)

lemma uint_big_uint64: "0 \<le> n \<Longrightarrow> n < 2 ^ 64 \<Longrightarrow> uint (big_uint64 n) = n"
  by (simp add: big_uint64_def uint_word_of_int)

lemma sint_big_int64: "- (2 ^ 63) \<le> n \<Longrightarrow> n < 2 ^ 63 \<Longrightarrow> sint (big_int64 n) = n"
  by (simp add: big_int64_def sint_sbintrunc' signed_take_bit_int_eq_self)

lemma big_quo_nonneg: "0 \<le> x \<Longrightarrow> 0 < y \<Longrightarrow> big_quo x y = x div y"
  by (cases "x = 0") (simp_all add: big_quo_def)

lemma big_rem_nonneg: "0 \<le> x \<Longrightarrow> 0 < y \<Longrightarrow> big_rem x y = x mod y"
  by (simp add: big_rem_def big_quo_nonneg minus_div_mult_eq_mod)

subsection \<open>Strings\<close>

text \<open>
  The functions of Go's package \<open>strings\<close>. Case folding is on the ASCII letters: on a string of
  ASCII bytes these are \<open>strings.ToLower\<close> and \<open>strings.EqualFold\<close>.
\<close>

definition char_lower :: "char \<Rightarrow> char" where
  "char_lower c = (let n = of_char c :: nat in
     if 65 \<le> n \<and> n \<le> 90 then char_of (n + 32) else c)"

definition to_lower :: "string \<Rightarrow> string" where
  "to_lower s = map char_lower s"

definition equal_fold :: "string \<Rightarrow> string \<Rightarrow> bool" where
  "equal_fold s t \<longleftrightarrow> to_lower s = to_lower t"

definition has_prefix :: "string \<Rightarrow> string \<Rightarrow> bool" where
  "has_prefix s p \<longleftrightarrow> take (length p) s = p"

definition trim_prefix :: "string \<Rightarrow> string \<Rightarrow> string" where
  "trim_prefix s p = (if has_prefix s p then drop (length p) s else s)"

fun contains_str :: "string \<Rightarrow> string \<Rightarrow> bool" where
  "contains_str [] p \<longleftrightarrow> p = []"
| "contains_str (c # s) p \<longleftrightarrow> has_prefix (c # s) p \<or> contains_str s p"

text \<open>\<open>strings.Split\<close> with a separator of one byte: never empty.\<close>

fun split_char :: "char \<Rightarrow> string \<Rightarrow> string list" where
  "split_char d [] = [[]]"
| "split_char d (c # s) =
     (if c = d then [] # split_char d s
      else (case split_char d s of [] \<Rightarrow> [[c]] | w # ws \<Rightarrow> (c # w) # ws))"

text \<open>\<^verbatim>\<open>hex.DecodeString\<close> succeeds on an even number of hexadecimal digits.\<close>

definition is_hex_digit :: "char \<Rightarrow> bool" where
  "is_hex_digit c = (let n = of_char c :: nat in
     48 \<le> n \<and> n \<le> 57 \<or> 97 \<le> n \<and> n \<le> 102 \<or> 65 \<le> n \<and> n \<le> 70)"

definition is_hex_string :: "string \<Rightarrow> bool" where
  "is_hex_string s \<longleftrightarrow> even (length s) \<and> list_all is_hex_digit s"

text \<open>\<^verbatim>\<open>strings.TrimSpace\<close>, \<^verbatim>\<open>strings.Replace(s, old, new, 1)\<close> and \<^verbatim>\<open>strings.Join\<close> with one character.\<close>

definition is_space :: "char \<Rightarrow> bool" where
  "is_space c = (let n = of_char c :: nat in n = 32 \<or> 9 \<le> n \<and> n \<le> 13)"

definition trim_space :: "string \<Rightarrow> string" where
  "trim_space s = rev (dropWhile is_space (rev (dropWhile is_space s)))"

fun replace_first :: "string \<Rightarrow> string \<Rightarrow> string \<Rightarrow> string" where
  "replace_first [] old new = (if old = [] then new else [])"
| "replace_first (c # s) old new = (if has_prefix (c # s) old then new @ drop (length old) (c # s)
     else c # replace_first s old new)"

fun join_char :: "char \<Rightarrow> string list \<Rightarrow> string" where
  "join_char d [] = []"
| "join_char d [w] = w"
| "join_char d (w # v # ws) = w @ d # join_char d (v # ws)"

text \<open>The bytes of a string, and \<^verbatim>\<open>fmt.Sprintf("%d", n)\<close> of a number that is not negative.\<close>

definition string_bytes :: "string \<Rightarrow> bytes" where
  "string_bytes s = map of_char s"

fun show_nat :: "nat \<Rightarrow> string" where
  "show_nat n = (if n < 10 then [char_of (48 + n)] else show_nat (n div 10) @ [char_of (48 + n mod 10)])"

declare show_nat.simps [simp del]

lemma of_char_char_of_lower: "(n::nat) < 256 \<Longrightarrow> of_char (char_of n :: char) = n"
  by simp

lemma char_lower_idem [simp]: "char_lower (char_lower c) = char_lower c"
proof -
  have "(of_char c :: nat) < 256" by (rule nat_of_char_less_256)
  then show ?thesis by (auto simp: char_lower_def Let_def)
qed

lemma to_lower_idem [simp]: "to_lower (to_lower s) = to_lower s"
  by (simp add: to_lower_def)

lemma to_lower_Nil_iff [simp]: "to_lower s = [] \<longleftrightarrow> s = []" "[] = to_lower s \<longleftrightarrow> s = []"
  "to_lower [] = []"
  by (auto simp: to_lower_def)

lemma equal_fold_refl [simp]: "equal_fold s s"
  by (simp add: equal_fold_def)

lemma equal_fold_sym: "equal_fold s t \<longleftrightarrow> equal_fold t s"
  by (auto simp: equal_fold_def)

lemma split_char_not_Nil [simp]: "split_char d s \<noteq> []"
  by (induction s) (auto split: list.splits)

lemma split_char_no_sep: "d \<notin> set s \<Longrightarrow> split_char d s = [s]"
  by (induction s) auto

lemma split_char_append: "d \<notin> set s \<Longrightarrow> split_char d (s @ d # t) = s # split_char d t"
  by (induction s) auto

lemma split_char_parts: "w \<in> set (split_char d s) \<Longrightarrow> d \<notin> set w"
  by (induction s arbitrary: w) (auto split: if_splits list.splits)

subsection \<open>Lists and sums\<close>

lemma sum_list_perm: "mset xs = mset ys \<Longrightarrow> sum_list (map f xs) = sum_list (map (f :: 'a \<Rightarrow> int) ys)"
  by (metis mset_map sum_mset_sum_list)

lemma list_ex_pair_disjoint:
  "(\<exists>x\<in>set xs. \<exists>y\<in>set ys. f x = f y) \<longleftrightarrow> f ` set xs \<inter> f ` set ys \<noteq> {}"
  by blast

lemma list_ex2_sym: "(\<And>x y. p x y = p y x) \<Longrightarrow>
  list_ex (\<lambda>x. list_ex (p x) ys) xs = list_ex (\<lambda>y. list_ex (p y) xs) ys"
  by (auto simp: list_ex_iff)

text \<open>\<open>andThen\<close> passes an error on, as \<^verbatim>\<open>if err != nil { return nil, err }\<close> does.\<close>

definition andThen :: "'e + 'a \<Rightarrow> ('a \<Rightarrow> 'e + 'b) \<Rightarrow> 'e + 'b" where
  "andThen x f = (case x of Inl e \<Rightarrow> Inl e | Inr a \<Rightarrow> f a)"

lemma andThen_simps [simp]: "andThen (Inl e) f = Inl e" "andThen (Inr a) f = f a"
  by (simp_all add: andThen_def)

lemma andThen_Inr: "andThen x f = Inr b \<longleftrightarrow> (\<exists>a. x = Inr a \<and> f a = Inr b)"
  by (cases x) simp_all

subsection \<open>Bytes\<close>

text \<open>Little-endian bytes of a number.\<close>

fun le_bytes :: "nat \<Rightarrow> nat \<Rightarrow> bytes" where
  "le_bytes 0 v = []"
| "le_bytes (Suc n) v = of_nat (v mod 256) # le_bytes n (v div 256)"

fun le_value :: "bytes \<Rightarrow> nat" where
  "le_value [] = 0"
| "le_value (b # bs) = unat b + 256 * le_value bs"

lemma le_value_append: "le_value (as @ bs) = le_value as + 256 ^ length as * le_value bs"
  by (induction as) (simp_all add: algebra_simps)

lemma length_le_bytes [simp]: "length (le_bytes n v) = n"
  by (induction n arbitrary: v) simp_all

lemma unat_of_mod256: "unat (of_nat (v mod 256) :: byte) = v mod 256"
  by (simp add: unat_of_nat)

lemma le_value_le_bytes: "le_value (le_bytes n v) = v mod 256 ^ n"
  by (induction n arbitrary: v) (simp_all add: unat_of_mod256 mod_mult2_eq)

lemma byte_less: "unat (b :: byte) < 256"
  using unsigned_less [of b] by simp

lemma le_bytes_le_value: "le_bytes (length bs) (le_value bs) = bs"
  by (induction bs) (simp_all add: byte_less)

lemma le_value_less: "le_value bs < 256 ^ length bs"
proof (induction bs)
  case (Cons b bs)
  have "unat b < 256" using unsigned_less [of b] by simp
  with Cons show ?case by simp
qed simp

subsection \<open>Decimal digits\<close>

definition digit_value :: "char \<Rightarrow> int option" where
  "digit_value c = (let n = of_char c :: nat in
     if 48 \<le> n \<and> n \<le> 57 then Some (int n - 48) else None)"

fun parse_digits :: "int \<Rightarrow> string \<Rightarrow> int option" where
  "parse_digits acc [] = Some acc"
| "parse_digits acc (c # cs) =
     (case digit_value c of None \<Rightarrow> None | Some v \<Rightarrow> parse_digits (acc * 10 + v) cs)"

text \<open>\<^verbatim>\<open>strconv.Atoi\<close>: a sign, digits, and the range of 64 bits.\<close>

definition atoi :: "string \<Rightarrow> int option" where
  "atoi s = (let neg = (take 1 s = ''-''); ds = (if take 1 s = ''-'' \<or> take 1 s = ''+'' then tl s else s)
     in if ds = [] then None else (case parse_digits 0 ds of None \<Rightarrow> None | Some n \<Rightarrow>
       (let v = (if neg then - n else n) in if - (2 ^ 63) \<le> v \<and> v < 2 ^ 63 then Some v else None)))"

subsection \<open>Hexadecimal\<close>

text \<open>\<^verbatim>\<open>encoding/hex\<close>, over the values of the bytes.\<close>

definition hex_value :: "char \<Rightarrow> nat option" where
  "hex_value c = (let n = of_char c :: nat in
     if 48 \<le> n \<and> n \<le> 57 then Some (n - 48)
     else if 97 \<le> n \<and> n \<le> 102 then Some (n - 87)
     else if 65 \<le> n \<and> n \<le> 70 then Some (n - 55) else None)"

definition hex_char :: "nat \<Rightarrow> char" where
  "hex_char n = char_of (if n < 10 then n + 48 else n + 87)"

fun hex_decode :: "string \<Rightarrow> nat list option" where
  "hex_decode [] = Some []"
| "hex_decode [c] = None"
| "hex_decode (c # d # s) = (case (hex_value c, hex_value d, hex_decode s) of
     (Some x, Some y, Some bs) \<Rightarrow> Some ((x * 16 + y) # bs) | _ \<Rightarrow> None)"

fun hex_encode :: "nat list \<Rightarrow> string" where
  "hex_encode [] = []"
| "hex_encode (b # bs) = hex_char (b div 16) # hex_char (b mod 16) # hex_encode bs"

lemma hex_value_char: "n < 16 \<Longrightarrow> hex_value (hex_char n) = Some n"
  by (auto simp: hex_value_def hex_char_def Let_def)

lemma hex_decode_encode: "\<forall>b\<in>set bs. b < 256 \<Longrightarrow> hex_decode (hex_encode bs) = Some bs"
  by (induction bs) (auto simp: hex_value_char less_mult_imp_div_less)

lemma hex_value_bound: "hex_value c = Some n \<Longrightarrow> n < 16"
  by (auto simp: hex_value_def Let_def split: if_splits)

lemma hex_decode_bytes: "hex_decode s = Some bs \<Longrightarrow> \<forall>b\<in>set bs. b < 256"
  by (induction s arbitrary: bs rule: hex_decode.induct)
    (auto split: option.splits dest!: hex_value_bound)

end
