(* ===== verification/Floats.thy ===== *)
theory Floats
  imports Complex_Main Prelude
begin

text \<open>
  IEEE-754 doubles as rationals: the value of the nearest double (ties to even), which is how
  Go rounds every \<^verbatim>\<open>float64\<close> operation, and the conversion to an integer, which truncates.
  Infinities, NaN and subnormal numbers are outside the model.
\<close>

definition rat_trunc :: "rat \<Rightarrow> int" where
  "rat_trunc r = (if 0 \<le> r then \<lfloor>r\<rfloor> else - \<lfloor>- r\<rfloor>)"

lemma rat_trunc_of_int [simp]: "rat_trunc (of_int n) = n"
  by (cases "0 \<le> n") (simp_all add: rat_trunc_def flip: of_int_minus)

lemma rat_trunc_mono:
  assumes "a \<le> b"
  shows "rat_trunc a \<le> rat_trunc b"
proof (cases "0 \<le> a")
  case True
  with assms show ?thesis by (simp add: rat_trunc_def floor_mono)
next
  case False
  then have neg: "rat_trunc a = - \<lfloor>- a\<rfloor>" and "0 \<le> \<lfloor>- a\<rfloor>"
    by (simp_all add: rat_trunc_def)
  moreover have "\<lfloor>- b\<rfloor> \<le> \<lfloor>- a\<rfloor>" using assms by (simp add: floor_mono)
  moreover have "0 \<le> b \<Longrightarrow> rat_trunc b = \<lfloor>b\<rfloor> \<and> 0 \<le> \<lfloor>b\<rfloor>" by (simp add: rat_trunc_def)
  moreover have "\<not> 0 \<le> b \<Longrightarrow> rat_trunc b = - \<lfloor>- b\<rfloor>" by (simp add: rat_trunc_def)
  ultimately show ?thesis by linarith
qed

definition round_even :: "rat \<Rightarrow> int" where
  "round_even x = (let f = \<lfloor>x\<rfloor>; r = x - of_int f in
     if r < 1 / 2 then f else if r > 1 / 2 then f + 1 else if even f then f else f + 1)"

definition pow2 :: "int \<Rightarrow> rat" where
  "pow2 e = (if 0 \<le> e then 2 ^ nat e else 1 / 2 ^ nat (- e))"

text \<open>The exponent of the last of the 53 significant bits.\<close>

fun scale_down :: "nat \<Rightarrow> int \<Rightarrow> rat \<Rightarrow> int" where
  "scale_down 0 e r = e"
| "scale_down (Suc k) e r = (if r < 2 ^ 53 then e else scale_down k (e + 1) (r / 2))"

fun scale_up :: "nat \<Rightarrow> int \<Rightarrow> rat \<Rightarrow> int" where
  "scale_up 0 e r = e"
| "scale_up (Suc k) e r = (if 2 ^ 52 \<le> r then e else scale_up k (e - 1) (r * 2))"

definition f64_ulp :: "rat \<Rightarrow> int" where
  "f64_ulp r = (if 2 ^ 53 \<le> \<bar>r\<bar> then scale_down 1024 0 \<bar>r\<bar> else scale_up 1074 0 \<bar>r\<bar>)"

definition f64_round :: "rat \<Rightarrow> rat" where
  "f64_round r = (if r = 0 then 0
     else (let e = f64_ulp r in of_int (round_even (r * pow2 (- e))) * pow2 e))"

lemma round_even_of_int [simp]: "round_even (of_int n) = n"
  by (simp add: round_even_def)

lemma pow2_nonzero [simp]: "pow2 e \<noteq> 0"
  by (simp add: pow2_def)

lemma pow2_minus: "pow2 (- e) * pow2 e = 1"
  by (auto simp: pow2_def)

lemma scale_up_le: "scale_up k e r \<le> e"
  by (induction k e r rule: scale_up.induct) auto

text \<open>An integer of at most 53 bits is a double: rounding does not change it.\<close>

lemma f64_round_int:
  assumes "\<bar>n\<bar> < 2 ^ 53"
  shows "f64_round (of_int n) = of_int n"
proof -
  define e where "e = f64_ulp (of_int n)"
  have "\<bar>of_int n\<bar> < (2 ^ 53 :: rat)"
    using assms by (simp flip: of_int_abs)
  then have "e \<le> 0"
    by (simp add: e_def f64_ulp_def scale_up_le)
  then have "of_int n * pow2 (- e) = (of_int (n * 2 ^ nat (- e)) :: rat)"
    by (simp add: pow2_def)
  then have "of_int (round_even (of_int n * pow2 (- e))) = of_int n * (pow2 (- e) :: rat)"
    by (simp only: round_even_of_int)
  then show ?thesis
    by (simp add: f64_round_def Let_def pow2_minus mult.assoc flip: e_def)
qed

end
