(* ===== verification/Decimals.thy ===== *)
theory Decimals
  imports Floats
begin

text \<open>
  The decimal library (\<^verbatim>\<open>github.com/shopspring/decimal\<close>) is not part of the repository, so it is a
  parameter: a record of its operations, passed to every definition that uses it. Its documented
  behaviour, that a decimal is the exact number \<open>value * 10 ^ exp\<close> and that products and integer
  parts are exact, is the locale \<open>decimal_library\<close>, with \<open>dval\<close> the number a decimal stands for.
  \<open>ref_decimal\<close> (pairs of a mantissa and an exponent) interprets it, and the witnesses use it.
\<close>

subsection \<open>The interface\<close>

record 'd decimal_lib =
  dMul :: "'d \<Rightarrow> 'd \<Rightarrow> 'd"
  dNewFromBigInt :: "int \<Rightarrow> int \<Rightarrow> 'd"
  dNewFromFloat :: "rat \<Rightarrow> 'd"
  dNewFromString :: "string \<Rightarrow> 'd option"
  dBigInt :: "'d \<Rightarrow> int"
  dPow :: "'d \<Rightarrow> 'd \<Rightarrow> 'd"
  dIsZero :: "'d \<Rightarrow> bool"
  dCeil :: "'d \<Rightarrow> 'd"
  dInexactFloat64 :: "'d \<Rightarrow> rat"
  dDiv :: "'d \<Rightarrow> 'd \<Rightarrow> 'd"
  dRound :: "'d \<Rightarrow> int \<Rightarrow> 'd"
  dString :: "'d \<Rightarrow> string"

definition pow10 :: "int \<Rightarrow> rat" where
  "pow10 e = (if 0 \<le> e then 10 ^ nat e else 1 / 10 ^ nat (- e))"

locale decimal_library =
  fixes L :: "'d decimal_lib" and dval :: "'d \<Rightarrow> rat"
  assumes dval_mul: "dval (dMul L a b) = dval a * dval b"
    and dval_new: "dval (dNewFromBigInt L m e) = of_int m * pow10 e"
    and dval_low: "dval (dNewFromFloat L (7 / 10)) = 7 / 10"
    and dval_aggressive: "dval (dNewFromFloat L (3 / 2)) = 3 / 2"
    and dval_bigint: "dBigInt L a = rat_trunc (dval a)"
    and dval_pow10: "dval (dPow L (dNewFromBigInt L 10 0) (dNewFromBigInt L (int n) 0)) = 10 ^ n"
    and dval_is_zero: "dIsZero L a \<longleftrightarrow> dval a = 0"
    and dval_ceil: "dval (dCeil L a) = of_int \<lceil>dval a\<rceil>"
    and dval_float: "dInexactFloat64 L a = f64_round (dval a)"
    and dval_div: "0 \<le> dval a \<Longrightarrow> 0 < dval b \<Longrightarrow>
      dval (dDiv L a b) = of_int \<lfloor>dval a / dval b * 10 ^ 16 + 1 / 2\<rfloor> / 10 ^ 16"
    and dval_round: "0 \<le> dval a \<Longrightarrow> dval (dRound L a 0) = of_int \<lfloor>dval a + 1 / 2\<rfloor>"
    and string_eq: "dString L a = dString L b \<longleftrightarrow> dval a = dval b"
    and dval_32: "\<exists>d. dNewFromString L ''32'' = Some d \<and> dval d = 32"
begin

lemma dval_int: "dval (dNewFromBigInt L m 0) = of_int m"
  by (simp add: dval_new pow10_def)

lemma bigint_int: "dBigInt L (dNewFromBigInt L m 0) = m"
  by (simp add: dval_bigint dval_int rat_trunc_def)

text \<open>The product with an integer, truncated: what every fee multiplication of the code computes.\<close>

lemma bigint_mul_int:
  "0 \<le> dval a \<Longrightarrow> 0 \<le> m \<Longrightarrow> dBigInt L (dMul L a (dNewFromBigInt L m 0)) = \<lfloor>dval a * of_int m\<rfloor>"
  by (simp add: dval_bigint dval_mul dval_int rat_trunc_def)

lemma bigint_mul_int_mono:
  assumes "0 \<le> dval a" and "m \<le> n"
  shows "dBigInt L (dMul L a (dNewFromBigInt L m 0)) \<le> dBigInt L (dMul L a (dNewFromBigInt L n 0))"
proof -
  have "dval a * of_int m \<le> dval a * (of_int n :: rat)"
    using assms by (intro mult_left_mono) auto
  then show ?thesis
    by (simp add: dval_bigint dval_mul dval_int rat_trunc_mono)
qed

lemma bigint_mul_int_ge:
  assumes "1 \<le> dval a" and "0 \<le> m"
  shows "m \<le> dBigInt L (dMul L a (dNewFromBigInt L m 0))"
proof -
  have "1 * of_int m \<le> dval a * (of_int m :: rat)"
    using assms by (intro mult_right_mono) auto
  then show ?thesis
    using assms bigint_mul_int [of a m] by (simp add: le_floor_iff)
qed

end

subsection \<open>A concrete instance\<close>

text \<open>A decimal as a mantissa and an exponent of ten, as the library stores it.\<close>

definition ref_val :: "int \<times> int \<Rightarrow> rat" where
  "ref_val d = of_int (fst d) * pow10 (snd d)"

definition ref_bigint :: "int \<times> int \<Rightarrow> int" where
  "ref_bigint d = (if 0 \<le> snd d then fst d * 10 ^ nat (snd d)
     else big_quo (fst d) (10 ^ nat (- snd d)))"

fun ref_of_float :: "nat \<Rightarrow> nat \<Rightarrow> rat \<Rightarrow> int \<times> int" where
  "ref_of_float k 0 r = (\<lfloor>r * 10 ^ k\<rfloor>, - int k)"
| "ref_of_float k (Suc fuel) r =
     (if of_int \<lfloor>r * 10 ^ k\<rfloor> = r * 10 ^ k then (\<lfloor>r * 10 ^ k\<rfloor>, - int k)
      else ref_of_float (Suc k) fuel r)"

definition ref_pow :: "int \<times> int \<Rightarrow> int \<times> int \<Rightarrow> int \<times> int" where
  "ref_pow a b = (let n = nat (ref_bigint b) in (fst a ^ n, snd a * int n))"

definition ref_ceil :: "int \<times> int \<Rightarrow> int \<times> int" where
  "ref_ceil d = (if 0 \<le> snd d then d else (- ((- fst d) div (10 ^ nat (- snd d))), 0))"

definition ref_div :: "int \<times> int \<Rightarrow> int \<times> int \<Rightarrow> int \<times> int" where
  "ref_div a b = (\<lfloor>ref_val a / ref_val b * 10 ^ 16 + 1 / 2\<rfloor>, -16)"

definition ref_round :: "int \<times> int \<Rightarrow> int \<Rightarrow> int \<times> int" where
  "ref_round a n = (\<lfloor>ref_val a * pow10 n + 1 / 2\<rfloor>, - n)"

text \<open>
  The printed form is only compared for equality, so any injective name of the number does: its
  fraction in tally marks.
\<close>

definition ref_string :: "int \<times> int \<Rightarrow> string" where
  "ref_string d = (case quotient_of (ref_val d) of (p, q) \<Rightarrow>
     (if p < 0 then ''-'' else []) @ replicate (nat \<bar>p\<bar>) CHR ''1'' @ ''/'' @ replicate (nat q) CHR ''1'')"

definition ref_parse_abs :: "string \<Rightarrow> (int \<times> int) option" where
  "ref_parse_abs s = (case split_char (CHR ''.'') s of
       [i] \<Rightarrow> if i = [] then None else map_option (\<lambda>m. (m, 0)) (parse_digits 0 i)
     | [i, f] \<Rightarrow> if i @ f = [] then None
         else map_option (\<lambda>m. (m, - int (length f))) (parse_digits 0 (i @ f))
     | _ \<Rightarrow> None)"

definition ref_parse :: "string \<Rightarrow> (int \<times> int) option" where
  "ref_parse s = (case s of [] \<Rightarrow> None
     | c # t \<Rightarrow> if c = CHR ''-'' then map_option (\<lambda>(m, e). (- m, e)) (ref_parse_abs t)
         else if c = CHR ''+'' then ref_parse_abs t else ref_parse_abs s)"

definition ref_decimal :: "(int \<times> int) decimal_lib" where
  "ref_decimal = \<lparr>dMul = (\<lambda>a b. (fst a * fst b, snd a + snd b)),
     dNewFromBigInt = Pair, dNewFromFloat = ref_of_float 0 20, dNewFromString = ref_parse,
     dBigInt = ref_bigint, dPow = ref_pow, dIsZero = (\<lambda>a. fst a = 0), dCeil = ref_ceil,
     dInexactFloat64 = (\<lambda>a. f64_round (ref_val a)), dDiv = ref_div, dRound = ref_round,
     dString = ref_string\<rparr>"

lemma pow10_add: "pow10 (a + b) = pow10 a * pow10 b"
  by (auto simp: pow10_def nat_add_distrib power_add nat_diff_distrib' field_simps
      simp flip: power_add) 

lemma pow10_pos [simp]: "0 < pow10 e"
  by (simp add: pow10_def)

lemma ref_bigint_trunc: "ref_bigint d = rat_trunc (ref_val d)"
proof (cases "0 \<le> snd d")
  case True
  then have "ref_val d = of_int (fst d * 10 ^ nat (snd d))"
    by (simp add: ref_val_def pow10_def)
  then show ?thesis
    using True by (simp only: rat_trunc_of_int) (simp add: ref_bigint_def)
next
  case False
  define k where "k = (10 :: int) ^ nat (- snd d)"
  have k: "0 < k" by (simp add: k_def)
  have v: "ref_val d = of_int (fst d) / of_int k"
    using False by (simp add: ref_val_def pow10_def k_def)
  have f: "\<lfloor>of_int (fst d) / (of_int k :: rat)\<rfloor> = fst d div k"
    "\<lfloor>- (of_int (fst d) / (of_int k :: rat))\<rfloor> = - fst d div k"
    using floor_divide_of_int_eq [of "- fst d" k, where 'a = rat]
    by (simp_all add: floor_divide_of_int_eq)
  have "ref_bigint d = big_quo (fst d) k"
    using False by (simp add: ref_bigint_def k_def)
  also have "\<dots> = rat_trunc (of_int (fst d) / of_int k)"
    using k f by (auto simp: big_quo_def rat_trunc_def sgn_if zero_le_divide_iff)
  finally show ?thesis by (simp add: v)
qed

lemma ref_ceil_val: "ref_val (ref_ceil d) = of_int \<lceil>ref_val d\<rceil>"
proof (cases "0 \<le> snd d")
  case True
  then show ?thesis
    by (simp add: ref_ceil_def ref_val_def pow10_def flip: of_int_power of_int_mult)
next
  case False
  define k where "k = (10 :: int) ^ nat (- snd d)"
  have "ref_val d = of_int (fst d) / of_int k"
    using False by (simp add: ref_val_def pow10_def k_def)
  moreover have "\<lceil>of_int (fst d) / (of_int k :: rat)\<rceil> = - ((- fst d) div k)"
    using floor_divide_of_int_eq [of "- fst d" k, where 'a = rat]
    by (simp add: ceiling_def)
  ultimately show ?thesis
    using False by (simp add: ref_ceil_def ref_val_def pow10_def k_def)
qed

lemma tally_inj:
  assumes "replicate a x @ y # replicate b x = replicate c x @ y # replicate d x" and "x \<noteq> y"
  shows "a = c \<and> b = d"
proof -
  have "takeWhile (\<lambda>z. z = x) (replicate n x @ y # zs) = replicate n x" for n zs
    using assms(2) by (induction n) auto
  then have "replicate a x = replicate c x" using assms(1) by metis
  then have "a = c" by simp
  with assms show ?thesis by simp
qed

lemma ref_string_eq: "ref_string a = ref_string b \<longleftrightarrow> ref_val a = ref_val b"
proof
  assume eq: "ref_string a = ref_string b"
  obtain p q where a: "quotient_of (ref_val a) = (p, q)" by fastforce
  obtain r s where b: "quotient_of (ref_val b) = (r, s)" by fastforce
  have pos: "0 < q" "0 < s" using a b quotient_of_denom_pos by auto
  have sign: "p < 0 \<longleftrightarrow> r < 0"
    using eq by (cases "nat \<bar>p\<bar>"; cases "nat \<bar>r\<bar>") (auto simp: ref_string_def a b split: if_splits)
  then have "replicate (nat \<bar>p\<bar>) CHR ''1'' @ CHR ''/'' # replicate (nat q) CHR ''1''
      = replicate (nat \<bar>r\<bar>) CHR ''1'' @ CHR ''/'' # replicate (nat s) CHR ''1''"
    using eq by (simp add: ref_string_def a b split: if_splits)
  then have "nat \<bar>p\<bar> = nat \<bar>r\<bar> \<and> nat q = nat s" by (rule tally_inj) simp
  with sign pos have "p = r" "q = s" by auto
  with a b show "ref_val a = ref_val b" by (metis quotient_of_inject)
qed (simp add: ref_string_def)

interpretation ref: decimal_library ref_decimal ref_val
proof unfold_locales
  fix a b :: "int \<times> int" and m e :: int and n :: nat
  show "ref_val (dMul ref_decimal a b) = ref_val a * ref_val b"
    by (simp add: ref_decimal_def ref_val_def pow10_add)
  show "ref_val (dNewFromBigInt ref_decimal m e) = of_int m * pow10 e"
    by (simp add: ref_decimal_def ref_val_def)
  show "ref_val (dNewFromFloat ref_decimal (7 / 10)) = 7 / 10"
    by (simp add: ref_decimal_def ref_val_def pow10_def eval_nat_numeral)
  show "ref_val (dNewFromFloat ref_decimal (3 / 2)) = 3 / 2"
    by (simp add: ref_decimal_def ref_val_def pow10_def eval_nat_numeral)
  show "dBigInt ref_decimal a = rat_trunc (ref_val a)"
    by (simp add: ref_decimal_def ref_bigint_trunc)
  show "ref_val (dPow ref_decimal (dNewFromBigInt ref_decimal 10 0)
      (dNewFromBigInt ref_decimal (int n) 0)) = 10 ^ n"
    by (simp add: ref_decimal_def ref_val_def ref_pow_def ref_bigint_def pow10_def)
  show "dIsZero ref_decimal a \<longleftrightarrow> ref_val a = 0"
    using pow10_pos [of "snd a"] by (simp add: ref_decimal_def ref_val_def less_le)
  show "ref_val (dCeil ref_decimal a) = of_int \<lceil>ref_val a\<rceil>"
    by (simp add: ref_decimal_def ref_ceil_val)
  show "dInexactFloat64 ref_decimal a = f64_round (ref_val a)"
    by (simp add: ref_decimal_def)
  show "ref_val (dDiv ref_decimal a b) = of_int \<lfloor>ref_val a / ref_val b * 10 ^ 16 + 1 / 2\<rfloor> / 10 ^ 16"
    by (simp add: ref_decimal_def ref_div_def ref_val_def [of "(_, -16)"] pow10_def)
  show "ref_val (dRound ref_decimal a 0) = of_int \<lfloor>ref_val a + 1 / 2\<rfloor>"
    by (simp add: ref_decimal_def ref_round_def ref_val_def [of "(_, _)"] pow10_def)
  show "dString ref_decimal a = dString ref_decimal b \<longleftrightarrow> ref_val a = ref_val b"
    by (simp add: ref_decimal_def ref_string_eq)
  show "\<exists>d. dNewFromString ref_decimal ''32'' = Some d \<and> ref_val d = 32"
  proof -
    have "dNewFromString ref_decimal ''32'' = Some (32, 0)"
      by (simp add: ref_decimal_def) code_simp
    then show ?thesis by (simp add: ref_val_def pow10_def)
  qed
qed

end
