(* ===== verification/Amounts.thy ===== *)
theory Amounts
  imports Decimals
begin

text \<open>
  \<^verbatim>\<open>amount.go\<close>: amounts in a chain's smallest unit are big integers (\<open>AmountBlockchain\<close> is
  \<^typ>\<open>int\<close>), amounts for humans are decimals. The multiplication by a float is modelled with
  IEEE-754 double rounding (round to nearest, ties to even) on the rationals; infinities, NaN and
  subnormal numbers, which no configured multiplier is, are outside the model.
\<close>

subsection \<open>Big-integer amounts\<close>

definition amt_cmp :: "int \<Rightarrow> int \<Rightarrow> int" where
  "amt_cmp a b = (if a < b then -1 else if a = b then 0 else 1)"

definition amt_add :: "int \<Rightarrow> int \<Rightarrow> int" where
  "amt_add a b = a + b"

definition amt_sub :: "int \<Rightarrow> int \<Rightarrow> int" where
  "amt_sub a b = a - b"

definition amt_mul :: "int \<Rightarrow> int \<Rightarrow> int" where
  "amt_mul a b = a * b"

text \<open>\<open>None\<close> is the panic of a division by zero.\<close>

definition amt_div :: "int \<Rightarrow> int \<Rightarrow> int option" where
  "amt_div a b = big_div a b"

definition amt_abs :: "int \<Rightarrow> int" where
  "amt_abs a = \<bar>a\<bar>"

definition amt_is_zero :: "int \<Rightarrow> bool" where
  "amt_is_zero a \<longleftrightarrow> a = 0"

definition NewAmountBlockchainFromUint64 :: "u64 \<Rightarrow> int" where
  "NewAmountBlockchainFromUint64 w = uint w"

definition NewAmountBlockchainFromInt64 :: "i64 \<Rightarrow> int \<times> bool" where
  "NewAmountBlockchainFromInt64 w =
     (if sint w < 0 then (NewAmountBlockchainFromUint64 0, False)
      else (NewAmountBlockchainFromUint64 w, True))"

lemmas amt_simps [simp] = amt_add_def amt_sub_def amt_mul_def amt_is_zero_def amt_abs_def

lemma amt_cmp_iff [simp]:
  "amt_cmp a b < 0 \<longleftrightarrow> a < b" "0 < amt_cmp a b \<longleftrightarrow> b < a" "amt_cmp a b = 0 \<longleftrightarrow> a = b"
  "0 \<le> amt_cmp a b \<longleftrightarrow> b \<le> a"
  by (auto simp: amt_cmp_def)

lemma amt_of_uint64_nonneg [simp]: "0 \<le> NewAmountBlockchainFromUint64 w"
  by (simp add: NewAmountBlockchainFromUint64_def)

subsection \<open>Decimal amounts\<close>

definition ToHuman :: "'d decimal_lib \<Rightarrow> int \<Rightarrow> int \<Rightarrow> 'd" where
  "ToHuman L a decimals = dNewFromBigInt L a (- decimals)"

definition ToBlockchain :: "'d decimal_lib \<Rightarrow> 'd \<Rightarrow> int \<Rightarrow> int" where
  "ToBlockchain L d decimals =
    (let factor = dPow L (dNewFromBigInt L 10 0) (dNewFromBigInt L decimals 0);
         raised = dMul L d factor
     in dBigInt L raised)"

context decimal_library
begin

lemma ToBlockchain_trunc: "ToBlockchain L d (int n) = rat_trunc (dval d * 10 ^ n)"
  by (simp add: ToBlockchain_def dval_bigint dval_mul dval_pow10)

lemma ToBlockchain_ToHuman: "ToBlockchain L (ToHuman L a (int n)) (int n) = a"
proof -
  have "pow10 (- int n) = 1 / 10 ^ n"
    by (cases "n = 0") (simp_all add: pow10_def)
  then have "of_int a * pow10 (- int n) * 10 ^ n = (of_int a :: rat)"
    by simp
  then show ?thesis
    by (simp only: ToBlockchain_trunc ToHuman_def dval_new rat_trunc_of_int)
qed

lemma ToBlockchain_le:
  "0 \<le> dval d \<Longrightarrow> a \<le> ToBlockchain L d (int n) \<longleftrightarrow> of_int a \<le> dval d * 10 ^ n"
  by (simp add: ToBlockchain_trunc rat_trunc_def le_floor_iff)

end

subsection \<open>Multiplication by a float\<close>

definition MultiplyByFloat :: "int \<Rightarrow> rat \<Rightarrow> int option" where
  "MultiplyByFloat amount multiplier =
    (if big_uint64 amount = 0 then Some amount
     else (let precision = 1000000;
               multBig = NewAmountBlockchainFromUint64
                 (word_of_int (rat_trunc (f64_round (of_int precision * multiplier))));
               divBig = NewAmountBlockchainFromUint64 (word_of_int precision);
               product = amt_mul multBig amount
           in amt_div product divBig))"

definition ApplyGasPriceMultiplier :: "int \<Rightarrow> rat \<Rightarrow> int option" where
  "ApplyGasPriceMultiplier amount chain_gas_multiplier =
     (if chain_gas_multiplier > 1 / 100 then MultiplyByFloat amount chain_gas_multiplier
      else Some amount)"

lemma MultiplyByFloat_micro:
  assumes "of_int m = 1000000 * r" and "0 \<le> m" and "m < 2 ^ 53" and "big_uint64 a \<noteq> 0"
  shows "MultiplyByFloat a r = Some (m * a div 1000000)"
proof -
  have "f64_round (1000000 * r) = of_int m"
    using assms f64_round_int [of m] by simp
  then have "rat_trunc (f64_round (1000000 * r)) = m"
    by simp
  moreover have "uint (word_of_int m :: u64) = m"
    using assms by (simp add: uint_word_of_int)
  ultimately show ?thesis
    using assms by (simp add: MultiplyByFloat_def NewAmountBlockchainFromUint64_def amt_div_def
        big_div_def)
qed

end
