(* ===== verification/Assets.thy ===== *)
theory Assets
  imports Prelude Decimals
begin

text \<open>
  \<^verbatim>\<open>asset.go\<close>: the drivers and native assets, the tables that map an asset to its driver and a
  driver to its signature algorithms and key format, the names of the transaction-variant input
  types, and the parts of the chain configuration the rest of the model reads. Drivers, assets and
  the other Go string types are strings, with the source's values.
\<close>

subsection \<open>Drivers and native assets\<close>

abbreviation DriverAptos :: string where "DriverAptos \<equiv> ''aptos''"
abbreviation DriverBitcoin :: string where "DriverBitcoin \<equiv> ''bitcoin''"
abbreviation DriverBitcoinCash :: string where "DriverBitcoinCash \<equiv> ''bitcoin-cash''"
abbreviation DriverBitcoinLegacy :: string where "DriverBitcoinLegacy \<equiv> ''bitcoin-legacy''"
abbreviation DriverCanton :: string where "DriverCanton \<equiv> ''canton''"
abbreviation DriverCardano :: string where "DriverCardano \<equiv> ''cardano''"
abbreviation DriverCosmos :: string where "DriverCosmos \<equiv> ''cosmos''"
abbreviation DriverCosmosEvmos :: string where "DriverCosmosEvmos \<equiv> ''evmos''"
abbreviation DriverDusk :: string where "DriverDusk \<equiv> ''dusk''"
abbreviation DriverEGLD :: string where "DriverEGLD \<equiv> ''egld''"
abbreviation DriverEOS :: string where "DriverEOS \<equiv> ''eos''"
abbreviation DriverEVM :: string where "DriverEVM \<equiv> ''evm''"
abbreviation DriverEVMLegacy :: string where "DriverEVMLegacy \<equiv> ''evm-legacy''"
abbreviation DriverFilecoin :: string where "DriverFilecoin \<equiv> ''filecoin''"
abbreviation DriverHedera :: string where "DriverHedera \<equiv> ''hedera''"
abbreviation DriverHyperliquid :: string where "DriverHyperliquid \<equiv> ''hyperliquid''"
abbreviation DriverInternetComputerProtocol :: string where "DriverInternetComputerProtocol \<equiv> ''icp''"
abbreviation DriverKaspa :: string where "DriverKaspa \<equiv> ''kaspa''"
abbreviation DriverNear :: string where "DriverNear \<equiv> ''near''"
abbreviation DriverSubstrate :: string where "DriverSubstrate \<equiv> ''substrate''"
abbreviation DriverSolana :: string where "DriverSolana \<equiv> ''solana''"
abbreviation DriverSui :: string where "DriverSui \<equiv> ''sui''"
abbreviation DriverTempo :: string where "DriverTempo \<equiv> ''tempo''"
abbreviation DriverTron :: string where "DriverTron \<equiv> ''tron''"
abbreviation DriverTon :: string where "DriverTon \<equiv> ''ton''"
abbreviation DriverXrp :: string where "DriverXrp \<equiv> ''xrp''"
abbreviation DriverXlm :: string where "DriverXlm \<equiv> ''xlm''"
abbreviation DriverZcash :: string where "DriverZcash \<equiv> ''zcash''"
abbreviation DriverCrosschain :: string where "DriverCrosschain \<equiv> ''crosschain''"

definition NativeAssetList :: "native_asset list" where
  "NativeAssetList = [
     ''ADA'', ''AKT'', ''BAND'', ''BABY'', ''BCH'', ''BTC'', ''CANTON'', ''DASH'',
     ''DOGE'', ''LTC'', ''ACA'', ''APTOS'', ''ArbETH'', ''ASTR'', ''ATOM'', ''AurETH'',
     ''AVAX'', ''BERA'', ''BNB'', ''CELO'', ''CHZ'', ''CHZ2'', ''DOT'', ''DUSK'', ''EGLD'',
     ''ENJ'', ''EOS'', ''ES'', ''ETC'', ''ETH'', ''ETHW'', ''FET'', ''FIL'', ''FLUX'',
     ''FOGO'', ''FTM'', ''FRAX'', ''GUSDT'', ''HBAR'', ''HyperEVM'', ''INJ'', ''LinETH'',
     ''HASH'', ''HYPE'', ''LUNA'', ''LUNC'', ''KAR'', ''KAS'', ''KAVA'', ''KLAY'', ''KSM'',
     ''XDC'', ''MATIC'', ''MegaETH'', ''MON'', ''NEAR'', ''OAS'', ''OptETH'', ''EmROSE'',
     ''SOL'', ''SUI'', ''XPLA'', ''TAO'', ''TEMPO'', ''TIA'', ''TON'', ''TRX'', ''SEI'',
     ''SeiEVM'', ''XRP'', ''BASE'', ''NOBLE'', ''XPL'', ''XLM'', ''ZETA'', ''NIL'',
     ''ICP'', ''ZEC'', ''0G'']"

definition SupportedDrivers :: "string list" where
  "SupportedDrivers = [
     DriverAptos, DriverBitcoin, DriverBitcoinCash, DriverBitcoinLegacy, DriverCanton,
     DriverCosmos, DriverCosmosEvmos, DriverEGLD, DriverEOS, DriverEVM, DriverEVMLegacy,
     DriverFilecoin, DriverHedera, DriverInternetComputerProtocol, DriverKaspa, DriverNear,
     DriverSubstrate, DriverSolana, DriverSui, DriverTempo, DriverTron, DriverTon,
     DriverXrp, DriverXlm, DriverZcash]"

definition native_driver :: "native_asset \<Rightarrow> string" where
  "native_driver a =
    (if a = ''BTC'' then DriverBitcoin
     else if a = ''BCH'' then DriverBitcoinCash
     else if a = ''CANTON'' then DriverCanton
     else if a \<in> set [''DOGE'', ''LTC'', ''DASH'']
       then DriverBitcoinLegacy
     else if a \<in> set [''ZEC'', ''FLUX'']
       then DriverZcash
     else if a \<in> set [''AVAX'', ''BNB'', ''CELO'', ''ETH'', ''ETHW'', ''GUSDT'', ''MATIC'', ''OptETH'',
        ''ArbETH'', ''BERA'', ''BASE'', ''SeiEVM'', ''MegaETH'', ''MON'', ''HyperEVM'',
        ''LinETH'', ''XPL'', ''0G'', ''TEMPO'', ''FRAX'']
       then DriverEVM
     else if a \<in> set [''FTM'', ''ETC'', ''EmROSE'', ''AurETH'', ''ACA'', ''KLAY'', ''OAS'', ''CHZ'',
        ''XDC'', ''CHZ2'']
       then DriverEVMLegacy
     else if a = ''APTOS'' then DriverAptos
     else if a \<in> set [''ATOM'', ''XPLA'', ''INJ'', ''HASH'', ''LUNC'', ''LUNA'', ''SEI'', ''TIA'',
        ''NOBLE'', ''AKT'', ''BAND'', ''ZETA'', ''NIL'', ''BABY'', ''KAVA'', ''FET'']
       then DriverCosmos
     else if a = ''ICP'' then DriverInternetComputerProtocol
     else if a = ''KAS'' then DriverKaspa
     else if a = ''EOS'' then DriverEOS
     else if a = ''SUI'' then DriverSui
     else if a \<in> set [''SOL'', ''ES'']
       then DriverSolana
     else if a \<in> set [''DOT'', ''TAO'', ''KSM'', ''ENJ'', ''KAR'', ''ASTR'']
       then DriverSubstrate
     else if a = ''NEAR'' then DriverNear
     else if a = ''TRX'' then DriverTron
     else if a = ''TON'' then DriverTon
     else if a = ''XRP'' then DriverXrp
     else if a = ''XLM'' then DriverXlm
     else if a = ''FIL'' then DriverFilecoin
     else if a = ''FOGO'' then DriverSolana
     else if a = ''DUSK'' then DriverDusk
     else if a = ''EGLD'' then DriverEGLD
     else if a = ''ADA'' then DriverCardano
     else if a = ''HYPE'' then DriverHyperliquid
     else if a = ''HBAR'' then DriverHedera
     else [])"

definition native_is_valid :: "native_asset \<Rightarrow> bool" where
  "native_is_valid a \<longleftrightarrow> native_driver a \<noteq> []"

subsection \<open>Signature algorithms and key formats\<close>

abbreviation K256Keccak :: string where "K256Keccak \<equiv> ''k256-keccak''"
abbreviation K256Sha256 :: string where "K256Sha256 \<equiv> ''k256-sha256''"
abbreviation Ed255 :: string where "Ed255 \<equiv> ''ed255''"
abbreviation Schnorr :: string where "Schnorr \<equiv> ''schnorr''"
abbreviation Bls12_381G2Blake2 :: string where "Bls12_381G2Blake2 \<equiv> ''bls12-381-g2-blake2''"

definition signature_algorithms :: "string \<Rightarrow> string list" where
  "signature_algorithms d =
    (if d = DriverBitcoin then [K256Sha256, Schnorr]
     else if d \<in> set [DriverBitcoinCash, DriverBitcoinLegacy, DriverCosmos, DriverXrp,
         DriverFilecoin, DriverEOS, DriverZcash] then [K256Sha256]
     else if d \<in> set [DriverEVM, DriverEVMLegacy, DriverCosmosEvmos, DriverTron, DriverHyperliquid,
         DriverHedera, DriverTempo] then [K256Keccak]
     else if d \<in> set [DriverAptos, DriverSolana, DriverSui, DriverTon, DriverSubstrate, DriverXlm,
         DriverCardano, DriverInternetComputerProtocol, DriverNear, DriverEGLD, DriverCanton]
       then [Ed255]
     else if d = DriverDusk then [Bls12_381G2Blake2]
     else if d = DriverKaspa then [Schnorr]
     else [])"

definition public_key_format :: "string \<Rightarrow> string" where
  "public_key_format d =
    (if d \<in> set [DriverBitcoin, DriverCardano, DriverBitcoinCash, DriverBitcoinLegacy, DriverEOS,
         DriverZcash] then ''compressed''
     else if d \<in> set [DriverCosmos, DriverCosmosEvmos, DriverXrp, DriverXlm] then ''compressed''
     else if d \<in> set [DriverEVM, DriverEVMLegacy, DriverTron, DriverFilecoin, DriverHyperliquid,
         DriverHedera, DriverTempo] then ''uncompressed''
     else if d \<in> set [DriverAptos, DriverSolana, DriverSui, DriverTon, DriverSubstrate, DriverDusk,
         DriverKaspa, DriverInternetComputerProtocol, DriverNear, DriverEGLD, DriverCanton]
       then ''raw''
     else [])"

definition SupportedStakingProviders :: "string list" where
  "SupportedStakingProviders = [''native'', ''kiln'', ''figment'', ''twinstake'']"

definition staking_provider_valid :: "string \<Rightarrow> bool" where
  "staking_provider_valid p \<longleftrightarrow> p \<in> set SupportedStakingProviders"

subsection \<open>Variant input types\<close>

text \<open>\<^verbatim>\<open>drivers/<driver>/<kind>/<variant>\<close>; the accessors split at the slashes and index.\<close>

definition variant_type :: "string \<Rightarrow> string \<Rightarrow> string \<Rightarrow> string" where
  "variant_type kind driver variant = ''drivers/'' @ driver @ ''/'' @ kind @ ''/'' @ variant"

definition NewMultiTransferInputType :: "string \<Rightarrow> string \<Rightarrow> string" where
  "NewMultiTransferInputType driver variant = variant_type ''multi-transfer'' driver variant"

definition NewStakingInputType :: "string \<Rightarrow> string \<Rightarrow> string" where
  "NewStakingInputType driver variant = variant_type ''staking'' driver variant"

definition NewUnstakingInputType :: "string \<Rightarrow> string \<Rightarrow> string" where
  "NewUnstakingInputType driver variant = variant_type ''unstaking'' driver variant"

definition NewWithdrawingInputType :: "string \<Rightarrow> string \<Rightarrow> string" where
  "NewWithdrawingInputType driver variant = variant_type ''withdrawing'' driver variant"

definition NewCreateAccountInputType :: "string \<Rightarrow> string \<Rightarrow> string" where
  "NewCreateAccountInputType driver variant = variant_type ''create-account'' driver variant"

definition NewCallingInputType :: "string \<Rightarrow> string" where
  "NewCallingInputType driver = variant_type ''calling'' driver driver"

text \<open>Indexing past the end panics (\<open>None\<close>).\<close>

definition nth_part :: "nat \<Rightarrow> string \<Rightarrow> string option" where
  "nth_part i s = (let ps = split_char (CHR ''/'') s in
     if i < length ps then Some (ps ! i) else None)"

definition variant_driver :: "string \<Rightarrow> string option" where
  "variant_driver t = nth_part 1 t"

definition variant_variant :: "string \<Rightarrow> string option" where
  "variant_variant t = nth_part 3 t"

definition variant_validate :: "string \<Rightarrow> bool" where
  "variant_validate t \<longleftrightarrow> length (split_char (CHR ''/'') t) = 4"

subsection \<open>Chain configuration\<close>

record 'd additional_native_asset =
  na_asset_id :: string
  na_bridged_asset :: string
  na_contract_id :: contract_address
  na_decimals :: int
  na_fee_limit :: 'd
  na_aliases :: "string list"

record 'd chain_config =
  cc_chain :: native_asset
  cc_driver :: string
  cc_decimals :: int
  cc_chain_coin :: string
  cc_native_assets :: "'d additional_native_asset list"
  cc_fee_limit :: 'd
  cc_url :: string
  cc_crosschain_url :: string
  cc_confirmations_final :: int

definition has_alias :: "'d additional_native_asset \<Rightarrow> string \<Rightarrow> bool" where
  "has_alias na a \<longleftrightarrow> a \<in> set (na_aliases na)"

definition is_chain :: "'d chain_config \<Rightarrow> contract_address \<Rightarrow> bool" where
  "is_chain cfg contract \<longleftrightarrow> contract = [] \<or> cc_chain cfg = contract"

fun find_asset :: "contract_address \<Rightarrow> 'd additional_native_asset list
    \<Rightarrow> 'd additional_native_asset option" where
  "find_asset contract [] = None"
| "find_asset contract (a # as) =
     (if na_contract_id a = contract then Some a
      else if contract \<in> set (na_aliases a) then Some a
      else find_asset contract as)"

definition FindAdditionalNativeAsset :: "'d chain_config \<Rightarrow> contract_address
    \<Rightarrow> 'd additional_native_asset option" where
  "FindAdditionalNativeAsset cfg contract = find_asset contract (cc_native_assets cfg)"

definition ClientURL :: "'d chain_config \<Rightarrow> string \<times> string" where
  "ClientURL cfg =
    (if cc_url cfg = [] \<or> cc_url cfg = ''-''
     then (if cc_crosschain_url cfg \<noteq> [] then (cc_crosschain_url cfg, DriverCrosschain)
           else (''https://connector.cordialapis.com'', DriverCrosschain))
     else (cc_url cfg, cc_driver cfg))"

text \<open>
  The client's rate limit: unlimited, one request per period, or a number of requests per second
  (the limiter itself is \<^verbatim>\<open>golang.org/x/time/rate\<close>); a burst of at least one.
\<close>

datatype 'r rate_limit = RateInf | RateEvery int | RatePerSecond 'r

definition NewClientLimiter :: "int \<Rightarrow> int \<Rightarrow> 'r::zero \<Rightarrow> 'r rate_limit \<times> int" where
  "NewClientLimiter burst period rate =
    (let burst = (if burst \<le> 0 then 1 else burst);
         limiter = RateInf;
         limiter = (if period \<noteq> 0 then RateEvery period else limiter);
         limiter = (if rate \<noteq> 0 then RatePerSecond rate else limiter)
     in (limiter, burst))"

definition memo_support_valid :: "string \<Rightarrow> bool" where
  "memo_support_valid m \<longleftrightarrow>
     (if m = [] then True else m = ''string'' \<or> m = ''numeric'' \<or> m = ''none'')"

definition staking_method_valid :: "string \<Rightarrow> bool" where
  "staking_method_valid m \<longleftrightarrow> m = ''stake'' \<or> m = ''unstake'' \<or> m = ''withdraw''"

subsection \<open>Lemmas\<close>

lemma find_asset_Some:
  "find_asset c as = Some a \<Longrightarrow> a \<in> set as \<and> (na_contract_id a = c \<or> c \<in> set (na_aliases a))"
  by (induction as) (auto split: if_splits)

lemma find_asset_None:
  "find_asset c as = None \<longleftrightarrow> (\<forall>a\<in>set as. na_contract_id a \<noteq> c \<and> c \<notin> set (na_aliases a))"
  by (induction as) auto

lemma split_variant_type:
  assumes "CHR ''/'' \<notin> set kind" and "CHR ''/'' \<notin> set d" and "CHR ''/'' \<notin> set v"
  shows "split_char (CHR ''/'') (variant_type kind d v) = [''drivers'', d, kind, v]"
  using assms split_char_append [of "CHR ''/''" "''drivers''" "d @ ''/'' @ kind @ ''/'' @ v"]
  by (simp add: variant_type_def split_char_append split_char_no_sep)

text \<open>
  A variant type built for a driver and a variant parses back: it validates, and its accessors
  return the driver and the variant.
\<close>

lemma variant_type_parses:
  assumes "CHR ''/'' \<notin> set kind" and "CHR ''/'' \<notin> set d" and "CHR ''/'' \<notin> set v"
  shows "variant_validate (variant_type kind d v)"
    and "variant_driver (variant_type kind d v) = Some d"
    and "variant_variant (variant_type kind d v) = Some v"
  by (simp_all add: variant_validate_def variant_driver_def variant_variant_def nth_part_def
      split_variant_type [OF assms])

lemmas variant_type_defs = NewMultiTransferInputType_def NewStakingInputType_def
  NewUnstakingInputType_def NewWithdrawingInputType_def NewCreateAccountInputType_def
  NewCallingInputType_def

lemma variant_validate_accessors:
  "variant_validate t \<Longrightarrow> \<exists>d v. variant_driver t = Some d \<and> variant_variant t = Some v"
  by (simp add: variant_validate_def variant_driver_def variant_variant_def nth_part_def)

lemma native_assets_valid: "list_all native_is_valid NativeAssetList"
  by (simp add: NativeAssetList_def native_is_valid_def native_driver_def)

end
