(* ===== verification/GasPriority.thy ===== *)
theory GasPriority
  imports Amounts Assets
begin

text \<open>
  \<^verbatim>\<open>gas_priority.go\<close>: fee priorities and the check of a transaction's maximal fee against the
  limits of the chain configuration.
\<close>

subsection \<open>Priorities\<close>

abbreviation Low :: string where "Low \<equiv> ''low''"
abbreviation Market :: string where "Market \<equiv> ''market''"
abbreviation Aggressive :: string where "Aggressive \<equiv> ''aggressive''"
abbreviation VeryAggressive :: string where "VeryAggressive \<equiv> ''very-aggressive''"

datatype priority_error = NotACustomEnum | InvalidDecimal

definition IsEnum :: "string \<Rightarrow> bool" where
  "IsEnum p \<longleftrightarrow> p \<in> set [Low, Market, Aggressive, VeryAggressive]"

definition AsCustom :: "'d decimal_lib \<Rightarrow> string \<Rightarrow> priority_error + 'd" where
  "AsCustom L p =
    (if IsEnum p then Inl NotACustomEnum
     else (case dNewFromString L p of None \<Rightarrow> Inl InvalidDecimal | Some d \<Rightarrow> Inr d))"

definition GetDefault :: "'d decimal_lib \<Rightarrow> string \<Rightarrow> priority_error + 'd" where
  "GetDefault L p =
    (if p = Low then Inr (dNewFromFloat L (7 / 10))
     else if p = Market then Inr (dNewFromBigInt L 1 0)
     else if p = Aggressive then Inr (dNewFromFloat L (3 / 2))
     else if p = VeryAggressive then Inr (dNewFromBigInt L 2 0)
     else AsCustom L p)"

definition NewPriority :: "'d decimal_lib \<Rightarrow> string \<Rightarrow> priority_error + string" where
  "NewPriority L input =
    (if IsEnum input then Inr input
     else (case AsCustom L input of Inl e \<Rightarrow> Inl e | Inr _ \<Rightarrow> Inr input))"

text \<open>\<open>multiplier.Mul(decimal.NewFromBigInt(x, 0)).BigInt()\<close>, the fee multiplication of the inputs.\<close>

definition mul_big :: "'d decimal_lib \<Rightarrow> 'd \<Rightarrow> int \<Rightarrow> int" where
  "mul_big L m x = dBigInt L (dMul L m (dNewFromBigInt L x 0))"

subsection \<open>Fee limits\<close>

datatype fee_error =
    FeeAboveLimit int string
  | NoLimitForAsset contract_address

fun find_contract :: "contract_address \<Rightarrow> 'd additional_native_asset list
    \<Rightarrow> 'd additional_native_asset option" where
  "find_contract c [] = None"
| "find_contract c (a # as) = (if na_contract_id a = c then Some a else find_contract c as)"

definition CheckFeeLimit :: "'d decimal_lib \<Rightarrow> int \<times> contract_address \<Rightarrow> 'd chain_config
    \<Rightarrow> fee_error + unit" where
  "CheckFeeLimit L fee cfg =
    (let (spend, asset) = fee in
     if asset = [] \<or> asset = cc_chain cfg then
       (let limit = ToBlockchain L (cc_fee_limit cfg) (cc_decimals cfg) in
        if amt_cmp spend limit > 0 then Inl (FeeAboveLimit spend (cc_chain cfg)) else Inr ())
     else (case find_contract asset (cc_native_assets cfg) of
        None \<Rightarrow> Inl (NoLimitForAsset asset)
      | Some a \<Rightarrow>
          (let limit = ToBlockchain L (na_fee_limit a) (na_decimals a) in
           if amt_cmp spend limit > 0 then Inl (FeeAboveLimit spend (na_asset_id a)) else Inr ())))"

subsection \<open>Lemmas\<close>

lemma IsEnum_iff: "IsEnum p \<longleftrightarrow> p = Low \<or> p = Market \<or> p = Aggressive \<or> p = VeryAggressive"
  by (auto simp: IsEnum_def)

lemma NewPriority_GetDefault:
  "NewPriority L p = Inr q \<longleftrightarrow> q = p \<and> (\<exists>m. GetDefault L p = Inr m)"
  by (auto simp: NewPriority_def GetDefault_def IsEnum_iff AsCustom_def split: option.splits)

lemma find_contract_SomeD:
  "find_contract c as = Some a \<Longrightarrow> a \<in> set as \<and> na_contract_id a = c"
  by (induction as) (auto split: if_splits)

lemma find_contract_None: "find_contract c as = None \<longleftrightarrow> (\<forall>a\<in>set as. na_contract_id a \<noteq> c)"
  by (induction as) auto

context decimal_library
begin

text \<open>The multipliers of the named priorities are ordered, and market leaves a fee as it is.\<close>

lemma GetDefault_enum:
  "GetDefault L Low = Inr m \<Longrightarrow> dval m = 7 / 10"
  "GetDefault L Market = Inr m \<Longrightarrow> dval m = 1"
  "GetDefault L Aggressive = Inr m \<Longrightarrow> dval m = 3 / 2"
  "GetDefault L VeryAggressive = Inr m \<Longrightarrow> dval m = 2"
  by (auto simp: GetDefault_def dval_low dval_aggressive dval_int)

lemma mul_big_floor:
  "0 \<le> dval m \<Longrightarrow> 0 \<le> x \<Longrightarrow> mul_big L m x = \<lfloor>dval m * of_int x\<rfloor>"
  by (simp add: mul_big_def bigint_mul_int)

lemma mul_big_mono: "0 \<le> dval m \<Longrightarrow> x \<le> y \<Longrightarrow> mul_big L m x \<le> mul_big L m y"
  by (simp add: mul_big_def bigint_mul_int_mono)

lemma mul_big_nonneg: "0 \<le> dval m \<Longrightarrow> 0 \<le> x \<Longrightarrow> 0 \<le> mul_big L m x"
  by (simp add: mul_big_floor)

lemma mul_big_one: "dval m = 1 \<Longrightarrow> mul_big L m x = x"
  by (simp add: mul_big_def dval_bigint dval_mul dval_int)

lemma mul_big_ge: "1 \<le> dval m \<Longrightarrow> 0 \<le> x \<Longrightarrow> x \<le> mul_big L m x"
  by (simp add: mul_big_def bigint_mul_int_ge)

text \<open>The fee check of the native asset, on the numbers the decimals stand for.\<close>

lemma CheckFeeLimit_native:
  assumes "asset = [] \<or> asset = cc_chain cfg" and "cc_decimals cfg = int n"
    and "0 \<le> dval (cc_fee_limit cfg)"
  shows "CheckFeeLimit L (spend, asset) cfg = Inr ()
    \<longleftrightarrow> of_int spend \<le> dval (cc_fee_limit cfg) * 10 ^ n"
  using assms ToBlockchain_le [of "cc_fee_limit cfg" spend n]
  by (auto simp: CheckFeeLimit_def Let_def not_less)

lemma CheckFeeLimit_token:
  assumes "asset \<noteq> []" and "asset \<noteq> cc_chain cfg"
  shows "CheckFeeLimit L (spend, asset) cfg = Inr () \<longleftrightarrow>
    (\<exists>a. find_contract asset (cc_native_assets cfg) = Some a
       \<and> spend \<le> ToBlockchain L (na_fee_limit a) (na_decimals a))"
  using assms by (auto simp: CheckFeeLimit_def Let_def not_less split: option.splits)

end

end
