(* ===== verification/InputTypes.thy ===== *)
theory InputTypes
  imports GasPriority
begin

text \<open>
  The transaction inputs of the drivers: one record per \<^verbatim>\<open>TxInput\<close> struct with the fields its
  operations read, and the datatype \<open>tx_input\<close> of all dynamic types an \<^verbatim>\<open>xc.TxInput\<close> interface
  value can have (a nil interface is \<open>None\<close> of the option). The \<open>as_\<dots>\<close> functions are the Go
  interface assertions: \<open>other.(I)\<close> succeeds for the types whose method set covers \<open>I\<close>, so
  the types that satisfy an interface declared by another driver are listed too.
\<close>

subsection \<open>UTXO chains\<close>

record outpoint =
  op_hash :: bytes
  op_index :: u32

record btc_output =
  bo_outpoint :: outpoint
  bo_value :: int
  bo_pubkey_script :: bytes
  bo_address :: address

record zcash =
  z_estimated_total_size :: int
  z_consensus_branch_id :: u32

record 'd btc_input =
  bi_zcash :: zcash
  bi_address :: address
  bi_unspent_outputs :: "btc_output list"
  bi_x_gas_price_per_byte :: int
  bi_gas_price_per_byte_v2 :: 'd
  bi_estimated_size_per_spent_utxo :: u64

record 'd btc_multi_input =
  bm_zcash :: zcash
  bm_inputs :: "'d btc_input list"
  bm_gas_price_per_byte :: 'd
  bm_estimated_size :: u64

record kaspa_utxo =
  ku_transaction_id :: string
  ku_index :: i64
  ku_amount :: int

record kaspa_input =
  ka_address :: address
  ka_utxos :: "kaspa_utxo list"
  ka_fee_per_gram :: int
  ka_mass :: u64
  ka_min_fee :: int

record cardano_utxo =
  cu_tx_hash :: string
  cu_index :: "16 word"

record cardano_input =
  ca_utxos :: "cardano_utxo list"
  ca_fee :: u64
  ca_fee_per_byte :: u64
  ca_fixed_fee :: u64

subsection \<open>Account chains with a sequence number\<close>

record evm_input =
  ev_nonce :: u64
  ev_from_address :: address
  ev_gas_limit :: u64
  ev_gas_tip_cap :: int
  ev_gas_fee_cap :: int
  ev_l1_fee :: int
  ev_gas_price :: int
  ev_fee_payer_address :: address
  ev_fee_payer_nonce :: u64

text \<open>
  The struct types that hold an EVM input: the EVM driver's own and its variants, the legacy
  driver's (the same struct under another type name) and Tempo's (which embed it and add the
  fee contract).
\<close>

datatype evm_kind = EvmBase | EvmCall | EvmMultiTransfer | EvmBatchDeposit | EvmExitRequest
  | EvmLegacy | TempoBase contract_address | TempoCall contract_address
  | TempoMultiTransfer contract_address

record xrp_input =
  xr_sequence :: i64
  xr_fee :: int
  xr_account_delete_fee :: int
  xr_reserve_amount :: int
  xr_account_delete :: bool
  xr_must_reserve :: bool

record xlm_input =
  xl_sequence_old :: i64
  xl_sequence :: i64
  xl_max_fee :: u32
  xl_min_balance :: int
  xl_must_reserve :: bool
  xl_fee_payer_sequence :: i64
  xl_soroban_resource_fee :: u32
  xl_timestamp :: i64

record near_input =
  ne_nonce :: u64
  ne_fee_estimation :: int

record filecoin_input =
  fi_nonce :: u64
  fi_gas_limit :: u64
  fi_gas_fee_cap :: int
  fi_gas_premium :: int

record dusk_input =
  du_nonce :: u64
  du_gas_limit :: u64
  du_gas_price :: u64

record egld_input =
  eg_nonce :: u64
  eg_gas_limit :: u64
  eg_gas_price :: u64

record aptos_input =
  ap_sequence_number :: u64
  ap_gas_limit :: u64
  ap_gas_price :: u64

record ton_input =
  to_sequence :: u64
  to_timestamp :: i64
  to_estimated_max_fee :: int

record substrate_input =
  su_nonce :: u64
  su_tip :: u64

record cosmos_input =
  co_account_number :: u64
  co_sequence :: u64
  co_gas_limit :: u64
  co_gas_price :: rat

subsection \<open>Chains whose transactions expire\<close>

record hedera_input =
  he_valid_start_timestamp :: i64
  he_max_transaction_fee :: u64
  he_valid_time :: i64

record icp_input =
  ic_fee :: u64
  ic_create_time :: i64
  ic_canister :: contract_address

text \<open>
  A \<^verbatim>\<open>time.Time\<close>: the instant in nanoseconds, and a tag for the rest of the struct (location
  and monotonic reading), which \<^verbatim>\<open>!=\<close> on the struct compares as well.
\<close>

record go_time =
  gt_nanos :: int
  gt_repr :: nat

record hyperliquid_input =
  hy_transaction_time :: go_time

record tron_input =
  tr_expiration :: i64
  tr_timestamp :: i64
  tr_max_fee :: int

text \<open>Tron's withdraw input embeds a pointer, which may be nil, and falls back to a second one.\<close>

datatype tron_any = TronBase tron_input | TronStake tron_input | TronUnstake tron_input
  | TronWithdraw "tron_input option" "tron_input option"

record eos_input =
  eo_timestamp :: i64
  eo_head_block_id :: bytes

record solana_input =
  so_recent_block_hash :: bytes
  so_prioritization_fee :: int
  so_timestamp :: i64
  so_base_fee :: int
  so_units_consumed :: u64
  so_durable_nonce :: bytes
  so_durable_nonce_account :: bytes
  so_should_create_durable_nonce :: bool
  so_fee_payer_durable_nonce :: bytes
  so_fee_payer_durable_nonce_account :: bytes
  so_should_create_fee_payer_nonce :: bool
  so_fee_payer_base_fee :: int

subsection \<open>Object chains\<close>

record sui_coin =
  sc_object_id :: bytes
  sc_version :: u64
  sc_digest :: bytes
  sc_coin_type :: string
  sc_balance :: u64

record sui_input =
  si_gas_budget :: u64
  si_gas_price :: u64
  si_gas_coin :: sui_coin
  si_coins :: "sui_coin list"
  si_current_epoch :: u64

text \<open>
  The part of a prepared Canton transaction the conflict check reads: for each node its version-1
  content if it has one, and there the exercise if it is one.
\<close>

record canton_exercise =
  cx_consuming :: bool
  cx_contract_id :: string

type_synonym canton_node = "canton_exercise option option"
type_synonym prepared_transaction = "canton_node list"

record canton_input =
  cn_prepared :: "prepared_transaction option"
  cn_submission_id :: string

record canton_create_account_input =
  cc_stage :: string
  cc_party_id :: string
  cc_topology_transactions :: "bytes list"
  cc_setup_prepared :: "prepared_transaction option"
  cc_setup_submission_id :: string

subsection \<open>All inputs\<close>

text \<open>\<open>Base\<close> or one of the staking variants that embed the base input.\<close>

datatype stake_kind = Base | Staking | Unstaking | Withdrawing | Calling

datatype 'd tx_input =
    BitcoinIn "'d btc_input"
  | BitcoinMultiIn "'d btc_multi_input"
  | KaspaIn kaspa_input
  | CardanoIn stake_kind cardano_input
  | EvmIn evm_kind evm_input
  | XrpIn xrp_input
  | XlmIn xlm_input
  | NearIn near_input
  | FilecoinIn filecoin_input
  | DuskIn dusk_input
  | EgldIn egld_input
  | AptosIn aptos_input
  | TonIn ton_input
  | SubstrateIn substrate_input
  | CosmosIn stake_kind cosmos_input
  | HederaIn hedera_input
  | IcpIn icp_input
  | HyperliquidIn hyperliquid_input
  | TronIn tron_any
  | EosIn stake_kind eos_input
  | SolanaIn stake_kind solana_input
  | SuiIn stake_kind sui_input
  | CantonIn stake_kind canton_input
  | CantonCreateAccountIn canton_create_account_input
  | TemplateIn

subsection \<open>Interface assertions\<close>

text \<open>Bitcoin's \<^verbatim>\<open>UtxoGetter\<close>; the multi-transfer input concatenates the UTXOs of its inputs.\<close>

definition btc_multi_utxo :: "'d btc_multi_input \<Rightarrow> btc_output list" where
  "btc_multi_utxo m = concat (map bi_unspent_outputs (bm_inputs m))"

fun as_utxo_getter :: "'d tx_input option \<Rightarrow> btc_output list option" where
  "as_utxo_getter (Some (BitcoinIn i)) = Some (bi_unspent_outputs i)"
| "as_utxo_getter (Some (BitcoinMultiIn m)) = Some (btc_multi_utxo m)"
| "as_utxo_getter _ = None"

fun as_cardano_utxo_getter :: "'d tx_input option \<Rightarrow> cardano_utxo list option" where
  "as_cardano_utxo_getter (Some (CardanoIn k i)) = Some (ca_utxos i)"
| "as_cardano_utxo_getter _ = None"

text \<open>The EVM driver's \<^verbatim>\<open>GetAccountInfo\<close>.\<close>

fun as_evm_account :: "'d tx_input option \<Rightarrow> evm_input option" where
  "as_evm_account (Some (EvmIn k i)) = Some i"
| "as_evm_account _ = None"

text \<open>
  \<^verbatim>\<open>GetNonce() uint64\<close>, which three drivers declare as an interface of their own (near,
  substrate, egld): every type with that method satisfies all three.
\<close>

fun as_nonce_getter :: "'d tx_input option \<Rightarrow> u64 option" where
  "as_nonce_getter (Some (EvmIn k i)) = Some (ev_nonce i)"
| "as_nonce_getter (Some (NearIn i)) = Some (ne_nonce i)"
| "as_nonce_getter (Some (EgldIn i)) = Some (eg_nonce i)"
| "as_nonce_getter (Some (SubstrateIn i)) = Some (su_nonce i)"
| "as_nonce_getter _ = None"

fun as_cosmos_account :: "'d tx_input option \<Rightarrow> (u64 \<times> u64) option" where
  "as_cosmos_account (Some (CosmosIn k i)) = Some (co_account_number i, co_sequence i)"
| "as_cosmos_account _ = None"

text \<open>Tron's \<^verbatim>\<open>TimestampGetter\<close>: timestamp and expiration.\<close>

definition tron_times :: "tron_any \<Rightarrow> i64 \<times> i64" where
  "tron_times t = (case t of
       TronBase i \<Rightarrow> (tr_timestamp i, tr_expiration i)
     | TronStake i \<Rightarrow> (tr_timestamp i, tr_expiration i)
     | TronUnstake i \<Rightarrow> (tr_timestamp i, tr_expiration i)
     | TronWithdraw (Some i) w \<Rightarrow> (tr_timestamp i, tr_expiration i)
     | TronWithdraw None (Some i) \<Rightarrow> (tr_timestamp i, tr_expiration i)
     | TronWithdraw None None \<Rightarrow> (0, 0))"

fun as_timestamp_getter :: "'d tx_input option \<Rightarrow> (i64 \<times> i64) option" where
  "as_timestamp_getter (Some (TronIn t)) = Some (tron_times t)"
| "as_timestamp_getter _ = None"

fun as_eos_info :: "'d tx_input option \<Rightarrow> (i64 \<times> bytes) option" where
  "as_eos_info (Some (EosIn k i)) = Some (eo_timestamp i, eo_head_block_id i)"
| "as_eos_info _ = None"

fun as_solana_info :: "'d tx_input option \<Rightarrow> solana_input option" where
  "as_solana_info (Some (SolanaIn k i)) = Some i"
| "as_solana_info _ = None"

text \<open>Sui's \<^verbatim>\<open>CoinGetter\<close>: coins, gas coin, epoch.\<close>

fun as_coin_getter :: "'d tx_input option \<Rightarrow> (sui_coin list \<times> sui_coin \<times> u64) option" where
  "as_coin_getter (Some (SuiIn k i)) = Some (si_coins i, si_gas_coin i, si_current_epoch i)"
| "as_coin_getter _ = None"

end
