(* ===== verification/UtxoInputs.thy ===== *)
theory UtxoInputs
  imports InputTypes
begin

text \<open>
  The inputs of the UTXO drivers: Bitcoin (\<^verbatim>\<open>chain/bitcoin/tx_input\<close>, shared by its forks and
  Zcash), Kaspa and Cardano. Gas prices, fee limits, the conflict checks on the spent outpoints and
  the selection of the outputs to spend.
\<close>

subsection \<open>Bitcoin: prices and fees\<close>

definition btc_get_gas_price :: "'d decimal_lib \<Rightarrow> 'd btc_input \<Rightarrow> 'd" where
  "btc_get_gas_price L i =
    (if dIsZero L (bi_gas_price_per_byte_v2 i)
     then dNewFromBigInt L (bi_x_gas_price_per_byte i) 0
     else bi_gas_price_per_byte_v2 i)"

definition btc_set_gas_fee_priority :: "'d decimal_lib \<Rightarrow> string \<Rightarrow> 'd btc_input
    \<Rightarrow> priority_error + 'd btc_input" where
  "btc_set_gas_fee_priority L p i = (case GetDefault L p of
       Inl e \<Rightarrow> Inl e
     | Inr m \<Rightarrow>
        (let v2 = dMul L m (btc_get_gas_price L i);
             x = ToBlockchain L v2 0;
             x = (if amt_is_zero x then NewAmountBlockchainFromUint64 1 else x);
             z = bi_zcash i;
             size = dBigInt L (dMul L m (ToHuman L (z_estimated_total_size z) 0))
         in Inr (i\<lparr>bi_gas_price_per_byte_v2 := v2, bi_x_gas_price_per_byte := x,
              bi_zcash := z\<lparr>z_estimated_total_size := size\<rparr>\<rparr>)))"

definition btc_size_per_utxo :: "'d btc_input \<Rightarrow> u64" where
  "btc_size_per_utxo i = (if bi_estimated_size_per_spent_utxo i = 0 then 255
     else bi_estimated_size_per_spent_utxo i)"

definition btc_get_fee_limit :: "'d decimal_lib \<Rightarrow> 'd btc_input \<Rightarrow> int \<times> contract_address" where
  "btc_get_fee_limit L i =
    (if \<not> amt_is_zero (z_estimated_total_size (bi_zcash i))
     then (z_estimated_total_size (bi_zcash i), [])
     else (let gasPrice = btc_get_gas_price L i;
               len = NewAmountBlockchainFromUint64
                 (btc_size_per_utxo i * of_nat (length (bi_unspent_outputs i)))
           in (dBigInt L (dMul L gasPrice (dNewFromBigInt L len 0)), [])))"

definition btc_multi_set_gas_fee_priority :: "'d decimal_lib \<Rightarrow> string \<Rightarrow> 'd btc_multi_input
    \<Rightarrow> priority_error + 'd btc_multi_input" where
  "btc_multi_set_gas_fee_priority L p m = (case GetDefault L p of
       Inl e \<Rightarrow> Inl e
     | Inr f \<Rightarrow> Inr (m\<lparr>bm_gas_price_per_byte := dMul L f (bm_gas_price_per_byte m)\<rparr>))"

definition btc_multi_get_fee_limit :: "'d decimal_lib \<Rightarrow> 'd btc_multi_input
    \<Rightarrow> int \<times> contract_address" where
  "btc_multi_get_fee_limit L m =
    (if \<not> amt_is_zero (z_estimated_total_size (bm_zcash m))
     then (z_estimated_total_size (bm_zcash m), [])
     else (let len = NewAmountBlockchainFromUint64 (bm_estimated_size m)
           in (dBigInt L (dMul L (bm_gas_price_per_byte m) (dNewFromBigInt L len 0)), [])))"

fun sum_utxo :: "btc_output list \<Rightarrow> int \<Rightarrow> int" where
  "sum_utxo [] balance = balance"
| "sum_utxo (u # us) balance = sum_utxo us (amt_add balance (bo_value u))"

definition btc_sum_utxo :: "'d btc_input \<Rightarrow> int" where
  "btc_sum_utxo i = sum_utxo (bi_unspent_outputs i) 0"

fun btc_sum_inputs :: "'d btc_input list \<Rightarrow> int \<Rightarrow> int" where
  "btc_sum_inputs [] balance = balance"
| "btc_sum_inputs (i # is) balance = btc_sum_inputs is (amt_add balance (btc_sum_utxo i))"

definition btc_multi_sum_utxo :: "'d btc_multi_input \<Rightarrow> int" where
  "btc_multi_sum_utxo m = btc_sum_inputs (bm_inputs m) 0"

definition PerUtxoSizeEstimate :: "native_asset \<Rightarrow> string \<Rightarrow> u64" where
  "PerUtxoSizeEstimate chain driver =
     (if chain = ''BCH'' \<or> driver = DriverBitcoinCash then 300 else 255)"

subsection \<open>Bitcoin: conflicts\<close>

definition outpoint_equals :: "outpoint \<Rightarrow> outpoint \<Rightarrow> bool" where
  "outpoint_equals a b \<longleftrightarrow> op_hash a = op_hash b \<and> op_index a = op_index b"

text \<open>The nested loops of both \<^verbatim>\<open>IndependentOf\<close> methods: the other's outputs outside.\<close>

fun spends_any :: "btc_output \<Rightarrow> btc_output list \<Rightarrow> bool" where
  "spends_any u1 [] = False"
| "spends_any u1 (u2 # us) =
     (if outpoint_equals (bo_outpoint u1) (bo_outpoint u2) then True else spends_any u1 us)"

fun utxo_disjoint :: "btc_output list \<Rightarrow> btc_output list \<Rightarrow> bool" where
  "utxo_disjoint [] mine = True"
| "utxo_disjoint (u1 # other) mine =
     (if spends_any u1 mine then False else utxo_disjoint other mine)"

definition btc_independent_of :: "btc_output list \<Rightarrow> 'd tx_input option \<Rightarrow> bool" where
  "btc_independent_of mine other = (case as_utxo_getter other of
       Some us \<Rightarrow> utxo_disjoint us mine
     | None \<Rightarrow> False)"

definition btc_safe_from_double_send :: "btc_output list \<Rightarrow> 'd tx_input option \<Rightarrow> bool" where
  "btc_safe_from_double_send mine other =
    (if as_utxo_getter other = None then False
     else if btc_independent_of mine other then False else True)"

fun has_same_utxo :: "btc_output list \<Rightarrow> btc_output list \<Rightarrow> outpoint option" where
  "has_same_utxo [] ys = None"
| "has_same_utxo (x # xs) ys =
     (case find (\<lambda>y. outpoint_equals (bo_outpoint x) (bo_outpoint y)) ys of
        Some y \<Rightarrow> Some (bo_outpoint y)
      | None \<Rightarrow> has_same_utxo xs ys)"

subsection \<open>Bitcoin: choosing the outputs to spend\<close>

text \<open>
  \<^verbatim>\<open>sort.Slice\<close> by descending value. Go leaves the order of equal values open; the model keeps
  the given order there, and no property below depends on it.
\<close>

definition sort_desc :: "btc_output list \<Rightarrow> btc_output list" where
  "sort_desc us = (if length us > 1 then sort_key (\<lambda>u. - bo_value u) us else us)"

fun grab_amount :: "int \<Rightarrow> int \<Rightarrow> btc_output list \<Rightarrow> btc_output list \<times> btc_output list" where
  "grab_amount balance target [] = ([], [])"
| "grab_amount balance target (u # us) =
     (if amt_cmp balance target \<ge> 0 then ([], u # us)
      else (case grab_amount (amt_add balance (bo_value u)) target us of
          (filtered, rest) \<Rightarrow> (u # filtered, rest)))"

fun add_extra :: "nat \<Rightarrow> btc_output list \<Rightarrow> btc_output list \<Rightarrow> btc_output list" where
  "add_extra minUtxo filtered [] = filtered"
| "add_extra minUtxo filtered (u # us) =
     (if length filtered \<ge> minUtxo then filtered else add_extra minUtxo (filtered @ [u]) us)"

definition FilterForMinUtxoSet :: "btc_output list \<Rightarrow> int \<Rightarrow> nat \<Rightarrow> btc_output list" where
  "FilterForMinUtxoSet unspentOutputs targetAmount minUtxo =
    (case grab_amount 0 targetAmount (sort_desc unspentOutputs) of
       (filtered, rest) \<Rightarrow> add_extra minUtxo filtered rest)"

definition btc_set_amount :: "'d btc_input \<Rightarrow> int \<Rightarrow> 'd btc_input" where
  "btc_set_amount i amount =
     i\<lparr>bi_unspent_outputs := FilterForMinUtxoSet (bi_unspent_outputs i) amount 10\<rparr>"

text \<open>The unconfirmed heuristic, on an explorer's UTXO (\<^verbatim>\<open>UtxoI\<close>), in \<open>uint64\<close> arithmetic.\<close>

record utxo_i =
  ui_value :: u64
  ui_block :: u64
  ui_tx_hash :: string
  ui_index :: u32

fun total_sats :: "u64 \<Rightarrow> utxo_i list \<Rightarrow> u64" where
  "total_sats acc [] = acc"
| "total_sats acc (u # us) = total_sats (acc + ui_value u) us"

definition unconfirmed_threshold :: "utxo_i list \<Rightarrow> u64" where
  "unconfirmed_threshold us = (let oneBtc = 100000000; total = total_sats 0 us in
     if total > oneBtc then (total * 5) div 100 else 0)"

definition FilterUnconfirmedHeuristic :: "utxo_i list \<Rightarrow> utxo_i list" where
  "FilterUnconfirmedHeuristic us = (let threshold = unconfirmed_threshold us in
     filter (\<lambda>u. \<not> (ui_block u \<le> 0 \<and> ui_value u < threshold)) us)"

definition hex_digit :: "char \<Rightarrow> byte option" where
  "hex_digit c = (let n = of_char c :: nat in
     if 48 \<le> n \<and> n \<le> 57 then Some (of_nat (n - 48))
     else if 97 \<le> n \<and> n \<le> 102 then Some (of_nat (n - 87))
     else if 65 \<le> n \<and> n \<le> 70 then Some (of_nat (n - 55)) else None)"

text \<open>\<^verbatim>\<open>hex.DecodeString\<close> with its error ignored: the bytes decoded before the first bad digit.\<close>

fun hex_decode_prefix :: "string \<Rightarrow> bytes" where
  "hex_decode_prefix (a # b # s) = (case (hex_digit a, hex_digit b) of
       (Some x, Some y) \<Rightarrow> (x * 16 + y) # hex_decode_prefix s
     | _ \<Rightarrow> [])"
| "hex_decode_prefix _ = []"

definition NewOutputs :: "utxo_i list \<Rightarrow> bytes \<Rightarrow> address \<Rightarrow> btc_output list" where
  "NewOutputs us addressScript addr = map (\<lambda>u.
     \<lparr>bo_outpoint = \<lparr>op_hash = rev (hex_decode_prefix (ui_tx_hash u)), op_index = ui_index u\<rparr>,
      bo_value = NewAmountBlockchainFromUint64 (ui_value u),
      bo_pubkey_script = addressScript, bo_address = addr\<rparr>) us"

subsection \<open>Kaspa\<close>

definition kaspa_utxo_equals :: "kaspa_utxo \<Rightarrow> kaspa_utxo \<Rightarrow> bool" where
  "kaspa_utxo_equals a b \<longleftrightarrow>
     ku_transaction_id a = ku_transaction_id b \<and> ku_index a = ku_index b"

definition kaspa_set_gas_fee_priority :: "'d decimal_lib \<Rightarrow> string \<Rightarrow> kaspa_input
    \<Rightarrow> priority_error + kaspa_input" where
  "kaspa_set_gas_fee_priority L p i = (case GetDefault L p of
       Inl e \<Rightarrow> Inl e
     | Inr m \<Rightarrow> Inr (i\<lparr>ka_mass := word_of_int (rat_trunc
         (f64_round (f64_round (of_int (uint (ka_mass i))) * dInexactFloat64 L m)))\<rparr>))"

definition kaspa_get_fee_limit :: "kaspa_input \<Rightarrow> int \<times> contract_address" where
  "kaspa_get_fee_limit i =
    (let mass = NewAmountBlockchainFromUint64 (ka_mass i);
         feeEstimate = amt_mul mass (ka_fee_per_gram i)
     in if amt_cmp feeEstimate (ka_min_fee i) < 0 then (ka_min_fee i, []) else (feeEstimate, []))"

definition kaspa_independent_of :: "kaspa_input \<Rightarrow> 'd tx_input option \<Rightarrow> bool" where
  "kaspa_independent_of i other = (case other of
       Some (KaspaIn o') \<Rightarrow>
         \<not> list_ex (\<lambda>u. list_ex (\<lambda>v. kaspa_utxo_equals u v) (ka_utxos o')) (ka_utxos i)
     | _ \<Rightarrow> False)"

definition kaspa_safe_from_double_send :: "kaspa_input \<Rightarrow> 'd tx_input option \<Rightarrow> bool" where
  "kaspa_safe_from_double_send i other = (case other of
       Some (KaspaIn o') \<Rightarrow> if kaspa_independent_of i other then False else True
     | _ \<Rightarrow> False)"

subsection \<open>Cardano\<close>

definition cardano_get_fee_limit :: "cardano_input \<Rightarrow> int \<times> contract_address" where
  "cardano_get_fee_limit i = (NewAmountBlockchainFromUint64 (ca_fee i), [])"

definition cardano_independent_of :: "cardano_input \<Rightarrow> 'd tx_input option \<Rightarrow> bool" where
  "cardano_independent_of i other = (case as_cardano_utxo_getter other of
       None \<Rightarrow> False
     | Some us \<Rightarrow> \<not> list_ex (\<lambda>u1. list_ex (\<lambda>u2.
         cu_tx_hash u1 = cu_tx_hash u2 \<and> cu_index u1 = cu_index u2) us) (ca_utxos i))"

definition cardano_safe_from_double_send :: "cardano_input \<Rightarrow> 'd tx_input option \<Rightarrow> bool" where
  "cardano_safe_from_double_send i other =
    (if as_cardano_utxo_getter other = None then False
     else if cardano_independent_of i other then False else True)"

text \<open>The fee of a transaction of a given serialized size, in wrapping \<open>uint64\<close> arithmetic.\<close>

definition cardano_calculate_tx_fee :: "cardano_input \<Rightarrow> nat \<Rightarrow> cardano_input" where
  "cardano_calculate_tx_fee i txSize =
     i\<lparr>ca_fee := ca_fee_per_byte i * of_nat txSize + ca_fixed_fee i + 500\<rparr>"

end
