(* ===== verification/NonceInputs.thy ===== *)
theory NonceInputs
  imports InputTypes
begin

text \<open>
  The inputs of the account drivers whose transactions carry a sequence number: EVM (with its
  legacy and Tempo variants), XRP, Stellar, Near, Filecoin, Dusk, MultiversX, Aptos, TON,
  Substrate and Cosmos. Fee priorities, fee limits and the conflict checks of each.
\<close>

subsection \<open>EVM\<close>

definition evm_set_gas_fee_priority :: "'d decimal_lib \<Rightarrow> string \<Rightarrow> evm_input
    \<Rightarrow> priority_error + evm_input" where
  "evm_set_gas_fee_priority L p i = (case GetDefault L p of
       Inl e \<Rightarrow> Inl e
     | Inr m \<Rightarrow>
        (let tip = mul_big L m (ev_gas_tip_cap i);
             cap = mul_big L m (ev_gas_fee_cap i);
             i = i\<lparr>ev_gas_tip_cap := tip, ev_gas_fee_cap := cap\<rparr>;
             i = (if amt_cmp (ev_gas_fee_cap i) (ev_gas_tip_cap i) < 0
                  then i\<lparr>ev_gas_fee_cap := ev_gas_tip_cap i\<rparr> else i)
         in Inr (i\<lparr>ev_gas_price := mul_big L m (ev_gas_price i)\<rparr>)))"

definition evm_get_fee_limit :: "evm_input \<Rightarrow> int \<times> contract_address" where
  "evm_get_fee_limit i =
    (let gasLimit = NewAmountBlockchainFromUint64 (ev_gas_limit i);
         legacyMaxFeeSpend = amt_mul (ev_gas_price i) gasLimit;
         dynamicMaxFeeSpend = amt_mul (ev_gas_fee_cap i) gasLimit;
         maxFeeSpend = dynamicMaxFeeSpend;
         maxFeeSpend = (if amt_cmp legacyMaxFeeSpend maxFeeSpend > 0
           then legacyMaxFeeSpend else maxFeeSpend)
     in (amt_add maxFeeSpend (ev_l1_fee i), []))"

definition evm_independent_of :: "evm_input \<Rightarrow> 'd tx_input option \<Rightarrow> bool" where
  "evm_independent_of i other = (case as_evm_account other of
       None \<Rightarrow> False
     | Some ev \<Rightarrow>
        (if ev_fee_payer_address i \<noteq> [] \<or> ev_fee_payer_nonce i \<noteq> 0 then
           (if ev_nonce ev = ev_nonce i \<and> equal_fold (ev_from_address ev) (ev_from_address i)
            then False
            else if equal_fold (ev_fee_payer_address ev) (ev_fee_payer_address i)
                \<and> ev_fee_payer_nonce ev = ev_fee_payer_nonce i
            then False
            else True)
         else if ev_nonce ev = ev_nonce i then False else True))"

definition evm_safe_from_double_send :: "evm_input \<Rightarrow> 'd tx_input option \<Rightarrow> bool" where
  "evm_safe_from_double_send i other =
    (if other = None then False
     else if evm_independent_of i other then False else True)"

text \<open>Tempo's fee is in the token's precision, rounded up; the input may name the fee token.\<close>

definition div_ceil :: "int \<Rightarrow> int \<Rightarrow> int" where
  "div_ceil amount divisor =
    (let quotient = big_quo amount divisor; remainder = big_rem amount divisor
     in if remainder \<noteq> 0 then quotient + 1 else quotient)"

definition tempo_get_fee_limit :: "contract_address \<Rightarrow> evm_input \<Rightarrow> int \<times> contract_address" where
  "tempo_get_fee_limit feeContract i =
    (let attoTempo = 1000000000000;
         (feeLimit, contract) = evm_get_fee_limit i;
         contract = (if contract = [] then feeContract else contract)
     in (div_ceil feeLimit attoTempo, contract))"

fun evm_kind_fee_limit :: "evm_kind \<Rightarrow> evm_input \<Rightarrow> int \<times> contract_address" where
  "evm_kind_fee_limit (TempoBase c) i = tempo_get_fee_limit c i"
| "evm_kind_fee_limit (TempoCall c) i = tempo_get_fee_limit c i"
| "evm_kind_fee_limit (TempoMultiTransfer c) i = tempo_get_fee_limit c i"
| "evm_kind_fee_limit _ i = evm_get_fee_limit i"

subsection \<open>XRP\<close>

definition xrp_set_gas_fee_priority :: "'d decimal_lib \<Rightarrow> string \<Rightarrow> xrp_input
    \<Rightarrow> priority_error + xrp_input" where
  "xrp_set_gas_fee_priority L p i = (case GetDefault L p of
       Inl e \<Rightarrow> Inl e | Inr m \<Rightarrow> Inr (i\<lparr>xr_fee := mul_big L m (xr_fee i)\<rparr>))"

definition xrp_get_fee_limit :: "xrp_input \<Rightarrow> int \<times> contract_address" where
  "xrp_get_fee_limit i =
    (if xr_account_delete i then (xr_account_delete_fee i, [])
     else if xr_must_reserve i then (amt_add (xr_fee i) (xr_reserve_amount i), [])
     else (xr_fee i, []))"

definition xrp_independent_of :: "xrp_input \<Rightarrow> 'd tx_input option \<Rightarrow> bool" where
  "xrp_independent_of i other = (case other of
       Some (XrpIn o') \<Rightarrow> xr_sequence o' \<noteq> xr_sequence i | _ \<Rightarrow> False)"

definition xrp_safe_from_double_send :: "xrp_input \<Rightarrow> 'd tx_input option \<Rightarrow> bool" where
  "xrp_safe_from_double_send i other = (case other of
       Some (XrpIn o') \<Rightarrow> if xrp_independent_of i other then False else True | _ \<Rightarrow> False)"

subsection \<open>Stellar\<close>

definition xlm_get_sequence :: "xlm_input \<Rightarrow> i64" where
  "xlm_get_sequence i = (if xl_sequence i \<noteq> 0 then xl_sequence i else xl_sequence_old i)"

definition xlm_independent_of :: "xlm_input \<Rightarrow> 'd tx_input option \<Rightarrow> bool" where
  "xlm_independent_of i other = (case other of
       Some (XlmIn o') \<Rightarrow>
        (if xl_fee_payer_sequence i \<noteq> 0 \<or> xl_fee_payer_sequence o' \<noteq> 0
         then xl_fee_payer_sequence o' \<noteq> xl_fee_payer_sequence i
         else xlm_get_sequence o' \<noteq> xlm_get_sequence i)
     | _ \<Rightarrow> False)"

definition xlm_safe_from_double_send :: "xlm_input \<Rightarrow> 'd tx_input option \<Rightarrow> bool" where
  "xlm_safe_from_double_send i other = (case other of
       Some (XlmIn o') \<Rightarrow> if xlm_independent_of i other then False else True | _ \<Rightarrow> False)"

text \<open>
  The priority multiplies both fees, each within \<open>uint32\<close>; when the second one overflows, the
  first has already been changed, so the input is returned beside the error. \<open>IntPart\<close> is the
  integer part as an \<open>int64\<close>.
\<close>

datatype xlm_error = XlmPriority priority_error | XlmMaxFeeExceeded | XlmResourceFeeExceeded

definition dec_int_part :: "'d decimal_lib \<Rightarrow> 'd \<Rightarrow> int" where
  "dec_int_part L d = sint (word_of_int (dBigInt L d) :: i64)"

definition xlm_set_gas_fee_priority :: "'d decimal_lib \<Rightarrow> string \<Rightarrow> xlm_input
    \<Rightarrow> xlm_input \<times> xlm_error option" where
  "xlm_set_gas_fee_priority L p i = (case GetDefault L p of
       Inl e \<Rightarrow> (i, Some (XlmPriority e))
     | Inr m \<Rightarrow>
        (let asInt = dec_int_part L (dMul L m (dNewFromBigInt L (uint (xl_max_fee i)) 0))
         in if asInt > 4294967295 then (i, Some XlmMaxFeeExceeded)
            else
             (let i = i\<lparr>xl_max_fee := word_of_int asInt\<rparr>
              in if xl_soroban_resource_fee i > 0 then
                   (let asInt = dec_int_part L
                      (dMul L m (dNewFromBigInt L (uint (xl_soroban_resource_fee i)) 0))
                    in if asInt > 4294967295 then (i, Some XlmResourceFeeExceeded)
                       else (i\<lparr>xl_soroban_resource_fee := word_of_int asInt\<rparr>, None))
                 else (i, None))))"

definition xlm_get_fee_limit :: "xlm_input \<Rightarrow> int \<times> contract_address" where
  "xlm_get_fee_limit i =
    (let totalFee = ucast (xl_max_fee i) + ucast (xl_soroban_resource_fee i);
         totalFee = (if xl_must_reserve i then totalFee + big_uint64 (xl_min_balance i)
           else totalFee)
     in (NewAmountBlockchainFromUint64 totalFee, []))"

subsection \<open>Near\<close>

definition near_get_fee_limit :: "near_input \<Rightarrow> int \<times> contract_address" where
  "near_get_fee_limit i = (ne_fee_estimation i, [])"

definition near_independent_of :: "near_input \<Rightarrow> 'd tx_input option \<Rightarrow> bool" where
  "near_independent_of i other = (case as_nonce_getter other of
       Some n \<Rightarrow> n \<noteq> ne_nonce i | None \<Rightarrow> True)"

definition near_safe_from_double_send :: "near_input \<Rightarrow> 'd tx_input option \<Rightarrow> bool" where
  "near_safe_from_double_send i other =
    (if other = None then True
     else (case as_nonce_getter other of Some n \<Rightarrow> ne_nonce i = n | None \<Rightarrow> False))"

subsection \<open>Filecoin\<close>

definition filecoin_set_gas_fee_priority :: "'d decimal_lib \<Rightarrow> string \<Rightarrow> filecoin_input
    \<Rightarrow> priority_error + filecoin_input" where
  "filecoin_set_gas_fee_priority L p i = (case GetDefault L p of
       Inl e \<Rightarrow> Inl e
     | Inr m \<Rightarrow> (let xcMultiplier = dBigInt L m in
         Inr (i\<lparr>fi_gas_fee_cap := amt_mul (fi_gas_fee_cap i) xcMultiplier,
                fi_gas_premium := amt_mul (fi_gas_premium i) xcMultiplier\<rparr>)))"

definition filecoin_get_fee_limit :: "filecoin_input \<Rightarrow> int \<times> contract_address" where
  "filecoin_get_fee_limit i =
     (amt_mul (fi_gas_fee_cap i) (NewAmountBlockchainFromUint64 (fi_gas_limit i)), [])"

definition filecoin_independent_of :: "filecoin_input \<Rightarrow> 'd tx_input option \<Rightarrow> bool" where
  "filecoin_independent_of i other = (case other of
       Some (FilecoinIn o') \<Rightarrow> fi_nonce o' \<noteq> fi_nonce i | _ \<Rightarrow> False)"

definition filecoin_safe_from_double_send :: "filecoin_input \<Rightarrow> 'd tx_input option \<Rightarrow> bool" where
  "filecoin_safe_from_double_send i other = (case other of
       Some (FilecoinIn o') \<Rightarrow> if filecoin_independent_of i other then False else True
     | _ \<Rightarrow> False)"

subsection \<open>Dusk\<close>

text \<open>
  A named priority multiplies the fee limit; a custom one is parsed again as an amount of DUSK
  and becomes the fee limit. The gas limit is the fee limit over the price; a price of zero
  panics in the division (\<open>None\<close>).
\<close>

definition dusk_set_gas_fee_priority :: "'d decimal_lib \<Rightarrow> string \<Rightarrow> dusk_input
    \<Rightarrow> (priority_error + dusk_input) option" where
  "dusk_set_gas_fee_priority L p i = (case GetDefault L p of
       Inl e \<Rightarrow> Some (Inl e)
     | Inr m \<Rightarrow>
        (let feeLimit = NewAmountBlockchainFromUint64 (du_gas_limit i * du_gas_price i);
             newFeeLimit = (if IsEnum p then map_option Inr (MultiplyByFloat feeLimit (dInexactFloat64 L m))
               else Some (case dNewFromString L (dString L m) of
                   None \<Rightarrow> Inl InvalidDecimal
                 | Some hr \<Rightarrow> Inr (ToBlockchain L hr 9)))
         in (case newFeeLimit of
               None \<Rightarrow> None
             | Some (Inl e) \<Rightarrow> Some (Inl e)
             | Some (Inr fee) \<Rightarrow>
                 (case amt_div fee (NewAmountBlockchainFromUint64 (du_gas_price i)) of
                    None \<Rightarrow> None
                  | Some gasLimit \<Rightarrow> Some (Inr (i\<lparr>du_gas_limit := big_uint64 gasLimit\<rparr>))))))"

definition dusk_get_fee_limit :: "dusk_input \<Rightarrow> int \<times> contract_address" where
  "dusk_get_fee_limit i = (NewAmountBlockchainFromUint64 (du_gas_limit i * du_gas_price i), [])"

definition dusk_independent_of :: "dusk_input \<Rightarrow> 'd tx_input option \<Rightarrow> bool" where
  "dusk_independent_of i other = (case other of
       Some (DuskIn o') \<Rightarrow> du_nonce o' \<noteq> du_nonce i | _ \<Rightarrow> False)"

definition dusk_safe_from_double_send :: "dusk_input \<Rightarrow> 'd tx_input option \<Rightarrow> bool" where
  "dusk_safe_from_double_send i other = (case other of
       Some (DuskIn o') \<Rightarrow> if dusk_independent_of i other then False else True | _ \<Rightarrow> False)"

subsection \<open>MultiversX\<close>

definition egld_set_gas_fee_priority :: "'d decimal_lib \<Rightarrow> string \<Rightarrow> egld_input
    \<Rightarrow> priority_error + egld_input" where
  "egld_set_gas_fee_priority L p i = (case GetDefault L p of
       Inl e \<Rightarrow> Inl e
     | Inr m \<Rightarrow> Inr (i\<lparr>eg_gas_price := big_uint64 (mul_big L m (sint (eg_gas_price i)))\<rparr>))"

definition egld_get_fee_limit :: "egld_input \<Rightarrow> int \<times> contract_address" where
  "egld_get_fee_limit i = (uint (eg_gas_limit i) * uint (eg_gas_price i), [])"

definition egld_independent_of :: "egld_input \<Rightarrow> 'd tx_input option \<Rightarrow> bool" where
  "egld_independent_of i other = (case as_nonce_getter other of
       Some n \<Rightarrow> n \<noteq> eg_nonce i | None \<Rightarrow> False)"

definition egld_safe_from_double_send :: "egld_input \<Rightarrow> 'd tx_input option \<Rightarrow> bool" where
  "egld_safe_from_double_send i other =
    (if as_nonce_getter other = None then False else egld_independent_of i other)"

subsection \<open>Aptos\<close>

definition aptos_set_gas_fee_priority :: "'d decimal_lib \<Rightarrow> string \<Rightarrow> aptos_input
    \<Rightarrow> priority_error + aptos_input" where
  "aptos_set_gas_fee_priority L p i = (case GetDefault L p of
       Inl e \<Rightarrow> Inl e
     | Inr m \<Rightarrow> Inr (i\<lparr>ap_gas_price := big_uint64 (mul_big L m (sint (ap_gas_price i)))\<rparr>))"

definition aptos_get_fee_limit :: "aptos_input \<Rightarrow> int \<times> contract_address" where
  "aptos_get_fee_limit i = (amt_mul (NewAmountBlockchainFromUint64 (ap_gas_limit i))
     (NewAmountBlockchainFromUint64 (ap_gas_price i)), [])"

definition aptos_independent_of :: "aptos_input \<Rightarrow> 'd tx_input option \<Rightarrow> bool" where
  "aptos_independent_of i other = (case other of
       Some (AptosIn o') \<Rightarrow> ap_sequence_number o' \<noteq> ap_sequence_number i | _ \<Rightarrow> False)"

definition aptos_safe_from_double_send :: "aptos_input \<Rightarrow> 'd tx_input option \<Rightarrow> bool" where
  "aptos_safe_from_double_send i other = (case other of
       Some (AptosIn o') \<Rightarrow> if aptos_independent_of i other then False else True | _ \<Rightarrow> False)"

subsection \<open>TON\<close>

definition ton_set_gas_fee_priority :: "'d decimal_lib \<Rightarrow> string \<Rightarrow> ton_input
    \<Rightarrow> priority_error + ton_input" where
  "ton_set_gas_fee_priority L p i = (case GetDefault L p of
       Inl e \<Rightarrow> Inl e
     | Inr m \<Rightarrow> Inr (i\<lparr>to_estimated_max_fee := mul_big L m (to_estimated_max_fee i)\<rparr>))"

definition ton_get_fee_limit :: "ton_input \<Rightarrow> int \<times> contract_address" where
  "ton_get_fee_limit i = (to_estimated_max_fee i, [])"

definition ton_independent_of :: "ton_input \<Rightarrow> 'd tx_input option \<Rightarrow> bool" where
  "ton_independent_of i other = (case other of
       Some (TonIn o') \<Rightarrow> to_sequence o' \<noteq> to_sequence i | _ \<Rightarrow> False)"

definition ton_safe_from_double_send :: "ton_input \<Rightarrow> 'd tx_input option \<Rightarrow> bool" where
  "ton_safe_from_double_send i other = (case other of
       Some (TonIn o') \<Rightarrow> if ton_independent_of i other then False else True | _ \<Rightarrow> False)"

subsection \<open>Substrate\<close>

definition substrate_set_gas_fee_priority :: "'d decimal_lib \<Rightarrow> string \<Rightarrow> substrate_input
    \<Rightarrow> priority_error + substrate_input" where
  "substrate_set_gas_fee_priority L p i = (case GetDefault L p of
       Inl e \<Rightarrow> Inl e
     | Inr m \<Rightarrow> Inr (i\<lparr>su_tip := big_uint64 (mul_big L m (sint (su_tip i)))\<rparr>))"

definition substrate_get_fee_limit :: "substrate_input \<Rightarrow> int \<times> contract_address" where
  "substrate_get_fee_limit i = (NewAmountBlockchainFromUint64 (su_tip i), [])"

definition substrate_independent_of :: "substrate_input \<Rightarrow> 'd tx_input option \<Rightarrow> bool" where
  "substrate_independent_of i other = (case as_nonce_getter other of
       Some n \<Rightarrow> n \<noteq> su_nonce i | None \<Rightarrow> False)"

definition substrate_safe_from_double_send :: "substrate_input \<Rightarrow> 'd tx_input option \<Rightarrow> bool" where
  "substrate_safe_from_double_send i other =
    (if as_nonce_getter other = None then False
     else if substrate_independent_of i other then False else True)"

subsection \<open>Cosmos\<close>

text \<open>The gas price is a float; \<open>decimal.NewFromFloat\<close> of it is a decimal of the library.\<close>

definition cosmos_set_gas_fee_priority :: "'d decimal_lib \<Rightarrow> string \<Rightarrow> cosmos_input
    \<Rightarrow> priority_error + cosmos_input" where
  "cosmos_set_gas_fee_priority L p i = (case GetDefault L p of
       Inl e \<Rightarrow> Inl e
     | Inr m \<Rightarrow> Inr (i\<lparr>co_gas_price :=
         dInexactFloat64 L (dMul L m (dNewFromFloat L (co_gas_price i)))\<rparr>))"

definition cosmos_get_fee_limit :: "'d decimal_lib \<Rightarrow> cosmos_input \<Rightarrow> int \<times> contract_address" where
  "cosmos_get_fee_limit L i =
    (let gasPrice = dNewFromFloat L (co_gas_price i);
         gasLimit = dNewFromBigInt L (uint (co_gas_limit i)) 0;
         totalSpend = dCeil L (dMul L gasPrice gasLimit)
     in (dBigInt L totalSpend, []))"

definition cosmos_independent_of :: "cosmos_input \<Rightarrow> 'd tx_input option \<Rightarrow> bool" where
  "cosmos_independent_of i other = (case as_cosmos_account other of
       Some (account, seq) \<Rightarrow> account \<noteq> co_account_number i \<or> seq \<noteq> co_sequence i
     | None \<Rightarrow> False)"

definition cosmos_safe_from_double_send :: "cosmos_input \<Rightarrow> 'd tx_input option \<Rightarrow> bool" where
  "cosmos_safe_from_double_send i other =
    (if as_cosmos_account other = None then False
     else if cosmos_independent_of i other then False else True)"

end
