(* ===== verification/ExpiringInputs.thy ===== *)
theory ExpiringInputs
  imports InputTypes
begin

text \<open>
  The inputs of the drivers whose transactions expire: Hedera, Internet Computer, Hyperliquid,
  Tron, EOS and Solana. Timestamps are \<open>int64\<close> and their differences wrap around as in Go; the
  durations of package \<open>time\<close> appear as the number of their unit.
\<close>

subsection \<open>Hedera\<close>

text \<open>Nanoseconds; the valid time is in seconds and counted twice as a margin.\<close>

definition hedera_expiration :: "hedera_input \<Rightarrow> i64" where
  "hedera_expiration i =
     he_valid_start_timestamp i + 1000000000 * (he_valid_time i * 2)"

definition hedera_set_gas_fee_priority :: "'d decimal_lib \<Rightarrow> string \<Rightarrow> hedera_input
    \<Rightarrow> priority_error + hedera_input" where
  "hedera_set_gas_fee_priority L p i = (case GetDefault L p of
       Inl e \<Rightarrow> Inl e
     | Inr m \<Rightarrow>
        (let xcFee = NewAmountBlockchainFromUint64 (he_max_transaction_fee i)
         in Inr (i\<lparr>he_max_transaction_fee :=
              big_uint64 (dBigInt L (dMul L m (ToHuman L xcFee 0)))\<rparr>)))"

definition hedera_get_fee_limit :: "hedera_input \<Rightarrow> int \<times> contract_address" where
  "hedera_get_fee_limit i = (NewAmountBlockchainFromUint64 (he_max_transaction_fee i), [])"

definition hedera_independent_of :: "hedera_input \<Rightarrow> 'd tx_input option \<Rightarrow> bool" where
  "hedera_independent_of i other = (case other of
       Some (HederaIn o') \<Rightarrow> he_valid_start_timestamp i \<noteq> he_valid_start_timestamp o'
     | _ \<Rightarrow> True)"

definition hedera_safe_from_double_send :: "hedera_input \<Rightarrow> 'd tx_input option \<Rightarrow> bool" where
  "hedera_safe_from_double_send i other = (case other of
       None \<Rightarrow> True
     | Some (HederaIn o') \<Rightarrow> hedera_expiration o' <s he_valid_start_timestamp i
     | _ \<Rightarrow> False)"

subsection \<open>Internet Computer\<close>

text \<open>Seconds; five minutes of validity and five of margin.\<close>

definition icp_get_fee_limit :: "icp_input \<Rightarrow> int \<times> contract_address" where
  "icp_get_fee_limit i = (NewAmountBlockchainFromUint64 (ic_fee i), ic_canister i)"

definition icp_independent_of :: "icp_input \<Rightarrow> 'd tx_input option \<Rightarrow> bool" where
  "icp_independent_of i other = (case other of
       Some (IcpIn o') \<Rightarrow> ic_create_time i \<noteq> ic_create_time o' | _ \<Rightarrow> True)"

definition icp_safe_from_double_send :: "icp_input \<Rightarrow> 'd tx_input option \<Rightarrow> bool" where
  "icp_safe_from_double_send i other = (case other of
       Some (IcpIn o') \<Rightarrow>
         (let diff = ic_create_time i - ic_create_time o'
          in if (600 :: i64) <s diff then True else False)
     | _ \<Rightarrow> True)"

subsection \<open>Hyperliquid\<close>

text \<open>\<^verbatim>\<open>Time.Sub\<close> saturates at the ends of \<open>int64\<close> nanoseconds; the margin is 48 hours.\<close>

definition time_sub :: "go_time \<Rightarrow> go_time \<Rightarrow> int" where
  "time_sub a b = max (- (2 ^ 63)) (min (2 ^ 63 - 1) (gt_nanos a - gt_nanos b))"

definition hyperliquid_get_fee_limit :: "hyperliquid_input \<Rightarrow> int \<times> contract_address" where
  "hyperliquid_get_fee_limit i = (NewAmountBlockchainFromUint64 100000000,
     ''USDC:0x6d1e7cde53ba9467b783cb7c530ce054'')"

definition hyperliquid_independent_of :: "hyperliquid_input \<Rightarrow> 'd tx_input option \<Rightarrow> bool" where
  "hyperliquid_independent_of i other = (case other of
       Some (HyperliquidIn o') \<Rightarrow> hy_transaction_time i \<noteq> hy_transaction_time o' | _ \<Rightarrow> True)"

definition hyperliquid_safe_from_double_send :: "hyperliquid_input \<Rightarrow> 'd tx_input option \<Rightarrow> bool" where
  "hyperliquid_safe_from_double_send i other = (case other of
       Some (HyperliquidIn o') \<Rightarrow>
         (let diff = time_sub (hy_transaction_time i) (hy_transaction_time o')
          in if diff > 48 * 3600 * 1000000000 then True else False)
     | _ \<Rightarrow> True)"

subsection \<open>Tron\<close>

definition tron_set_unix :: "tron_input \<Rightarrow> i64 \<Rightarrow> tron_input" where
  "tron_set_unix i unix = i\<lparr>tr_timestamp := unix, tr_expiration := unix + 7200\<rparr>"

definition tron_get_fee_limit :: "tron_input \<Rightarrow> int \<times> contract_address" where
  "tron_get_fee_limit i = (tr_max_fee i, [])"

text \<open>
  The receiver of the promoted method is the embedded input: nil for a withdraw input without
  one, and reading its timestamp then panics (\<open>None\<close>).
\<close>

definition tron_receiver :: "tron_any \<Rightarrow> tron_input option" where
  "tron_receiver t = (case t of
       TronBase i \<Rightarrow> Some i | TronStake i \<Rightarrow> Some i | TronUnstake i \<Rightarrow> Some i
     | TronWithdraw i w \<Rightarrow> i)"

definition tron_independent_of :: "tron_any \<Rightarrow> 'd tx_input option \<Rightarrow> bool" where
  "tron_independent_of t other = True"

definition tron_safe_from_double_send :: "tron_any \<Rightarrow> 'd tx_input option \<Rightarrow> bool option" where
  "tron_safe_from_double_send t other = (case as_timestamp_getter other of
       None \<Rightarrow> Some False
     | Some (_, expiration) \<Rightarrow>
        (if expiration = 0 then Some False
         else (case tron_receiver t of
             None \<Rightarrow> None
           | Some i \<Rightarrow> Some (if expiration + 60 <s tr_timestamp i then True else False))))"

subsection \<open>EOS\<close>

text \<open>Five minutes and 90 seconds, and a different head block.\<close>

definition eos_independent_of :: "eos_input \<Rightarrow> 'd tx_input option \<Rightarrow> bool" where
  "eos_independent_of i other = True"

definition eos_safe_from_double_send :: "eos_input \<Rightarrow> 'd tx_input option \<Rightarrow> bool" where
  "eos_safe_from_double_send i other = (case as_eos_info other of
       None \<Rightarrow> False
     | Some (timestamp, head_block) \<Rightarrow>
        (let diff = eo_timestamp i - timestamp
         in if diff <s 390 \<or> eo_head_block_id i = head_block then False else True))"

subsection \<open>Solana\<close>

text \<open>Keys and hashes are 32 bytes, the zero value all zero bytes.\<close>

definition zero32 :: bytes where
  "zero32 = replicate 32 0"

definition sol_has_from_nonce :: "solana_input \<Rightarrow> bool" where
  "sol_has_from_nonce i \<longleftrightarrow>
     so_durable_nonce_account i \<noteq> zero32 \<and> \<not> so_should_create_durable_nonce i"

definition sol_creating_from_nonce :: "solana_input \<Rightarrow> bool" where
  "sol_creating_from_nonce i \<longleftrightarrow>
     so_should_create_durable_nonce i \<and> so_durable_nonce_account i \<noteq> zero32"

definition sol_has_fee_payer_nonce :: "solana_input \<Rightarrow> bool" where
  "sol_has_fee_payer_nonce i \<longleftrightarrow>
     so_fee_payer_durable_nonce_account i \<noteq> zero32 \<and> \<not> so_should_create_fee_payer_nonce i"

definition sol_creating_fee_payer_nonce :: "solana_input \<Rightarrow> bool" where
  "sol_creating_fee_payer_nonce i \<longleftrightarrow>
     so_should_create_fee_payer_nonce i \<and> so_fee_payer_durable_nonce_account i \<noteq> zero32"

record durable_nonce_state =
  dn_account :: bytes
  dn_nonce :: bytes
  dn_has :: bool
  dn_creating :: bool

definition EffectiveDurableNonceState :: "solana_input \<Rightarrow> durable_nonce_state" where
  "EffectiveDurableNonceState i =
    (let feePayerState = \<lparr>dn_account = so_fee_payer_durable_nonce_account i,
           dn_nonce = so_fee_payer_durable_nonce i, dn_has = sol_has_fee_payer_nonce i,
           dn_creating = sol_creating_fee_payer_nonce i\<rparr>
     in if dn_has feePayerState \<or> dn_creating feePayerState then feePayerState
        else \<lparr>dn_account = so_durable_nonce_account i, dn_nonce = so_durable_nonce i,
              dn_has = sol_has_from_nonce i, dn_creating = sol_creating_from_nonce i\<rparr>)"

text \<open>Whether the accounts match, and whether the nonces do.\<close>

definition MatchDurableNonce :: "solana_input \<Rightarrow> solana_input \<Rightarrow> bool \<times> bool" where
  "MatchDurableNonce i other =
    (let mine = EffectiveDurableNonceState i; otherState = EffectiveDurableNonceState other
     in if dn_account mine = zero32 \<or> dn_account otherState = zero32
           \<or> dn_account mine \<noteq> dn_account otherState then (False, False)
        else if dn_creating mine \<and> dn_creating otherState then (True, True)
        else if dn_has mine \<and> dn_has otherState then (True, dn_nonce mine = dn_nonce otherState)
        else (True, False))"

definition DidTimeoutOccur :: "solana_input \<Rightarrow> solana_input \<Rightarrow> bool" where
  "DidTimeoutOccur i other =
    (let diff = so_timestamp i - so_timestamp other
     in if diff <s 600 \<or> so_recent_block_hash other = so_recent_block_hash i then False else True)"

definition solana_set_gas_fee_priority :: "'d decimal_lib \<Rightarrow> string \<Rightarrow> solana_input
    \<Rightarrow> priority_error + solana_input" where
  "solana_set_gas_fee_priority L p i = (case GetDefault L p of
       Inl e \<Rightarrow> Inl e
     | Inr m \<Rightarrow> Inr (i\<lparr>so_prioritization_fee := mul_big L m (so_prioritization_fee i)\<rparr>))"

definition solana_get_fee_limit :: "solana_input \<Rightarrow> int \<times> contract_address" where
  "solana_get_fee_limit i =
    (let computeUnits = (if so_units_consumed i = 0 \<and> big_uint64 (so_prioritization_fee i) > 0
           then 1400000 else so_units_consumed i);
         gasLimit = NewAmountBlockchainFromUint64 computeUnits;
         maxSpendMicroLamports = amt_mul gasLimit (so_prioritization_fee i);
         maxSpend = maxSpendMicroLamports div 1000000;
         feePerSignature = (if so_should_create_fee_payer_nonce i
             \<and> \<not> amt_is_zero (so_fee_payer_base_fee i)
           then so_fee_payer_base_fee i else so_base_fee i);
         totalBaseFee = amt_mul feePerSignature (NewAmountBlockchainFromUint64 1)
     in (amt_add maxSpend totalBaseFee, []))"

definition solana_independent_of :: "solana_input \<Rightarrow> 'd tx_input option \<Rightarrow> bool" where
  "solana_independent_of i other = (case as_solana_info other of
       Some o' \<Rightarrow> (case MatchDurableNonce i o' of (_, sameNonce) \<Rightarrow>
         if sameNonce then False else True)
     | None \<Rightarrow> True)"

definition solana_safe_from_double_send :: "solana_input \<Rightarrow> 'd tx_input option \<Rightarrow> bool" where
  "solana_safe_from_double_send i other = (case as_solana_info other of
       None \<Rightarrow> False
     | Some o' \<Rightarrow>
        (case MatchDurableNonce i o' of (sameAccount, sameNonce) \<Rightarrow>
          if (sol_has_from_nonce i \<or> sol_has_fee_payer_nonce i) \<and> sameAccount
          then (if sameNonce then True else False)
          else if DidTimeoutOccur i o' then True else False))"

definition solana_set_unix :: "solana_input \<Rightarrow> i64 \<Rightarrow> solana_input" where
  "solana_set_unix i unix = i\<lparr>so_timestamp := unix\<rparr>"

text \<open>
  A call's transaction, as far as it is read: the blockhash and the account keys. \<open>SetCall\<close> takes
  the blockhash over, and as the durable nonce when the transaction refers to ours.
\<close>

record solana_tx =
  st_recent_blockhash :: bytes
  st_account_keys :: "bytes list"

definition sol_tx_uses_nonce :: "solana_tx \<Rightarrow> bytes \<Rightarrow> bytes \<Rightarrow> bool" where
  "sol_tx_uses_nonce tx account nonce =
    (if st_recent_blockhash tx = nonce \<and> nonce \<noteq> zero32 then True
     else account \<in> set (st_account_keys tx))"

definition DoesTxUseOurDurableNonce :: "solana_input \<Rightarrow> solana_tx \<Rightarrow> bool \<times> bytes \<times> bool" where
  "DoesTxUseOurDurableNonce i tx =
    (let fromRef = sol_tx_uses_nonce tx (so_durable_nonce_account i) (so_durable_nonce i);
         payerRef = sol_tx_uses_nonce tx (so_fee_payer_durable_nonce_account i)
           (so_fee_payer_durable_nonce i)
     in if fromRef \<and> sol_has_from_nonce i then (True, so_durable_nonce i, True)
        else if payerRef \<and> sol_has_fee_payer_nonce i
          then (True, so_fee_payer_durable_nonce i, True)
        else (fromRef \<or> payerRef, zero32, False))"

definition solana_set_call :: "solana_input \<Rightarrow> solana_tx \<Rightarrow> solana_input" where
  "solana_set_call i tx =
    (let i = i\<lparr>so_recent_block_hash := st_recent_blockhash tx\<rparr>;
         (usingDurableNonce, _, _) = DoesTxUseOurDurableNonce i tx
     in if usingDurableNonce then i\<lparr>so_durable_nonce := st_recent_blockhash tx\<rparr>
        else i\<lparr>so_durable_nonce_account := zero32, so_durable_nonce := zero32\<rparr>)"

end
