(* ===== verification/ObjectInputs.thy ===== *)
theory ObjectInputs
  imports InputTypes
begin

text \<open>
  The inputs of the drivers whose transactions consume objects or contracts: Sui (coin objects
  within an epoch) and Canton (contracts archived by the prepared transaction).
\<close>

subsection \<open>Sui\<close>

definition CoinEqual :: "sui_coin \<Rightarrow> sui_coin \<Rightarrow> bool" where
  "CoinEqual a b \<longleftrightarrow> sc_object_id a = sc_object_id b \<and> sc_version a = sc_version b
     \<and> sc_digest a = sc_digest b"

definition coinsDisjoint :: "sui_input \<Rightarrow> sui_coin list \<times> sui_coin \<times> u64 \<Rightarrow> bool" where
  "coinsDisjoint i other = (case other of (coins, gasCoin, _) \<Rightarrow>
     if CoinEqual (si_gas_coin i) gasCoin then False
     else \<not> list_ex (\<lambda>coinOther. list_ex (\<lambda>coinInput.
         CoinEqual coinOther coinInput \<or> CoinEqual coinOther (si_gas_coin i)
         \<or> CoinEqual coinInput gasCoin) (si_coins i)) coins)"

definition sui_independent_of :: "sui_input \<Rightarrow> 'd tx_input option \<Rightarrow> bool" where
  "sui_independent_of i other = (case other of
       Some (SuiIn Base o') \<Rightarrow>
         (if si_current_epoch o' \<noteq> si_current_epoch i then True
          else if coinsDisjoint i (si_coins o', si_gas_coin o', si_current_epoch o') then True
          else False)
     | _ \<Rightarrow> False)"

definition sui_safe_from_double_send :: "sui_input \<Rightarrow> 'd tx_input option \<Rightarrow> bool" where
  "sui_safe_from_double_send i other = (case as_coin_getter other of
       None \<Rightarrow> False
     | Some (coins, gasCoin, epoch) \<Rightarrow>
         (if coinsDisjoint i (coins, gasCoin, epoch) \<and> si_current_epoch i = epoch
          then False else True))"

definition sui_set_gas_fee_priority :: "'d decimal_lib \<Rightarrow> string \<Rightarrow> sui_input
    \<Rightarrow> priority_error + sui_input" where
  "sui_set_gas_fee_priority L p i = (case GetDefault L p of
       Inl e \<Rightarrow> Inl e
     | Inr m \<Rightarrow> Inr (i\<lparr>si_gas_price := big_uint64 (mul_big L m (sint (si_gas_price i))),
                       si_gas_budget := big_uint64 (mul_big L m (sint (si_gas_budget i)))\<rparr>))"

definition sui_get_fee_limit :: "sui_input \<Rightarrow> int \<times> contract_address" where
  "sui_get_fee_limit i = (NewAmountBlockchainFromUint64 (si_gas_budget i), [])"

text \<open>The loop leaves the type of the last coin in \<open>coinType\<close>.\<close>

fun sui_sum_coins :: "sui_coin list \<Rightarrow> int \<Rightarrow> string \<Rightarrow> int \<times> string" where
  "sui_sum_coins [] amount coinType = (amount, coinType)"
| "sui_sum_coins (c # cs) amount coinType = sui_sum_coins cs
     (amt_add amount (NewAmountBlockchainFromUint64 (sc_balance c))) (sc_coin_type c)"

definition sui_total_balance :: "sui_input \<Rightarrow> int" where
  "sui_total_balance i = (case sui_sum_coins (si_coins i) 0 [] of (amount, coinType) \<Rightarrow>
     if coinType = [] \<or> coinType = sc_coin_type (si_gas_coin i)
     then amt_add amount (NewAmountBlockchainFromUint64 (sc_balance (si_gas_coin i)))
     else amount)"

fun drop_first_object :: "bytes \<Rightarrow> sui_coin list \<Rightarrow> sui_coin list" where
  "drop_first_object oid [] = []"
| "drop_first_object oid (c # cs) =
     (if sc_object_id c = oid then cs else c # drop_first_object oid cs)"

definition sui_exclude_gas_coin :: "sui_input \<Rightarrow> sui_input" where
  "sui_exclude_gas_coin i =
     i\<lparr>si_coins := drop_first_object (sc_object_id (si_gas_coin i)) (si_coins i)\<rparr>"

definition sui_is_native_transfer :: "sui_input \<Rightarrow> bool" where
  "sui_is_native_transfer i = (case si_coins i of
       [] \<Rightarrow> True
     | c # _ \<Rightarrow> if sc_coin_type c \<noteq> sc_coin_type (si_gas_coin i) then False else True)"

subsection \<open>Canton\<close>

text \<open>
  The contract ids of the consuming exercises of a prepared transaction, in key order and without
  duplicates, as the ordered map gives them.
\<close>

fun canton_node_contract :: "canton_node \<Rightarrow> string list" where
  "canton_node_contract (Some (Some e)) =
     (if \<not> cx_consuming e \<or> cx_contract_id e = [] then [] else [cx_contract_id e])"
| "canton_node_contract _ = []"

definition consumingContractIDs :: "prepared_transaction option \<Rightarrow> string list" where
  "consumingContractIDs prepared = (case prepared of
       None \<Rightarrow> []
     | Some nodes \<Rightarrow> sort (remdups (concat (map canton_node_contract nodes))))"

text \<open>The methods of \<^verbatim>\<open>cantonConflictInput\<close>, gathered in one record per input.\<close>

record canton_conflict =
  k_submission_id :: string
  k_contract_ids_known :: bool
  k_contract_ids :: "string list"
  k_conflict_key :: string

definition canton_conflict_of :: "canton_input \<Rightarrow> canton_conflict" where
  "canton_conflict_of i = \<lparr>k_submission_id = cn_submission_id i,
     k_contract_ids_known = (cn_prepared i \<noteq> None),
     k_contract_ids = consumingContractIDs (cn_prepared i), k_conflict_key = []\<rparr>"

definition canton_create_conflict_of :: "canton_create_account_input \<Rightarrow> canton_conflict" where
  "canton_create_conflict_of i = \<lparr>k_submission_id = cc_setup_submission_id i,
     k_contract_ids_known =
       (if cc_stage i = ''allocate_external_party'' then True
        else if cc_stage i = ''accept_external_party_setup_proposal''
          then cc_setup_prepared i \<noteq> None
        else False),
     k_contract_ids = consumingContractIDs (cc_setup_prepared i),
     k_conflict_key = (if cc_party_id i = [] \<or> cc_stage i = [] then []
       else cc_party_id i @ ''/'' @ cc_stage i)\<rparr>"

fun as_canton :: "'d tx_input option \<Rightarrow> canton_conflict option" where
  "as_canton (Some (CantonIn k i)) = Some (canton_conflict_of i)"
| "as_canton (Some (CantonCreateAccountIn i)) = Some (canton_create_conflict_of i)"
| "as_canton _ = None"

text \<open>Conflict and whether it is known.\<close>

definition cantonContractIDConflict :: "canton_conflict \<Rightarrow> canton_conflict \<Rightarrow> bool \<times> bool" where
  "cantonContractIDConflict i other =
    (if \<not> k_contract_ids_known i \<or> \<not> k_contract_ids_known other then (False, False)
     else (let inputContracts = filter (\<lambda>c. c \<noteq> []) (k_contract_ids i);
               otherContracts = filter (\<lambda>c. c \<noteq> []) (k_contract_ids other)
           in if inputContracts = [] \<or> otherContracts = [] then (False, True)
              else (list_ex (\<lambda>c. c \<in> set otherContracts) inputContracts, True)))"

definition cantonIndependentOf :: "canton_conflict \<Rightarrow> 'd tx_input option \<Rightarrow> bool" where
  "cantonIndependentOf i other = (case as_canton other of
       None \<Rightarrow> False
     | Some c \<Rightarrow>
        (if k_submission_id i \<noteq> [] \<and> k_submission_id i = k_submission_id c then False
         else if k_conflict_key i \<noteq> [] \<and> k_conflict_key i = k_conflict_key c then False
         else (case cantonContractIDConflict i c of (conflict, known) \<Rightarrow>
            if \<not> known then False else \<not> conflict)))"

definition cantonSafeFromDoubleSend :: "canton_conflict \<Rightarrow> 'd tx_input option \<Rightarrow> bool" where
  "cantonSafeFromDoubleSend i other = (case as_canton other of
       None \<Rightarrow> False
     | Some c \<Rightarrow>
        (if k_submission_id i \<noteq> [] \<and> k_submission_id i = k_submission_id c then True
         else if k_conflict_key i \<noteq> [] \<and> k_conflict_key i = k_conflict_key c then True
         else (case cantonContractIDConflict i c of (conflict, known) \<Rightarrow> known \<and> conflict)))"

datatype create_account_error = PartyIdEmpty | TopologyEmpty | SetupPreparedEmpty
  | UnsupportedStage string

definition VerifySignaturePayloads :: "canton_create_account_input
    \<Rightarrow> create_account_error + unit" where
  "VerifySignaturePayloads i =
    (if cc_party_id i = [] then Inl PartyIdEmpty
     else if cc_stage i = ''allocate_external_party'' then
       (if length (cc_topology_transactions i) = 0 then Inl TopologyEmpty else Inr ())
     else if cc_stage i = ''accept_external_party_setup_proposal'' then
       (if cc_setup_prepared i = None then Inl SetupPreparedEmpty else Inr ())
     else Inl (UnsupportedStage (cc_stage i)))"

subsection \<open>Lemmas\<close>

lemma CoinEqual_refl [simp]: "CoinEqual a a"
  by (simp add: CoinEqual_def)

lemma CoinEqual_sym: "CoinEqual a b \<longleftrightarrow> CoinEqual b a"
  by (auto simp: CoinEqual_def)

lemma set_consumingContractIDs:
  "set (consumingContractIDs (Some nodes)) =
     {cx_contract_id e | e. Some (Some e) \<in> set nodes \<and> cx_consuming e \<and> cx_contract_id e \<noteq> []}"
proof -
  have "set (canton_node_contract n) =
    {cx_contract_id e | e. n = Some (Some e) \<and> cx_consuming e \<and> cx_contract_id e \<noteq> []}" for n
    by (cases n rule: canton_node_contract.cases) auto
  then show ?thesis by (auto simp: consumingContractIDs_def)
qed

lemma consumingContractIDs_None [simp]: "consumingContractIDs None = []"
  by (simp add: consumingContractIDs_def)

lemma consumingContractIDs_nonempty: "c \<in> set (consumingContractIDs p) \<Longrightarrow> c \<noteq> []"
  by (cases p) (auto simp: set_consumingContractIDs)

lemma canton_conflict_iff:
  assumes "k_contract_ids_known i" and "k_contract_ids_known j"
    and "\<forall>c\<in>set (k_contract_ids i). c \<noteq> []"
  shows "fst (cantonContractIDConflict i j) \<longleftrightarrow> set (k_contract_ids i) \<inter> set (k_contract_ids j) \<noteq> {}"
  using assms by (auto simp: cantonContractIDConflict_def Let_def list_ex_iff filter_empty_conv)

end
