(* ===== verification/Conflicts.thy ===== *)
theory Conflicts
  imports Prelude
begin

text \<open>
  The contract of \<^verbatim>\<open>TxInputConflicts\<close> in \<^verbatim>\<open>tx.go\<close>, on an abstract ledger. A transaction built
  from an input consumes the resources the input names (outpoints, a sequence number); a ledger
  accepts a transaction when none of them is consumed yet. \<open>IndependentOf\<close> promises that two
  inputs share no resource, \<open>SafeFromDoubleSend\<close> that only one of a history of signing attempts
  can land. A second ledger has a clock, for the drivers whose transactions expire instead.
\<close>

subsection \<open>A ledger of consumed resources\<close>

record ('i, 'r) ledger =
  consumed :: "'r set"
  landed :: "'i list"

text \<open>
  The states a ledger can reach while the transactions of the inputs \<open>A\<close> are in flight: it starts
  with any resources consumed, in each step one transaction of \<open>A\<close> lands (the same transaction
  at most once) or transactions of others consume any resources.
\<close>

inductive ledger_run :: "('i \<Rightarrow> 'r set) \<Rightarrow> 'i set \<Rightarrow> ('i, 'r) ledger \<Rightarrow> bool"
  for res :: "'i \<Rightarrow> 'r set" and A :: "'i set" where
  start: "ledger_run res A \<lparr>consumed = R, landed = []\<rparr>"
| land: "ledger_run res A s \<Longrightarrow> i \<in> A \<Longrightarrow> i \<notin> set (landed s) \<Longrightarrow> res i \<inter> consumed s = {} \<Longrightarrow>
    ledger_run res A (s\<lparr>consumed := consumed s \<union> res i, landed := i # landed s\<rparr>)"
| others: "ledger_run res A s \<Longrightarrow> ledger_run res A (s\<lparr>consumed := consumed s \<union> R\<rparr>)"

definition ledger_inv :: "('i \<Rightarrow> 'r set) \<Rightarrow> 'i set \<Rightarrow> ('i, 'r) ledger \<Rightarrow> bool" where
  "ledger_inv res A s \<longleftrightarrow> set (landed s) \<subseteq> A \<and> distinct (landed s)
     \<and> (\<forall>i\<in>set (landed s). res i \<subseteq> consumed s)
     \<and> pairwise (\<lambda>i j. res i \<inter> res j = {}) (set (landed s))"

lemma ledger_run_inv: "ledger_run res A s \<Longrightarrow> ledger_inv res A s"
proof (induction rule: ledger_run.induct)
  case (start R)
  show ?case by (simp add: ledger_inv_def)
next
  case (land s i)
  then have "\<forall>j\<in>set (landed s). res i \<inter> res j = {}"
    unfolding ledger_inv_def by blast
  with land show ?case
    unfolding ledger_inv_def by (auto simp: pairwise_insert Int_commute)
next
  case (others s R)
  then show ?case by (auto simp: ledger_inv_def)
qed

lemma disjoint_both_land:
  assumes "i \<noteq> j" and "res i \<inter> res j = {}"
  shows "\<exists>s. ledger_run res {i, j} s \<and> landed s = [j, i]"
proof -
  define s1 where "s1 = \<lparr>consumed = res i, landed = [i]\<rparr>"
  have "ledger_run res {i, j} s1"
    using ledger_run.land [OF ledger_run.start [of res "{i, j}" "{}"], of i] by (simp add: s1_def)
  from ledger_run.land [OF this, of j] have
    "ledger_run res {i, j} \<lparr>consumed = res i \<union> res j, landed = [j, i]\<rparr>"
    using assms by (simp add: s1_def Int_commute)
  then show ?thesis by force
qed

text \<open>
  A history of attempts, the newest first: each was signed only when it was safe against every
  attempt before it.
\<close>

fun safe_attempts :: "('i \<Rightarrow> 'i \<Rightarrow> bool) \<Rightarrow> 'i list \<Rightarrow> bool" where
  "safe_attempts safe [] \<longleftrightarrow> True"
| "safe_attempts safe (i # is) \<longleftrightarrow> (\<forall>j\<in>set is. safe i j) \<and> safe_attempts safe is"

lemma safe_attempts_pair:
  "safe_attempts safe is \<Longrightarrow> i \<in> set is \<Longrightarrow> j \<in> set is \<Longrightarrow> i \<noteq> j \<Longrightarrow> safe i j \<or> safe j i"
  by (induction "is") auto

subsection \<open>Inputs with exclusive resources\<close>

text \<open>
  \<open>dom\<close> is the domain of the contract: inputs of one driver and one sender, as the interface
  assumes.
\<close>

locale exclusive_inputs =
  fixes res :: "'i \<Rightarrow> 'r set"
    and indep safe :: "'i \<Rightarrow> 'i \<Rightarrow> bool"
    and dom :: "'i \<Rightarrow> bool"
  assumes indep_iff: "dom i \<Longrightarrow> dom j \<Longrightarrow> indep i j \<longleftrightarrow> res i \<inter> res j = {}"
    and safe_iff: "dom i \<Longrightarrow> dom j \<Longrightarrow> safe i j \<longleftrightarrow> \<not> indep i j"
begin

lemma indep_sym: "dom i \<Longrightarrow> dom j \<Longrightarrow> indep i j \<longleftrightarrow> indep j i"
  by (simp add: indep_iff Int_commute)

lemma safe_sym: "dom i \<Longrightarrow> dom j \<Longrightarrow> safe i j \<longleftrightarrow> safe j i"
  by (simp add: safe_iff indep_sym)

lemma safe_conflict: "dom i \<Longrightarrow> dom j \<Longrightarrow> safe i j \<Longrightarrow> res i \<inter> res j \<noteq> {}"
  by (simp add: safe_iff indep_iff)

lemma at_most_one_lands:
  assumes dom: "\<forall>i\<in>set is. dom i" and safe: "safe_attempts safe is"
    and run: "ledger_run res (set is) s"
  shows "length (landed s) \<le> 1"
proof -
  have inv: "ledger_inv res (set is) s" by (rule ledger_run_inv [OF run])
  have "i = j" if "i \<in> set (landed s)" and "j \<in> set (landed s)" for i j
  proof (rule ccontr)
    assume ne: "i \<noteq> j"
    from inv that have ij: "i \<in> set is" "j \<in> set is" by (auto simp: ledger_inv_def)
    with safe ne have "safe i j \<or> safe j i" by (blast dest: safe_attempts_pair)
    with dom ij have "res i \<inter> res j \<noteq> {}" by (metis Int_commute safe_conflict)
    with inv that ne show False by (auto simp: ledger_inv_def pairwise_def)
  qed
  then have "card (set (landed s)) \<le> 1"
    by (auto simp: card_le_Suc0_iff_eq)
  moreover have "distinct (landed s)" using inv by (simp add: ledger_inv_def)
  ultimately show ?thesis
    by (simp add: distinct_card)
qed

end

subsection \<open>Inputs that expire\<close>

text \<open>
  A ledger with a clock: a transaction lands only while it is not expired. The states are those
  reachable while attempts are signed one after the other (\<open>created\<close> is the time of signing, and
  a transaction lands no earlier), the newest one safe against the others, and none of the older
  ones on the ledger when it is signed.
\<close>

record 'i timed_ledger =
  now :: int
  attempts :: "'i list"
  tlanded :: "'i list"

inductive timed_run :: "('i \<Rightarrow> int) \<Rightarrow> ('i \<Rightarrow> int) \<Rightarrow> ('i \<Rightarrow> 'i \<Rightarrow> bool) \<Rightarrow> 'i timed_ledger \<Rightarrow> bool"
  for created expiry :: "'i \<Rightarrow> int" and safe :: "'i \<Rightarrow> 'i \<Rightarrow> bool" where
  start: "timed_run created expiry safe \<lparr>now = t, attempts = [], tlanded = []\<rparr>"
| tick: "timed_run created expiry safe s \<Longrightarrow> now s \<le> t \<Longrightarrow>
    timed_run created expiry safe (s\<lparr>now := t\<rparr>)"
| sign: "timed_run created expiry safe s \<Longrightarrow> created i \<le> now s \<Longrightarrow>
    (\<forall>j\<in>set (attempts s). safe i j) \<Longrightarrow> tlanded s = [] \<Longrightarrow>
    timed_run created expiry safe (s\<lparr>attempts := i # attempts s\<rparr>)"
| land: "timed_run created expiry safe s \<Longrightarrow> i \<in> set (attempts s) \<Longrightarrow> i \<notin> set (tlanded s) \<Longrightarrow>
    now s \<le> expiry i \<Longrightarrow> timed_run created expiry safe (s\<lparr>tlanded := i # tlanded s\<rparr>)"

locale expiring_inputs =
  fixes created expiry :: "'i \<Rightarrow> int"
    and safe :: "'i \<Rightarrow> 'i \<Rightarrow> bool"
    and dom :: "'i \<Rightarrow> bool"
  assumes safe_expired: "dom i \<Longrightarrow> dom j \<Longrightarrow> safe i j \<Longrightarrow> expiry j < created i"
begin

text \<open>At any time only the newest attempt can still land, and what landed is the newest attempt.\<close>

definition timed_inv :: "'i timed_ledger \<Rightarrow> bool" where
  "timed_inv s \<longleftrightarrow> (\<forall>j\<in>set (tl (attempts s)). expiry j < now s)
     \<and> (tlanded s = [] \<or> tlanded s = [hd (attempts s)])"

lemma timed_run_inv:
  assumes "timed_run created expiry (\<lambda>i j. dom i \<and> dom j \<and> safe i j) s"
  shows "timed_inv s"
  using assms
proof (induction rule: timed_run.induct)
  case (start t)
  show ?case by (simp add: timed_inv_def)
next
  case (tick s t)
  then show ?case by (fastforce simp: timed_inv_def)
next
  case (sign s i)
  then have "\<forall>j\<in>set (attempts s). expiry j < now s"
    using safe_expired by fastforce
  with sign show ?case by (simp add: timed_inv_def)
next
  case (land s i)
  then have "i = hd (attempts s)"
    by (cases "attempts s") (auto simp: timed_inv_def)
  with land show ?case by (auto simp: timed_inv_def)
qed

lemma older_expired:
  assumes "timed_run created expiry (\<lambda>i j. dom i \<and> dom j \<and> safe i j) s"
  shows "(\<forall>j\<in>set (tl (attempts s)). expiry j < now s) \<and> (tlanded s = [] \<or> tlanded s = [hd (attempts s)])"
  using timed_run_inv [OF assms] by (simp add: timed_inv_def)

end

end
