(* ===== verification/TxInputs.thy ===== *)
theory TxInputs
  imports UtxoInputs NonceInputs ExpiringInputs ObjectInputs Conflicts
begin

text \<open>
  The \<^verbatim>\<open>xc.TxInput\<close> interface over all drivers: each method dispatches on the dynamic type to the
  driver's method. \<open>family\<close> names the domains in which a driver keeps the contract of
  \<^verbatim>\<open>TxInputConflicts\<close> with exclusive resources; there the dispatcher interprets the locale
  \<open>exclusive_inputs\<close>. The drivers whose transactions expire interpret \<open>expiring_inputs\<close>.
\<close>

subsection \<open>The interface\<close>

fun independent_of :: "'d tx_input \<Rightarrow> 'd tx_input option \<Rightarrow> bool" where
  "independent_of (BitcoinIn i) other = btc_independent_of (bi_unspent_outputs i) other"
| "independent_of (BitcoinMultiIn m) other = btc_independent_of (btc_multi_utxo m) other"
| "independent_of (KaspaIn i) other = kaspa_independent_of i other"
| "independent_of (CardanoIn k i) other = cardano_independent_of i other"
| "independent_of (EvmIn k i) other = evm_independent_of i other"
| "independent_of (XrpIn i) other = xrp_independent_of i other"
| "independent_of (XlmIn i) other = xlm_independent_of i other"
| "independent_of (NearIn i) other = near_independent_of i other"
| "independent_of (FilecoinIn i) other = filecoin_independent_of i other"
| "independent_of (DuskIn i) other = dusk_independent_of i other"
| "independent_of (EgldIn i) other = egld_independent_of i other"
| "independent_of (AptosIn i) other = aptos_independent_of i other"
| "independent_of (TonIn i) other = ton_independent_of i other"
| "independent_of (SubstrateIn i) other = substrate_independent_of i other"
| "independent_of (CosmosIn k i) other = cosmos_independent_of i other"
| "independent_of (HederaIn i) other = hedera_independent_of i other"
| "independent_of (IcpIn i) other = icp_independent_of i other"
| "independent_of (HyperliquidIn i) other = hyperliquid_independent_of i other"
| "independent_of (TronIn t) other = tron_independent_of t other"
| "independent_of (EosIn k i) other = eos_independent_of i other"
| "independent_of (SolanaIn k i) other = solana_independent_of i other"
| "independent_of (SuiIn k i) other = sui_independent_of i other"
| "independent_of (CantonIn k i) other = cantonIndependentOf (canton_conflict_of i) other"
| "independent_of (CantonCreateAccountIn i) other =
     cantonIndependentOf (canton_create_conflict_of i) other"
| "independent_of TemplateIn other = False"

text \<open>\<open>None\<close> is the nil-pointer panic of Tron's withdraw input.\<close>

fun safe_from_double_send :: "'d tx_input \<Rightarrow> 'd tx_input option \<Rightarrow> bool option" where
  "safe_from_double_send (BitcoinIn i) other =
     Some (btc_safe_from_double_send (bi_unspent_outputs i) other)"
| "safe_from_double_send (BitcoinMultiIn m) other =
     Some (btc_safe_from_double_send (btc_multi_utxo m) other)"
| "safe_from_double_send (KaspaIn i) other = Some (kaspa_safe_from_double_send i other)"
| "safe_from_double_send (CardanoIn k i) other = Some (cardano_safe_from_double_send i other)"
| "safe_from_double_send (EvmIn k i) other = Some (evm_safe_from_double_send i other)"
| "safe_from_double_send (XrpIn i) other = Some (xrp_safe_from_double_send i other)"
| "safe_from_double_send (XlmIn i) other = Some (xlm_safe_from_double_send i other)"
| "safe_from_double_send (NearIn i) other = Some (near_safe_from_double_send i other)"
| "safe_from_double_send (FilecoinIn i) other = Some (filecoin_safe_from_double_send i other)"
| "safe_from_double_send (DuskIn i) other = Some (dusk_safe_from_double_send i other)"
| "safe_from_double_send (EgldIn i) other = Some (egld_safe_from_double_send i other)"
| "safe_from_double_send (AptosIn i) other = Some (aptos_safe_from_double_send i other)"
| "safe_from_double_send (TonIn i) other = Some (ton_safe_from_double_send i other)"
| "safe_from_double_send (SubstrateIn i) other = Some (substrate_safe_from_double_send i other)"
| "safe_from_double_send (CosmosIn k i) other = Some (cosmos_safe_from_double_send i other)"
| "safe_from_double_send (HederaIn i) other = Some (hedera_safe_from_double_send i other)"
| "safe_from_double_send (IcpIn i) other = Some (icp_safe_from_double_send i other)"
| "safe_from_double_send (HyperliquidIn i) other =
     Some (hyperliquid_safe_from_double_send i other)"
| "safe_from_double_send (TronIn t) other = tron_safe_from_double_send t other"
| "safe_from_double_send (EosIn k i) other = Some (eos_safe_from_double_send i other)"
| "safe_from_double_send (SolanaIn k i) other = Some (solana_safe_from_double_send i other)"
| "safe_from_double_send (SuiIn k i) other = Some (sui_safe_from_double_send i other)"
| "safe_from_double_send (CantonIn k i) other =
     Some (cantonSafeFromDoubleSend (canton_conflict_of i) other)"
| "safe_from_double_send (CantonCreateAccountIn i) other =
     Some (cantonSafeFromDoubleSend (canton_create_conflict_of i) other)"
| "safe_from_double_send TemplateIn other = Some False"

fun get_fee_limit :: "'d decimal_lib \<Rightarrow> 'd tx_input \<Rightarrow> (int \<times> contract_address) option" where
  "get_fee_limit L (BitcoinIn i) = Some (btc_get_fee_limit L i)"
| "get_fee_limit L (BitcoinMultiIn m) = Some (btc_multi_get_fee_limit L m)"
| "get_fee_limit L (KaspaIn i) = Some (kaspa_get_fee_limit i)"
| "get_fee_limit L (CardanoIn k i) = Some (cardano_get_fee_limit i)"
| "get_fee_limit L (EvmIn k i) = Some (evm_kind_fee_limit k i)"
| "get_fee_limit L (XrpIn i) = Some (xrp_get_fee_limit i)"
| "get_fee_limit L (XlmIn i) = Some (xlm_get_fee_limit i)"
| "get_fee_limit L (NearIn i) = Some (near_get_fee_limit i)"
| "get_fee_limit L (FilecoinIn i) = Some (filecoin_get_fee_limit i)"
| "get_fee_limit L (DuskIn i) = Some (dusk_get_fee_limit i)"
| "get_fee_limit L (EgldIn i) = Some (egld_get_fee_limit i)"
| "get_fee_limit L (AptosIn i) = Some (aptos_get_fee_limit i)"
| "get_fee_limit L (TonIn i) = Some (ton_get_fee_limit i)"
| "get_fee_limit L (SubstrateIn i) = Some (substrate_get_fee_limit i)"
| "get_fee_limit L (CosmosIn k i) = Some (cosmos_get_fee_limit L i)"
| "get_fee_limit L (HederaIn i) = Some (hedera_get_fee_limit i)"
| "get_fee_limit L (IcpIn i) = Some (icp_get_fee_limit i)"
| "get_fee_limit L (HyperliquidIn i) = Some (hyperliquid_get_fee_limit i)"
| "get_fee_limit L (TronIn t) = map_option tron_get_fee_limit (tron_receiver t)"
| "get_fee_limit L (EosIn k i) = Some (0, [])"
| "get_fee_limit L (SolanaIn k i) = Some (solana_get_fee_limit i)"
| "get_fee_limit L (SuiIn k i) = Some (sui_get_fee_limit i)"
| "get_fee_limit L (CantonIn k i) = Some (0, [])"
| "get_fee_limit L (CantonCreateAccountIn i) = Some (0, [])"
| "get_fee_limit L TemplateIn = Some (0, [])"

text \<open>
  The priority changes the input in place, so the result is the input after the call with the
  error, if any; \<open>None\<close> is Dusk's panic on a zero gas price. \<open>checked\<close> is a driver that only
  parses the priority.
\<close>

datatype input_error = PriorityError priority_error | XlmError xlm_error

definition put :: "('i \<Rightarrow> 'd tx_input) \<Rightarrow> 'i \<Rightarrow> priority_error + 'i
    \<Rightarrow> ('d tx_input \<times> input_error option) option" where
  "put C i r = Some (case r of Inl e \<Rightarrow> (C i, Some (PriorityError e)) | Inr i' \<Rightarrow> (C i', None))"

definition checked :: "'d decimal_lib \<Rightarrow> string \<Rightarrow> 'd tx_input
    \<Rightarrow> ('d tx_input \<times> input_error option) option" where
  "checked L p i = Some (case GetDefault L p of
       Inl e \<Rightarrow> (i, Some (PriorityError e)) | Inr _ \<Rightarrow> (i, None))"

fun set_gas_fee_priority :: "'d decimal_lib \<Rightarrow> string \<Rightarrow> 'd tx_input
    \<Rightarrow> ('d tx_input \<times> input_error option) option" where
  "set_gas_fee_priority L p (BitcoinIn i) = put BitcoinIn i (btc_set_gas_fee_priority L p i)"
| "set_gas_fee_priority L p (BitcoinMultiIn m) =
     put BitcoinMultiIn m (btc_multi_set_gas_fee_priority L p m)"
| "set_gas_fee_priority L p (KaspaIn i) = put KaspaIn i (kaspa_set_gas_fee_priority L p i)"
| "set_gas_fee_priority L p (EvmIn k i) = put (EvmIn k) i (evm_set_gas_fee_priority L p i)"
| "set_gas_fee_priority L p (XrpIn i) = put XrpIn i (xrp_set_gas_fee_priority L p i)"
| "set_gas_fee_priority L p (XlmIn i) = (case xlm_set_gas_fee_priority L p i of
     (i', e) \<Rightarrow> Some (XlmIn i', map_option XlmError e))"
| "set_gas_fee_priority L p (FilecoinIn i) =
     put FilecoinIn i (filecoin_set_gas_fee_priority L p i)"
| "set_gas_fee_priority L p (DuskIn i) = (case dusk_set_gas_fee_priority L p i of
     None \<Rightarrow> None | Some r \<Rightarrow> put DuskIn i r)"
| "set_gas_fee_priority L p (EgldIn i) = put EgldIn i (egld_set_gas_fee_priority L p i)"
| "set_gas_fee_priority L p (AptosIn i) = put AptosIn i (aptos_set_gas_fee_priority L p i)"
| "set_gas_fee_priority L p (TonIn i) = put TonIn i (ton_set_gas_fee_priority L p i)"
| "set_gas_fee_priority L p (SubstrateIn i) =
     put SubstrateIn i (substrate_set_gas_fee_priority L p i)"
| "set_gas_fee_priority L p (CosmosIn k i) =
     put (CosmosIn k) i (cosmos_set_gas_fee_priority L p i)"
| "set_gas_fee_priority L p (HederaIn i) = put HederaIn i (hedera_set_gas_fee_priority L p i)"
| "set_gas_fee_priority L p (SolanaIn k i) =
     put (SolanaIn k) i (solana_set_gas_fee_priority L p i)"
| "set_gas_fee_priority L p (SuiIn k i) = put (SuiIn k) i (sui_set_gas_fee_priority L p i)"
| "set_gas_fee_priority L p (IcpIn i) = checked L p (IcpIn i)"
| "set_gas_fee_priority L p (TronIn t) = checked L p (TronIn t)"
| "set_gas_fee_priority L p TemplateIn = checked L p TemplateIn"
| "set_gas_fee_priority L p i = Some (i, None)"

text \<open>
  \<^verbatim>\<open>TxInputWithUnix\<close>: the types with a \<^verbatim>\<open>SetUnix\<close>; every other input is left alone. Setting the
  time through the nil pointer of a withdraw input panics.
\<close>

fun set_unix :: "i64 \<Rightarrow> 'd tx_input \<Rightarrow> 'd tx_input option" where
  "set_unix t (TonIn i) = Some (TonIn (i\<lparr>to_timestamp := t\<rparr>))"
| "set_unix t (SolanaIn k i) = Some (SolanaIn k (solana_set_unix i t))"
| "set_unix t (TronIn (TronBase i)) = Some (TronIn (TronBase (tron_set_unix i t)))"
| "set_unix t (TronIn (TronStake i)) = Some (TronIn (TronStake (tron_set_unix i t)))"
| "set_unix t (TronIn (TronUnstake i)) = Some (TronIn (TronUnstake (tron_set_unix i t)))"
| "set_unix t (TronIn (TronWithdraw (Some i) w)) =
     Some (TronIn (TronWithdraw (Some (tron_set_unix i t)) w))"
| "set_unix t (TronIn (TronWithdraw None w)) = None"
| "set_unix t (XlmIn i) = Some (XlmIn (i\<lparr>xl_timestamp := t\<rparr>))"
| "set_unix t (EosIn k i) = Some (EosIn k (i\<lparr>eo_timestamp := t\<rparr>))"
| "set_unix t i = Some i"

definition WithTxInputOptions :: "'d decimal_lib \<Rightarrow> 'd tx_input \<Rightarrow> i64 \<Rightarrow> string
    \<Rightarrow> (input_error + 'd tx_input) option" where
  "WithTxInputOptions L i timeStamp priorityMaybe =
    (case (if priorityMaybe \<noteq> [] then set_gas_fee_priority L priorityMaybe i
           else Some (i, None)) of
       None \<Rightarrow> None
     | Some (i, Some e) \<Rightarrow> Some (Inl e)
     | Some (i, None) \<Rightarrow> map_option Inr (set_unix timeStamp i))"

end
