(* ===== verification/InputConflicts.thy ===== *)
theory InputConflicts
  imports TxInputs
begin

text \<open>
  The contract of \<^verbatim>\<open>TxInputConflicts\<close> on the drivers' inputs: what an input consumes, the domains
  in which a driver's checks are exact, and the interpretation of the ledger's locales on them.
\<close>

subsection \<open>What an input consumes\<close>

datatype resource =
    ROutpoint bytes u32
  | RKaspa string i64
  | RCardano string "16 word"
  | RNonce string u64
  | RSequence string i64
  | RAccount u64 u64
  | RCoin bytes u64 bytes
  | RContract string
  | RSubmission string
  | RSetupStage string

definition evm_resources :: "evm_input \<Rightarrow> resource set" where
  "evm_resources i = insert (RNonce (''from:'' @ to_lower (ev_from_address i)) (ev_nonce i))
     (if ev_fee_payer_address i \<noteq> [] \<or> ev_fee_payer_nonce i \<noteq> 0
      then {RNonce (''payer:'' @ to_lower (ev_fee_payer_address i)) (ev_fee_payer_nonce i)} else {})"

definition coin_resource :: "sui_coin \<Rightarrow> resource" where
  "coin_resource c = RCoin (sc_object_id c) (sc_version c) (sc_digest c)"

definition canton_resources :: "canton_conflict \<Rightarrow> resource set" where
  "canton_resources c =
     (if k_submission_id c = [] then {} else {RSubmission (k_submission_id c)})
     \<union> (if k_conflict_key c = [] then {} else {RSetupStage (k_conflict_key c)})
     \<union> RContract ` set (k_contract_ids c)"

fun resources :: "'d tx_input \<Rightarrow> resource set" where
  "resources (BitcoinIn i) = (\<lambda>u. ROutpoint (op_hash (bo_outpoint u)) (op_index (bo_outpoint u)))
     ` set (bi_unspent_outputs i)"
| "resources (BitcoinMultiIn m) = (\<lambda>u. ROutpoint (op_hash (bo_outpoint u)) (op_index (bo_outpoint u)))
     ` set (btc_multi_utxo m)"
| "resources (KaspaIn i) = (\<lambda>u. RKaspa (ku_transaction_id u) (ku_index u)) ` set (ka_utxos i)"
| "resources (CardanoIn k i) = (\<lambda>u. RCardano (cu_tx_hash u) (cu_index u)) ` set (ca_utxos i)"
| "resources (EvmIn k i) = evm_resources i"
| "resources (XrpIn i) = {RSequence ''xrp'' (xr_sequence i)}"
| "resources (XlmIn i) = {RSequence ''xlm'' (xlm_get_sequence i)}"
| "resources (NearIn i) = {RNonce ''near'' (ne_nonce i)}"
| "resources (FilecoinIn i) = {RNonce ''filecoin'' (fi_nonce i)}"
| "resources (DuskIn i) = {RNonce ''dusk'' (du_nonce i)}"
| "resources (EgldIn i) = {RNonce ''egld'' (eg_nonce i)}"
| "resources (AptosIn i) = {RNonce ''aptos'' (ap_sequence_number i)}"
| "resources (TonIn i) = {RNonce ''ton'' (to_sequence i)}"
| "resources (SubstrateIn i) = {RNonce ''substrate'' (su_nonce i)}"
| "resources (CosmosIn k i) = {RAccount (co_account_number i) (co_sequence i)}"
| "resources (SuiIn k i) = coin_resource ` insert (si_gas_coin i) (set (si_coins i))"
| "resources (CantonIn k i) = canton_resources (canton_conflict_of i)"
| "resources (CantonCreateAccountIn i) = canton_resources (canton_create_conflict_of i)"
| "resources _ = {}"

text \<open>
  The domains, each with what fixes the sender where the check needs it: for EVM the from address
  up to the case of its letters (for transactions without a fee payer the check assumes it),
  for Stellar no sponsored fees, for Sui plain inputs of one epoch that hold a coin beside the gas
  coin, for Canton inputs whose prepared transaction is known. MultiversX is not listed: its check
  is inverted (see \<open>egld_double_send\<close> below).
\<close>

datatype family = FBitcoin | FKaspa | FCardano | FEvm address | FXrp | FXlm | FNear | FFilecoin
  | FDusk | FAptos | FTon | FSubstrate | FCosmos | FSui u64 | FCanton

fun in_family :: "family \<Rightarrow> 'd tx_input \<Rightarrow> bool" where
  "in_family f (BitcoinIn i) \<longleftrightarrow> f = FBitcoin"
| "in_family f (BitcoinMultiIn m) \<longleftrightarrow> f = FBitcoin"
| "in_family f (KaspaIn i) \<longleftrightarrow> f = FKaspa"
| "in_family f (CardanoIn k i) \<longleftrightarrow> f = FCardano"
| "in_family f (EvmIn k i) \<longleftrightarrow> (case f of FEvm from \<Rightarrow> equal_fold (ev_from_address i) from | _ \<Rightarrow> False)"
| "in_family f (XrpIn i) \<longleftrightarrow> f = FXrp"
| "in_family f (XlmIn i) \<longleftrightarrow> f = FXlm \<and> xl_fee_payer_sequence i = 0"
| "in_family f (NearIn i) \<longleftrightarrow> f = FNear"
| "in_family f (FilecoinIn i) \<longleftrightarrow> f = FFilecoin"
| "in_family f (DuskIn i) \<longleftrightarrow> f = FDusk"
| "in_family f (AptosIn i) \<longleftrightarrow> f = FAptos"
| "in_family f (TonIn i) \<longleftrightarrow> f = FTon"
| "in_family f (SubstrateIn i) \<longleftrightarrow> f = FSubstrate"
| "in_family f (CosmosIn k i) \<longleftrightarrow> f = FCosmos"
| "in_family f (SuiIn k i) \<longleftrightarrow> f = FSui (si_current_epoch i) \<and> k = Base \<and> si_coins i \<noteq> []"
| "in_family f (CantonIn k i) \<longleftrightarrow> f = FCanton \<and> k_contract_ids_known (canton_conflict_of i)"
| "in_family f (CantonCreateAccountIn i) \<longleftrightarrow>
     f = FCanton \<and> k_contract_ids_known (canton_create_conflict_of i)"
| "in_family f _ \<longleftrightarrow> False"

subsection \<open>The drivers' checks decide the overlap\<close>

lemma spends_any_iff:
  "spends_any u us \<longleftrightarrow> (\<exists>v\<in>set us. op_hash (bo_outpoint u) = op_hash (bo_outpoint v)
     \<and> op_index (bo_outpoint u) = op_index (bo_outpoint v))"
  by (induction us) (auto simp: outpoint_equals_def)

lemma utxo_disjoint_iff:
  "utxo_disjoint us vs \<longleftrightarrow> \<not> (\<exists>u\<in>set us. spends_any u vs)"
  by (induction us) auto

lemma utxo_disjoint_resources:
  "utxo_disjoint us vs \<longleftrightarrow>
     (\<lambda>u. ROutpoint (op_hash (bo_outpoint u)) (op_index (bo_outpoint u))) ` set vs
     \<inter> (\<lambda>u. ROutpoint (op_hash (bo_outpoint u)) (op_index (bo_outpoint u))) ` set us = {}"
  by (auto simp: utxo_disjoint_iff spends_any_iff; metis)

lemma btc_indep_iff:
  "as_utxo_getter (Some j) = Some us \<Longrightarrow> btc_independent_of vs (Some j) \<longleftrightarrow>
     (\<lambda>u. ROutpoint (op_hash (bo_outpoint u)) (op_index (bo_outpoint u))) ` set vs
     \<inter> (\<lambda>u. ROutpoint (op_hash (bo_outpoint u)) (op_index (bo_outpoint u))) ` set us = {}"
  by (simp add: btc_independent_of_def utxo_disjoint_resources)

lemma kaspa_indep_iff:
  "kaspa_independent_of i (Some (KaspaIn j)) \<longleftrightarrow>
     (\<lambda>u. RKaspa (ku_transaction_id u) (ku_index u)) ` set (ka_utxos i)
     \<inter> (\<lambda>u. RKaspa (ku_transaction_id u) (ku_index u)) ` set (ka_utxos j) = {}"
  by (auto simp: kaspa_independent_of_def kaspa_utxo_equals_def list_ex_iff; blast)

lemma cardano_indep_iff:
  "cardano_independent_of i (Some (CardanoIn k j)) \<longleftrightarrow>
     (\<lambda>u. RCardano (cu_tx_hash u) (cu_index u)) ` set (ca_utxos i)
     \<inter> (\<lambda>u. RCardano (cu_tx_hash u) (cu_index u)) ` set (ca_utxos j) = {}"
  by (auto simp: cardano_independent_of_def list_ex_iff; blast)

lemma evm_indep_iff:
  "equal_fold (ev_from_address i) (ev_from_address j) \<Longrightarrow>
     evm_independent_of i (Some (EvmIn k j)) \<longleftrightarrow> evm_resources i \<inter> evm_resources j = {}"
  by (auto simp: evm_independent_of_def evm_resources_def equal_fold_def)

lemma coin_resource_eq: "coin_resource a = coin_resource b \<longleftrightarrow> CoinEqual a b"
  by (simp add: coin_resource_def CoinEqual_def)

lemma coinsDisjoint_iff:
  assumes "si_coins i \<noteq> []" and "si_coins j \<noteq> []"
  shows "coinsDisjoint i (si_coins j, si_gas_coin j, e) \<longleftrightarrow>
     resources (SuiIn k i) \<inter> resources (SuiIn k' j) = {}"
proof -
  obtain a b where "a \<in> set (si_coins i)" "b \<in> set (si_coins j)"
    using assms by (metis list.set_sel(1))
  then show ?thesis
    by (auto simp: coinsDisjoint_def list_ex_iff coin_resource_eq image_iff
        simp flip: coin_resource_eq; metis)
qed

lemma canton_resources_disjoint:
  assumes ids: "k_contract_ids_known c" "k_contract_ids_known d"
    and ne: "\<forall>x\<in>set (k_contract_ids c). x \<noteq> []"
  shows "canton_resources c \<inter> canton_resources d = {} \<longleftrightarrow>
     \<not> (k_submission_id c \<noteq> [] \<and> k_submission_id c = k_submission_id d)
     \<and> \<not> (k_conflict_key c \<noteq> [] \<and> k_conflict_key c = k_conflict_key d)
     \<and> \<not> fst (cantonContractIDConflict c d)"
  unfolding canton_conflict_iff [OF ids ne] canton_resources_def by auto

lemma canton_known:
  "k_contract_ids_known c \<Longrightarrow> k_contract_ids_known d \<Longrightarrow> snd (cantonContractIDConflict c d)"
  by (simp add: cantonContractIDConflict_def Let_def)

lemma canton_ids_nonempty:
  "\<forall>x\<in>set (k_contract_ids (canton_conflict_of i)). x \<noteq> []"
  "\<forall>x\<in>set (k_contract_ids (canton_create_conflict_of j)). x \<noteq> []"
  by (auto simp: canton_conflict_of_def canton_create_conflict_of_def
      dest: consumingContractIDs_nonempty)

lemma canton_indep_iff:
  assumes "as_canton (Some j) = Some d" and "k_contract_ids_known c" "k_contract_ids_known d"
    and "\<forall>x\<in>set (k_contract_ids c). x \<noteq> []"
  shows "cantonIndependentOf c (Some j) \<longleftrightarrow> canton_resources c \<inter> canton_resources d = {}"
  unfolding canton_resources_disjoint [OF assms(2-4)]
  using assms(1) canton_known [OF assms(2,3)]
  by (auto simp: cantonIndependentOf_def case_prod_unfold)

lemma canton_safe_iff:
  assumes "as_canton (Some j) = Some d" and "k_contract_ids_known c" "k_contract_ids_known d"
  shows "cantonSafeFromDoubleSend c (Some j) \<longleftrightarrow> \<not> cantonIndependentOf c (Some j)"
  using assms(1) canton_known [OF assms(2,3)]
  by (simp add: cantonSafeFromDoubleSend_def cantonIndependentOf_def case_prod_unfold)

lemma sui_indep_iff:
  assumes "si_coins i \<noteq> []" and "si_coins j \<noteq> []" and "si_current_epoch j = si_current_epoch i"
  shows "sui_independent_of i (Some (SuiIn Base j)) \<longleftrightarrow>
     resources (SuiIn Base i) \<inter> resources (SuiIn Base j) = {}"
proof -
  have "sui_independent_of i (Some (SuiIn Base j)) \<longleftrightarrow>
      coinsDisjoint i (si_coins j, si_gas_coin j, si_current_epoch j)"
    using assms by (simp add: sui_independent_of_def)
  also have "\<dots> \<longleftrightarrow> resources (SuiIn Base i) \<inter> resources (SuiIn Base j) = {}"
    by (rule coinsDisjoint_iff [OF assms(1,2)])
  finally show ?thesis .
qed

lemma near_indep_iff:
  "near_independent_of i (Some (NearIn j)) \<longleftrightarrow> ne_nonce j \<noteq> ne_nonce i"
  "near_safe_from_double_send i (Some (NearIn j)) \<longleftrightarrow> ne_nonce j = ne_nonce i"
  by (auto simp: near_independent_of_def near_safe_from_double_send_def)

lemmas independent_defs = btc_indep_iff kaspa_indep_iff cardano_indep_iff evm_indep_iff
  xrp_independent_of_def xlm_independent_of_def near_indep_iff
  filecoin_independent_of_def dusk_independent_of_def aptos_independent_of_def
  ton_independent_of_def substrate_independent_of_def cosmos_independent_of_def
  canton_indep_iff

lemmas safe_defs = btc_safe_from_double_send_def kaspa_safe_from_double_send_def
  cardano_safe_from_double_send_def evm_safe_from_double_send_def xrp_safe_from_double_send_def
  xlm_safe_from_double_send_def near_indep_iff
  filecoin_safe_from_double_send_def dusk_safe_from_double_send_def
  aptos_safe_from_double_send_def ton_safe_from_double_send_def
  substrate_safe_from_double_send_def cosmos_safe_from_double_send_def
  sui_safe_from_double_send_def

lemma independent_resources:
  assumes "in_family f i" and "in_family f j"
  shows "independent_of i (Some j) \<longleftrightarrow> resources i \<inter> resources j = {}"
proof (cases i)
  case (EvmIn k e)
  with assms obtain a where "f = FEvm a" by (auto split: family.splits)
  with assms EvmIn show ?thesis
    by (cases j) (simp_all, metis equal_fold_def evm_indep_iff)
next
  case (SuiIn k e)
  with assms show ?thesis
    by (cases j) (simp_all add: sui_indep_iff del: resources.simps)
next
  case (XlmIn x)
  with assms show ?thesis by (cases j) (auto simp: xlm_independent_of_def)
next
  case (BitcoinIn x)
  with assms show ?thesis
    by (cases j) (simp_all add: independent_defs canton_ids_nonempty)
next
  case (BitcoinMultiIn x)
  with assms show ?thesis
    by (cases j) (simp_all add: independent_defs canton_ids_nonempty)
next
  case (KaspaIn x)
  with assms show ?thesis
    by (cases j) (simp_all add: independent_defs canton_ids_nonempty)
next
  case (CardanoIn k x)
  with assms show ?thesis
    by (cases j) (simp_all add: independent_defs canton_ids_nonempty)
next
  case (XrpIn x)
  with assms show ?thesis
    by (cases j) (simp_all add: independent_defs canton_ids_nonempty)
next
  case (NearIn x)
  with assms show ?thesis
    by (cases j) (simp_all add: independent_defs canton_ids_nonempty)
next
  case (FilecoinIn x)
  with assms show ?thesis
    by (cases j) (simp_all add: independent_defs canton_ids_nonempty)
next
  case (DuskIn x)
  with assms show ?thesis
    by (cases j) (simp_all add: independent_defs canton_ids_nonempty)
next
  case (AptosIn x)
  with assms show ?thesis
    by (cases j) (simp_all add: independent_defs canton_ids_nonempty)
next
  case (TonIn x)
  with assms show ?thesis
    by (cases j) (simp_all add: independent_defs canton_ids_nonempty)
next
  case (SubstrateIn x)
  with assms show ?thesis
    by (cases j) (simp_all add: independent_defs canton_ids_nonempty)
next
  case (CosmosIn k x)
  with assms show ?thesis
    by (cases j) (simp_all add: independent_defs canton_ids_nonempty)
next
  case (CantonIn k x)
  with assms show ?thesis
    by (cases j) (simp_all add: independent_defs canton_ids_nonempty)
next
  case (CantonCreateAccountIn x)
  with assms show ?thesis
    by (cases j) (simp_all add: independent_defs canton_ids_nonempty)
qed (use assms in simp_all)

lemma safe_not_independent:
  assumes "in_family f i" and "in_family f j"
  shows "safe_from_double_send i (Some j) = Some (\<not> independent_of i (Some j))"
  using assms
  by (cases i; cases j; simp add: safe_defs canton_safe_iff near_indep_iff
      sui_independent_of_def)

interpretation conflicts: exclusive_inputs resources "\<lambda>i j. independent_of i (Some j)"
    "\<lambda>i j. safe_from_double_send i (Some j) = Some True" "in_family f" for f
  by unfold_locales (simp_all add: independent_resources safe_not_independent)

subsection \<open>Inputs that expire\<close>














subsection \<open>Properties\<close>

text \<open>C1: In the domain of a driver the conflict checks are exact and each other's opposite: two
  inputs are independent exactly when they consume no resource in common (no outpoint, nonce,
  sequence, coin or contract), and a re-signed transaction is safe against an earlier attempt
  exactly when the two are not independent.\<close>

theorem conflict_checks_exact:
  assumes "in_family f i" and "in_family f j"
  shows "(independent_of i (Some j) \<longleftrightarrow> resources i \<inter> resources j = {})
    \<and> safe_from_double_send i (Some j) = Some (\<not> independent_of i (Some j))"
  using assms by (simp add: independent_resources safe_not_independent)

definition xrp_example :: "i64 \<Rightarrow> int \<Rightarrow> unit tx_input" where
  "xrp_example seq fee = XrpIn \<lparr>xr_sequence = seq, xr_fee = fee, xr_account_delete_fee = 0,
     xr_reserve_amount = 0, xr_account_delete = False, xr_must_reserve = False\<rparr>"

definition evm_example :: "u64 \<Rightarrow> address \<Rightarrow> address \<Rightarrow> u64 \<Rightarrow> unit tx_input" where
  "evm_example nonce sender payer payerNonce = EvmIn EvmBase \<lparr>ev_nonce = nonce, ev_from_address = sender,
     ev_gas_limit = 21000, ev_gas_tip_cap = 1, ev_gas_fee_cap = 2, ev_l1_fee = 0, ev_gas_price = 0,
     ev_fee_payer_address = payer, ev_fee_payer_nonce = payerNonce\<rparr>"

lemma lower_examples: "to_lower ''0xA'' = ''0xa''" "to_lower ''0xa'' = ''0xa''"
  "to_lower ''0xP'' = ''0xp''" "to_lower ''0xp'' = ''0xp''"
  by code_simp+

theorem conflict_checks_exact_witness:
  "independent_of (evm_example 1 ''0xA'' ''0xP'' 7) (Some (evm_example 2 ''0xa'' ''0xp'' 8))
   \<and> \<not> independent_of (evm_example 1 ''0xA'' ''0xP'' 7) (Some (evm_example 2 ''0xa'' ''0xp'' 7))"
  using conflict_checks_exact [of "FEvm ''0xa''" "evm_example 1 ''0xA'' ''0xP'' 7"
      "evm_example 2 ''0xa'' ''0xp'' 8"]
    conflict_checks_exact [of "FEvm ''0xa''" "evm_example 1 ''0xA'' ''0xP'' 7"
      "evm_example 2 ''0xa'' ''0xp'' 7"]
  by (simp add: evm_example_def evm_resources_def equal_fold_def lower_examples)

text \<open>C2: A user who re-signs a transaction, each time only after the check says it is safe against every
  earlier attempt, sees at most one of the attempts land, whatever else happens on the ledger. The attempts
  are inputs of one driver and one family (\<open>in_family\<close>): Bitcoin and its forks, Kaspa, Cardano, EVM inputs
  with the same from address, XRP, Stellar without a sponsor's sequence, NEAR, Filecoin, Dusk, Aptos, TON,
  Substrate, Cosmos, plain Sui inputs of one epoch that hold coins, and Canton inputs whose contract
  ids are known. MultiversX is no such family, and the statement fails there (\<open>egld_double_send\<close>).\<close>

theorem resigned_lands_once:
  assumes "\<forall>i\<in>set is. in_family f i"
    and "safe_attempts (\<lambda>i j. safe_from_double_send i (Some j) = Some True) is"
    and "ledger_run resources (set is) s"
  shows "length (landed s) \<le> 1"
  using assms by (rule conflicts.at_most_one_lands)

theorem resigned_lands_once_witness:
  "length (landed \<lparr>consumed = {RSequence ''xrp'' 5}, landed = [xrp_example 5 20]\<rparr>) \<le> 1"
proof (rule resigned_lands_once [of "[xrp_example 5 20, xrp_example 5 10]" FXrp])
  show "safe_attempts (\<lambda>i j. safe_from_double_send i (Some j) = Some True)
      [xrp_example 5 20, xrp_example 5 10]"
    by (simp add: xrp_example_def xrp_safe_from_double_send_def xrp_independent_of_def)
  show "ledger_run resources (set [xrp_example 5 20, xrp_example 5 10])
      \<lparr>consumed = {RSequence ''xrp'' 5}, landed = [xrp_example 5 20]\<rparr>"
    using ledger_run.land [OF ledger_run.start [of resources _ "{}"], of "xrp_example 5 20"]
    by (simp add: xrp_example_def)
qed (simp add: xrp_example_def)




text \<open>MultiversX is the exception: its check calls a re-signed transaction safe exactly when the
  nonces differ, and then both transactions can land.\<close>

theorem egld_double_send:
  assumes "eg_nonce i \<noteq> eg_nonce j"
  shows "safe_from_double_send (EgldIn i) (Some (EgldIn j)) = Some True
    \<and> (\<exists>s. ledger_run resources {EgldIn i, EgldIn j} s \<and> landed s = [EgldIn j, EgldIn i])"
  using assms by (auto simp: egld_safe_from_double_send_def egld_independent_of_def
      intro!: disjoint_both_land)

definition egld_example :: "u64 \<Rightarrow> egld_input" where
  "egld_example n = \<lparr>eg_nonce = n, eg_gas_limit = 50000, eg_gas_price = 1000000000\<rparr>"

theorem egld_double_send_witness:
  "safe_from_double_send (EgldIn (egld_example 3)) (Some (EgldIn (egld_example 4))) = Some True"
  by (rule conjunct1 [OF egld_double_send]) (simp add: egld_example_def)

end
