(* ===== verification/Selection.thy ===== *)
theory Selection
  imports UtxoInputs
begin

text \<open>
  Which outputs a Bitcoin transfer spends: \<^verbatim>\<open>FilterForMinUtxoSet\<close> takes the largest outputs until
  they cover the amount and then up to ten for consolidation; \<^verbatim>\<open>FilterUnconfirmedHeuristic\<close> drops
  small unconfirmed outputs of a large wallet.
\<close>

subsection \<open>Sums and prefixes\<close>

definition total_value :: "btc_output list \<Rightarrow> int" where
  "total_value us = sum_list (map bo_value us)"

lemma total_value_simps [simp]:
  "total_value [] = 0" "total_value (u # us) = bo_value u + total_value us"
  "total_value (us @ vs) = total_value us + total_value vs"
  by (simp_all add: total_value_def)

lemma sum_utxo_total: "sum_utxo us b = b + total_value us"
  by (induction us arbitrary: b) simp_all

lemma total_value_perm: "mset us = mset vs \<Longrightarrow> total_value us = total_value vs"
  unfolding total_value_def by (rule sum_list_perm)

lemma total_value_nonneg: "\<forall>u\<in>set us. 0 \<le> bo_value u \<Longrightarrow> 0 \<le> total_value us"
  by (induction us) auto

lemma total_value_take_mono:
  assumes "\<forall>u\<in>set us. 0 \<le> bo_value u" and "m \<le> n"
  shows "total_value (take m us) \<le> total_value (take n us)"
proof -
  obtain k where n: "n = m + k" using assms(2) le_Suc_ex by blast
  have "0 \<le> total_value (take k (drop m us))"
    using assms(1) by (intro total_value_nonneg) (auto dest: in_set_takeD in_set_dropD)
  then show ?thesis by (simp add: n take_add)
qed

text \<open>The first \<open>size ys\<close> elements of a descending list sum to at least any \<open>ys\<close> chosen from it.\<close>

lemma top_sum:
  "sorted_wrt (\<ge>) xs \<Longrightarrow> ys \<subseteq># mset xs \<Longrightarrow> sum_mset ys \<le> sum_list (take (size ys) (xs :: int list))"
proof (induction xs arbitrary: ys)
  case (Cons x xs)
  show ?case
  proof (cases "ys = {#}")
    case False
    have diff: "ys - {#x#} \<subseteq># mset xs"
      using Cons.prems(2) by (simp add: subset_eq_diff_conv)
    obtain y zs where ys: "ys = add_mset y zs" and zs: "zs \<subseteq># mset xs" and y: "y \<le> x"
    proof (cases "x \<in># ys")
      case True
      then have "ys = add_mset x (ys - {#x#})" by simp
      with diff show ?thesis using that by blast
    next
      case notin: False
      then have sub: "ys \<subseteq># mset xs" using diff by (simp add: diff_single_trivial)
      obtain y where y: "y \<in># ys" using False by blast
      then have "ys = add_mset y (ys - {#y#})" by simp
      moreover have "ys - {#y#} \<subseteq># mset xs"
        using sub by (meson diff_subset_eq_self subset_mset.order_trans)
      moreover have "y \<le> x"
        using mset_subset_eqD [OF sub y] Cons.prems(1) by simp
      ultimately show ?thesis using that by blast
    qed
    have "sum_mset zs \<le> sum_list (take (size zs) xs)"
      using Cons.IH [of zs] Cons.prems(1) zs by simp
    with y show ?thesis by (simp add: ys)
  qed simp
qed simp

lemma sort_desc_mset [simp]: "mset (sort_desc us) = mset us"
  by (simp add: sort_desc_def)

lemma sort_desc_set [simp]: "set (sort_desc us) = set us"
  by (metis set_mset_mset sort_desc_mset)

lemma sort_desc_length [simp]: "length (sort_desc us) = length us"
  by (metis size_mset sort_desc_mset)

lemma sort_desc_sorted: "sorted_wrt (\<ge>) (map bo_value (sort_desc us))"
proof (cases "length us > 1")
  case True
  have "sorted (map (\<lambda>u. - bo_value u) (sort_key (\<lambda>u. - bo_value u) us))" by simp
  then show ?thesis using True by (simp add: sort_desc_def sorted_map sorted_wrt_map)
next
  case False
  then show ?thesis by (cases us; cases "tl us") (auto simp: sort_desc_def)
qed

subsection \<open>The loop that covers the amount\<close>

fun grab_count :: "int \<Rightarrow> int \<Rightarrow> btc_output list \<Rightarrow> nat" where
  "grab_count b t [] = 0"
| "grab_count b t (u # us) = (if t \<le> b then 0 else Suc (grab_count (b + bo_value u) t us))"

lemma grab_amount_take:
  "grab_amount b t us = (take (grab_count b t us) us, drop (grab_count b t us) us)"
  by (induction us arbitrary: b) auto

lemma grab_count_le: "grab_count b t us \<le> length us"
  by (induction us arbitrary: b) auto

lemma grab_count_covers:
  "grab_count b t us < length us \<or> t \<le> b + total_value us \<Longrightarrow>
     t \<le> b + total_value (take (grab_count b t us) us)"
proof (induction us arbitrary: b)
  case (Cons u us)
  then show ?case using Cons.IH [of "b + bo_value u"] by (cases "t \<le> b") (auto simp: add.assoc)
qed simp

lemma grab_count_least: "m < grab_count b t us \<Longrightarrow> b + total_value (take m us) < t"
proof (induction us arbitrary: b m)
  case (Cons u us)
  then show ?case
    using Cons.IH [of "m - 1" "b + bo_value u"] by (cases m) (auto simp: add.assoc split: if_splits)
qed simp

lemma add_extra_take: "add_extra m fs us = fs @ take (m - length fs) us"
proof (induction m fs us rule: add_extra.induct)
  case (2 m fs u us)
  then show ?case
    by (cases "m - length fs") (auto simp: Suc_diff_le diff_Suc split: nat.splits)
qed simp

lemma FilterForMinUtxoSet_take:
  "FilterForMinUtxoSet us t m = take (max (grab_count 0 t (sort_desc us)) m) (sort_desc us)"
proof -
  define n where "n = grab_count 0 t (sort_desc us)"
  have n: "n \<le> length us" using grab_count_le [of 0 t "sort_desc us"] by (simp add: n_def)
  have "FilterForMinUtxoSet us t m = take n (sort_desc us) @ take (m - n) (drop n (sort_desc us))"
    using n by (simp add: FilterForMinUtxoSet_def grab_amount_take add_extra_take n_def min_absorb2)
  also have "\<dots> = take (n + (m - n)) (sort_desc us)"
    by (simp add: take_add)
  also have "n + (m - n) = max n m" by simp
  finally show ?thesis by (simp add: n_def)
qed

lemma mset_take_subset: "mset (take n xs) \<subseteq># mset xs"
  by (metis append_take_drop_id mset_append mset_subset_eq_add_left)

lemma grab_count_minimal:
  assumes "\<forall>u\<in>set us. 0 \<le> bo_value u" and "ys \<subseteq># mset us"
    and "t \<le> sum_mset (image_mset bo_value ys)"
  shows "grab_count 0 t (sort_desc us) \<le> size ys"
proof (rule ccontr)
  assume "\<not> ?thesis"
  then have "total_value (take (size ys) (sort_desc us)) < t"
    using grab_count_least [of "size ys" 0 t "sort_desc us"] by simp
  moreover have "sum_mset (image_mset bo_value ys)
      \<le> sum_list (take (size (image_mset bo_value ys)) (map bo_value (sort_desc us)))"
    using assms(2) sort_desc_sorted by (intro top_sum) (auto intro: image_mset_subseteq_mono)
  ultimately show False using assms(3) by (simp add: total_value_def take_map)
qed

subsection \<open>The unconfirmed heuristic\<close>

lemma total_sats_sum:
  "unat acc + sum_list (map (\<lambda>u. unat (ui_value u)) us) < 2 ^ 64 \<Longrightarrow>
     unat (total_sats acc us) = unat acc + sum_list (map (\<lambda>u. unat (ui_value u)) us)"
proof (induction us arbitrary: acc)
  case (Cons u us)
  then have "unat (acc + ui_value u) = unat acc + unat (ui_value u)"
    by (subst unat_plus_if') auto
  then show ?case using Cons by simp
qed simp

lemma unconfirmed_threshold_unat:
  assumes "S = sum_list (map (\<lambda>u. unat (ui_value u)) us)" and "5 * S < 2 ^ 64"
  shows "unat (unconfirmed_threshold us) = (if S > 100000000 then 5 * S div 100 else 0)"
proof -
  have t: "unat (total_sats 0 us) = S"
    using assms total_sats_sum [of 0 us] by simp
  have "unat (total_sats 0 us * 5) = S * 5"
    using assms t by (simp add: unat_mult_lem [THEN iffD1])
  then show ?thesis
    using t by (simp add: unconfirmed_threshold_def Let_def word_less_nat_alt unat_div mult.commute)
qed

subsection \<open>Properties\<close>

text \<open>C20: Selecting the outputs for a transfer spends no output twice and none that the wallet does not
  hold, and it covers the amount whenever the wallet as a whole does; when the wallet does not, every
  output is selected.\<close>

theorem selection_covers:
  assumes "\<forall>u\<in>set us. 0 \<le> bo_value u"
  shows "mset (FilterForMinUtxoSet us t m) \<subseteq># mset us
    \<and> (if t \<le> sum_utxo us 0 then t \<le> sum_utxo (FilterForMinUtxoSet us t m) 0
       else mset (FilterForMinUtxoSet us t m) = mset us)"
proof -
  define n where "n = grab_count 0 t (sort_desc us)"
  have nonneg: "\<forall>u\<in>set (sort_desc us). 0 \<le> bo_value u" using assms by simp
  have total: "total_value (sort_desc us) = total_value us" by (rule total_value_perm) simp
  have sub: "mset (FilterForMinUtxoSet us t m) \<subseteq># mset us"
    using mset_take_subset [of _ "sort_desc us"] by (simp add: FilterForMinUtxoSet_take)
  have cover: "t \<le> total_value (FilterForMinUtxoSet us t m)" if "t \<le> total_value us"
  proof -
    have "t \<le> total_value (take n (sort_desc us))"
      using grab_count_covers [of 0 t "sort_desc us"] that total by (simp add: n_def)
    also have "\<dots> \<le> total_value (take (max n m) (sort_desc us))"
      by (rule total_value_take_mono [OF nonneg]) simp
    finally show ?thesis by (simp add: FilterForMinUtxoSet_take n_def)
  qed
  have all: "n = length us" if "\<not> t \<le> total_value us"
  proof (rule ccontr)
    assume "n \<noteq> length us"
    then have "n < length (sort_desc us)"
      using grab_count_le [of 0 t "sort_desc us"] by (simp add: n_def)
    then have "t \<le> total_value (take n (sort_desc us))"
      using grab_count_covers [of 0 t "sort_desc us"] by (simp add: n_def)
    also have "\<dots> \<le> total_value (take (length us) (sort_desc us))"
      using grab_count_le [of 0 t "sort_desc us"]
      by (intro total_value_take_mono [OF nonneg]) (simp add: n_def)
    finally show False using that total by simp
  qed
  show ?thesis
    using sub cover all by (simp add: sum_utxo_total FilterForMinUtxoSet_take n_def)
qed

definition wallet_example :: "int list \<Rightarrow> btc_output list" where
  "wallet_example = map (\<lambda>v. \<lparr>bo_outpoint = \<lparr>op_hash = [], op_index = 0\<rparr>, bo_value = v,
     bo_pubkey_script = [], bo_address = []\<rparr>)"

theorem selection_covers_witness:
  "6 \<le> sum_utxo (FilterForMinUtxoSet (wallet_example [1, 5, 3]) 6 1) 0"
  using selection_covers [of "wallet_example [1, 5, 3]" 6 1]
  by (simp add: wallet_example_def)

text \<open>C38: The selection is minimal up to the consolidation minimum: no choice of the wallet's outputs
  that covers the amount has fewer outputs than the selection, unless the selection stays within
  the minimum of \<open>m\<close> outputs.\<close>

theorem selection_minimal:
  assumes "\<forall>u\<in>set us. 0 \<le> bo_value u" and "ys \<subseteq># mset us"
    and "t \<le> sum_mset (image_mset bo_value ys)"
  shows "length (FilterForMinUtxoSet us t m) \<le> max (size ys) m"
  using grab_count_minimal [OF assms] by (auto simp: FilterForMinUtxoSet_take)

theorem selection_minimal_witness:
  "length (FilterForMinUtxoSet (wallet_example [1, 5, 3]) 6 1) \<le> 2"
  using selection_minimal [of "wallet_example [1, 5, 3]" "mset (wallet_example [5, 3])" 6 1]
  by (simp add: wallet_example_def)

text \<open>The unconfirmed heuristic, as long as five times the wallet's total fits in \<open>uint64\<close>: it keeps every
  confirmed output, everything in a wallet of at most one bitcoin, and otherwise the unconfirmed
  outputs of at least five percent of the total; order and duplicates stay.\<close>

theorem unconfirmed_heuristic_keeps:
  assumes "S = sum_list (map (\<lambda>u. unat (ui_value u)) us)" and "5 * S < 2 ^ 64"
  shows "FilterUnconfirmedHeuristic us = filter (\<lambda>u. 0 < unat (ui_block u) \<or> S \<le> 100000000
    \<or> 5 * S div 100 \<le> unat (ui_value u)) us"
  unfolding FilterUnconfirmedHeuristic_def Let_def
  by (rule filter_cong [OF refl])
    (auto simp: unconfirmed_threshold_unat [OF assms] word_less_nat_alt unat_gt_0)

definition explorer_example :: "(u64 \<times> u64) list \<Rightarrow> utxo_i list" where
  "explorer_example = map (\<lambda>(v, b). \<lparr>ui_value = v, ui_block = b, ui_tx_hash = [], ui_index = 0\<rparr>)"

theorem unconfirmed_heuristic_keeps_witness:
  "FilterUnconfirmedHeuristic (explorer_example [(200000000, 7), (1000, 0), (1000, 9)])
     = explorer_example [(200000000, 7), (1000, 9)]"
  using unconfirmed_heuristic_keeps [of 200002000
      "explorer_example [(200000000, 7), (1000, 0), (1000, 9)]"]
  by (simp add: explorer_example_def)

end
