(* ===== verification/Fees.thy ===== *)
theory Fees
  imports TxInputs
begin

text \<open>
  What the fee priorities and the fee check guarantee, on the numbers the decimals stand for:
  the EVM fee caps grow with the priority, Stellar's fees stay within their 32 bits, Tempo's
  conversion to the token's precision rounds up, Filecoin's multiplier is truncated, and the check
  against the configured limit is exact. The decimal library is a parameter \<open>L\<close> with the laws of
  \<open>decimal_library\<close>.
\<close>

context decimal_library
begin

lemma mul_big_mono_factor:
  assumes "0 \<le> dval m" and "dval m \<le> dval n" and "0 \<le> x"
  shows "mul_big L m x \<le> mul_big L n x"
proof -
  have "dval m * of_int x \<le> dval n * of_int x"
    using assms by (intro mult_right_mono) auto
  then show ?thesis
    using assms by (simp add: mul_big_floor floor_mono)
qed

lemma bigint_fractions:
  "dval m = 7 / 10 \<Longrightarrow> dBigInt L m = 0" "dval m = 3 / 2 \<Longrightarrow> dBigInt L m = 1"
  by (simp_all add: dval_bigint rat_trunc_def floor_unique)

lemma dec_int_part_mul:
  assumes "0 \<le> dval m" and "0 \<le> x" and "dval m * of_int x < 2 ^ 63"
  shows "dec_int_part L (dMul L m (dNewFromBigInt L x 0)) = \<lfloor>dval m * of_int x\<rfloor>"
proof -
  have "\<lfloor>dval m * of_int x\<rfloor> < 2 ^ 63"
    using assms(3) by (simp add: floor_less_iff)
  moreover have "0 \<le> \<lfloor>dval m * of_int x\<rfloor>" using assms by simp
  ultimately show ?thesis
    using assms by (simp add: dec_int_part_def bigint_mul_int int_word_sint)
qed

end

lemma round_up_div:
  fixes x d :: int
  assumes "0 < d"
  defines "c \<equiv> if x mod d \<noteq> 0 then x div d + 1 else x div d"
  shows "x \<le> c * d \<and> (\<forall>n. x \<le> n * d \<longrightarrow> c \<le> n)"
proof -
  have x: "x = x div d * d + x mod d" by simp
  have r: "0 \<le> x mod d" "x mod d < d" using assms(1) by simp_all
  have "c \<le> n" if "x \<le> n * d" for n
  proof -
    have "x div d \<le> n" using zdiv_mono1 [OF that assms(1)] assms(1) by simp
    moreover have "x mod d = 0" if "x div d = n" using \<open>x \<le> n * d\<close> x r that by simp
    ultimately show ?thesis unfolding c_def by (cases "x div d = n") auto
  qed
  moreover have "x \<le> c * d"
  proof (cases "x mod d = 0")
    case True
    then show ?thesis using x by (simp add: c_def)
  next
    case False
    moreover have "x \<le> x div d * d + d" using x r by linarith
    ultimately show ?thesis by (simp add: c_def distrib_right)
  qed
  ultimately show ?thesis by blast
qed

lemma evm_fee_limit_mono:
  assumes "ev_gas_limit i = ev_gas_limit j" and "ev_l1_fee i = ev_l1_fee j"
    and "ev_gas_fee_cap i \<le> ev_gas_fee_cap j" and "ev_gas_price i \<le> ev_gas_price j"
  shows "fst (evm_get_fee_limit i) \<le> fst (evm_get_fee_limit j)"
proof -
  let ?g = "NewAmountBlockchainFromUint64 (ev_gas_limit j)"
  have "ev_gas_fee_cap i * ?g \<le> ev_gas_fee_cap j * ?g"
    "ev_gas_price i * ?g \<le> ev_gas_price j * ?g"
    using assms by (simp_all add: mult_right_mono)
  then show ?thesis using assms by (auto simp: evm_get_fee_limit_def Let_def)
qed

subsection \<open>Properties\<close>

text \<open>C35: The fee check accepts a fee in the native asset exactly when it is at most the configured limit
  times ten to the decimals, compared as exact numbers, however many digits the limit has.\<close>

theorem fee_check_exact:
  assumes "decimal_library L dval" and "asset = [] \<or> asset = cc_chain cfg"
    and "cc_decimals cfg = int n" and "0 \<le> dval (cc_fee_limit cfg)"
  shows "CheckFeeLimit L (spend, asset) cfg = Inr ()
    \<longleftrightarrow> of_int spend \<le> dval (cc_fee_limit cfg) * 10 ^ n"
  using assms by (intro decimal_library.CheckFeeLimit_native)

definition config_example :: "(int \<times> int) chain_config" where
  "config_example = \<lparr>cc_chain = ''ETH'', cc_driver = ''evm'', cc_decimals = 18, cc_chain_coin = [],
     cc_native_assets = [], cc_fee_limit = (15, -1), cc_url = [], cc_crosschain_url = [],
     cc_confirmations_final = 6\<rparr>"

theorem fee_check_exact_witness:
  "CheckFeeLimit ref_decimal (1500000000000000000, []) config_example = Inr ()
   \<and> CheckFeeLimit ref_decimal (1500000000000000001, []) config_example \<noteq> Inr ()"
  using fee_check_exact [OF ref.decimal_library_axioms, of "[]" config_example 18]
  by (simp add: config_example_def ref_val_def pow10_def)

text \<open>A fee in a token is accepted exactly when the configuration lists a limit for that contract and the
  fee is at most it: a fee asset that is not configured is always refused.\<close>

theorem fee_check_token:
  assumes "decimal_library L dval" and "asset \<noteq> []" and "asset \<noteq> cc_chain cfg"
  shows "CheckFeeLimit L (spend, asset) cfg = Inr () \<longleftrightarrow>
    (\<exists>a. find_contract asset (cc_native_assets cfg) = Some a
       \<and> spend \<le> ToBlockchain L (na_fee_limit a) (na_decimals a))"
  using assms by (intro decimal_library.CheckFeeLimit_token)

theorem fee_check_token_witness:
  "CheckFeeLimit ref_decimal (1, ''0xusdc'') config_example \<noteq> Inr ()"
  using fee_check_token [OF ref.decimal_library_axioms, of "''0xusdc''" config_example 1]
  by (simp add: config_example_def)

text \<open>A higher fee priority never lowers an EVM transaction's maximal fee, and whatever the priority,
  the fee cap it sets covers the tip.\<close>

theorem evm_priority_monotone:
  assumes "decimal_library L dval"
    and "GetDefault L p = Inr m" and "GetDefault L q = Inr n" and "0 \<le> dval m" and "dval m \<le> dval n"
    and "0 \<le> ev_gas_tip_cap i" and "0 \<le> ev_gas_fee_cap i" and "0 \<le> ev_gas_price i"
    and "evm_set_gas_fee_priority L p i = Inr a" and "evm_set_gas_fee_priority L q i = Inr b"
  shows "fst (evm_get_fee_limit a) \<le> fst (evm_get_fee_limit b)
    \<and> ev_gas_tip_cap a \<le> ev_gas_fee_cap a"
proof -
  have mono: "0 \<le> x \<Longrightarrow> mul_big L m x \<le> mul_big L n x" for x
    by (rule decimal_library.mul_big_mono_factor [OF assms(1,4,5)])
  note le = mono [OF assms(6)] mono [OF assms(7)] mono [OF assms(8)]
  have "fst (evm_get_fee_limit a) \<le> fst (evm_get_fee_limit b)"
    using assms le by (intro evm_fee_limit_mono)
      (auto simp: evm_set_gas_fee_priority_def Let_def not_less)
  moreover have "ev_gas_tip_cap a \<le> ev_gas_fee_cap a"
    using assms by (auto simp: evm_set_gas_fee_priority_def Let_def not_less)
  ultimately show ?thesis by simp
qed

definition evm_fee_example :: evm_input where
  "evm_fee_example = \<lparr>ev_nonce = 1, ev_from_address = [], ev_gas_limit = 21000, ev_gas_tip_cap = 10,
     ev_gas_fee_cap = 5, ev_l1_fee = 3, ev_gas_price = 0, ev_fee_payer_address = [],
     ev_fee_payer_nonce = 0\<rparr>"

theorem evm_priority_monotone_witness:
  "fst (evm_get_fee_limit (evm_fee_example\<lparr>ev_gas_tip_cap := 10, ev_gas_fee_cap := 10\<rparr>))
   \<le> fst (evm_get_fee_limit (evm_fee_example\<lparr>ev_gas_tip_cap := 20, ev_gas_fee_cap := 20\<rparr>))"
proof (rule conjunct1 [OF evm_priority_monotone [OF ref.decimal_library_axioms,
      where p = Market and q = VeryAggressive and i = evm_fee_example]])
  show "GetDefault ref_decimal Market = Inr (1, 0)"
    "GetDefault ref_decimal VeryAggressive = Inr (2, 0)"
    by (simp_all add: GetDefault_def ref_decimal_def)
  show "evm_set_gas_fee_priority ref_decimal Market evm_fee_example
      = Inr (evm_fee_example\<lparr>ev_gas_tip_cap := 10, ev_gas_fee_cap := 10\<rparr>)"
    "evm_set_gas_fee_priority ref_decimal VeryAggressive evm_fee_example
      = Inr (evm_fee_example\<lparr>ev_gas_tip_cap := 20, ev_gas_fee_cap := 20\<rparr>)"
    by (simp_all add: evm_set_gas_fee_priority_def GetDefault_def mul_big_def ref_decimal_def
        ref_bigint_def evm_fee_example_def)
qed (simp_all add: ref_val_def pow10_def evm_fee_example_def)

text \<open>Filecoin truncates the multiplier to an integer before it multiplies: the low priority makes the
  maximal fee zero, and the aggressive priority changes nothing.\<close>

theorem filecoin_priority_truncated:
  assumes "decimal_library L dval"
    and "filecoin_set_gas_fee_priority L Low i = Inr a"
    and "filecoin_set_gas_fee_priority L Aggressive i = Inr b"
  shows "fst (filecoin_get_fee_limit a) = 0 \<and> b = i"
proof -
  have "dBigInt L (dNewFromFloat L (7 / 10)) = 0" "dBigInt L (dNewFromFloat L (3 / 2)) = 1"
    using assms(1) by (auto intro!: decimal_library.bigint_fractions
        simp: decimal_library.dval_low decimal_library.dval_aggressive)
  then show ?thesis
    using assms(2,3)
    by (auto simp: filecoin_set_gas_fee_priority_def GetDefault_def filecoin_get_fee_limit_def)
qed

theorem filecoin_priority_truncated_witness:
  "fst (filecoin_get_fee_limit \<lparr>fi_nonce = 1, fi_gas_limit = 1000, fi_gas_fee_cap = 0,
     fi_gas_premium = 0\<rparr>) = 0"
proof (rule conjunct1 [OF filecoin_priority_truncated [OF ref.decimal_library_axioms,
      where i = "\<lparr>fi_nonce = 1, fi_gas_limit = 1000, fi_gas_fee_cap = 50, fi_gas_premium = 7\<rparr>"]])
  show "filecoin_set_gas_fee_priority ref_decimal Low
      \<lparr>fi_nonce = 1, fi_gas_limit = 1000, fi_gas_fee_cap = 50, fi_gas_premium = 7\<rparr>
    = Inr \<lparr>fi_nonce = 1, fi_gas_limit = 1000, fi_gas_fee_cap = 0, fi_gas_premium = 0\<rparr>"
    using ref.bigint_fractions(1) [OF ref.dval_low]
    by (simp add: filecoin_set_gas_fee_priority_def GetDefault_def)
  show "filecoin_set_gas_fee_priority ref_decimal Aggressive
      \<lparr>fi_nonce = 1, fi_gas_limit = 1000, fi_gas_fee_cap = 50, fi_gas_premium = 7\<rparr>
    = Inr \<lparr>fi_nonce = 1, fi_gas_limit = 1000, fi_gas_fee_cap = 50, fi_gas_premium = 7\<rparr>"
    using ref.bigint_fractions(2) [OF ref.dval_aggressive]
    by (simp add: filecoin_set_gas_fee_priority_def GetDefault_def)
qed

text \<open>Stellar's priority is exact or an error: for a multiplier below two to the thirtieth, without an
  error both fees are the multiplied ones, rounded down and within 32 bits, and an error means that
  one of them does not fit; on the second error the inclusion fee has already been changed.\<close>

theorem xlm_priority_exact:
  assumes "decimal_library L dval" and "GetDefault L p = Inr m"
    and "0 \<le> dval m" and "dval m < 2 ^ 30"
  shows "case xlm_set_gas_fee_priority L p i of
      (j, None) \<Rightarrow> uint (xl_max_fee j) = \<lfloor>dval m * of_int (uint (xl_max_fee i))\<rfloor>
        \<and> uint (xl_soroban_resource_fee j) = \<lfloor>dval m * of_int (uint (xl_soroban_resource_fee i))\<rfloor>
    | (j, Some XlmMaxFeeExceeded) \<Rightarrow> j = i \<and> \<lfloor>dval m * of_int (uint (xl_max_fee i))\<rfloor> \<ge> 2 ^ 32
    | (j, Some XlmResourceFeeExceeded) \<Rightarrow>
        uint (xl_max_fee j) = \<lfloor>dval m * of_int (uint (xl_max_fee i))\<rfloor>
        \<and> \<lfloor>dval m * of_int (uint (xl_soroban_resource_fee i))\<rfloor> \<ge> 2 ^ 32
    | (j, Some (XlmPriority e)) \<Rightarrow> False"
proof -
  have small: "dval m * of_int x < 2 ^ 63" if "0 \<le> x" and "x < 2 ^ 32" for x :: int
  proof -
    have "of_int x < (of_int (2 ^ 32) :: rat)"
      using that(2) by (simp only: of_int_less_iff)
    then have "dval m * of_int x \<le> 2 ^ 30 * 2 ^ 32"
      using assms(3,4) that(1) by (intro mult_mono) auto
    then show ?thesis by simp
  qed
  have part: "dec_int_part L (dMul L m (dNewFromBigInt L (uint w) 0)) = \<lfloor>dval m * of_int (uint w)\<rfloor>"
    for w :: u32
    by (rule decimal_library.dec_int_part_mul [OF assms(1,3) _ small]) (use uint_bounded [of w] in simp_all)
  have floor_nonneg: "0 \<le> \<lfloor>dval m * of_int x\<rfloor>" if "0 \<le> x" for x :: int
    using assms(3) that by simp
  have nonneg: "0 \<le> \<lfloor>dval m * of_int (uint w)\<rfloor>" for w :: u32
    by (rule floor_nonneg) simp
  show ?thesis
    using nonneg [of "xl_max_fee i"] nonneg [of "xl_soroban_resource_fee i"]
    by (cases "xl_soroban_resource_fee i = 0")
      (auto simp: xlm_set_gas_fee_priority_def assms(2) part Let_def uint_word_of_int word_gt_0)
qed

definition xlm_example :: "u32 \<Rightarrow> u32 \<Rightarrow> xlm_input" where
  "xlm_example fee resource = \<lparr>xl_sequence_old = 0, xl_sequence = 7, xl_max_fee = fee,
     xl_min_balance = 0, xl_must_reserve = False, xl_fee_payer_sequence = 0,
     xl_soroban_resource_fee = resource, xl_timestamp = 0\<rparr>"

theorem xlm_priority_exact_witness:
  "uint (xl_max_fee (fst (xlm_set_gas_fee_priority ref_decimal VeryAggressive (xlm_example 100 4000000000)))) = 200"
proof -
  have m: "GetDefault ref_decimal VeryAggressive = Inr (2, 0)"
    by (simp add: GetDefault_def ref_decimal_def)
  have part: "dec_int_part ref_decimal (dMul ref_decimal (2, 0) (dNewFromBigInt ref_decimal x 0))
      = sint (word_of_int (2 * x) :: i64)" for x
    by (simp add: dec_int_part_def ref_decimal_def ref_bigint_def)
  have "xlm_set_gas_fee_priority ref_decimal VeryAggressive (xlm_example 100 4000000000)
      = (xlm_example 200 4000000000, Some XlmResourceFeeExceeded)"
    by (simp add: xlm_set_gas_fee_priority_def m part xlm_example_def)
  then show ?thesis
    using xlm_priority_exact [OF ref.decimal_library_axioms m, of "xlm_example 100 4000000000"]
    by (simp add: ref_val_def pow10_def xlm_example_def)
qed

text \<open>Tempo's fee limit, reported in the token's precision, is the EVM limit divided by ten to the
  twelfth and rounded up: the smallest token amount that covers the fee.\<close>

theorem tempo_fee_covers:
  assumes "0 \<le> fst (evm_get_fee_limit i)"
  shows "fst (evm_get_fee_limit i) \<le> fst (tempo_get_fee_limit c i) * 10 ^ 12
    \<and> (\<forall>n. fst (evm_get_fee_limit i) \<le> n * 10 ^ 12 \<longrightarrow> fst (tempo_get_fee_limit c i) \<le> n)"
proof -
  define x where "x = fst (evm_get_fee_limit i)"
  have x: "0 \<le> x" using assms by (simp add: x_def)
  have t: "fst (tempo_get_fee_limit c i)
      = (if x mod 10 ^ 12 \<noteq> 0 then x div 10 ^ 12 + 1 else x div 10 ^ 12)"
    using x by (simp add: tempo_get_fee_limit_def div_ceil_def Let_def case_prod_unfold
        big_quo_nonneg big_rem_nonneg flip: x_def)
  show ?thesis
    unfolding t x_def [symmetric] using round_up_div [of "10 ^ 12" x] by simp
qed

theorem tempo_fee_covers_witness:
  "fst (evm_get_fee_limit evm_fee_example) \<le> fst (tempo_get_fee_limit [] evm_fee_example) * 10 ^ 12"
  by (rule conjunct1 [OF tempo_fee_covers]) (simp add: evm_get_fee_limit_def evm_fee_example_def Let_def)

text \<open>Amounts survive the trip to a human-readable decimal and back exactly, for every number of decimals
  (negative amounts included).\<close>

theorem amount_round_trip:
  assumes "decimal_library L dval"
  shows "ToBlockchain L (ToHuman L a (int n)) (int n) = a"
  using assms by (rule decimal_library.ToBlockchain_ToHuman)

theorem amount_round_trip_witness: "ToBlockchain ref_decimal (ToHuman ref_decimal 1234567 6) 6 = 1234567"
  using amount_round_trip [OF ref.decimal_library_axioms, of 1234567 6] by simp

text \<open>Multiplying an amount by a float is exact to a millionth for multipliers that are whole millionths
  below two to the 53rd, except that an amount whose low 64 bits are zero, such as two to the 64th,
  is returned as it is.\<close>

theorem multiply_by_float_exact:
  assumes "of_int m = 1000000 * r" and "0 \<le> m" and "m < 2 ^ 53"
  shows "MultiplyByFloat a r = Some (if a mod 2 ^ 64 = 0 then a else m * a div 1000000)"
proof (cases "a mod 2 ^ 64 = 0")
  case True
  then have "\<bar>a\<bar> mod 2 ^ 64 = 0" by (simp add: abs_if mod_0_imp_dvd)
  then have "big_uint64 a = 0"
    by (simp add: big_uint64_def word_of_int_eq_0_iff mod_eq_0_iff_dvd)
  with True show ?thesis by (simp add: MultiplyByFloat_def)
next
  case False
  then have "\<not> 2 ^ 64 dvd \<bar>a\<bar>" by (simp add: mod_eq_0_iff_dvd)
  then have "big_uint64 a \<noteq> 0" by (simp add: big_uint64_def word_of_int_eq_0_iff)
  with False show ?thesis by (simp add: MultiplyByFloat_micro [OF assms])
qed

theorem multiply_by_float_exact_witness:
  "MultiplyByFloat (2 ^ 64) (5 / 4) = Some (2 ^ 64) \<and> MultiplyByFloat (2 ^ 64 + 4) (5 / 4) = Some (5 * 2 ^ 62 + 5)"
  using multiply_by_float_exact [of 1250000 "5 / 4"] by simp

end
