(* ===== verification/Builder.thy ===== *)
theory Builder
  imports Assets Amounts
begin

text \<open>
  The package \<^verbatim>\<open>builder\<close>: the options of a transaction and the arguments of transfers, batch
  transfers, staking, calls and account creation. An option is a function that sets a field; the
  model is the datatype of the constructors \<^verbatim>\<open>Option\<dots>\<close> with \<open>apply_option\<close>, none of which fails,
  and a later option overwrites an earlier one.
\<close>

subsection \<open>Options (\<open>args.go\<close>)\<close>

record builder_options =
  o_memo :: "string option"
  o_timestamp :: "i64 option"
  o_priority :: "string option"
  o_public_key :: "bytes option"
  o_fee_payer_public_key :: "bytes option"
  o_validator :: "string option"
  o_stake_owner :: "address option"
  o_stake_account :: "string option"
  o_contract :: "contract_address option"
  o_decimals :: "int option"
  o_fee_payer :: "address option"
  o_inclusive_fee_spending :: bool
  o_transaction_attempts :: "string list"
  o_from_identity :: "string option"
  o_fee_payer_identity :: "string option"
  o_to_identity :: "string option"
  o_stake_amount :: "int option"
  o_nonce_account :: "string option"

definition newBuilderOptions :: builder_options where
  "newBuilderOptions = \<lparr>o_memo = None, o_timestamp = None, o_priority = None, o_public_key = None,
     o_fee_payer_public_key = None, o_validator = None, o_stake_owner = None, o_stake_account = None,
     o_contract = None, o_decimals = None, o_fee_payer = None, o_inclusive_fee_spending = False,
     o_transaction_attempts = [], o_from_identity = None, o_fee_payer_identity = None,
     o_to_identity = None, o_stake_amount = None, o_nonce_account = None\<rparr>"

datatype builder_option =
    OptionMemo string
  | OptionTimestamp i64
  | OptionPriority string
  | OptionPublicKey bytes
  | OptionContractAddress contract_address "int list"
  | OptionContractDecimals int
  | OptionStakeOwner address
  | OptionValidator string
  | OptionStakeAccount string
  | OptionFeePayer address bytes
  | OptionInclusiveFeeSpending bool
  | OptionTransactionAttempts "string list"
  | OptionFromIdentity string
  | OptionToIdentity string
  | OptionFeePayerIdentity string
  | OptionStakeAmount int
  | OptionNonceAccount string

text \<open>The contract option takes the decimals as a variadic argument and uses the first, if any.\<close>

fun apply_option :: "builder_option \<Rightarrow> builder_options \<Rightarrow> builder_options" where
  "apply_option (OptionMemo m) b = b\<lparr>o_memo := Some m\<rparr>"
| "apply_option (OptionTimestamp t) b = b\<lparr>o_timestamp := Some t\<rparr>"
| "apply_option (OptionPriority p) b = b\<lparr>o_priority := Some p\<rparr>"
| "apply_option (OptionPublicKey k) b = b\<lparr>o_public_key := Some k\<rparr>"
| "apply_option (OptionContractAddress c ds) b =
     (let b = b\<lparr>o_contract := Some c\<rparr>
      in case ds of [] \<Rightarrow> b | d # _ \<Rightarrow> b\<lparr>o_decimals := Some d\<rparr>)"
| "apply_option (OptionContractDecimals d) b = b\<lparr>o_decimals := Some d\<rparr>"
| "apply_option (OptionStakeOwner a) b = b\<lparr>o_stake_owner := Some a\<rparr>"
| "apply_option (OptionValidator v) b = b\<lparr>o_validator := Some v\<rparr>"
| "apply_option (OptionStakeAccount a) b = b\<lparr>o_stake_account := Some a\<rparr>"
| "apply_option (OptionFeePayer a k) b =
     b\<lparr>o_fee_payer := Some a, o_fee_payer_public_key := Some k\<rparr>"
| "apply_option (OptionInclusiveFeeSpending f) b = b\<lparr>o_inclusive_fee_spending := f\<rparr>"
| "apply_option (OptionTransactionAttempts ts) b = b\<lparr>o_transaction_attempts := ts\<rparr>"
| "apply_option (OptionFromIdentity f) b = b\<lparr>o_from_identity := Some f\<rparr>"
| "apply_option (OptionToIdentity t) b = b\<lparr>o_to_identity := Some t\<rparr>"
| "apply_option (OptionFeePayerIdentity f) b = b\<lparr>o_fee_payer_identity := Some f\<rparr>"
| "apply_option (OptionStakeAmount a) b = b\<lparr>o_stake_amount := Some a\<rparr>"
| "apply_option (OptionNonceAccount n) b = b\<lparr>o_nonce_account := Some n\<rparr>"

fun apply_options :: "builder_option list \<Rightarrow> builder_options \<Rightarrow> builder_options" where
  "apply_options [] b = b"
| "apply_options (opt # opts) b = apply_options opts (apply_option opt b)"

definition GetStakeAmount :: "builder_options \<Rightarrow> int \<times> bool" where
  "GetStakeAmount b = (let amount = NewAmountBlockchainFromUint64 0;
     amount = (case o_stake_amount b of Some a \<Rightarrow> a | None \<Rightarrow> amount)
     in (amount, o_stake_amount b \<noteq> None))"

subsection \<open>Transfers (\<open>transfer.go\<close>)\<close>

text \<open>The format of an ICP address: hexadecimal without dashes, or with dashes.\<close>

definition GetAddressType :: "address \<Rightarrow> string option" where
  "GetAddressType addr =
    (let isValidHex = is_hex_string addr;
         containsDashes = contains_str addr ''-''
     in if isValidHex \<and> \<not> containsDashes then Some ''icp''
        else if containsDashes then Some ''icrc1'' else None)"

record transfer_args =
  ta_applied_options :: "builder_option list"
  ta_options :: builder_options
  ta_from :: address
  ta_to :: address
  ta_amount :: int

datatype builder_error = IcpAddressTypesDiffer | DuplicateSender | OneSpenderOnly
  | FeePayerRequired | SenderPublicKeyNotSet | SpendersReceiversDiffer
  | NoReceiverToDeduct | StakingAmountRequired | StakingAmountNotUsed | ValidatorRequired
  | LessThan32Ether | NotIncrementOf32Ether | InvalidNonceAccount

definition NewTransferArgs :: "string \<Rightarrow> address \<Rightarrow> address \<Rightarrow> int \<Rightarrow> builder_option list
    \<Rightarrow> builder_error + transfer_args" where
  "NewTransferArgs driver sender receiver amount opts =
    (let args = \<lparr>ta_applied_options = opts, ta_options = apply_options opts newBuilderOptions,
           ta_from = sender, ta_to = receiver, ta_amount = amount\<rparr>
     in if driver = DriverInternetComputerProtocol then
          (case (GetAddressType sender, GetAddressType receiver) of
             (Some f, Some t) \<Rightarrow> if f \<noteq> t then Inl IcpAddressTypesDiffer else Inr args
           | _ \<Rightarrow> Inr args)
        else Inr args)"

text \<open>The setters.\<close>

definition SetAmount :: "int \<Rightarrow> transfer_args \<Rightarrow> transfer_args" where
  "SetAmount a t = t\<lparr>ta_amount := a\<rparr>"

definition SetFrom :: "address \<Rightarrow> transfer_args \<Rightarrow> transfer_args" where
  "SetFrom a t = t\<lparr>ta_from := a\<rparr>"

definition SetTo :: "address \<Rightarrow> transfer_args \<Rightarrow> transfer_args" where
  "SetTo a t = t\<lparr>ta_to := a\<rparr>"

definition set_option :: "(builder_options \<Rightarrow> builder_options) \<Rightarrow> transfer_args \<Rightarrow> transfer_args" where
  "set_option f t = t\<lparr>ta_options := f (ta_options t)\<rparr>"

definition SetContract :: "contract_address \<Rightarrow> transfer_args \<Rightarrow> transfer_args" where
  "SetContract c = set_option (\<lambda>b. b\<lparr>o_contract := Some c\<rparr>)"

definition SetPublicKey :: "bytes \<Rightarrow> transfer_args \<Rightarrow> transfer_args" where
  "SetPublicKey k = set_option (\<lambda>b. b\<lparr>o_public_key := Some k\<rparr>)"

definition SetFeePayer :: "address \<Rightarrow> transfer_args \<Rightarrow> transfer_args" where
  "SetFeePayer a = set_option (\<lambda>b. b\<lparr>o_fee_payer := Some a\<rparr>)"

definition SetFeePayerPublicKey :: "bytes \<Rightarrow> transfer_args \<Rightarrow> transfer_args" where
  "SetFeePayerPublicKey k = set_option (\<lambda>b. b\<lparr>o_fee_payer_public_key := Some k\<rparr>)"

definition SetInclusiveFeeSpending :: "bool \<Rightarrow> transfer_args \<Rightarrow> transfer_args" where
  "SetInclusiveFeeSpending f = set_option (\<lambda>b. b\<lparr>o_inclusive_fee_spending := f\<rparr>)"

definition SetTransactionAttempts :: "string list \<Rightarrow> transfer_args \<Rightarrow> transfer_args" where
  "SetTransactionAttempts ts = set_option (\<lambda>b. b\<lparr>o_transaction_attempts := ts\<rparr>)"

definition SetFromIdentity :: "string \<Rightarrow> transfer_args \<Rightarrow> transfer_args" where
  "SetFromIdentity f = set_option (\<lambda>b. b\<lparr>o_from_identity := Some f\<rparr>)"

definition SetToIdentity :: "string \<Rightarrow> transfer_args \<Rightarrow> transfer_args" where
  "SetToIdentity t = set_option (\<lambda>b. b\<lparr>o_to_identity := Some t\<rparr>)"

subsection \<open>Batch transfers (\<open>multi.go\<close>)\<close>

record sender =
  sn_address :: address
  sn_public_key :: bytes
  sn_options :: builder_options
  sn_applied_options :: "builder_option list"

record receiver =
  rc_address :: address
  rc_amount :: int
  rc_options :: builder_options
  rc_applied_options :: "builder_option list"

definition NewSender :: "address \<Rightarrow> bytes \<Rightarrow> builder_option list \<Rightarrow> sender" where
  "NewSender a pk opts = \<lparr>sn_address = a, sn_public_key = pk,
     sn_options = apply_options opts newBuilderOptions, sn_applied_options = opts\<rparr>"

definition NewReceiver :: "address \<Rightarrow> int \<Rightarrow> builder_option list \<Rightarrow> receiver" where
  "NewReceiver a amount opts = \<lparr>rc_address = a, rc_amount = amount,
     rc_options = apply_options opts newBuilderOptions, rc_applied_options = opts\<rparr>"

record multi_transfer_args =
  mt_chain :: string
  mt_spenders :: "sender list"
  mt_receivers :: "receiver list"
  mt_options :: builder_options
  mt_applied_options :: "builder_option list"

text \<open>The nested loops that compare every pair of different indices.\<close>

definition has_duplicate_sender :: "sender list \<Rightarrow> bool" where
  "has_duplicate_sender ss \<longleftrightarrow> (\<exists>i\<in>set [0..<length ss]. \<exists>j\<in>set [0..<length ss].
     i \<noteq> j \<and> sn_address (ss ! i) = sn_address (ss ! j))"

definition NewMultiTransferArgs :: "string \<Rightarrow> sender list \<Rightarrow> receiver list \<Rightarrow> builder_option list
    \<Rightarrow> builder_error + multi_transfer_args" where
  "NewMultiTransferArgs driver spenders receivers opts =
    (let o' = apply_options opts newBuilderOptions;
         args = \<lparr>mt_chain = driver, mt_spenders = spenders, mt_receivers = receivers,
           mt_options = o', mt_applied_options = opts\<rparr>
     in if driver \<in> set [DriverBitcoin, DriverBitcoinCash, DriverBitcoinLegacy, DriverCardano, DriverSui]
        then if has_duplicate_sender spenders then Inl DuplicateSender else Inr args
        else if driver \<in> set [DriverEVM, DriverEVMLegacy]
        then if length spenders \<noteq> 1 then Inl OneSpenderOnly
             else if o_fee_payer o' = None then Inl FeePayerRequired else Inr args
        else if driver = DriverSolana
        then if length spenders \<noteq> 1 then Inl OneSpenderOnly else Inr args
        else Inr args)"

definition NewMultiTransferArgsFromSingle :: "string \<Rightarrow> transfer_args \<Rightarrow> builder_option list
    \<Rightarrow> builder_error + multi_transfer_args" where
  "NewMultiTransferArgsFromSingle driver single opts =
    (case o_public_key (ta_options single) of
       None \<Rightarrow> Inl SenderPublicKeyNotSet
     | Some pk \<Rightarrow>
        NewMultiTransferArgs driver [NewSender (ta_from single) pk opts]
          [NewReceiver (ta_to single) (ta_amount single) opts]
          (ta_applied_options single @ opts))"

text \<open>The transfers of a batch, the options of the batch applied last; the first error stops.\<close>

fun collect :: "('e + 'a) list \<Rightarrow> 'e + 'a list" where
  "collect [] = Inr []"
| "collect (Inl e # rs) = Inl e"
| "collect (Inr x # rs) = (case collect rs of Inl e \<Rightarrow> Inl e | Inr xs \<Rightarrow> Inr (x # xs))"

definition transfer_of :: "multi_transfer_args \<Rightarrow> sender \<Rightarrow> receiver \<Rightarrow> builder_error + transfer_args" where
  "transfer_of args s r = NewTransferArgs (mt_chain args) (sn_address s) (rc_address r) (rc_amount r)
     (sn_applied_options s @ rc_applied_options r @ mt_applied_options args)"

definition AsUtxoTransfers :: "multi_transfer_args \<Rightarrow> builder_error + transfer_args list" where
  "AsUtxoTransfers args =
    (if length (mt_spenders args) \<noteq> length (mt_receivers args) then Inl SpendersReceiversDiffer
     else collect (map (\<lambda>(s, r). transfer_of args s r) (zip (mt_spenders args) (mt_receivers args))))"

definition AsAccountTransfers :: "multi_transfer_args \<Rightarrow> builder_error + transfer_args list" where
  "AsAccountTransfers args = (case mt_spenders args of
       [s] \<Rightarrow> collect (map (transfer_of args s) (mt_receivers args))
     | _ \<Rightarrow> Inl OneSpenderOnly)"

text \<open>\<open>DeductFee\<close> changes the first receiver of the contract whose amount covers the fee.\<close>

definition receiver_contract :: "native_asset \<Rightarrow> receiver \<Rightarrow> contract_address" where
  "receiver_contract chainId r = (let c = (case o_contract (rc_options r) of Some c \<Rightarrow> c | None \<Rightarrow> [])
     in if c = [] then chainId else c)"

fun deduct_fee :: "receiver list \<Rightarrow> int \<Rightarrow> native_asset \<Rightarrow> contract_address
    \<Rightarrow> builder_error + receiver list" where
  "deduct_fee [] amount chainId contract = Inl NoReceiverToDeduct"
| "deduct_fee (r # rs) amount chainId contract =
     (if receiver_contract chainId r = contract \<and> amt_cmp (rc_amount r) amount \<ge> 0
      then Inr (r\<lparr>rc_amount := amt_sub (rc_amount r) amount\<rparr> # rs)
      else (case deduct_fee rs amount chainId contract of
          Inl e \<Rightarrow> Inl e | Inr rs' \<Rightarrow> Inr (r # rs')))"

definition DeductFee :: "multi_transfer_args \<Rightarrow> int \<Rightarrow> native_asset \<Rightarrow> contract_address
    \<Rightarrow> builder_error + multi_transfer_args" where
  "DeductFee args amount chainId contract =
    (let contract = (if contract = [] then chainId else contract)
     in case deduct_fee (mt_receivers args) amount chainId contract of
          Inl e \<Rightarrow> Inl e
        | Inr rs \<Rightarrow> Inr (args\<lparr>mt_receivers := rs\<rparr>))"

subsection \<open>Staking (\<open>stake.go\<close>, \<open>validation/util.go\<close>)\<close>

text \<open>The error of parsing the constant is ignored in the code; the zero decimal stands in for it.\<close>

definition Count32EthChunks :: "'d decimal_lib \<Rightarrow> int \<Rightarrow> builder_error + u64" where
  "Count32EthChunks L amount =
    (let ethInc = (case dNewFromString L ''32'' of Some d \<Rightarrow> d | None \<Rightarrow> dNewFromBigInt L 0 0);
         decimals = 18;
         weiInc = ToBlockchain L ethInc decimals
     in if amt_cmp amount weiInc < 0 then Inl LessThan32Ether
        else
         (let amountHuman = ToHuman L amount decimals;
              quot = dDiv L amountHuman ethInc;
              rounded = dRound L quot 0
          in if dString L quot \<noteq> dString L rounded then Inl NotIncrementOf32Ether
             else Inr (big_uint64 (ToBlockchain L quot 0))))"

record stake_args =
  sa_options :: builder_options
  sa_from :: address

definition stake_args_get_fee_payer_identity :: "stake_args \<Rightarrow> string option" where
  "stake_args_get_fee_payer_identity args = o_from_identity (sa_options args)"

definition NewStakeArgs :: "'d decimal_lib \<Rightarrow> native_asset \<Rightarrow> address \<Rightarrow> builder_option list
    \<Rightarrow> builder_error + stake_args" where
  "NewStakeArgs L chain sender opts =
    (let args = \<lparr>sa_options = apply_options opts newBuilderOptions, sa_from = sender\<rparr>;
         (amount, ok) = GetStakeAmount (sa_options args);
         validator = o_validator (sa_options args);
         driver = native_driver chain
     in if driver = DriverEVM then
          (if \<not> ok then Inl StakingAmountRequired
           else (case Count32EthChunks L (NewAmountBlockchainFromUint64 (big_uint64 amount)) of
               Inl e \<Rightarrow> Inl e | Inr _ \<Rightarrow> Inr args))
        else if driver = DriverCardano then
          (if ok then Inl StakingAmountNotUsed
           else if validator = None then Inl ValidatorRequired else Inr args)
        else if driver \<in> set [DriverCosmos, DriverSolana, DriverSubstrate] then
          (if \<not> ok then Inl StakingAmountRequired
           else if validator = None then Inl ValidatorRequired else Inr args)
        else if driver = DriverTron then Inr args
        else (if \<not> ok then Inl StakingAmountRequired else Inr args))"

subsection \<open>Calls and account creation (\<open>call.go\<close>, \<open>create_account.go\<close>)\<close>

text \<open>\<open>validKey\<close> is whether \<^verbatim>\<open>solana.PublicKeyFromBase58\<close> accepts a string.\<close>

record call_args =
  ca_applied_options :: "builder_option list"
  ca_options :: builder_options

definition NewCallArgs :: "(string \<Rightarrow> bool) \<Rightarrow> string \<Rightarrow> builder_option list
    \<Rightarrow> builder_error + call_args" where
  "NewCallArgs validKey driver opts =
    (let args = \<lparr>ca_applied_options = opts, ca_options = apply_options opts newBuilderOptions\<rparr>
     in if driver = DriverSolana then
          (case o_nonce_account (ca_options args) of
             Some n \<Rightarrow> if \<not> validKey n then Inl InvalidNonceAccount else Inr args
           | None \<Rightarrow> Inr args)
        else Inr args)"

record create_account_args =
  cr_applied_options :: "builder_option list"
  cr_options :: builder_options
  cr_chain :: native_asset
  cr_address :: address
  cr_public_key :: bytes

definition NewCreateAccountArgs :: "native_asset \<Rightarrow> address \<Rightarrow> bytes \<Rightarrow> builder_option list
    \<Rightarrow> create_account_args" where
  "NewCreateAccountArgs chain a pk opts = \<lparr>cr_applied_options = opts,
     cr_options = apply_options opts newBuilderOptions, cr_chain = chain, cr_address = a,
     cr_public_key = pk\<rparr>"

definition create_account_public_key :: "create_account_args \<Rightarrow> bytes \<times> bool" where
  "create_account_public_key args = (cr_public_key args, length (cr_public_key args) > 0)"

subsection \<open>Options override each other\<close>

text \<open>
  The contract of an optional field: applying an option either sets it, whatever it was, or leaves
  it. Then a list of options sets it to what the last one of them sets, on top of any options.
\<close>

locale option_field =
  fixes get :: "builder_options \<Rightarrow> 'a option"
  assumes get_new: "get newBuilderOptions = None"
    and get_apply: "get (apply_option opt b) =
      (case get (apply_option opt newBuilderOptions) of Some x \<Rightarrow> Some x | None \<Rightarrow> get b)"
begin

lemma get_apply_options:
  "get (apply_options opts b) =
     (case get (apply_options opts newBuilderOptions) of Some x \<Rightarrow> Some x | None \<Rightarrow> get b)"
proof (induction opts arbitrary: b)
  case Nil
  then show ?case by (simp add: get_new)
next
  case (Cons opt opts)
  show ?case
    using Cons.IH [of "apply_option opt b"] Cons.IH [of "apply_option opt newBuilderOptions"]
      get_apply [of opt b]
    by (auto split: option.splits)
qed

end

lemma apply_options_append:
  "apply_options (xs @ ys) b = apply_options ys (apply_options xs b)"
  by (induction xs arbitrary: b) simp_all

lemma OptionContractAddress_fields:
  "o_memo (apply_option (OptionContractAddress c ds) b) = o_memo b"
  "o_priority (apply_option (OptionContractAddress c ds) b) = o_priority b"
  "o_contract (apply_option (OptionContractAddress c ds) b) = Some c"
  "o_fee_payer (apply_option (OptionContractAddress c ds) b) = o_fee_payer b"
  by (cases ds; simp)+

lemmas option_field_simps = OptionContractAddress_fields newBuilderOptions_def

lemma memo_apply: "o_memo (apply_option opt b) =
    (case o_memo (apply_option opt newBuilderOptions) of Some x \<Rightarrow> Some x | None \<Rightarrow> o_memo b)"
  by (cases opt) (simp_all add: option_field_simps del: apply_option.simps(5))

lemma priority_apply: "o_priority (apply_option opt b) =
    (case o_priority (apply_option opt newBuilderOptions) of Some x \<Rightarrow> Some x | None \<Rightarrow> o_priority b)"
  by (cases opt) (simp_all add: option_field_simps del: apply_option.simps(5))

lemma contract_apply: "o_contract (apply_option opt b) =
    (case o_contract (apply_option opt newBuilderOptions) of Some x \<Rightarrow> Some x | None \<Rightarrow> o_contract b)"
  by (cases opt) (simp_all add: option_field_simps del: apply_option.simps(5))

lemma fee_payer_apply: "o_fee_payer (apply_option opt b) =
    (case o_fee_payer (apply_option opt newBuilderOptions) of Some x \<Rightarrow> Some x | None \<Rightarrow> o_fee_payer b)"
  by (cases opt) (simp_all add: option_field_simps del: apply_option.simps(5))

interpretation memo: option_field o_memo
  by unfold_locales (simp add: newBuilderOptions_def, rule memo_apply)

interpretation priority: option_field o_priority
  by unfold_locales (simp add: newBuilderOptions_def, rule priority_apply)

interpretation contract: option_field o_contract
  by unfold_locales (simp add: newBuilderOptions_def, rule contract_apply)

interpretation fee_payer: option_field o_fee_payer
  by unfold_locales (simp add: newBuilderOptions_def, rule fee_payer_apply)

subsection \<open>Lemmas\<close>

lemma collect_map_Inr [simp]: "collect (map Inr xs) = Inr xs"
  by (induction xs) simp_all

lemma collect_InrD: "collect rs = Inr xs \<Longrightarrow> rs = map Inr xs"
  by (induction rs arbitrary: xs rule: collect.induct) (auto split: sum.splits)

lemma collect_Inr: "collect rs = Inr xs \<longleftrightarrow> rs = map Inr xs"
  by (auto dest: collect_InrD)

lemma NewTransferArgs_Inr:
  "NewTransferArgs d a b n opts = Inr t \<Longrightarrow>
     t = \<lparr>ta_applied_options = opts, ta_options = apply_options opts newBuilderOptions,
       ta_from = a, ta_to = b, ta_amount = n\<rparr>"
  by (auto simp: NewTransferArgs_def Let_def split: if_splits option.splits)

lemma has_duplicate_sender_iff: "has_duplicate_sender ss \<longleftrightarrow> \<not> distinct (map sn_address ss)"
  by (auto simp: has_duplicate_sender_def distinct_conv_nth Ball_def Bex_def)

lemma deduct_fee_Inr:
  "deduct_fee rs a chain c = Inr rs' \<Longrightarrow>
     \<exists>i<length rs. receiver_contract chain (rs ! i) = c \<and> a \<le> rc_amount (rs ! i)
       \<and> rs' = rs[i := (rs ! i)\<lparr>rc_amount := rc_amount (rs ! i) - a\<rparr>]"
proof (induction rs arbitrary: rs')
  case (Cons r rs)
  show ?case
  proof (cases "receiver_contract chain r = c \<and> a \<le> rc_amount r")
    case True
    with Cons.prems show ?thesis by (intro exI [of _ 0]) auto
  next
    case False
    with Cons.prems obtain ts where "deduct_fee rs a chain c = Inr ts" "rs' = r # ts"
      by (auto split: sum.splits if_splits)
    with Cons.IH obtain i where "i < length rs" "receiver_contract chain (rs ! i) = c"
      "a \<le> rc_amount (rs ! i)" "ts = rs[i := (rs ! i)\<lparr>rc_amount := rc_amount (rs ! i) - a\<rparr>]"
      by blast
    with \<open>rs' = r # ts\<close> show ?thesis by (intro exI [of _ "Suc i"]) simp
  qed
qed simp

lemma deduct_fee_Inl:
  "deduct_fee rs a chain c = Inl e \<longleftrightarrow> e = NoReceiverToDeduct
     \<and> (\<forall>r\<in>set rs. receiver_contract chain r = c \<longrightarrow> rc_amount r < a)"
  by (induction rs) (auto split: sum.splits simp: not_le)

lemma sum_amounts_update:
  "i < length rs \<Longrightarrow> sum_list (map rc_amount (rs[i := r])) =
     sum_list (map rc_amount rs) - rc_amount (rs ! i) + rc_amount r"
  by (induction rs arbitrary: i) (auto split: nat.splits)

subsection \<open>Properties\<close>

text \<open>C22: A batch of transfers on a UTXO chain becomes exactly one transfer per sender, in order, from that
  sender to the receiver at the same position with the receiver's amount, so the amounts add up to
  the batch's; the transfers carry the sender's options, overridden by the receiver's, overridden
  by the batch's.\<close>

theorem utxo_transfers_exact:
  assumes "AsUtxoTransfers args = Inr ts"
  shows "length ts = length (mt_spenders args) \<and> length ts = length (mt_receivers args)
    \<and> (\<forall>i<length ts. ta_from (ts ! i) = sn_address (mt_spenders args ! i)
        \<and> ta_to (ts ! i) = rc_address (mt_receivers args ! i)
        \<and> ta_amount (ts ! i) = rc_amount (mt_receivers args ! i)
        \<and> ta_options (ts ! i) = apply_options (mt_applied_options args)
            (apply_options (rc_applied_options (mt_receivers args ! i))
              (apply_options (sn_applied_options (mt_spenders args ! i)) newBuilderOptions)))
    \<and> sum_list (map ta_amount ts) = sum_list (map rc_amount (mt_receivers args))"
proof -
  let ?S = "mt_spenders args" and ?R = "mt_receivers args"
  have len: "length ?S = length ?R"
    and eq: "map (\<lambda>(s, r). transfer_of args s r) (zip ?S ?R) = map Inr ts"
    using assms by (simp_all add: AsUtxoTransfers_def collect_Inr split: if_splits)
  have l: "length ts = length ?R" using arg_cong [OF eq, of length] len by simp
  have t: "transfer_of args (?S ! i) (?R ! i) = Inr (ts ! i)" if "i < length ts" for i
    using arg_cong [OF eq, of "\<lambda>xs. xs ! i"] that l len by simp
  have all: "ta_from (ts ! i) = sn_address (?S ! i) \<and> ta_to (ts ! i) = rc_address (?R ! i)
      \<and> ta_amount (ts ! i) = rc_amount (?R ! i)
      \<and> ta_options (ts ! i) = apply_options (mt_applied_options args)
          (apply_options (rc_applied_options (?R ! i))
            (apply_options (sn_applied_options (?S ! i)) newBuilderOptions))"
    if "i < length ts" for i
    using NewTransferArgs_Inr [OF t [OF that, unfolded transfer_of_def]]
    by (simp add: apply_options_append)
  then have "map ta_amount ts = map rc_amount ?R"
    using l by (auto intro: nth_equalityI)
  with all l len show ?thesis by simp
qed

definition batch_example :: multi_transfer_args where
  "batch_example = \<lparr>mt_chain = ''bitcoin'',
     mt_spenders = [NewSender ''a'' [] [OptionMemo ''s''], NewSender ''b'' [] []],
     mt_receivers = [NewReceiver ''x'' 5 [], NewReceiver ''y'' 7 [OptionMemo ''r'']],
     mt_options = apply_options [OptionMemo ''batch''] newBuilderOptions,
     mt_applied_options = [OptionMemo ''batch'']\<rparr>"

lemma batch_example_transfers: "AsUtxoTransfers batch_example = Inr
    [\<lparr>ta_applied_options = [OptionMemo ''s'', OptionMemo ''batch''],
      ta_options = newBuilderOptions\<lparr>o_memo := Some ''batch''\<rparr>, ta_from = ''a'', ta_to = ''x'', ta_amount = 5\<rparr>,
     \<lparr>ta_applied_options = [OptionMemo ''r'', OptionMemo ''batch''],
      ta_options = newBuilderOptions\<lparr>o_memo := Some ''batch''\<rparr>, ta_from = ''b'', ta_to = ''y'', ta_amount = 7\<rparr>]"
  by (simp add: AsUtxoTransfers_def batch_example_def transfer_of_def NewTransferArgs_def
      NewSender_def NewReceiver_def newBuilderOptions_def)

theorem utxo_transfers_exact_witness:
  "sum_list (map rc_amount (mt_receivers batch_example)) = 12"
  using utxo_transfers_exact [OF batch_example_transfers] by simp

text \<open>The options of the batch take precedence in every transfer it is split into: a memo, priority,
  contract or fee payer that the batch sets is the one of each transfer, whatever the senders and
  receivers set.\<close>

theorem batch_options_precedence:
  assumes "AsAccountTransfers args = Inr ts" and "t \<in> set ts"
    and "mt_options args = apply_options (mt_applied_options args) newBuilderOptions"
  shows "(o_memo (mt_options args) = Some m \<longrightarrow> o_memo (ta_options t) = Some m)
    \<and> (o_priority (mt_options args) = Some p \<longrightarrow> o_priority (ta_options t) = Some p)
    \<and> (o_contract (mt_options args) = Some c \<longrightarrow> o_contract (ta_options t) = Some c)
    \<and> (o_fee_payer (mt_options args) = Some f \<longrightarrow> o_fee_payer (ta_options t) = Some f)"
proof -
  obtain s where s: "mt_spenders args = [s]"
    "map (transfer_of args s) (mt_receivers args) = map Inr ts"
    using assms(1) by (auto simp: AsAccountTransfers_def collect_Inr split: list.splits)
  then have "Inr t \<in> transfer_of args s ` set (mt_receivers args)"
    using assms(2) by (metis image_eqI list.set_map)
  then obtain r where "transfer_of args s r = Inr t" by auto
  then have "ta_options t = apply_options (mt_applied_options args)
      (apply_options (sn_applied_options s @ rc_applied_options r) newBuilderOptions)"
    by (auto simp: transfer_of_def apply_options_append dest: NewTransferArgs_Inr)
  then show ?thesis
    using memo.get_apply_options priority.get_apply_options contract.get_apply_options
      fee_payer.get_apply_options assms(3)
    by (metis option.simps(5))
qed

definition account_batch_example :: multi_transfer_args where
  "account_batch_example = \<lparr>mt_chain = ''solana'', mt_spenders = [NewSender ''a'' [] [OptionMemo ''s'']],
     mt_receivers = [NewReceiver ''x'' 5 [OptionMemo ''r'']],
     mt_options = apply_options [OptionMemo ''batch''] newBuilderOptions,
     mt_applied_options = [OptionMemo ''batch'']\<rparr>"

theorem batch_options_precedence_witness:
  "o_memo (apply_options [OptionMemo ''s'', OptionMemo ''r'', OptionMemo ''batch''] newBuilderOptions)
     = Some ''batch''"
proof -
  let ?t = "\<lparr>ta_applied_options = [OptionMemo ''s'', OptionMemo ''r'', OptionMemo ''batch''],
    ta_options = apply_options [OptionMemo ''s'', OptionMemo ''r'', OptionMemo ''batch''] newBuilderOptions,
    ta_from = ''a'', ta_to = ''x'', ta_amount = 5\<rparr>"
  have "AsAccountTransfers account_batch_example = Inr [?t]"
    by (simp add: AsAccountTransfers_def account_batch_example_def transfer_of_def NewTransferArgs_def
        NewSender_def NewReceiver_def)
  from batch_options_precedence [OF this, of ?t "''batch''"] show ?thesis
    by (simp add: account_batch_example_def newBuilderOptions_def)
qed

text \<open>C36: Deducting a fee from a batch either takes exactly the fee from exactly one receiver of the fee's
  contract (the chain's own asset standing for no contract) who has at least that much, and leaves
  everything else, or fails because no such receiver has enough.\<close>

theorem deduct_fee_exact:
  "case DeductFee args fee chain c of
     Inr args' \<Rightarrow> (\<exists>i<length (mt_receivers args).
         receiver_contract chain (mt_receivers args ! i) = (if c = [] then chain else c)
         \<and> fee \<le> rc_amount (mt_receivers args ! i)
         \<and> args' = args\<lparr>mt_receivers := (mt_receivers args)[i := (mt_receivers args ! i)
              \<lparr>rc_amount := rc_amount (mt_receivers args ! i) - fee\<rparr>]\<rparr>)
       \<and> sum_list (map rc_amount (mt_receivers args')) = sum_list (map rc_amount (mt_receivers args)) - fee
   | Inl e \<Rightarrow> \<forall>r\<in>set (mt_receivers args).
       receiver_contract chain r = (if c = [] then chain else c) \<longrightarrow> rc_amount r < fee"
proof (cases "deduct_fee (mt_receivers args) fee chain (if c = [] then chain else c)")
  case (Inl e)
  then show ?thesis
    using deduct_fee_Inl [THEN iffD1, OF Inl] by (simp add: DeductFee_def Let_def)
next
  case (Inr rs)
  from deduct_fee_Inr [OF Inr] obtain i where i: "i < length (mt_receivers args)"
    "receiver_contract chain (mt_receivers args ! i) = (if c = [] then chain else c)"
    "fee \<le> rc_amount (mt_receivers args ! i)"
    "rs = (mt_receivers args)[i := (mt_receivers args ! i)
       \<lparr>rc_amount := rc_amount (mt_receivers args ! i) - fee\<rparr>]" by blast
  have "sum_list (map rc_amount rs) = sum_list (map rc_amount (mt_receivers args)) - fee"
    unfolding i(4) by (simp add: sum_amounts_update [OF i(1)])
  moreover have "DeductFee args fee chain c = Inr (args\<lparr>mt_receivers := rs\<rparr>)"
    using Inr by (simp add: DeductFee_def Let_def)
  ultimately show ?thesis using i by auto
qed

theorem deduct_fee_exact_witness:
  "\<exists>a. DeductFee batch_example 6 ''BTC'' [] = Inr a \<and> sum_list (map rc_amount (mt_receivers a)) = 6"
proof -
  obtain a where a: "DeductFee batch_example 6 ''BTC'' [] = Inr a"
    by (simp add: DeductFee_def batch_example_def NewReceiver_def receiver_contract_def
        newBuilderOptions_def)
  with deduct_fee_exact [where args = batch_example and fee = 6 and chain = "''BTC''" and c = "[]"] show ?thesis
    by (simp add: batch_example_def NewReceiver_def)
qed

text \<open>A batch on a UTXO chain (Bitcoin and its forks, Cardano, Sui) is refused exactly when two of its
  senders have the same address; on an EVM chain it needs exactly one sender and a fee payer.\<close>

theorem multi_transfer_checks:
  "(driver \<in> {DriverBitcoin, DriverBitcoinCash, DriverBitcoinLegacy, DriverCardano, DriverSui} \<longrightarrow>
      ((\<exists>args. NewMultiTransferArgs driver ss rs opts = Inr args) \<longleftrightarrow> distinct (map sn_address ss)))
   \<and> (driver \<in> {DriverEVM, DriverEVMLegacy} \<longrightarrow>
      ((\<exists>args. NewMultiTransferArgs driver ss rs opts = Inr args) \<longleftrightarrow>
        length ss = 1 \<and> o_fee_payer (apply_options opts newBuilderOptions) \<noteq> None))"
  by (auto simp: NewMultiTransferArgs_def Let_def has_duplicate_sender_iff)

theorem multi_transfer_checks_witness:
  "\<not> (\<exists>args. NewMultiTransferArgs ''bitcoin'' [NewSender ''a'' [] [], NewSender ''a'' [1] []] [] [] = Inr args)"
  using multi_transfer_checks [of "''bitcoin''" "[NewSender ''a'' [] [], NewSender ''a'' [1] []]"]
  by (simp add: NewSender_def)

text \<open>
  Staked ether: the quotient by 32 is rounded to sixteen decimals before it is compared with a
  whole number, so 3200 wei are its unit.
\<close>

lemma round_div_exact:
  fixes q h d :: int
  assumes "0 \<le> h" and "h < d"
  shows "q = (q + h) div d * d \<longleftrightarrow> q mod d = 0"
proof
  assume "q mod d = 0"
  then obtain k where "q = k * d" by (metis dvd_def mod_0_imp_dvd mult.commute)
  with assms show "q = (q + h) div d * d" by simp
qed (metis mod_mult_self2_is_0)

context decimal_library
begin

lemma dval_of_human: "dval (ToHuman L a 18) = of_int a / 10 ^ 18"
  by (simp add: ToHuman_def dval_new pow10_def)

lemma Count32EthChunks_value:
  "Count32EthChunks L a =
    (if a < 32 * 10 ^ 18 then Inl LessThan32Ether
     else if (a + 1600) div 3200 mod 10 ^ 16 \<noteq> 0 then Inl NotIncrementOf32Ether
     else Inr (big_uint64 ((a + 1600) div 3200 div 10 ^ 16)))"
proof -
  obtain d where d: "dNewFromString L ''32'' = Some d" "dval d = 32" using dval_32 by blast
  have inc: "ToBlockchain L d 18 = 32 * 10 ^ 18"
    using ToBlockchain_trunc [of d 18] rat_trunc_of_int [of "32 * 10 ^ 18"] by (simp add: d(2))
  show ?thesis
  proof (cases "a < 32 * 10 ^ 18")
    case True
    then show ?thesis by (simp add: Count32EthChunks_def d inc Let_def)
  next
    case False
    define q where "q = (a + 1600) div 3200"
    define Q where "Q = dDiv L (ToHuman L a 18) d"
    have "of_int a / 10 ^ 18 / 32 * 10 ^ 16 + 1 / 2 = of_int (a + 1600) / (of_int 3200 :: rat)"
      by simp
    then have "\<lfloor>of_int a / 10 ^ 18 / 32 * 10 ^ 16 + 1 / 2 :: rat\<rfloor> = q"
      unfolding q_def by (simp only: floor_divide_of_int_eq)
    then have Q: "dval Q = of_int q / 10 ^ 16"
      using dval_div [of "ToHuman L a 18" d] False by (simp add: Q_def dval_of_human d)
    have q: "0 \<le> q" using False by (simp add: q_def pos_imp_zdiv_nonneg_iff)
    have "\<lfloor>of_int q / 10 ^ 16 + 1 / 2 :: rat\<rfloor> = (q + 5 * 10 ^ 15) div 10 ^ 16"
      using floor_divide_of_int_eq [of "q + 5 * 10 ^ 15" "10 ^ 16", where 'a = rat]
      by (simp add: add_divide_distrib)
    then have R: "dval (dRound L Q 0) = of_int ((q + 5 * 10 ^ 15) div 10 ^ 16)"
      using dval_round [of Q] q by (simp add: Q)
    have "dString L Q = dString L (dRound L Q 0) \<longleftrightarrow> q = (q + 5 * 10 ^ 15) div 10 ^ 16 * 10 ^ 16"
      unfolding string_eq Q R
      by (simp add: field_simps flip: of_int_eq_iff [where 'a = rat])
    also have "\<dots> \<longleftrightarrow> q mod 10 ^ 16 = 0"
      by (rule round_div_exact) simp_all
    finally have eq: "dString L Q = dString L (dRound L Q 0) \<longleftrightarrow> q mod 10 ^ 16 = 0" .
    have "rat_trunc (of_int q / 10 ^ 16) = q div 10 ^ 16"
      using q floor_divide_of_int_eq [of q "10 ^ 16", where 'a = rat] by (simp add: rat_trunc_def)
    then have "ToBlockchain L Q 0 = q div 10 ^ 16"
      using ToBlockchain_trunc [of Q 0] by (simp add: Q)
    then show ?thesis
      using False eq by (simp add: Count32EthChunks_def d inc Let_def flip: Q_def q_def)
  qed
qed

lemma EVM_stake_too_small:
  assumes "native_driver chain = DriverEVM"
  shows "\<exists>e. NewStakeArgs L chain sender opts = Inl e"
proof -
  have "Count32EthChunks L (uint w) = Inl LessThan32Ether" for w :: u64
    using uint_bounded [of w] by (simp add: Count32EthChunks_value)
  then show ?thesis
    using assms by (simp add: NewStakeArgs_def NewAmountBlockchainFromUint64_def Let_def
        split: prod.splits)
qed

end

text \<open>Counting the 32-ether chunks of a stake is not exact: an amount is accepted, as \<open>k\<close> chunks,
  whenever it is within 1600 wei of \<open>k\<close> times 32 ether (from below: at least 32 ether), because the
  quotient is rounded to sixteen decimals before the comparison.\<close>

theorem eth_chunks_rounded:
  assumes "decimal_library L dval" and "1 \<le> k" and "k < 2 ^ 64" and "32 * 10 ^ 18 \<le> a"
    and "32 * 10 ^ 18 * k - 1600 \<le> a" and "a < 32 * 10 ^ 18 * k + 1600"
  shows "Count32EthChunks L a = Inr (word_of_int k)"
proof -
  have "(a + 1600) div 3200 = 10 ^ 16 * k"
    using assms(5,6) by (intro int_div_pos_eq [of _ _ _ "a + 1600 - 32 * 10 ^ 18 * k"]) simp_all
  then show ?thesis
    using assms(2,4) by (simp add: decimal_library.Count32EthChunks_value [OF assms(1)]
        big_uint64_def)
qed

theorem eth_chunks_rounded_witness:
  "Count32EthChunks ref_decimal (32 * 10 ^ 18 + 1) = Inr 1"
  using eth_chunks_rounded [OF ref.decimal_library_axioms, of 1 "32 * 10 ^ 18 + 1"] by simp

text \<open>Arguments for staking on an EVM chain are never accepted, whatever the options: the amount is cut to
  64 bits before it is compared with 32 ether, and no 64-bit number of wei reaches 32 ether.\<close>

theorem evm_stake_never_accepted:
  assumes "decimal_library L dval" and "native_driver chain = DriverEVM"
  shows "\<forall>args. NewStakeArgs L chain sender opts \<noteq> Inr args"
  using decimal_library.EVM_stake_too_small [OF assms, of sender opts] by auto

theorem evm_stake_never_accepted_witness:
  "\<forall>args. NewStakeArgs ref_decimal ''ETH'' ''0xa'' [OptionStakeAmount (32 * 10 ^ 18)] \<noteq> Inr args"
proof -
  have "native_driver ''ETH'' = DriverEVM" by (simp add: native_driver_def)
  from evm_stake_never_accepted [OF ref.decimal_library_axioms this] show ?thesis by blast
qed

end
