(* ===== verification/Bitcoin.thy ===== *)
theory Bitcoin
  imports Builder UtxoInputs
begin

text \<open>
  The Bitcoin transactions: \<^verbatim>\<open>chain/bitcoin/builder/builder.go\<close>, which turns arguments and an input into
  the inputs and outputs of a message, and the parts of \<^verbatim>\<open>chain/bitcoin/tx/tx.go\<close> that read one. The
  wire format is that of btcd: a message is its list of outpoints and its list of outputs, an
  \<open>int64\<close> and a script each. Decoding addresses and making scripts are parameters.
\<close>

subsection \<open>Messages\<close>

text \<open>The address decoder of the builder, and btcd's own \<^verbatim>\<open>txscript.PayToAddrScript\<close>.\<close>

record 'a btc_addresses =
  adDecode :: "address \<Rightarrow> 'a option"
  adScript :: "'a \<Rightarrow> bytes option"
  txScript :: "'a \<Rightarrow> bytes option"

record recipient =
  rp_to :: address
  rp_value :: int

record msg_tx =
  tx_in :: "outpoint list"
  tx_out :: "(i64 \<times> bytes) list"

record btc_tx =
  bt_msg :: msg_tx
  bt_signed :: bool
  bt_recipients :: "recipient list"
  bt_zcash :: zcash
  bt_unspent_outputs :: "btc_output list"

datatype btc_error = TokensNotSupported | NotBitcoinInput | BadAddress address
  | NoScript address | NotEnoughFunds int int | BadOutput nat

text \<open>\<^verbatim>\<open>copy(hash[:], input.Hash)\<close> into 32 zero bytes.\<close>

definition chain_hash :: "bytes \<Rightarrow> bytes" where
  "chain_hash h = take 32 h @ replicate (32 - length h) 0"

definition add_inputs :: "btc_output list \<Rightarrow> outpoint list" where
  "add_inputs us = map (\<lambda>u. \<lparr>op_hash = chain_hash (op_hash (bo_outpoint u)),
     op_index = op_index (bo_outpoint u)\<rparr>) us"

text \<open>The loop that adds the outputs; \<open>funds\<close> is the error of a negative value.\<close>

fun add_outputs :: "(address \<Rightarrow> 'a option) \<Rightarrow> ('a \<Rightarrow> bytes option) \<Rightarrow> btc_error \<Rightarrow> recipient list
    \<Rightarrow> btc_error + (i64 \<times> bytes) list" where
  "add_outputs decode script funds [] = Inr []"
| "add_outputs decode script funds (r # rs) =
     (case decode (rp_to r) of None \<Rightarrow> Inl (BadAddress (rp_to r))
      | Some a \<Rightarrow> (case script a of None \<Rightarrow> Inl (NoScript (rp_to r))
      | Some s \<Rightarrow>
         (let v = big_int64 (rp_value r)
          in if sint v < 0 then Inl funds
             else (case add_outputs decode script funds rs of
                 Inl e \<Rightarrow> Inl e | Inr outs \<Rightarrow> Inr ((v, s) # outs)))))"

subsection \<open>The builder\<close>

definition NewNativeTransfer :: "'d decimal_lib \<Rightarrow> 'a btc_addresses \<Rightarrow> address \<Rightarrow> address \<Rightarrow> int
    \<Rightarrow> 'd tx_input option \<Rightarrow> btc_error + btc_tx" where
  "NewNativeTransfer L D sender receiver amount input = (case input of
     Some (BitcoinIn i) \<Rightarrow>
      (let totalSpend = btc_sum_utxo i;
           fee = fst (btc_get_fee_limit L i);
           transferAmountAndFee = amt_add amount fee;
           unspentAmountMinusTransferAndFee = amt_sub totalSpend transferAmountAndFee;
           recipients = [\<lparr>rp_to = receiver, rp_value = amount\<rparr>];
           recipients = (if \<not> amt_is_zero unspentAmountMinusTransferAndFee
             then recipients @ [\<lparr>rp_to = sender, rp_value = unspentAmountMinusTransferAndFee\<rparr>]
             else recipients)
       in case add_outputs (adDecode D) (adScript D)
              (NotEnoughFunds fee (amt_sub (btc_sum_utxo i) amount)) recipients of
            Inl e \<Rightarrow> Inl e
          | Inr outs \<Rightarrow> Inr \<lparr>bt_msg = \<lparr>tx_in = add_inputs (bi_unspent_outputs i), tx_out = outs\<rparr>,
              bt_signed = False, bt_recipients = recipients, bt_zcash = bi_zcash i,
              bt_unspent_outputs = bi_unspent_outputs i\<rparr>)
   | _ \<Rightarrow> Inl NotBitcoinInput)"

definition Transfer :: "'d decimal_lib \<Rightarrow> 'a btc_addresses \<Rightarrow> transfer_args \<Rightarrow> 'd tx_input option
    \<Rightarrow> btc_error + btc_tx" where
  "Transfer L D args input =
    (if o_contract (ta_options args) \<noteq> None then Inl TokensNotSupported
     else NewNativeTransfer L D (ta_from args) (ta_to args) (ta_amount args) input)"

text \<open>
  The loop over the inputs of a batch. An input of an address that is no spender is skipped. The
  state is the recipients, the amount still to be spent and the outputs spent so far.
\<close>

definition spending_address :: "address list \<Rightarrow> address \<Rightarrow> address" where
  "spending_address spenders a = (case find (\<lambda>s. s = a) spenders of Some s \<Rightarrow> s | None \<Rightarrow> [])"

definition spend_input :: "address list \<Rightarrow> 'd btc_input \<Rightarrow> recipient list \<times> int \<times> btc_output list
    \<Rightarrow> recipient list \<times> int \<times> btc_output list" where
  "spend_input spenders i st =
    (let (recipients, remainingAmount, unspentOutputs) = st;
         spendingAddress = spending_address spenders (bi_address i)
     in if spendingAddress = [] then st
        else
         (let totalSpendForAddr = btc_sum_utxo i;
              (recipients, remainingAmount) =
                (if amt_cmp totalSpendForAddr remainingAmount \<ge> 0
                 then (recipients @ [\<lparr>rp_to = spendingAddress,
                         rp_value = amt_sub totalSpendForAddr remainingAmount\<rparr>],
                       NewAmountBlockchainFromUint64 0)
                 else (recipients, amt_sub remainingAmount totalSpendForAddr))
          in (recipients, remainingAmount, unspentOutputs
                @ map (\<lambda>u. u\<lparr>bo_address := spendingAddress\<rparr>) (bi_unspent_outputs i))))"

definition MultiTransfer :: "'d decimal_lib \<Rightarrow> 'a btc_addresses \<Rightarrow> multi_transfer_args
    \<Rightarrow> 'd tx_input option \<Rightarrow> btc_error + btc_tx" where
  "MultiTransfer L D args input = (case input of
     Some (BitcoinMultiIn m) \<Rightarrow>
      (let recipients = map (\<lambda>r. \<lparr>rp_to = rc_address r, rp_value = rc_amount r\<rparr>) (mt_receivers args);
           transferAmount = fold (\<lambda>r t. amt_add t (rc_amount r)) (mt_receivers args)
             (NewAmountBlockchainFromUint64 0);
           fee = fst (btc_multi_get_fee_limit L m);
           (recipients, remainingAmount, unspentOutputs) =
             fold (spend_input (map sn_address (mt_spenders args))) (bm_inputs m)
               (recipients, amt_add transferAmount fee, [])
       in case add_outputs (adDecode D) (txScript D)
              (NotEnoughFunds fee (amt_sub (btc_multi_sum_utxo m) transferAmount)) recipients of
            Inl e \<Rightarrow> Inl e
          | Inr outs \<Rightarrow> Inr \<lparr>bt_msg = \<lparr>tx_in = add_inputs unspentOutputs, tx_out = outs\<rparr>,
              bt_signed = False, bt_recipients = recipients, bt_zcash = bm_zcash m,
              bt_unspent_outputs = unspentOutputs\<rparr>)
   | _ \<Rightarrow> Inl NotBitcoinInput)"

subsection \<open>Reading a transaction\<close>

text \<open>\<open>Outputs\<close> with \<open>hash\<close> the hexadecimal of btcd's hash of the message, as the bytes of its text.\<close>

fun check_outputs :: "nat \<Rightarrow> (i64 \<times> bytes) list \<Rightarrow> bytes \<Rightarrow> btc_error + btc_output list" where
  "check_outputs i [] hash = Inr []"
| "check_outputs i ((v, s) # outs) hash =
     (if sint v < 0 then Inl (BadOutput i)
      else (case check_outputs (Suc i) outs hash of Inl e \<Rightarrow> Inl e
        | Inr us \<Rightarrow> Inr (\<lparr>bo_outpoint = \<lparr>op_hash = hash, op_index = of_nat i\<rparr>,
            bo_value = NewAmountBlockchainFromUint64 v, bo_pubkey_script = s, bo_address = []\<rparr> # us)))"

definition Outputs :: "bytes \<Rightarrow> btc_tx \<Rightarrow> btc_error + btc_output list" where
  "Outputs hash tx = check_outputs 0 (tx_out (bt_msg tx)) hash"

text \<open>The largest input's address and the total.\<close>

definition DetectFrom :: "(int \<times> address) list \<Rightarrow> string \<times> int" where
  "DetectFrom inputs =
    (let (sender, m, totalIn) = fold (\<lambda>(v, a) (sender, m, totalIn).
           (if amt_cmp v m > 0 then (a, v, amt_add totalIn v) else (sender, m, amt_add totalIn v)))
         inputs ([], NewAmountBlockchainFromUint64 0, NewAmountBlockchainFromUint64 0)
     in (sender, totalIn))"

definition DetectToAndAmount :: "btc_tx \<Rightarrow> string \<Rightarrow> string \<Rightarrow> string \<times> int \<times> int" where
  "DetectToAndAmount tx sender expectedTo =
     fold (\<lambda>r (to, amount, totalOut).
        let addr = rp_to r; v = rp_value r;
            amount = (if expectedTo \<noteq> [] \<and> addr = expectedTo then amt_add amount v else amount);
            (amount, to) = (if to = [] \<and> addr \<noteq> sender then (v, addr) else (amount, to))
        in (to, amount, amt_add totalOut v))
      (bt_recipients tx) (expectedTo, NewAmountBlockchainFromUint64 0, NewAmountBlockchainFromUint64 0)"

subsection \<open>Lemmas\<close>


definition payable :: "(address \<Rightarrow> 'a option) \<Rightarrow> ('a \<Rightarrow> bytes option) \<Rightarrow> address \<Rightarrow> bytes option" where
  "payable decode script a = (case decode a of None \<Rightarrow> None | Some x \<Rightarrow> script x)"

lemma add_outputs_InrD:
  "add_outputs decode script e rs = Inr outs \<Longrightarrow>
     (\<forall>r\<in>set rs. payable decode script (rp_to r) \<noteq> None \<and> 0 \<le> sint (big_int64 (rp_value r)))
     \<and> outs = map (\<lambda>r. (big_int64 (rp_value r), the (payable decode script (rp_to r)))) rs"
proof (induction rs arbitrary: outs)
  case (Cons r rs)
  then show ?case by (auto simp: payable_def Let_def split: option.splits if_splits sum.splits)
qed simp

lemma add_outputs_Inr:
  "\<forall>r\<in>set rs. payable decode script (rp_to r) \<noteq> None \<and> 0 \<le> sint (big_int64 (rp_value r)) \<Longrightarrow>
     add_outputs decode script e rs =
       Inr (map (\<lambda>r. (big_int64 (rp_value r), the (payable decode script (rp_to r)))) rs)"
proof (induction rs)
  case (Cons r rs)
  then show ?case by (auto simp: payable_def Let_def split: option.splits)
qed simp

lemma sum_utxo_eq: "sum_utxo us b = b + sum_list (map bo_value us)"
  by (induction us arbitrary: b) simp_all

lemma big_int64_add: "big_int64 (n + 2 ^ 64) = big_int64 n"
  by (simp add: big_int64_def)

lemma check_outputs_Inr:
  "\<forall>(v, s)\<in>set outs. 0 \<le> sint v \<Longrightarrow>
     \<exists>us. check_outputs i outs hash = Inr us \<and> map bo_value us = map (sint \<circ> fst) outs
       \<and> map bo_pubkey_script us = map snd outs"
proof (induction outs arbitrary: i)
  case (Cons out outs)
  obtain v s where out: "out = (v, s)" by (cases out)
  obtain us where "check_outputs (Suc i) outs hash = Inr us" "map bo_value us = map (sint \<circ> fst) outs"
    "map bo_pubkey_script us = map snd outs"
    using Cons.IH [of "Suc i"] Cons.prems by auto
  then show ?case using Cons.prems by (simp add: out NewAmountBlockchainFromUint64_def uint_eq_sint)
qed simp

text \<open>What a built transaction pays: the values of its recipients, read back from the message.\<close>

lemma Outputs_values:
  assumes "add_outputs decode script e rs = Inr (tx_out (bt_msg tx))"
    and "\<forall>r\<in>set rs. - (2 ^ 63) \<le> rp_value r \<and> rp_value r < 2 ^ 63"
  shows "\<exists>us. Outputs hash tx = Inr us \<and> map bo_value us = map rp_value rs
    \<and> map bo_pubkey_script us = map (\<lambda>r. the (payable decode script (rp_to r))) rs
    \<and> (\<forall>r\<in>set rs. 0 \<le> rp_value r)"
proof -
  note outs = add_outputs_InrD [OF assms(1)]
  have val: "sint (big_int64 (rp_value r)) = rp_value r" if "r \<in> set rs" for r
    using assms(2) that by (intro sint_big_int64) auto
  have "\<forall>(v, s)\<in>set (tx_out (bt_msg tx)). 0 \<le> sint v" using outs by auto
  from check_outputs_Inr [OF this, of 0 hash] obtain us where
    "Outputs hash tx = Inr us" "map bo_value us = map (sint \<circ> fst) (tx_out (bt_msg tx))"
    "map bo_pubkey_script us = map snd (tx_out (bt_msg tx))"
    by (auto simp: Outputs_def)
  then show ?thesis using outs val by (auto simp: comp_def)
qed

subsection \<open>Properties\<close>


text \<open>The recipients of a native transfer, and the transfer as the outputs they give.\<close>

definition native_recipients :: "address \<Rightarrow> address \<Rightarrow> int \<Rightarrow> int \<Rightarrow> recipient list" where
  "native_recipients sender receiver amount change =
     \<lparr>rp_to = receiver, rp_value = amount\<rparr> # (if change = 0 then [] else [\<lparr>rp_to = sender, rp_value = change\<rparr>])"

lemma NewNativeTransfer_Inr:
  "NewNativeTransfer L D sender receiver amount (Some (BitcoinIn i)) = Inr tx \<longleftrightarrow>
     (\<exists>outs. add_outputs (adDecode D) (adScript D)
        (NotEnoughFunds (fst (btc_get_fee_limit L i)) (btc_sum_utxo i - amount))
        (native_recipients sender receiver amount (btc_sum_utxo i - (amount + fst (btc_get_fee_limit L i)))) = Inr outs
      \<and> tx = \<lparr>bt_msg = \<lparr>tx_in = add_inputs (bi_unspent_outputs i), tx_out = outs\<rparr>, bt_signed = False,
          bt_recipients = native_recipients sender receiver amount
            (btc_sum_utxo i - (amount + fst (btc_get_fee_limit L i))),
          bt_zcash = bi_zcash i, bt_unspent_outputs = bi_unspent_outputs i\<rparr>)"
  by (auto simp: NewNativeTransfer_def native_recipients_def Let_def simp del: add_outputs.simps
      split: sum.splits)

text \<open>C11: Building a native transfer conserves value, for an amount, a fee and funds that are not negative, with
  amount and fee together and the funds below \<open>2^63\<close>: it succeeds exactly when the inputs cover the amount and
  the fee and the addresses can be paid (the sender's only if something is left), and then the outputs read back from
  the message have the amount and, if any is left, the change as their values, which with the fee make up the spent
  inputs. Beyond \<open>2^63\<close> amounts wrap around (\<open>native_transfer_wraps\<close>).\<close>

theorem native_transfer_conserves:
  assumes "fst (btc_get_fee_limit L i) = fee" and "btc_sum_utxo i = funds"
    and "0 \<le> amount" and "0 \<le> fee" and "amount + fee < 2 ^ 63" and "0 \<le> funds" and "funds < 2 ^ 63"
  shows "((\<exists>tx. NewNativeTransfer L D sender receiver amount (Some (BitcoinIn i)) = Inr tx) \<longleftrightarrow>
      amount + fee \<le> funds \<and> payable (adDecode D) (adScript D) receiver \<noteq> None
      \<and> (funds = amount + fee \<or> payable (adDecode D) (adScript D) sender \<noteq> None))
    \<and> (\<forall>tx. NewNativeTransfer L D sender receiver amount (Some (BitcoinIn i)) = Inr tx \<longrightarrow>
        (\<exists>us. Outputs hash tx = Inr us
          \<and> map bo_value us = (if funds = amount + fee then [amount] else [amount, funds - amount - fee])
          \<and> sum_utxo us 0 + fee = sum_utxo (bt_unspent_outputs tx) 0
          \<and> length (tx_in (bt_msg tx)) = length (bi_unspent_outputs i)))"
    (is "?succeeds \<and> ?conserves")
proof
  let ?rs = "native_recipients sender receiver amount (funds - (amount + fee))"
  have vals: "sint (big_int64 amount) = amount"
    "sint (big_int64 (funds - (amount + fee))) = funds - (amount + fee)"
    using assms by (intro sint_big_int64; simp)+
  have "(\<forall>r\<in>set ?rs. payable (adDecode D) (adScript D) (rp_to r) \<noteq> None
      \<and> 0 \<le> sint (big_int64 (rp_value r))) \<longleftrightarrow>
    amount + fee \<le> funds \<and> payable (adDecode D) (adScript D) receiver \<noteq> None
      \<and> (funds = amount + fee \<or> payable (adDecode D) (adScript D) sender \<noteq> None)"
    using vals assms(3) by (auto simp: native_recipients_def)
  then show ?succeeds
    using add_outputs_InrD add_outputs_Inr unfolding NewNativeTransfer_Inr assms(1,2) by blast
  have range: "\<forall>r\<in>set ?rs. - (2 ^ 63) \<le> rp_value r \<and> rp_value r < 2 ^ 63"
    using assms by (auto simp: native_recipients_def)
  show ?conserves
  proof (intro allI impI)
    fix tx assume "NewNativeTransfer L D sender receiver amount (Some (BitcoinIn i)) = Inr tx"
    then have outs: "add_outputs (adDecode D) (adScript D) (NotEnoughFunds fee (funds - amount)) ?rs
        = Inr (tx_out (bt_msg tx))"
      and tx: "bt_unspent_outputs tx = bi_unspent_outputs i"
        "tx_in (bt_msg tx) = add_inputs (bi_unspent_outputs i)"
      unfolding NewNativeTransfer_Inr assms(1,2) by auto
    from Outputs_values [OF outs range] obtain us where
      us: "Outputs hash tx = Inr us" "map bo_value us = map rp_value ?rs" by blast
    then have "map bo_value us = (if funds = amount + fee then [amount] else [amount, funds - amount - fee])"
      by (simp add: native_recipients_def)
    then show "\<exists>us. Outputs hash tx = Inr us
          \<and> map bo_value us = (if funds = amount + fee then [amount] else [amount, funds - amount - fee])
          \<and> sum_utxo us 0 + fee = sum_utxo (bt_unspent_outputs tx) 0
          \<and> length (tx_in (bt_msg tx)) = length (bi_unspent_outputs i)"
      using us(1) assms(2) by (intro exI [of _ us]) (simp add: tx add_inputs_def sum_utxo_eq btc_sum_utxo_def)
  qed
qed

definition btc_wallet_example :: "int \<Rightarrow> (int \<times> int) btc_input" where
  "btc_wallet_example v = \<lparr>bi_zcash = \<lparr>z_estimated_total_size = 0, z_consensus_branch_id = 0\<rparr>,
     bi_address = ''a'', bi_unspent_outputs = [\<lparr>bo_outpoint = \<lparr>op_hash = [1], op_index = 0\<rparr>,
       bo_value = v, bo_pubkey_script = [], bo_address = ''a''\<rparr>],
     bi_x_gas_price_per_byte = 0, bi_gas_price_per_byte_v2 = (2, 0), bi_estimated_size_per_spent_utxo = 100\<rparr>"

definition addresses_example :: "string btc_addresses" where
  "addresses_example = \<lparr>adDecode = Some, adScript = (\<lambda>_. Some []), txScript = (\<lambda>_. Some [])\<rparr>"

lemma wallet_example_facts:
  "fst (btc_get_fee_limit ref_decimal (btc_wallet_example v)) = 200"
  "btc_sum_utxo (btc_wallet_example v) = v"
  "payable (adDecode addresses_example) (adScript addresses_example) a = Some []"
  by (simp_all add: btc_wallet_example_def btc_get_fee_limit_def btc_get_gas_price_def btc_size_per_utxo_def
      ref_decimal_def ref_bigint_def btc_sum_utxo_def payable_def addresses_example_def
      NewAmountBlockchainFromUint64_def Let_def)

theorem native_transfer_conserves_witness:
  "(\<exists>tx. NewNativeTransfer ref_decimal addresses_example ''a'' ''b'' 700 (Some (BitcoinIn (btc_wallet_example 1000))) = Inr tx)
   \<and> \<not> (\<exists>tx. NewNativeTransfer ref_decimal addresses_example ''a'' ''b'' 900 (Some (BitcoinIn (btc_wallet_example 1000))) = Inr tx)"
  using native_transfer_conserves [OF wallet_example_facts(1,2), of 700 1000 addresses_example "''a''" "''b''" "[]"]
    native_transfer_conserves [OF wallet_example_facts(1,2), of 900 1000 addresses_example "''a''" "''b''" "[]"]
  by (simp add: wallet_example_facts)

text \<open>Amounts beyond 64 bits are not refused: asking for \<open>2 ^ 64\<close> more than a payable amount builds a
  message with the same outputs, although the recorded recipients say otherwise.\<close>

theorem native_transfer_wraps:
  assumes "NewNativeTransfer L D sender receiver amount (Some (BitcoinIn i)) = Inr tx"
    and "amount + fst (btc_get_fee_limit L i) < btc_sum_utxo i"
    and "btc_sum_utxo i < 2 ^ 63" and "0 \<le> amount" and "0 \<le> fst (btc_get_fee_limit L i)"
  shows "\<exists>tx'. NewNativeTransfer L D sender receiver (amount + 2 ^ 64) (Some (BitcoinIn i)) = Inr tx'
    \<and> tx_out (bt_msg tx') = tx_out (bt_msg tx) \<and> bt_recipients tx' \<noteq> bt_recipients tx"
proof -
  let ?fee = "fst (btc_get_fee_limit L i)" and ?d = "adDecode D" and ?s = "adScript D"
  define c where "c = btc_sum_utxo i - (amount + ?fee)"
  have nz: "c \<noteq> 0" "c - 2 ^ 64 \<noteq> 0" using assms by (auto simp: c_def)
  let ?rs = "native_recipients sender receiver amount c"
  let ?rs' = "native_recipients sender receiver (amount + 2 ^ 64) (c - 2 ^ 64)"
  have c': "btc_sum_utxo i - (amount + 2 ^ 64 + ?fee) = c - 2 ^ 64" by (simp add: c_def)
  have wrap: "big_int64 (c - 2 ^ 64) = big_int64 c"
    using big_int64_add [of "c - 2 ^ 64"] by simp
  from assms(1) obtain outs e where outs: "add_outputs ?d ?s e ?rs = Inr outs" "tx_out (bt_msg tx) = outs"
    and rs: "bt_recipients tx = ?rs"
    unfolding NewNativeTransfer_Inr by (auto simp: c_def)
  note D = add_outputs_InrD [OF outs(1)]
  have "\<forall>r\<in>set ?rs'. payable ?d ?s (rp_to r) \<noteq> None \<and> 0 \<le> sint (big_int64 (rp_value r))"
    using D nz by (auto simp: native_recipients_def wrap [simplified] big_int64_add [simplified])
  from add_outputs_Inr [OF this] have "add_outputs ?d ?s e' ?rs' = Inr outs" for e'
    using D nz
    by (simp add: native_recipients_def wrap [simplified] big_int64_add [simplified] del: add_outputs.simps)
  moreover have "?rs' \<noteq> ?rs" by (simp add: native_recipients_def)
  ultimately show ?thesis
    unfolding NewNativeTransfer_Inr c' using outs(2) rs by auto
qed


theorem native_transfer_wraps_witness:
  "\<exists>tx'. NewNativeTransfer ref_decimal addresses_example ''a'' ''b'' (700 + 2 ^ 64)
     (Some (BitcoinIn (btc_wallet_example 1000))) = Inr tx' \<and> map fst (tx_out (bt_msg tx')) = [700, 100]"
proof -
  obtain tx where tx: "NewNativeTransfer ref_decimal addresses_example ''a'' ''b'' 700
      (Some (BitcoinIn (btc_wallet_example 1000))) = Inr tx" "map fst (tx_out (bt_msg tx)) = [700, 100]"
    by (simp add: NewNativeTransfer_def wallet_example_facts addresses_example_def big_int64_def Let_def)
  from native_transfer_wraps [OF tx(1)] show ?thesis by (auto simp: wallet_example_facts tx(2))
qed

subsection \<open>Batches\<close>

text \<open>
  The inputs of a batch that are spent are those of its spenders. While they do not make up the amount that remains
  they are used up; each of those behind is paid back, less what still remains.
\<close>

definition spent_inputs :: "address list \<Rightarrow> 'd btc_input list \<Rightarrow> 'd btc_input list" where
  "spent_inputs spenders = filter (\<lambda>i. bi_address i \<noteq> [] \<and> bi_address i \<in> set spenders)"

fun batch_changes :: "int \<Rightarrow> 'd btc_input list \<Rightarrow> recipient list" where
  "batch_changes rest [] = []"
| "batch_changes rest (i # is) = (let funds = sum_list (map bo_value (bi_unspent_outputs i)) in
     if rest \<le> funds then \<lparr>rp_to = bi_address i, rp_value = funds - rest\<rparr> # batch_changes 0 is
     else batch_changes (rest - funds) is)"

lemma spending_address_eq: "spending_address spenders a = (if a \<in> set spenders then a else [])"
  by (induction spenders) (auto simp: spending_address_def)

lemma sum_utxo_list: "btc_sum_utxo i = sum_list (map bo_value (bi_unspent_outputs i))"
  by (simp add: btc_sum_utxo_def sum_utxo_eq)

lemma spend_inputs_changes:
  "fold (spend_input spenders) is (rs, rest, us) = (rs', rest', us') \<Longrightarrow>
     rs' = rs @ batch_changes rest (spent_inputs spenders is)
     \<and> add_inputs us' = add_inputs (us @ concat (map bi_unspent_outputs (spent_inputs spenders is)))"
proof (induction "is" arbitrary: rs rest us)
  case (Cons i "is")
  have [simp]: "add_inputs (map (\<lambda>u. u\<lparr>bo_address := x\<rparr>) v) = add_inputs v" "add_inputs (v @ w) = add_inputs v @ add_inputs w" for x v w
    by (simp_all add: add_inputs_def)
  show ?case
  proof (cases "bi_address i \<noteq> [] \<and> bi_address i \<in> set spenders")
    case False
    then have "spend_input spenders i (rs, rest, us) = (rs, rest, us)" by (auto simp: spend_input_def Let_def spending_address_eq)
    with Cons False show ?thesis by (auto simp: spent_inputs_def)
  next
    case True
    let ?f = "sum_list (map bo_value (bi_unspent_outputs i))"
    let ?us = "us @ map (\<lambda>u. u\<lparr>bo_address := bi_address i\<rparr>) (bi_unspent_outputs i)"
    have "spend_input spenders i (rs, rest, us) = (if rest \<le> ?f
        then (rs @ [\<lparr>rp_to = bi_address i, rp_value = ?f - rest\<rparr>], 0, ?us) else (rs, rest - ?f, ?us))"
      using True by (auto simp: spend_input_def spending_address_eq Let_def sum_utxo_list amt_cmp_def NewAmountBlockchainFromUint64_def)
    then have "fold (spend_input spenders) is (if rest \<le> ?f
        then (rs @ [\<lparr>rp_to = bi_address i, rp_value = ?f - rest\<rparr>], 0, ?us) else (rs, rest - ?f, ?us)) = (rs', rest', us')"
      using Cons.prems by simp
    moreover have "spent_inputs spenders (i # is) = i # spent_inputs spenders is" using True by (simp add: spent_inputs_def)
    ultimately show ?thesis
      using Cons.IH [of "rs @ [\<lparr>rp_to = bi_address i, rp_value = ?f - rest\<rparr>]" 0 ?us] Cons.IH [of rs "rest - ?f" ?us]
      by (cases "rest \<le> ?f") (simp_all add: Let_def)
  qed
qed (simp add: spent_inputs_def)

definition batch_funds :: "'d btc_input list \<Rightarrow> int" where
  "batch_funds is = sum_list (map (\<lambda>i. sum_list (map bo_value (bi_unspent_outputs i))) is)"

lemma batch_changes_sum:
  "0 \<le> rest \<Longrightarrow> \<forall>i\<in>set is. 0 \<le> sum_list (map bo_value (bi_unspent_outputs i)) \<Longrightarrow>
     sum_list (map rp_value (batch_changes rest is)) = max 0 (batch_funds is - rest)"
proof (induction rest "is" rule: batch_changes.induct)
  case (2 rest i "is")
  have "0 \<le> batch_funds is" using 2(4) unfolding batch_funds_def by (intro sum_list_nonneg) auto
  with 2 show ?case by (auto simp: Let_def batch_funds_def)
qed (simp add: batch_funds_def)

lemma batch_changes_range:
  "0 \<le> rest \<Longrightarrow> \<forall>i\<in>set is. P (bi_address i) \<and> sum_list (map bo_value (bi_unspent_outputs i)) < 2 ^ 63 \<Longrightarrow>
     r \<in> set (batch_changes rest is) \<Longrightarrow> P (rp_to r) \<and> 0 \<le> rp_value r \<and> rp_value r < 2 ^ 63"
  by (induction rest "is" rule: batch_changes.induct) (auto simp: Let_def split: if_splits)

text \<open>C33: What a batch spends and pays. When receivers and spenders can be paid, the fee limit is not negative, and each
  amount and the funds of each input are nonnegative and below \<open>2^63\<close>, the transaction is built, whether or not the
  inputs suffice. It spends exactly the unspent outputs of the inputs whose address is a spender's; its outputs, read
  back from the message, pay the receivers in order and then the changes to the spenders (\<open>batch_changes\<close>);
  where the funds cover receivers and fee, outputs and fee make up exactly the funds, and where they do not,
  the outputs are just the receivers' amounts.\<close>

theorem multi_transfer_balance:
  assumes "fee = fst (btc_multi_get_fee_limit L m)" "rs = mt_receivers args" "asked = sum_list (map rc_amount rs)" "0 \<le> fee"
    and "is = spent_inputs (map sn_address (mt_spenders args)) (bm_inputs m)"
    and "\<forall>r\<in>set rs. payable (adDecode D) (txScript D) (rc_address r) \<noteq> None \<and> 0 \<le> rc_amount r \<and> rc_amount r < 2 ^ 63"
    and "\<forall>i\<in>set is. payable (adDecode D) (txScript D) (bi_address i) \<noteq> None
      \<and> 0 \<le> sum_list (map bo_value (bi_unspent_outputs i)) \<and> sum_list (map bo_value (bi_unspent_outputs i)) < 2 ^ 63"
  shows "\<exists>tx us. MultiTransfer L D args (Some (BitcoinMultiIn m)) = Inr tx \<and> Outputs hash tx = Inr us
    \<and> tx_in (bt_msg tx) = add_inputs (concat (map bi_unspent_outputs is))
    \<and> map (\<lambda>u. (bo_value u, Some (bo_pubkey_script u))) us
        = map (\<lambda>r. (rp_value r, payable (adDecode D) (txScript D) (rp_to r)))
            (map (\<lambda>r. \<lparr>rp_to = rc_address r, rp_value = rc_amount r\<rparr>) rs @ batch_changes (asked + fee) is)
    \<and> sum_list (map bo_value us) = (if asked + fee \<le> batch_funds is then batch_funds is - fee else asked)"
proof -
  let ?P = "payable (adDecode D) (txScript D)"
  define rs' where "rs' = map (\<lambda>r. \<lparr>rp_to = rc_address r, rp_value = rc_amount r\<rparr>) rs @ batch_changes (asked + fee) is"
  have sum: "fold (\<lambda>r t. t + rc_amount r) rs a = a + sum_list (map rc_amount rs)" for rs a
    by (induction rs arbitrary: a) simp_all
  have "0 \<le> asked" using assms(3,6) by (auto intro!: sum_list_nonneg)
  then have rest: "0 \<le> asked + fee" using assms(4) by simp
  have "\<forall>i\<in>set is. ?P (bi_address i) \<noteq> None \<and> sum_list (map bo_value (bi_unspent_outputs i)) < 2 ^ 63" using assms(7) by blast
  note changes = batch_changes_range [OF rest this]
  have ok: "\<forall>r\<in>set rs'. ?P (rp_to r) \<noteq> None \<and> 0 \<le> rp_value r \<and> rp_value r < 2 ^ 63"
    using assms(6) changes by (auto simp: rs'_def)
  obtain recipients rem us' where
    st: "fold (spend_input (map sn_address (mt_spenders args))) (bm_inputs m)
      (map (\<lambda>r. \<lparr>rp_to = rc_address r, rp_value = rc_amount r\<rparr>) rs, asked + fee, []) = (recipients, rem, us')"
    by (metis prod_cases3)
  have rec: "recipients = rs'" "add_inputs us' = add_inputs (concat (map bi_unspent_outputs is))"
    using spend_inputs_changes [OF st] by (simp_all add: rs'_def assms(5))
  have "sint (big_int64 (rp_value r)) = rp_value r" if "r \<in> set rs'" for r
    using ok that by (intro sint_big_int64) force+
  then have "\<forall>r\<in>set rs'. ?P (rp_to r) \<noteq> None \<and> 0 \<le> sint (big_int64 (rp_value r))" using ok by simp
  note outs = add_outputs_Inr [OF this]
  define tx where "tx = \<lparr>bt_msg = \<lparr>tx_in = add_inputs us', tx_out = map (\<lambda>r. (big_int64 (rp_value r), the (?P (rp_to r)))) rs'\<rparr>,
    bt_signed = False, bt_recipients = rs', bt_zcash = bm_zcash m, bt_unspent_outputs = us'\<rparr>"
  have tx: "MultiTransfer L D args (Some (BitcoinMultiIn m)) = Inr tx"
    using st by (simp add: MultiTransfer_def Let_def sum NewAmountBlockchainFromUint64_def rec outs tx_def
      flip: assms(1-3))
  have "add_outputs (adDecode D) (txScript D) NotBitcoinInput rs' = Inr (tx_out (bt_msg tx))" by (simp add: outs tx_def)
  from Outputs_values [OF this, of hash] obtain us where us: "Outputs hash tx = Inr us" "map bo_value us = map rp_value rs'"
    "map bo_pubkey_script us = map (\<lambda>r. the (?P (rp_to r))) rs'"
    using ok by force
  have len: "length us = length rs'" using us(2) by (metis length_map)
  have pairs: "map (\<lambda>u. (bo_value u, Some (bo_pubkey_script u))) us = map (\<lambda>r. (rp_value r, ?P (rp_to r))) rs'"
  proof (rule nth_equalityI)
    fix j assume "j < length (map (\<lambda>u. (bo_value u, Some (bo_pubkey_script u))) us)"
    then have j: "j < length us" "j < length rs'" using len by simp_all
    then have "map bo_value us ! j = map rp_value rs' ! j" "map bo_pubkey_script us ! j = map (\<lambda>r. the (?P (rp_to r))) rs' ! j"
      by (simp_all only: us)
    moreover have "?P (rp_to (rs' ! j)) \<noteq> None" using ok j(2) nth_mem by blast
    ultimately show "map (\<lambda>u. (bo_value u, Some (bo_pubkey_script u))) us ! j = map (\<lambda>r. (rp_value r, ?P (rp_to r))) rs' ! j"
      using j by simp
  qed (simp add: len)
  have "\<forall>i\<in>set is. 0 \<le> sum_list (map bo_value (bi_unspent_outputs i))" using assms(7) by blast
  from batch_changes_sum [OF rest this]
  have "sum_list (map bo_value us) = (if asked + fee \<le> batch_funds is then batch_funds is - fee else asked)"
    by (simp add: us(2) rs'_def comp_def assms(3))
  with tx us(1) pairs rec(2) show ?thesis by (auto simp: rs'_def tx_def)
qed

definition btc_batch_example :: "int \<Rightarrow> multi_transfer_args" where
  "btc_batch_example v = \<lparr>mt_chain = ''bitcoin'', mt_spenders = [NewSender ''a'' [] []],
     mt_receivers = [NewReceiver ''x'' v []], mt_options = newBuilderOptions, mt_applied_options = []\<rparr>"

definition btc_multi_example :: "(int \<times> int) btc_multi_input" where
  "btc_multi_example = \<lparr>bm_zcash = \<lparr>z_estimated_total_size = 0, z_consensus_branch_id = 0\<rparr>,
     bm_inputs = [btc_wallet_example 1000], bm_gas_price_per_byte = (2, 0), bm_estimated_size = 100\<rparr>"

text \<open>Of funds of 1000, with a fee of 200, a receiver is paid 700 and 100 return; or 5000, and nothing returns.\<close>

theorem multi_transfer_balance_witness:
  "(\<exists>tx us. MultiTransfer ref_decimal addresses_example (btc_batch_example 700) (Some (BitcoinMultiIn btc_multi_example)) = Inr tx
      \<and> Outputs [] tx = Inr us \<and> sum_list (map bo_value us) = 800)
   \<and> (\<exists>tx us. MultiTransfer ref_decimal addresses_example (btc_batch_example 5000) (Some (BitcoinMultiIn btc_multi_example)) = Inr tx
      \<and> Outputs [] tx = Inr us \<and> sum_list (map bo_value us) = 5000)"
proof -
  have fee: "200 = fst (btc_multi_get_fee_limit ref_decimal btc_multi_example)"
    by (simp add: btc_multi_get_fee_limit_def btc_multi_example_def ref_decimal_def ref_bigint_def
        NewAmountBlockchainFromUint64_def Let_def)
  have sp: "[btc_wallet_example 1000] = spent_inputs (map sn_address (mt_spenders (btc_batch_example v))) (bm_inputs btc_multi_example)" for v
    by (simp add: spent_inputs_def btc_batch_example_def btc_multi_example_def NewSender_def btc_wallet_example_def)
  have f: "batch_funds [btc_wallet_example 1000] = 1000" by (simp add: batch_funds_def btc_wallet_example_def)
  have ex: "\<exists>tx us. MultiTransfer ref_decimal addresses_example (btc_batch_example v) (Some (BitcoinMultiIn btc_multi_example)) = Inr tx
      \<and> Outputs [] tx = Inr us \<and> sum_list (map bo_value us) = (if v + 200 \<le> 1000 then 1000 - 200 else v)" if "0 \<le> v" "v < 2 ^ 63" for v
    using multi_transfer_balance [OF fee refl refl _ sp [of v], of addresses_example "[]"] that
    by (auto simp: btc_batch_example_def NewReceiver_def f payable_def addresses_example_def btc_wallet_example_def)
  show ?thesis using ex [of 700] ex [of 5000] by simp
qed

end
