(* ===== verification/Leb128.thy ===== *)
theory Leb128
  imports Prelude
begin

unbundle bit_operations_syntax

text \<open>
  \<^verbatim>\<open>chain/internet_computer/candid/leb128\<close>: integers in groups of seven bits, the lowest first, with
  the high bit of a byte set on all groups but the last. A \<^verbatim>\<open>bytes.Reader\<close> is the list of the unread
  bytes, and an error is \<open>None\<close>. A reader is not read again after an error.
\<close>

subsection \<open>Unsigned\<close>

fun decode_unsigned :: "int \<Rightarrow> int \<Rightarrow> bytes \<Rightarrow> (int \<times> bytes) option" where
  "decode_unsigned weight v [] = None"
| "decode_unsigned weight v (b # r) =
     (let v = v + uint (b AND 0x7F) * weight;
          weight = weight * 0x80
      in if b < 0x80 then Some (v, r) else decode_unsigned weight v r)"

definition DecodeUnsigned :: "bytes \<Rightarrow> (int \<times> bytes) option" where
  "DecodeUnsigned r = decode_unsigned 1 0 r"

text \<open>The sign has been checked, so the loop is on \<open>nat\<close>. \<^verbatim>\<open>i.Bytes()\<close> is empty for zero.\<close>

fun encode_unsigned :: "nat \<Rightarrow> bytes \<Rightarrow> bytes" where
  "encode_unsigned v bs =
     (let i = v AND 0x7F; v = v div 0x80
      in if v = 0 then (if i = 0 then [0] else bs @ [of_nat i])
         else encode_unsigned v (bs @ [of_nat (i OR 0x80)]))"

declare encode_unsigned.simps [simp del]

definition EncodeUnsigned :: "int \<Rightarrow> bytes option" where
  "EncodeUnsigned n = (if n < 0 then None else Some (encode_unsigned (nat n) []))"

subsection \<open>Signed\<close>

text \<open>The search for the last byte: its index, and whether its sign bit is clear.\<close>

fun signed_scan :: "bytes \<Rightarrow> nat \<Rightarrow> nat \<times> bool" where
  "signed_scan [] l = (l, False)"
| "signed_scan (b # bs) l = (if b < 0x80 then (l, b AND 0x40 = 0) else signed_scan bs (Suc l))"

definition DecodeSigned :: "bytes \<Rightarrow> (int \<times> bytes) option" where
  "DecodeSigned bs =
    (let (l, positive) = signed_scan bs 0
     in if positive then DecodeUnsigned bs
        else if l \<ge> length bs then None
        else (let v = foldr (\<lambda>b v. v * 0x80 + uint (0x80 - (b AND 0x7F) - 1)) (take (l + 1) bs) 0;
                  v = v * (- 1);
                  v = v + (- 1)
              in Some (v, drop (l + 1) bs)))"

text \<open>\<^verbatim>\<open>byte(v.Int64() % 0x80)\<close>: \<^verbatim>\<open>Int64\<close> may be negative for a large \<open>v\<close>, and so may the remainder.\<close>

definition signed_group :: "bool \<Rightarrow> nat \<Rightarrow> byte" where
  "signed_group neg v =
    (let b = word_of_int (big_rem (sint (big_int64 (int v))) 0x80)
     in if neg then 0x80 - b - 1 else b)"

lemma signed_group_0: "signed_group neg 0 = (if neg then 127 else 0)"
  by (simp add: signed_group_def big_rem_def big_quo_def big_int64_def)

function encode_signed :: "bool \<Rightarrow> nat \<Rightarrow> bytes \<Rightarrow> bytes" where
  "encode_signed neg v bs =
     (let b = signed_group neg v;
          v = v div 0x80
      in if neg \<and> v = 0 \<and> b AND 0x40 \<noteq> 0 \<or> \<not> neg \<and> v = 0 \<and> b AND 0x40 = 0
         then bs @ [b]
         else encode_signed neg v (bs @ [b OR 0x80]))"
  by pat_completeness auto
termination
proof (relation "measure (\<lambda>(neg, v, bs). v)")
  fix neg :: bool and v v' :: nat and bs :: bytes and b
  assume b: "b = signed_group neg v" "v' = v div 0x80"
    and go: "\<not> (neg \<and> v' = 0 \<and> b AND 0x40 \<noteq> 0 \<or> \<not> neg \<and> v' = 0 \<and> b AND 0x40 = 0)"
  have "v \<noteq> 0" using go by (cases "v = 0") (auto simp: b signed_group_0 split: if_splits)
  then show "((neg, v', bs @ [b OR 0x80]), neg, v, bs) \<in> measure (\<lambda>(neg, v, bs). v)"
    by (simp add: b)
qed simp

declare encode_signed.simps [simp del]

definition EncodeSigned :: "int \<Rightarrow> bytes" where
  "EncodeSigned n =
    (let neg = n < 0;
         v = (if neg then n * (- 1) + (- 1) else n)
     in encode_signed neg (nat v) [])"

subsection \<open>Lemmas\<close>


fun frame :: "nat list \<Rightarrow> bytes" where
  "frame [] = []"
| "frame [d] = [of_nat d]"
| "frame (d # e # ds) = of_nat (d + 128) # frame (e # ds)"

fun undigits :: "nat list \<Rightarrow> nat" where
  "undigits [] = 0"
| "undigits (d # ds) = d + 128 * undigits ds"

definition groups :: "nat list \<Rightarrow> bool" where
  "groups ds \<longleftrightarrow> ds \<noteq> [] \<and> (\<forall>d\<in>set ds. d < 128)"

lemma groups_Cons [simp]: "groups (d # ds) \<longleftrightarrow> d < 128 \<and> (ds = [] \<or> groups ds)"
  by (auto simp: groups_def)

lemma low_byte:
  "d < 128 \<Longrightarrow> (of_nat d :: byte) < 0x80" "d < 128 \<Longrightarrow> \<not> (of_nat (d + 128) :: byte) < 0x80"
  by (auto simp: word_less_nat_alt unat_of_nat simp del: of_nat_add)

lemma and_127:
  "d < 128 \<Longrightarrow> (of_nat d :: byte) AND 0x7F = of_nat d"
  "d < 128 \<Longrightarrow> (of_nat (d + 128) :: byte) AND 0x7F = of_nat d"
proof -
  have "(0x7F :: byte) = mask 7" by (simp add: mask_eq_exp_minus_1)
  then have eq: "w AND 0x7F = take_bit 7 w" for w :: byte by (simp add: take_bit_eq_mask)
  have "take_bit 7 (of_nat n :: byte) = of_nat (take_bit 7 n)" for n
    by (simp add: take_bit_of_nat)
  then show "d < 128 \<Longrightarrow> (of_nat d :: byte) AND 0x7F = of_nat d"
    "d < 128 \<Longrightarrow> (of_nat (d + 128) :: byte) AND 0x7F = of_nat d"
    unfolding eq by (auto simp del: of_nat_add simp: take_bit_eq_mod)
qed

lemma uint_low: "d < 128 \<Longrightarrow> uint (of_nat d :: byte) = int d"
  by (simp add: uint_nat unat_of_nat)

lemma and_64: "d < 128 \<Longrightarrow> (of_nat d :: byte) AND 0x40 = 0 \<longleftrightarrow> d < 64"
proof -
  have "\<forall>d\<in>set [0..<128]. (of_nat d :: byte) AND 0x40 = 0 \<longleftrightarrow> d < 64" by code_simp
  then show "d < 128 \<Longrightarrow> ?thesis" by simp
qed

lemma or_128: "d < 128 \<Longrightarrow> d OR 0x80 = d + (128 :: nat)"
proof -
  have "\<forall>d\<in>set [0..<128]. d OR 0x80 = d + (128 :: nat)" by code_simp
  then show "d < 128 \<Longrightarrow> ?thesis" by simp
qed

lemma nat_and_127: "v AND 0x7F = v mod (128 :: nat)"
  using take_bit_eq_mask [of 7 v] take_bit_eq_mod [of 7 v] by (simp add: mask_eq_exp_minus_1)

lemma decode_unsigned_frame:
  "groups ds \<Longrightarrow> decode_unsigned w v (frame ds @ r) = Some (v + w * int (undigits ds), r)"
proof (induction ds arbitrary: w v rule: frame.induct)
  case (2 d)
  then show ?case by (simp add: Let_def and_127 low_byte uint_low)
next
  case (3 d e ds)
  then have d: "d < 128" and "groups (e # ds)" by simp_all
  note IH = "3.IH" [OF this(2), of "w * 128" "v + int d * w"]
  have "decode_unsigned w v (frame (d # e # ds) @ r) =
      decode_unsigned (w * 128) (v + int d * w) (frame (e # ds) @ r)"
    using d by (simp add: Let_def and_127 low_byte uint_low del: of_nat_add)
  then show ?case using IH by (simp add: algebra_simps)
qed (simp add: groups_def)

fun digits :: "nat \<Rightarrow> nat list" where
  "digits v = (if v < 128 then [v] else v mod 128 # digits (v div 128))"

declare digits.simps [simp del]

lemma digits_groups: "groups (digits v)"
proof (induction v rule: digits.induct)
  case (1 v)
  then show ?case by (subst digits.simps) simp
qed

lemma undigits_digits: "undigits (digits v) = v"
proof (induction v rule: digits.induct)
  case (1 v)
  then show ?case by (subst digits.simps) simp
qed

lemma frame_Cons: "ds \<noteq> [] \<Longrightarrow> frame (d # ds) = of_nat (d + 128) # frame ds"
  by (cases ds) simp_all

lemma encode_unsigned_frame: "v \<noteq> 0 \<or> bs = [] \<Longrightarrow> encode_unsigned v bs = bs @ frame (digits v)"
proof (induction v bs rule: encode_unsigned.induct)
  case (1 v bs)
  show ?case
  proof (cases "v < 128")
    case True
    then show ?thesis using "1.prems"
      by (subst encode_unsigned.simps) (auto simp: nat_and_127 digits.simps [of v])
  next
    case False
    then have "v div 128 \<noteq> 0" by (simp add: div_eq_0_iff)
    then have "encode_unsigned (v div 128) (bs @ [of_nat (v mod 128 + 128)])
        = (bs @ [of_nat (v mod 128 + 128)]) @ frame (digits (v div 128))"
      using "1.IH" [OF refl refl] by (simp add: nat_and_127 or_128)
    then show ?thesis using False \<open>v div 128 \<noteq> 0\<close> digits_groups [of "v div 128"]
      by (subst encode_unsigned.simps)
        (simp add: nat_and_127 or_128 digits.simps [of v] frame_Cons groups_def)
  qed
qed

subsubsection \<open>Signed numbers\<close>

definition sdigit :: "bool \<Rightarrow> nat \<Rightarrow> nat" where
  "sdigit neg v = (if neg then 127 - v mod 128 else v mod 128)"

lemma sdigit_less [simp]: "sdigit neg v < 128"
  by (auto simp: sdigit_def intro: le_less_trans [of _ 127])

lemma signed_group_rem:
  "\<exists>x. signed_group False v = word_of_int x \<and> (x = int (v mod 128) \<or> x = int (v mod 128) - 128)
     \<and> (v < 128 \<longrightarrow> x = int v)"
proof -
  define y where "y = sint (big_int64 (int v))"
  define x where "x = big_rem y 128"
  have y_eq: "y = signed_take_bit 63 (int v)"
    unfolding y_def big_int64_def by (subst sint_sbintrunc') simp
  then have "take_bit 7 y = take_bit 7 (int v)" by (simp add: take_bit_signed_take_bit)
  then have y: "y mod 128 = int (v mod 128)" by (simp add: take_bit_eq_mod zmod_int)
  have "(y - q * 128) mod 128 = y mod 128" for q :: int
    using mod_mult_self1 [of y "- q" 128] by simp
  then have "x mod 128 = y mod 128" by (simp add: x_def big_rem_def)
  with y have m: "x mod 128 = int (v mod 128)" by simp
  have "\<bar>x\<bar> < 128"
    by (auto simp: x_def big_rem_def big_quo_def sgn_if abs_if minus_div_mult_eq_mod)
  then have x: "x = int (v mod 128) \<or> x = int (v mod 128) - 128"
    using m mod_pos_pos_trivial [of x 128] mod_pos_pos_trivial [of "x + 128" 128]
    by (cases "0 \<le> x") auto
  have "x = int v" if "v < 128"
  proof -
    have "y = int v" using that by (simp add: y_eq signed_take_bit_int_eq_self)
    then show ?thesis using that by (simp add: x_def big_rem_nonneg)
  qed
  with x show ?thesis by (auto simp: signed_group_def x_def y_def)
qed


lemma byte_minus_128: "word_of_int (int r - 128) = (of_nat (r + 128) :: byte)"
proof -
  have "(word_of_int (int r - 128) :: byte) = word_of_int (int (r + 128))"
    by (simp add: word_of_int_eq_iff take_bit_eq_mod mod_eq_dvd_iff)
  then show ?thesis by (simp only: of_int_of_nat_eq)
qed

lemma byte_groups:
  assumes "d < 128"
  shows "(0x80 - of_nat d - 1 :: byte) = of_nat (127 - d)"
    "(0x80 - of_nat (d + 128) - 1 :: byte) = of_nat (255 - d)"
    "(of_nat d :: byte) OR 0x80 = of_nat (d + 128)" "(of_nat (d + 128) :: byte) OR 0x80 = of_nat (d + 128)"
proof -
  have "\<forall>d\<in>set [0..<128]. (0x80 - of_nat d - 1 :: byte) = of_nat (127 - d)
      \<and> (0x80 - of_nat (d + 128) - 1 :: byte) = of_nat (255 - d)
      \<and> (of_nat d :: byte) OR 0x80 = of_nat (d + 128) \<and> (of_nat (d + 128) :: byte) OR 0x80 = of_nat (d + 128)"
    by code_simp
  then show "(0x80 - of_nat d - 1 :: byte) = of_nat (127 - d)"
    "(0x80 - of_nat (d + 128) - 1 :: byte) = of_nat (255 - d)"
    "(of_nat d :: byte) OR 0x80 = of_nat (d + 128)" "(of_nat (d + 128) :: byte) OR 0x80 = of_nat (d + 128)"
    using assms by simp_all
qed

lemma signed_group_True: "signed_group True v = 0x80 - signed_group False v - 1"
  by (simp add: signed_group_def Let_def)

lemma signed_group_sdigit:
  "signed_group neg v OR 0x80 = of_nat (sdigit neg v + 128)"
  "v < 128 \<Longrightarrow> signed_group neg v = of_nat (sdigit neg v)"
proof -
  let ?r = "v mod 128"
  have r: "?r < 128" by simp
  obtain x where x: "signed_group False v = word_of_int x"
    "x = int ?r \<or> x = int ?r - 128" "v < 128 \<longrightarrow> x = int v"
    using signed_group_rem by blast
  have c: "signed_group False v = of_nat ?r \<or> signed_group False v = of_nat (?r + 128)"
    using x(1,2) byte_minus_128 [of ?r] by auto
  have d: "127 - ?r < 128" by (rule le_less_trans [of _ 127]) simp_all
  have d': "255 - ?r = (127 - ?r) + 128" using r by linarith
  have neg: "signed_group True v = of_nat (127 - ?r) \<or> signed_group True v = of_nat ((127 - ?r) + 128)"
    using c
  proof
    assume "signed_group False v = of_nat ?r"
    then show ?thesis using byte_groups(1) [OF r] by (simp only: signed_group_True simp_thms)
  next
    assume "signed_group False v = of_nat (?r + 128)"
    then show ?thesis using byte_groups(2) [OF r] by (simp only: signed_group_True d' simp_thms)
  qed
  have or_high: "b OR 0x80 = of_nat (e + 128)"
    if "b = of_nat e \<or> b = of_nat (e + 128)" "e < 128" for b :: byte and e
    using that byte_groups(3,4) [OF that(2)] by (elim disjE) (simp_all only:)
  show "signed_group neg v OR 0x80 = of_nat (sdigit neg v + 128)"
    using or_high [OF neg d] or_high [OF c r] by (cases neg) (simp_all only: sdigit_def if_True if_False)
  show "signed_group neg v = of_nat (sdigit neg v)" if "v < 128"
    using that x byte_groups(1) [of v] by (cases neg) (simp_all add: signed_group_True sdigit_def)
qed


definition last_group :: "bool \<Rightarrow> nat \<Rightarrow> bool" where
  "last_group neg v \<longleftrightarrow> v < 128 \<and> (if neg then 64 \<le> sdigit neg v else sdigit neg v < 64)"

lemma last_group_0: "last_group neg 0"
  by (simp add: last_group_def sdigit_def)

function sdigits :: "bool \<Rightarrow> nat \<Rightarrow> nat list" where
  "sdigits neg v = sdigit neg v # (if last_group neg v then [] else sdigits neg (v div 128))"
  by pat_completeness auto
termination
proof (relation "measure snd")
  fix neg v assume "\<not> last_group neg v"
  then have "v \<noteq> 0" using last_group_0 by (cases "v = 0") auto
  then show "((neg, v div 128), neg, v) \<in> measure snd" by simp
qed simp

declare sdigits.simps [simp del]

lemma sdigits_last_group: "last_group neg v \<Longrightarrow> sdigits neg v = [sdigit neg v]"
  and sdigits_more: "\<not> last_group neg v \<Longrightarrow> sdigits neg v = sdigit neg v # sdigits neg (v div 128)"
  by (subst sdigits.simps; simp)+

lemma last_group_less: "last_group neg v \<Longrightarrow> v < 128"
  by (simp add: last_group_def)

lemma sdigits_not_Nil [simp]: "sdigits neg v \<noteq> []"
  by (subst sdigits.simps) simp

lemma sdigits_groups: "groups (sdigits neg v)"
proof (induction neg v rule: sdigits.induct)
  case (1 neg v)
  then show ?case by (subst sdigits.simps) simp
qed

lemma sdigits_last: "(last (sdigits neg v) < 64) = (\<not> neg)"
proof (induction neg v rule: sdigits.induct)
  case (1 neg v)
  then show ?case by (subst sdigits.simps) (auto simp: last_group_def split: if_splits)
qed

lemma undigits_sdigits: "undigits (sdigits False v) = v"
proof (induction v rule: less_induct)
  case (less v)
  show ?case
  proof (cases "last_group False v")
    case False
    then have "v \<noteq> 0" using last_group_0 by (cases "v = 0") auto
    then show ?thesis using less [of "v div 128"] False
      by (simp add: sdigits_more sdigit_def)
  next
    case True
    from last_group_less [OF this] show ?thesis by (simp add: sdigits_last_group [OF True] sdigit_def)
  qed
qed

lemma undigits_complement: "undigits (map (\<lambda>d. 127 - d) (sdigits True v)) = v"
proof (induction v rule: less_induct)
  case (less v)
  have r: "127 - (127 - v mod 128) = v mod 128"
    by (rule diff_diff_cancel) (simp add: less_Suc_eq_le [symmetric])
  show ?case
  proof (cases "last_group True v")
    case True
    from last_group_less [OF this] show ?thesis
      by (simp add: sdigits_last_group [OF True] sdigit_def)
  next
    case False
    then have "v \<noteq> 0" using last_group_0 by (cases "v = 0") auto
    then show ?thesis using less [of "v div 128"] False
      by (simp add: sdigits_more sdigit_def r)
  qed
qed

lemma encode_signed_frame: "encode_signed neg v bs = bs @ frame (sdigits neg v)"
proof (induction neg v bs rule: encode_signed.induct)
  case (1 neg v bs)
  let ?b = "signed_group neg v"
  have stop: "(neg \<and> v div 128 = 0 \<and> ?b AND 0x40 \<noteq> 0 \<or> \<not> neg \<and> v div 128 = 0 \<and> ?b AND 0x40 = 0)
      \<longleftrightarrow> last_group neg v"
    using signed_group_sdigit(2) [of v neg] and_64 [of "sdigit neg v"]
    by (auto simp: last_group_def div_eq_0_iff)
  have eq: "encode_signed neg v bs = (if last_group neg v then bs @ [?b]
      else encode_signed neg (v div 128) (bs @ [?b OR 0x80]))"
    by (subst encode_signed.simps) (simp only: Let_def stop)
  show ?case
  proof (cases "last_group neg v")
    case True
    then show ?thesis
      by (simp add: eq sdigits_last_group signed_group_sdigit(2) [OF last_group_less [OF True]])
  next
    case False
    then have "encode_signed neg (v div 128) (bs @ [?b OR 0x80])
        = (bs @ [?b OR 0x80]) @ frame (sdigits neg (v div 128))"
      using "1.IH" [OF refl refl] stop by blast
    then show ?thesis using False
      by (simp add: eq signed_group_sdigit(1) sdigits_more frame_Cons del: of_nat_add)
  qed
qed

lemma signed_scan_frame:
  "groups ds \<Longrightarrow> signed_scan (frame ds @ r) l = (l + length ds - 1, last ds < 64)"
proof (induction ds arbitrary: l rule: frame.induct)
  case (2 d)
  then show ?case by (simp add: low_byte and_64)
next
  case (3 d e ds)
  then show ?case by (simp add: low_byte del: of_nat_add)
qed (simp add: groups_def)

lemma length_frame [simp]: "length (frame ds) = length ds"
  by (induction ds rule: frame.induct) simp_all

lemma uint_complement: "d < 128 \<Longrightarrow> uint (127 - (of_nat d :: byte)) = 127 - int d"
  using byte_groups(1) [of d] uint_low [of "127 - d"] by simp

lemma fold_complement:
  "groups ds \<Longrightarrow> foldr (\<lambda>b v. v * 0x80 + uint (0x80 - (b AND 0x7F) - 1)) (frame ds) 0
     = int (undigits (map (\<lambda>d. 127 - d) ds))"
proof (induction ds rule: frame.induct)
  case (2 d)
  then show ?case by (simp add: and_127 uint_complement)
next
  case (3 d e ds)
  then have d: "d < 128" and e: "e < 128" and "groups (e # ds)" by simp_all
  let ?f = "\<lambda>b v. v * 0x80 + uint (0x80 - (b AND 0x7F) - 1)"
  have "foldr ?f (frame (d # e # ds)) 0 = foldr ?f (frame (e # ds)) 0 * 128 + (127 - int d)"
    using d by (simp add: and_127 uint_complement del: of_nat_add)
  then show ?case using "3.IH" [OF \<open>groups (e # ds)\<close>] d e by simp
qed (simp add: groups_def)

lemma DecodeSigned_frame:
  assumes "groups ds"
  shows "DecodeSigned (frame ds @ r) = Some (if last ds < 64 then int (undigits ds)
    else - int (undigits (map (\<lambda>d. 127 - d) ds)) - 1, r)"
proof -
  obtain n where len: "length ds = Suc n" using assms by (cases ds) (auto simp: groups_def)
  then have "take (length ds - 1 + 1) (frame ds @ r) = frame ds"
    and "drop (length ds - 1 + 1) (frame ds @ r) = r" by simp_all
  then show ?thesis
    using signed_scan_frame [OF assms, of r 0] fold_complement [OF assms] len
      decode_unsigned_frame [OF assms, of 1 0 r]
    by (auto simp: DecodeSigned_def DecodeUnsigned_def)
qed

lemma EncodeSigned_frame:
  "EncodeSigned n = frame (sdigits (n < 0) (nat (if n < 0 then - n - 1 else n)))"
  by (simp add: EncodeSigned_def encode_signed_frame Let_def)

text \<open>The encoders in closed form.\<close>

lemma EncodeUnsigned_Some: "0 \<le> n \<Longrightarrow> EncodeUnsigned n = Some (frame (digits (nat n)))"
  by (simp add: EncodeUnsigned_def encode_unsigned_frame)

lemma Decode_EncodeUnsigned: "EncodeUnsigned n = Some bs \<Longrightarrow> DecodeUnsigned (bs @ r) = Some (n, r)"
  using decode_unsigned_frame [OF digits_groups, of 1 0 "nat n" r]
  by (auto simp: EncodeUnsigned_def DecodeUnsigned_def encode_unsigned_frame undigits_digits split: if_splits)

lemma Decode_EncodeSigned: "DecodeSigned (EncodeSigned n @ r) = Some (n, r)"
  using DecodeSigned_frame [OF sdigits_groups] sdigits_last
  by (simp add: EncodeSigned_frame undigits_sdigits undigits_complement)

lemma DecodeUnsigned_EncodeSigned: "0 \<le> n \<Longrightarrow> DecodeUnsigned (EncodeSigned n @ r) = Some (n, r)"
  using decode_unsigned_frame [OF sdigits_groups, of 1 0 False "nat n" r]
  by (simp add: EncodeSigned_frame undigits_sdigits DecodeUnsigned_def)

subsection \<open>Properties\<close>

text \<open>The unsigned encoder refuses exactly the negative numbers, and every other number is read back from
  its encoding with whatever follows it left unread.\<close>

theorem unsigned_round_trip:
  "case EncodeUnsigned n of None \<Rightarrow> n < 0
     | Some bs \<Rightarrow> 0 \<le> n \<and> DecodeUnsigned (bs @ r) = Some (n, r)"
  using Decode_EncodeUnsigned [of n] by (auto simp: EncodeUnsigned_def split: option.split)

text \<open>C32: Every integer is read back from its signed encoding, of whatever size and sign, although the
  encoder takes its groups from the low 64 bits as a signed number, and the bytes after it are left
  unread; the encoding of a non-negative number can also be read as an unsigned one.\<close>

theorem signed_round_trip:
  "DecodeSigned (EncodeSigned n @ r) = Some (n, r)
   \<and> DecodeUnsigned (EncodeSigned \<bar>n\<bar> @ r) = Some (\<bar>n\<bar>, r)"
  by (simp add: Decode_EncodeSigned DecodeUnsigned_EncodeSigned)

end
