(* ===== verification/HashTree.thy ===== *)
theory HashTree
  imports Leb128
begin

text \<open>
  \<^verbatim>\<open>chain/internet_computer/certification\<close>: the hash trees of the Internet Computer's certificates, with
  the subtrees a client may not see replaced by their digest (\<^verbatim>\<open>hashtree/\<close>), and the hash of a
  map that does not depend on its order (\<^verbatim>\<open>hash.go\<close>). SHA-256 is the parameter \<open>sha\<close>. A nil \<^verbatim>\<open>Node\<close>,
  which only Go code can make, is \<open>NilNode\<close>, and a panic is the error \<open>Panic\<close>.
\<close>

subsection \<open>Nodes and digests (\<open>node.go\<close>)\<close>

type_synonym label = bytes

datatype node =
    Empty
  | Fork node node
  | Labeled label node
  | Leaf bytes
  | Pruned bytes
  | NilNode

definition DomainSeparator :: "string \<Rightarrow> bytes" where
  "DomainSeparator t = of_nat (length t) # string_bytes t"

text \<open>\<open>None\<close> is the nil dereference.\<close>

fun Reconstruct :: "(bytes \<Rightarrow> bytes) \<Rightarrow> node \<Rightarrow> bytes option" where
  "Reconstruct sha Empty = Some (sha (DomainSeparator ''ic-hashtree-empty''))"
| "Reconstruct sha (Fork l r) =
     (case Reconstruct sha l of None \<Rightarrow> None
      | Some l \<Rightarrow> (case Reconstruct sha r of None \<Rightarrow> None
      | Some r \<Rightarrow> Some (sha (DomainSeparator ''ic-hashtree-fork'' @ (l @ r)))))"
| "Reconstruct sha (Labeled label t) =
     (case Reconstruct sha t of None \<Rightarrow> None
      | Some t \<Rightarrow> Some (sha (DomainSeparator ''ic-hashtree-labeled'' @ (label @ t))))"
| "Reconstruct sha (Leaf v) = Some (sha (DomainSeparator ''ic-hashtree-leaf'' @ v))"
| "Reconstruct sha (Pruned p) = Some p"
| "Reconstruct sha NilNode = None"

subsection \<open>Lookup (\<open>lookup.go\<close>, \<open>errors.go\<close>)\<close>

datatype lookup_type = ResultAbsent | ResultUnknown | ResultError

text \<open>The index is \<open>-1\<close> for a lookup of the empty path.\<close>

record lookup_error =
  le_type :: lookup_type
  le_path :: "label list"
  le_index :: int

datatype label_result = LabelAbsent | LabelUnknown | LabelLess | LabelGreater | LabelFound node

fun lookupLabel :: "node \<Rightarrow> label \<Rightarrow> label_result" where
  "lookupLabel (Labeled l t) label =
     (if label < l then LabelLess else if l < label then LabelGreater else LabelFound t)"
| "lookupLabel (Pruned p) label = LabelUnknown"
| "lookupLabel (Fork l r) label =
     (case lookupLabel l label of
        LabelGreater \<Rightarrow> (case lookupLabel r label of LabelLess \<Rightarrow> LabelAbsent | rl \<Rightarrow> rl)
      | LabelUnknown \<Rightarrow> (case lookupLabel r label of LabelLess \<Rightarrow> LabelUnknown | rl \<Rightarrow> rl)
      | ll \<Rightarrow> ll)"
| "lookupLabel _ label = LabelAbsent"

text \<open>The recursion is on the part of \<open>path\<close> from \<open>idx\<close> on.\<close>

fun lookupPath :: "node \<Rightarrow> label list \<Rightarrow> label list \<Rightarrow> int \<Rightarrow> lookup_error + bytes" where
  "lookupPath n path [] idx =
     (case n of
        Leaf v \<Rightarrow> Inr v
      | NilNode \<Rightarrow> Inl \<lparr>le_type = ResultAbsent, le_path = path, le_index = idx - 1\<rparr>
      | Empty \<Rightarrow> Inl \<lparr>le_type = ResultAbsent, le_path = path, le_index = idx - 1\<rparr>
      | Pruned _ \<Rightarrow> Inl \<lparr>le_type = ResultUnknown, le_path = path, le_index = idx - 1\<rparr>
      | _ \<Rightarrow> Inl \<lparr>le_type = ResultError, le_path = path, le_index = idx - 1\<rparr>)"
| "lookupPath n path (l # ls) idx =
     (case lookupLabel n l of
        LabelFound n \<Rightarrow> lookupPath n path ls (idx + 1)
      | LabelUnknown \<Rightarrow> Inl \<lparr>le_type = ResultUnknown, le_path = path, le_index = idx\<rparr>
      | _ \<Rightarrow> Inl \<lparr>le_type = ResultAbsent, le_path = path, le_index = idx\<rparr>)"

fun lookupSubTree :: "node \<Rightarrow> label list \<Rightarrow> label list \<Rightarrow> int \<Rightarrow> lookup_error + node" where
  "lookupSubTree n path [] idx = Inr n"
| "lookupSubTree n path (l # ls) idx =
     (case lookupLabel n l of
        LabelFound n \<Rightarrow> lookupSubTree n path ls (idx + 1)
      | LabelUnknown \<Rightarrow> Inl \<lparr>le_type = ResultUnknown, le_path = path, le_index = idx\<rparr>
      | _ \<Rightarrow> Inl \<lparr>le_type = ResultAbsent, le_path = path, le_index = idx\<rparr>)"

definition Lookup :: "node \<Rightarrow> label list \<Rightarrow> lookup_error + bytes" where
  "Lookup n path = lookupPath n path path 0"

definition LookupSubTree :: "node \<Rightarrow> label list \<Rightarrow> lookup_error + node" where
  "LookupSubTree n path = lookupSubTree n path path 0"

subsection \<open>Listing (\<open>hashtree.go\<close>)\<close>

text \<open>\<open>None\<close> is the error of an unsupported node type, which only a nil node has.\<close>

fun allChildren :: "node \<Rightarrow> (label list \<times> node) list option" where
  "allChildren NilNode = None"
| "allChildren (Labeled l t) = Some [([l], t)]"
| "allChildren (Fork l r) = (case allChildren l of None \<Rightarrow> None
     | Some left \<Rightarrow> (case allChildren r of None \<Rightarrow> None | Some right \<Rightarrow> Some (left @ right)))"
| "allChildren _ = Some []"

text \<open>
  A slice of labels is an array with a length. \<^verbatim>\<open>append\<close> writes behind the length when the array has
  room there, into memory other slices may share, and copies to a larger array otherwise; \<open>grow n\<close>
  is the capacity the runtime gives an array that needs \<open>n\<close> elements. The store keeps the
  arrays by number; the nil slice is the array 0 of capacity 0.
\<close>

type_synonym slices = "label list list"
type_synonym slice = "nat \<times> nat"

definition slice_append :: "(nat \<Rightarrow> nat) \<Rightarrow> slice \<Rightarrow> label \<Rightarrow> slices \<Rightarrow> slice \<times> slices" where
  "slice_append grow p x st =
    (let (a, n) = p; arr = st ! a
     in if n < length arr then ((a, Suc n), st[a := arr[n := x]])
        else ((length st, Suc n), st @ [take n arr @ x # replicate (grow (Suc n) - Suc n) []]))"

definition slice_read :: "slices \<Rightarrow> slice \<Rightarrow> label list" where
  "slice_read st p = take (snd p) (st ! fst p)"

fun allLabeled :: "(nat \<Rightarrow> nat) \<Rightarrow> node \<Rightarrow> slice \<Rightarrow> slices \<Rightarrow> ((slice \<times> bytes) list \<times> slices) option" where
  "allLabeled grow NilNode path st = None"
| "allLabeled grow (Leaf v) path st = Some ([(path, v)], st)"
| "allLabeled grow (Labeled l t) path st =
     (let (path, st) = slice_append grow path l st in allLabeled grow t path st)"
| "allLabeled grow (Fork l r) path st = (case allLabeled grow l path st of None \<Rightarrow> None
     | Some (left, st) \<Rightarrow> (case allLabeled grow r path st of None \<Rightarrow> None
     | Some (right, st) \<Rightarrow> Some (left @ right, st)))"
| "allLabeled grow _ path st = Some ([], st)"

text \<open>What a caller reads from the returned slices.\<close>

definition AllPaths :: "(nat \<Rightarrow> nat) \<Rightarrow> node \<Rightarrow> (label list \<times> bytes) list option" where
  "AllPaths grow n = (case allLabeled grow n (0, 0) [[]] of None \<Rightarrow> None
     | Some (ps, st) \<Rightarrow> Some (map (\<lambda>(p, v). (slice_read st p, v)) ps))"

subsection \<open>Serialization (\<open>node.go\<close>)\<close>

text \<open>
  The values that CBOR decodes to, as far as the code distinguishes them. The code hands
  \<open>serialize\<close>'s value to the CBOR library and gets it back from it.
\<close>

datatype cbor_value = CUint u64 | CBytes bytes | CArray "cbor_value list" | COther

fun serialize :: "node \<Rightarrow> cbor_value" where
  "serialize Empty = CArray [CUint 0]"
| "serialize (Fork l r) = CArray [CUint 1, serialize l, serialize r]"
| "serialize (Labeled l t) = CArray [CUint 2, CBytes l, serialize t]"
| "serialize (Leaf v) = CArray [CUint 3, CBytes v]"
| "serialize (Pruned p) = CArray [CUint 4, CBytes p]"
| "serialize NilNode = COther"

datatype node_error = Panic | UnknownTag | InvalidLen nat | UnknownValue | InvalidHashLen nat | InvalidTag u64

text \<open>The code reads the first element before it checks the length.\<close>

fun DeserializeNode :: "cbor_value list \<Rightarrow> node_error + node" where
  "DeserializeNode [] = Inl Panic"
| "DeserializeNode (c # cs) =
     (case c of CUint tag \<Rightarrow>
       if tag = 0 then (if cs \<noteq> [] then Inl (InvalidLen (length cs + 1)) else Inr Empty)
       else if tag = 1 then
         (case cs of
            [lt, rt] \<Rightarrow> (case lt of CArray lt \<Rightarrow>
                 (case DeserializeNode lt of Inl e \<Rightarrow> Inl e
                  | Inr l \<Rightarrow> (case rt of CArray rt \<Rightarrow>
                        (case DeserializeNode rt of Inl e \<Rightarrow> Inl e | Inr r \<Rightarrow> Inr (Fork l r))
                     | _ \<Rightarrow> Inl UnknownValue))
               | _ \<Rightarrow> Inl UnknownValue)
          | _ \<Rightarrow> Inl (InvalidLen (length cs + 1)))
       else if tag = 2 then
         (case cs of
            [l, rt] \<Rightarrow> (case l of CBytes l \<Rightarrow>
                 (case rt of CArray rt \<Rightarrow>
                    (case DeserializeNode rt of Inl e \<Rightarrow> Inl e | Inr t \<Rightarrow> Inr (Labeled l t))
                  | _ \<Rightarrow> Inl UnknownValue)
               | _ \<Rightarrow> Inl UnknownValue)
          | _ \<Rightarrow> Inl (InvalidLen (length cs + 1)))
       else if tag = 3 then
         (case cs of
            [l] \<Rightarrow> (case l of CBytes l \<Rightarrow> Inr (Leaf l) | _ \<Rightarrow> Inl UnknownValue)
          | _ \<Rightarrow> Inl (InvalidLen (length cs + 1)))
       else if tag = 4 then
         (case cs of
            [p] \<Rightarrow> (case p of CBytes p \<Rightarrow>
                 if length p \<noteq> 32 then Inl (InvalidHashLen (length p)) else Inr (Pruned p)
               | _ \<Rightarrow> Inl UnknownValue)
          | _ \<Rightarrow> Inl (InvalidLen (length cs + 1)))
       else Inl (InvalidTag tag)
     | _ \<Rightarrow> Inl UnknownTag)"

text \<open>\<open>Deserialize\<close>: \<open>cbor\<close> is what the library reads from the data, an array or an error.\<close>

definition Deserialize :: "(bytes \<Rightarrow> cbor_value list option) \<Rightarrow> bytes \<Rightarrow> node_error option + node" where
  "Deserialize cbor data = (case cbor data of None \<Rightarrow> Inl None
     | Some s \<Rightarrow> (case DeserializeNode s of Inl e \<Rightarrow> Inl (Some e) | Inr n \<Rightarrow> Inr n))"

subsection \<open>Certificates (\<open>certificate.go\<close>)\<close>

definition InRange :: "(bytes \<times> bytes) list \<Rightarrow> bytes \<Rightarrow> bool" where
  "InRange c canisterID = list_ex (\<lambda>(lo, hi). lo \<le> canisterID \<and> canisterID \<le> hi) c"

datatype time_error = LookupFailed lookup_error | BadTime | Outdated

text \<open>\<open>now\<close> is the clock in nanoseconds; the difference is taken in \<open>int64\<close>.\<close>

definition VerifyTime :: "i64 \<Rightarrow> i64 \<Rightarrow> node \<Rightarrow> time_error + unit" where
  "VerifyTime now ingressExpiry tree =
    (case Lookup tree [string_bytes ''time''] of Inl e \<Rightarrow> Inl (LookupFailed e)
     | Inr rawTime \<Rightarrow> (case DecodeUnsigned rawTime of None \<Rightarrow> Inl BadTime
     | Some (t, _) \<Rightarrow> if sint ingressExpiry < sint (now - big_int64 t) then Inl Outdated else Inr ()))"

subsection \<open>Hashing values (\<open>hash.go\<close>)\<close>

text \<open>
  The values the code hashes; \<open>AnyNil\<close> is nil and \<open>AnyOther\<close> stands for every other type. A Go map
  is listed in the order of its iteration, which Go leaves open; the keys of \<open>AnyMap\<close> are values.
  \<^verbatim>\<open>cbor.RawMessage\<close> is left out.
\<close>

datatype any =
    AnyString string
  | AnyBytes bytes
  | AnyInt64 i64
  | AnyUint64 u64
  | AnyLeb bytes
  | AnyMap "(any \<times> any) list"
  | AnyStringMap "(string \<times> any) list"
  | AnyList "any list"
  | AnyNil
  | AnyOther

text \<open>Both integer types pass through \<open>int64\<close>.\<close>

definition hash_int :: "(bytes \<Rightarrow> bytes) \<Rightarrow> 64 word \<Rightarrow> bytes option" where
  "hash_int sha v = map_option sha (EncodeUnsigned (sint v))"

text \<open>The end of \<open>RepresentationIndependentHash\<close>: the pairs of hashes in byte order.\<close>

definition hash_sorted :: "(bytes \<Rightarrow> bytes) \<Rightarrow> bytes list \<Rightarrow> bytes" where
  "hash_sorted sha hashes = sha (concat (sort hashes))"

fun any_key :: "any \<Rightarrow> string option" where
  "any_key (AnyString s) = Some s"
| "any_key _ = None"

fun HashAny :: "(bytes \<Rightarrow> bytes) \<Rightarrow> any \<Rightarrow> bytes option"
  and hash_pairs :: "(bytes \<Rightarrow> bytes) \<Rightarrow> (string \<times> any) list \<Rightarrow> bytes list option"
  and hash_any_pairs :: "(bytes \<Rightarrow> bytes) \<Rightarrow> (any \<times> any) list \<Rightarrow> bytes list option"
  and hash_list :: "(bytes \<Rightarrow> bytes) \<Rightarrow> any list \<Rightarrow> bytes option" where
  "HashAny sha (AnyString s) = Some (sha (string_bytes s))"
| "HashAny sha (AnyBytes b) = Some (sha b)"
| "HashAny sha (AnyInt64 v) = hash_int sha v"
| "HashAny sha (AnyUint64 v) = hash_int sha v"
| "HashAny sha (AnyLeb b) = Some (sha b)"
| "HashAny sha (AnyMap kvs) = (if \<forall>(k, v)\<in>set kvs. any_key k \<noteq> None
     then map_option (hash_sorted sha) (hash_any_pairs sha kvs) else None)"
| "HashAny sha (AnyStringMap kvs) = map_option (hash_sorted sha) (hash_pairs sha kvs)"
| "HashAny sha (AnyList vs) = map_option sha (hash_list sha vs)"
| "HashAny sha _ = None"
| "hash_pairs sha [] = Some []"
| "hash_pairs sha ((k, v) # kvs) =
     (if v = AnyNil then hash_pairs sha kvs
      else (case HashAny sha v of None \<Rightarrow> None
        | Some h \<Rightarrow> map_option ((#) (sha (string_bytes k) @ h)) (hash_pairs sha kvs)))"
| "hash_any_pairs sha [] = Some []"
| "hash_any_pairs sha ((k, v) # kvs) =
     (if v = AnyNil then hash_any_pairs sha kvs
      else (case (any_key k, HashAny sha v) of
          (Some k, Some h) \<Rightarrow> map_option ((#) (sha (string_bytes k) @ h)) (hash_any_pairs sha kvs)
        | _ \<Rightarrow> None))"
| "hash_list sha [] = Some []"
| "hash_list sha (v # vs) = (case (HashAny sha v, hash_list sha vs) of
     (Some h, Some hs) \<Rightarrow> Some (h @ hs) | _ \<Rightarrow> None)"

definition RepresentationIndependentHash :: "(bytes \<Rightarrow> bytes) \<Rightarrow> (string \<times> any) list \<Rightarrow> bytes option" where
  "RepresentationIndependentHash sha m = map_option (hash_sorted sha) (hash_pairs sha m)"


subsection \<open>Complete trees and what they hold\<close>

fun labels :: "node \<Rightarrow> label list" where
  "labels (Fork l r) = labels l @ labels r"
| "labels (Labeled l t) = [l]"
| "labels _ = []"

text \<open>A tree with nothing hidden, whose labels ascend; only labelled nodes are forked.\<close>

fun complete_tree :: "node \<Rightarrow> bool" where
  "complete_tree (Fork l r) \<longleftrightarrow> complete_tree l \<and> complete_tree r \<and> labels l \<noteq> [] \<and> labels r \<noteq> []
     \<and> (\<forall>x\<in>set (labels l). \<forall>y\<in>set (labels r). x < y)"
| "complete_tree (Labeled l t) \<longleftrightarrow> complete_tree t"
| "complete_tree (Pruned p) \<longleftrightarrow> False"
| "complete_tree NilNode \<longleftrightarrow> False"
| "complete_tree _ \<longleftrightarrow> True"

fun leaves :: "node \<Rightarrow> (label list \<times> bytes) list" where
  "leaves (Fork l r) = leaves l @ leaves r"
| "leaves (Labeled l t) = map (\<lambda>(p, v). (l # p, v)) (leaves t)"
| "leaves (Leaf v) = [([], v)]"
| "leaves _ = []"

text \<open>What a client may get to see of a tree: the same tree with subtrees replaced by their digests.\<close>

inductive prunes :: "(bytes \<Rightarrow> bytes) \<Rightarrow> node \<Rightarrow> node \<Rightarrow> bool" for sha where
  same: "prunes sha n n"
| cut: "Reconstruct sha n = Some h \<Longrightarrow> prunes sha n (Pruned h)"
| fork: "prunes sha l l' \<Longrightarrow> prunes sha r r' \<Longrightarrow> prunes sha (Fork l r) (Fork l' r')"
| labeled: "prunes sha t t' \<Longrightarrow> prunes sha (Labeled l t) (Labeled l t')"

inductive_cases prunes_Fork: "prunes sha (Fork l r) n"
inductive_cases prunes_Labeled: "prunes sha (Labeled l t) n"
inductive_cases prunes_Leaf: "prunes sha (Leaf v) n"
inductive_cases prunes_Empty: "prunes sha Empty n"


text \<open>The label found in a complete tree, by where it lies among the labels.\<close>

lemma lookupLabel_cases:
  assumes "complete_tree n" and "labels n \<noteq> []"
  shows "(lookupLabel n k = LabelLess \<longleftrightarrow> (\<forall>x\<in>set (labels n). k < x))
    \<and> (lookupLabel n k = LabelGreater \<longleftrightarrow> (\<forall>x\<in>set (labels n). x < k))
    \<and> lookupLabel n k \<noteq> LabelUnknown
    \<and> ((\<exists>t. lookupLabel n k = LabelFound t) \<longleftrightarrow> k \<in> set (labels n))"
  using assms
proof (induction n)
  case (Fork l r)
  have L: "labels l \<noteq> []" "labels r \<noteq> []" "complete_tree l" "complete_tree r"
    and sep: "\<And>x y. x \<in> set (labels l) \<Longrightarrow> y \<in> set (labels r) \<Longrightarrow> x < y" using Fork.prems by auto
  note IHl = Fork.IH(1) [OF L(3,1)] and IHr = Fork.IH(2) [OF L(4,2)]
  obtain x y where xy: "x \<in> set (labels l)" "y \<in> set (labels r)" using L(1,2) by (metis list.set_sel(1))
  show ?case
  proof (cases "lookupLabel l k")
    case LabelGreater
    then have lt: "\<forall>x\<in>set (labels l). x < k" using IHl by simp
    then show ?thesis using IHr xy LabelGreater by (cases "lookupLabel r k") (auto dest: order.asym)
  next
    case LabelUnknown
    then show ?thesis using IHl by simp
  next
    case LabelLess
    then have "\<forall>x\<in>set (labels l). k < x" using IHl by simp
    then have "\<forall>x\<in>set (labels l) \<union> set (labels r). k < x" using sep xy(1) by (blast intro: less_trans)
    then show ?thesis using LabelLess xy by (auto dest: order.asym)
  next
    case LabelAbsent
    then have "\<not> (\<forall>x\<in>set (labels l). k < x)" "\<not> (\<forall>x\<in>set (labels l). x < k)" "k \<notin> set (labels l)"
      using IHl by auto
    then obtain z where z: "z \<in> set (labels l)" "\<not> z < k" by blast
    then have "k \<le> z" by (simp add: not_less)
    then have "\<forall>y\<in>set (labels r). k < y" using sep z(1) by (blast intro: le_less_trans)
    then show ?thesis using LabelAbsent IHl xy by (auto dest: order.asym)
  next
    case (LabelFound t)
    then have k: "k \<in> set (labels l)" using IHl by blast
    then have "\<forall>y\<in>set (labels r). k < y" using sep by blast
    then show ?thesis using LabelFound IHl k xy by (auto dest: order.asym)
  qed
next
  case (Labeled l t)
  then show ?case by (auto dest: order.asym)
qed auto





lemma complete_found:
  "complete_tree n \<Longrightarrow> lookupLabel n k = LabelFound t \<Longrightarrow> complete_tree t"
  by (induction n) (auto split: label_result.splits if_splits)



text \<open>A complete tree is searched exhaustively.\<close>

lemma complete_no_labels: "complete_tree n \<Longrightarrow> labels n = [] \<Longrightarrow> n = Empty \<or> (\<exists>v. n = Leaf v)"
  by (cases n) auto

lemma leaves_nonempty_path: "complete_tree n \<Longrightarrow> labels n \<noteq> [] \<Longrightarrow> ([], v) \<notin> set (leaves n)"
  by (induction n) auto

lemma leaves_first: "(k # p, v) \<in> set (leaves n) \<Longrightarrow> k \<in> set (labels n)"
  by (induction n) auto

lemma leaves_found:
  "complete_tree n \<Longrightarrow> labels n \<noteq> [] \<Longrightarrow> lookupLabel n k = LabelFound t \<Longrightarrow>
     (k # p, v) \<in> set (leaves n) \<longleftrightarrow> (p, v) \<in> set (leaves t)"
proof (induction n)
  case (Fork l r)
  then have c: "complete_tree l" "complete_tree r" "labels l \<noteq> []" "labels r \<noteq> []"
    and sep: "\<And>x y. x \<in> set (labels l) \<Longrightarrow> y \<in> set (labels r) \<Longrightarrow> x < y" by auto
  note L = lookupLabel_cases [OF c(1,3), of k] and R = lookupLabel_cases [OF c(2,4), of k]
  show ?case
  proof (cases "lookupLabel l k")
    case (LabelFound u)
    then have "k \<in> set (labels l)" using L by blast
    then have "k \<notin> set (labels r)" using sep by blast
    then show ?thesis using Fork LabelFound leaves_first [of k p v r] by auto
  next
    case LabelGreater
    then have r: "lookupLabel r k = LabelFound t"
      using Fork.prems(3) by (auto split: label_result.splits)
    have "k \<notin> set (labels l)" using LabelGreater L by auto
    then show ?thesis using Fork.IH(2) [OF c(2,4) r] leaves_first [of k p v l] by auto
  qed (use Fork.prems(3) L in auto)
qed (auto split: if_splits)

lemma lookupPath_leaves:
  "complete_tree n \<Longrightarrow> lookupPath n path ls idx = Inr v \<longleftrightarrow> (ls, v) \<in> set (leaves n)"
proof (induction ls arbitrary: n idx)
  case Nil
  then show ?case using leaves_nonempty_path by (cases n) force+
next
  case (Cons k ls)
  show ?case
  proof (cases "labels n = []")
    case True
    then show ?thesis using complete_no_labels [OF Cons.prems True] by auto
  next
    case False
    note L = lookupLabel_cases [OF Cons.prems False, of k]
    show ?thesis
    proof (cases "lookupLabel n k")
      case (LabelFound t)
      then show ?thesis
        using Cons.IH [OF complete_found [OF Cons.prems LabelFound]] leaves_found [OF Cons.prems False LabelFound]
        by simp
    qed (use L leaves_first [of k ls v n] in auto)
  qed
qed

text \<open>C40: A lookup in a complete tree finds exactly what the tree holds: it returns a value for a path just when
  the tree has a leaf with that value there. A tree is complete when nothing in it is pruned or nil and
  each fork has labelled nodes on both sides, those on the left with smaller labels.\<close>

theorem complete_lookup_exact:
  assumes "complete_tree n"
  shows "Lookup n path = Inr v \<longleftrightarrow> (path, v) \<in> set (leaves n)"
  using lookupPath_leaves [OF assms] by (simp add: Lookup_def)

definition tree_example :: node where
  "tree_example = Fork (Labeled [1] (Leaf [10])) (Fork (Labeled [2] Empty) (Labeled [3] (Leaf [30])))"

definition pruned_example :: node where
  "pruned_example = Fork (Labeled [1] (Leaf [10])) (Pruned [7])"

lemma examples_prune: "prunes (\<lambda>_. [7]) tree_example pruned_example" "complete_tree tree_example"
  unfolding tree_example_def pruned_example_def
  by (intro prunes.intros, simp) (simp_all add: list_less_def)


theorem complete_lookup_exact_witness:
  "Lookup tree_example [[3]] = Inr [30] \<and> Lookup tree_example [[2]] \<noteq> Inr []"
  unfolding complete_lookup_exact [OF examples_prune(2)] by (simp add: tree_example_def)

text \<open>A tree as the code can build it from data: no nil node, digests of 32 bytes.\<close>

fun from_data :: "node \<Rightarrow> bool" where
  "from_data (Fork l r) \<longleftrightarrow> from_data l \<and> from_data r"
| "from_data (Labeled l t) \<longleftrightarrow> from_data t"
| "from_data (Pruned p) \<longleftrightarrow> length p = 32"
| "from_data NilNode \<longleftrightarrow> False"
| "from_data _ \<longleftrightarrow> True"

text \<open>C31: A tree is rebuilt from its serialization, and whatever is deserialized is a tree that serializes to
  the same value; no other data is accepted.\<close>

theorem hash_tree_round_trip:
  "DeserializeNode s = Inr n \<longleftrightarrow> from_data n \<and> serialize n = CArray s"
proof
  show "DeserializeNode s = Inr n \<Longrightarrow> from_data n \<and> serialize n = CArray s"
  proof (induction s arbitrary: n rule: DeserializeNode.induct)
    case (2 c cs)
    then show ?case
      by (auto split: cbor_value.splits if_splits list.splits sum.splits)
  qed simp
  show "from_data n \<and> serialize n = CArray s \<Longrightarrow> DeserializeNode s = Inr n"
  proof (induction n arbitrary: s)
    case (Fork l r)
    then obtain ls rs where "serialize l = CArray ls" "serialize r = CArray rs"
      by (cases l; cases r) auto
    then show ?case using Fork by auto
  next
    case (Labeled l t)
    then obtain ts where "serialize t = CArray ts" by (cases t) auto
    then show ?case using Labeled by auto
  qed auto
qed

text \<open>\<open>AllPaths\<close> can report wrong paths: in a tree forked below three labels, when the runtime leaves room
  in an array of three labels, the path of the left leaf is overwritten with that of the right
  one, since both extend the same array.\<close>

theorem all_paths_aliased:
  assumes "grow 1 = 1" and "grow 2 = 2" and "3 < grow 3"
  shows "AllPaths grow (Labeled a (Labeled b (Labeled c (Fork (Labeled d (Leaf v)) (Labeled e (Leaf w))))))
    = Some [([a, b, c, e], v), ([a, b, c, e], w)]"
proof -
  obtain m where "grow 3 = 4 + m" using le_Suc_ex [of 4 "grow 3"] assms(3) by auto
  with assms(1,2) show ?thesis
    by (simp add: AllPaths_def slice_append_def slice_read_def Let_def numeral_eq_Suc)
qed

lemma hash_pairs_eq:
  "hash_pairs sha kvs =
    (if list_all (\<lambda>(k, v). v = AnyNil \<or> HashAny sha v \<noteq> None) kvs
     then Some (map (\<lambda>(k, v). sha (string_bytes k) @ the (HashAny sha v))
        (filter (\<lambda>(k, v). v \<noteq> AnyNil) kvs)) else None)"
proof (induction kvs)
  case (Cons kv kvs)
  obtain k v where "kv = (k, v)" by (cases kv)
  with Cons.IH show ?case by (cases "v = AnyNil"; cases "HashAny sha v") simp_all
qed simp

lemma sort_mset_eq: "mset xs = mset ys \<Longrightarrow> sort xs = sort (ys :: 'a :: linorder list)"
  by (metis mset_sort properties_for_sort sorted_sort)

text \<open>The hash of a map does not depend on the order in which Go iterates over it.\<close>

theorem map_hash_order_independent:
  assumes "mset kvs = mset kvs'"
  shows "RepresentationIndependentHash sha kvs = RepresentationIndependentHash sha kvs'
    \<and> HashAny sha (AnyStringMap kvs) = HashAny sha (AnyStringMap kvs')"
proof -
  let ?ok = "\<lambda>(k, v). v = AnyNil \<or> HashAny sha v \<noteq> None"
  have "list_all ?ok kvs = list_all ?ok kvs'"
    using mset_eq_setD [OF assms] by (simp only: list_all_iff)
  moreover have "mset (map f (filter P kvs)) = mset (map f (filter P kvs'))" for P and f :: "string \<times> any \<Rightarrow> bytes"
    using assms by simp
  ultimately have "map_option mset (hash_pairs sha kvs) = map_option mset (hash_pairs sha kvs')"
    unfolding hash_pairs_eq by (cases "list_all ?ok kvs'") (simp_all only: if_True if_False option.map)
  then have "map_option (hash_sorted sha) (hash_pairs sha kvs) = map_option (hash_sorted sha) (hash_pairs sha kvs')"
    by (cases "hash_pairs sha kvs"; cases "hash_pairs sha kvs'") (auto simp: hash_sorted_def dest: sort_mset_eq)
  then show ?thesis by (simp add: RepresentationIndependentHash_def)
qed


theorem all_paths_aliased_witness:
  "AllPaths (\<lambda>n. if n < 3 then n else 2 * n) (Labeled [1] (Labeled [2] (Labeled [3]
      (Fork (Labeled [4] (Leaf [40])) (Labeled [5] (Leaf [50]))))))
    = Some [([[1], [2], [3], [5]], [40]), ([[1], [2], [3], [5]], [50])]"
  using all_paths_aliased [of "\<lambda>n. if n < 3 then n else 2 * n"] by simp

theorem map_hash_order_independent_witness:
  "RepresentationIndependentHash rev [(''a'', AnyInt64 1), (''b'', AnyBytes [2])]
     = RepresentationIndependentHash rev [(''b'', AnyBytes [2]), (''a'', AnyInt64 1)]"
  using map_hash_order_independent [of "[(''a'', AnyInt64 1), (''b'', AnyBytes [2])]"
      "[(''b'', AnyBytes [2]), (''a'', AnyInt64 1)]" rev] by (metis (no_types) mset.simps(2) add_mset_commute)

end
