(* ===== verification/CandidTypes.thy ===== *)
theory CandidTypes
  imports Leb128
begin

text \<open>
  \<^verbatim>\<open>chain/internet_computer/candid/idl\<close>: the types of Candid, their names, and their binary form with the
  table of type definitions (\<^verbatim>\<open>type.go\<close>, \<^verbatim>\<open>tdt.go\<close>, \<^verbatim>\<open>hash.go\<close> and the methods
  \<^verbatim>\<open>String\<close>, \<^verbatim>\<open>AddTypeDefinition\<close> and \<^verbatim>\<open>EncodeType\<close> of each type).
\<close>

subsection \<open>Errors\<close>

text \<open>
  The errors of the package. \<open>Panic\<close> is none of them: it stands for a panic of the program, which no
  caller recovers from, at an allocation of a negative or impossible length or a nil integer.
\<close>

datatype candid_error =
    Panic
  | EndOfInput
  | NegativeLeb
  | InvalidValue
  | EncodeValueError int
  | InvalidKind
  | UnknownVariant
  | NoVariantSelected
  | NotVariantField
  | InvalidBool byte
  | TooShort
  | TooLong
  | InvalidSize nat
  | EmptyType
  | InvalidOption byte
  | InvalidUtf8
  | InvalidPrincipal
  | InvalidReference
  | InvalidVariantIndex int
  | MissingTypeIndex string
  | InvalidAnnotation string
  | TypeIndexOutOfRange int
  | TypeOutOfRange
  | TypeNotPrimitive
  | Unresolved
  | NotAFunction
  | NoMagic
  | WrongMagic
  | EmptyMessage
  | TooFewArguments

definition leb_unsigned :: "int \<Rightarrow> candid_error + bytes" where
  "leb_unsigned n = (case EncodeUnsigned n of None \<Rightarrow> Inl NegativeLeb | Some bs \<Rightarrow> Inr bs)"

lemma leb_unsigned_nonneg: "0 \<le> n \<Longrightarrow> leb_unsigned n = Inr (encode_unsigned (nat n) [])"
  by (simp add: leb_unsigned_def EncodeUnsigned_def)

subsection \<open>Types\<close>

text \<open>
  The sizes of \<^verbatim>\<open>NatType\<close>, \<^verbatim>\<open>IntType\<close> and \<^verbatim>\<open>FloatType\<close> are bytes, 0 for the unbounded types. A record or
  variant has named fields; \<^verbatim>\<open>IsTuple\<close> is the flag of the record. A function has its parameters, its
  results and its annotations; the methods of a service are functions.
\<close>

datatype ctype =
    TNull
  | TBool
  | TNat nat
  | TInt nat
  | TFloat nat
  | TText
  | TReserved
  | TEmpty
  | TPrincipal
  | TOpt ctype
  | TVec ctype
  | TRecord "(string \<times> ctype) list" bool
  | TVariant "(string \<times> ctype) list"
  | TFunc "ctype list" "ctype list" "string list"
  | TService "(string \<times> ctype) list"

text \<open>The op codes of \<^verbatim>\<open>type.go\<close>.\<close>

definition NullOpCode :: int where "NullOpCode = -1"
definition BoolOpCode :: int where "BoolOpCode = -2"
definition NatOpCode :: int where "NatOpCode = -3"
definition IntOpCode :: int where "IntOpCode = -4"
definition NatXOpCode :: int where "NatXOpCode = -5"
definition IntXOpCode :: int where "IntXOpCode = -9"
definition FloatXOpCode :: int where "FloatXOpCode = -13"
definition TextOpCode :: int where "TextOpCode = -15"
definition ReservedOpCode :: int where "ReservedOpCode = -16"
definition EmptyOpCode :: int where "EmptyOpCode = -17"
definition OptOpCode :: int where "OptOpCode = -18"
definition VecOpCode :: int where "VecOpCode = -19"
definition RecOpCode :: int where "RecOpCode = -20"
definition VarOpCode :: int where "VarOpCode = -21"
definition FuncOpCode :: int where "FuncOpCode = -22"
definition ServiceOpCode :: int where "ServiceOpCode = -23"
definition PrincipalOpCode :: int where "PrincipalOpCode = -24"

lemmas op_code_defs = NullOpCode_def BoolOpCode_def NatOpCode_def IntOpCode_def NatXOpCode_def
  IntXOpCode_def FloatXOpCode_def TextOpCode_def ReservedOpCode_def EmptyOpCode_def OptOpCode_def
  VecOpCode_def RecOpCode_def VarOpCode_def FuncOpCode_def ServiceOpCode_def PrincipalOpCode_def

text \<open>\<^verbatim>\<open>log2\<close> rounds a float64 logarithm down; it is called on powers of two.\<close>

fun log2 :: "nat \<Rightarrow> nat" where
  "log2 n = (if n < 2 then 0 else Suc (log2 (n div 2)))"

declare log2.simps [simp del]

text \<open>The names of types. A field without a name is written as its type alone.\<close>

definition join :: "string \<Rightarrow> string list \<Rightarrow> string" where
  "join sep ss = (case ss of [] \<Rightarrow> [] | s # ss \<Rightarrow> s @ concat (map (\<lambda>t. sep @ t) ss))"

primrec type_string :: "ctype \<Rightarrow> string" where
  "type_string TNull = ''null''"
| "type_string TBool = ''bool''"
| "type_string (TNat n) = (if n = 0 then ''nat'' else ''nat'' @ show_nat (n * 8))"
| "type_string (TInt n) = (if n = 0 then ''int'' else ''int'' @ show_nat (n * 8))"
| "type_string (TFloat n) = ''float'' @ show_nat (n * 8)"
| "type_string TText = ''text''"
| "type_string TReserved = ''reserved''"
| "type_string TEmpty = ''empty''"
| "type_string TPrincipal = ''principal''"
| "type_string (TOpt t) = ''opt '' @ type_string t"
| "type_string (TVec t) = ''vec '' @ type_string t"
| "type_string (TRecord fs tuple) = ''record {'' @ join ''; ''
     (map (\<lambda>(name, s). if name = [] then s else name @ '':'' @ s) (map (map_prod id type_string) fs)) @ ''}''"
| "type_string (TVariant fs) = ''variant {'' @ join ''; ''
     (map (\<lambda>(name, s). name @ '':'' @ s) (map (map_prod id type_string) fs)) @ ''}''"
| "type_string (TFunc args rets anns) = ''('' @ join '', '' (map type_string args) @ '') -> (''
     @ join '', '' (map type_string rets) @ '')''
     @ (if anns = [] then [] else '' '' @ join '' '' anns)"
| "type_string (TService ms) = ''service {'' @ join ''; ''
     (map (\<lambda>(name, s). name @ '':'' @ s) (map (map_prod id type_string) ms)) @ ''}''"

subsection \<open>Hashes of names (\<open>hash.go\<close>)\<close>

text \<open>
  A range over a Go string decodes its UTF-8. \<open>decode_rune\<close> is the rune at the front with the number
  of its bytes: an invalid byte is the rune \<open>0xFFFD\<close> of width 1.
\<close>

definition cont_byte :: "nat \<Rightarrow> nat \<Rightarrow> byte \<Rightarrow> bool" where
  "cont_byte lo hi b \<longleftrightarrow> lo \<le> unat b \<and> unat b \<le> hi"

fun decode_rune :: "bytes \<Rightarrow> nat \<times> nat" where
  "decode_rune bs = (case bs of [] \<Rightarrow> (0xFFFD, 0) | b # r \<Rightarrow>
     (let n = unat b; c = (\<lambda>i. unat (r ! i) mod 0x40);
          ok = (\<lambda>i lo hi. i < length r \<and> cont_byte lo hi (r ! i))
      in if n < 0x80 then (n, 1)
         else if 0xC2 \<le> n \<and> n \<le> 0xDF \<and> ok 0 0x80 0xBF then (n mod 0x20 * 0x40 + c 0, 2)
         else if 0xE0 \<le> n \<and> n \<le> 0xEF
           \<and> ok 0 (if n = 0xE0 then 0xA0 else 0x80) (if n = 0xED then 0x9F else 0xBF) \<and> ok 1 0x80 0xBF
           then (n mod 0x10 * 0x1000 + c 0 * 0x40 + c 1, 3)
         else if 0xF0 \<le> n \<and> n \<le> 0xF4
           \<and> ok 0 (if n = 0xF0 then 0x90 else 0x80) (if n = 0xF4 then 0x8F else 0xBF)
           \<and> ok 1 0x80 0xBF \<and> ok 2 0x80 0xBF
           then (n mod 8 * 0x40000 + c 0 * 0x1000 + c 1 * 0x40 + c 2, 4)
         else (0xFFFD, 1)))"

declare decode_rune.simps [simp del]

fun runes :: "bytes \<Rightarrow> nat list" where
  "runes [] = []"
| "runes (b # r) = fst (decode_rune (b # r)) # runes (drop (snd (decode_rune (b # r)) - 1) r)"

fun utf8_valid :: "bytes \<Rightarrow> bool" where
  "utf8_valid [] \<longleftrightarrow> True"
| "utf8_valid (b # r) \<longleftrightarrow> decode_rune (b # r) \<noteq> (0xFFFD, 1)
     \<and> utf8_valid (drop (snd (decode_rune (b # r)) - 1) r)"

definition Hash :: "string \<Rightarrow> int" where
  "Hash s = foldl (\<lambda>h r. (h * 223 + int r) mod 2 ^ 32) 0 (runes (string_bytes s))"

definition HashString :: "string \<Rightarrow> string" where
  "HashString s = show_nat (nat (Hash s))"

text \<open>\<^verbatim>\<open>NewRecordType\<close> and \<^verbatim>\<open>NewVariantType\<close>: the fields, listed in any order, sorted by the hashes
  of their names. (\<^verbatim>\<open>sort.Slice\<close> is not stable; names with one hash stay in any order.)\<close>

definition NewRecordType :: "(string \<times> ctype) list \<Rightarrow> ctype" where
  "NewRecordType fields = TRecord (sort_key (\<lambda>f. Hash (fst f)) fields) False"

definition NewVariantType :: "(string \<times> ctype) list \<Rightarrow> ctype" where
  "NewVariantType fields = TVariant (sort_key (\<lambda>f. Hash (fst f)) fields)"

definition NewServiceType :: "(string \<times> ctype) list \<Rightarrow> ctype" where
  "NewServiceType methods = TService (sort_key (\<lambda>m. Hash (fst m)) methods)"

definition NewTupleType :: "(string \<Rightarrow> ctype) \<Rightarrow> nat \<Rightarrow> ctype" where
  "NewTupleType fields n = TRecord (map (\<lambda>i. ([], fields (show_nat i))) [0..<n]) True"

subsection \<open>The table of definitions (\<open>tdt.go\<close>)\<close>

record type_table =
  tt_types :: "bytes list"
  tt_indexes :: "string \<Rightarrow> nat option"

fun index_of :: "'a \<Rightarrow> 'a list \<Rightarrow> nat option" where
  "index_of x [] = None"
| "index_of x (y # ys) = (if y = x then Some 0 else map_option Suc (index_of x ys))"

definition tdt_add :: "type_table \<Rightarrow> ctype \<Rightarrow> bytes \<Rightarrow> type_table" where
  "tdt_add tdt t bs =
    (case index_of bs (tt_types tdt) of
       Some i \<Rightarrow> tdt\<lparr>tt_indexes := (tt_indexes tdt)(type_string t \<mapsto> i)\<rparr>
     | None \<Rightarrow> \<lparr>tt_types = tt_types tdt @ [bs],
         tt_indexes = (tt_indexes tdt)(type_string t \<mapsto> length (tt_types tdt))\<rparr>)"

fun EncodeType :: "ctype \<Rightarrow> type_table \<Rightarrow> candid_error + bytes" where
  "EncodeType TNull tdt = Inr (EncodeSigned NullOpCode)"
| "EncodeType TBool tdt = Inr (EncodeSigned BoolOpCode)"
| "EncodeType (TNat n) tdt = Inr (if n = 0 then EncodeSigned NatOpCode
     else EncodeSigned (NatXOpCode + (3 - int (log2 (n * 8)))))"
| "EncodeType (TInt n) tdt = Inr (if n = 0 then EncodeSigned IntOpCode
     else EncodeSigned (IntXOpCode + (3 - int (log2 (n * 8)))))"
| "EncodeType (TFloat n) tdt =
     Inr (EncodeSigned (if n = 8 then FloatXOpCode + (- 1) else FloatXOpCode))"
| "EncodeType TText tdt = Inr (EncodeSigned TextOpCode)"
| "EncodeType TReserved tdt = Inr (EncodeSigned ReservedOpCode)"
| "EncodeType TEmpty tdt = Inr (EncodeSigned EmptyOpCode)"
| "EncodeType TPrincipal tdt = Inr (EncodeSigned PrincipalOpCode)"
| "EncodeType t tdt = (case tt_indexes tdt (type_string t) of
     None \<Rightarrow> Inl (MissingTypeIndex (type_string t)) | Some i \<Rightarrow> Inr (EncodeSigned (int i)))"

fun encode_all :: "ctype list \<Rightarrow> type_table \<Rightarrow> candid_error + bytes" where
  "encode_all [] tdt = Inr []"
| "encode_all (t # ts) tdt = andThen (EncodeType t tdt) (\<lambda>v. andThen (encode_all ts tdt) (\<lambda>vs. Inr (v @ vs)))"

definition encodeTypes :: "ctype list \<Rightarrow> type_table \<Rightarrow> candid_error + bytes" where
  "encodeTypes ts tdt = andThen (leb_unsigned (int (length ts)))
     (\<lambda>l. andThen (encode_all ts tdt) (\<lambda>vs. Inr (l @ vs)))"

text \<open>The fields of a definition, each with the number it is known by.\<close>

fun field_bytes :: "(int \<times> ctype) list \<Rightarrow> type_table \<Rightarrow> candid_error + bytes" where
  "field_bytes [] tdt = Inr []"
| "field_bytes ((h, t) # fs) tdt = andThen (leb_unsigned h) (\<lambda>l. andThen (EncodeType t tdt)
     (\<lambda>t. andThen (field_bytes fs tdt) (\<lambda>vs. Inr (l @ t @ vs))))"

definition record_keys :: "(string \<times> ctype) list \<Rightarrow> bool \<Rightarrow> int list" where
  "record_keys fs tuple = (if tuple then map int [0..<length fs] else map (\<lambda>f. Hash (fst f)) fs)"

fun method_bytes :: "(string \<times> ctype) list \<Rightarrow> type_table \<Rightarrow> candid_error + bytes" where
  "method_bytes [] tdt = Inr []"
| "method_bytes ((name, t) # ms) tdt = andThen (leb_unsigned (int (length name)))
     (\<lambda>l. andThen (EncodeType t tdt)
     (\<lambda>t. andThen (method_bytes ms tdt) (\<lambda>vs. Inr (l @ string_bytes name @ t @ vs))))"

text \<open>The byte of the last annotation; all have to be known.\<close>

fun annotation_bytes :: "string list \<Rightarrow> bytes \<Rightarrow> candid_error + bytes" where
  "annotation_bytes [] vs = Inr vs"
| "annotation_bytes (t # ts) vs =
     (if t = ''query'' then annotation_bytes ts [1]
      else if t = ''oneway'' then annotation_bytes ts [2]
      else Inl (InvalidAnnotation t))"

text \<open>
  \<open>definition_bytes\<close> is the part of each \<^verbatim>\<open>AddTypeDefinition\<close> that builds the definition. The loops of
  records, variants and services return nil on an error, so that nothing is added and
  nothing reported: \<open>swallowed\<close>.
\<close>

datatype 'a built = Failed candid_error | Swallowed | Built 'a

definition building :: "candid_error + bytes \<Rightarrow> (bytes \<Rightarrow> bytes) \<Rightarrow> bytes built" where
  "building r f = (case r of Inl e \<Rightarrow> Failed e | Inr vs \<Rightarrow> Built (f vs))"

definition swallowing :: "candid_error + bytes \<Rightarrow> (bytes \<Rightarrow> bytes) \<Rightarrow> bytes built" where
  "swallowing r f = (case r of Inl e \<Rightarrow> Swallowed | Inr vs \<Rightarrow> Built (f vs))"

definition add_built :: "type_table \<Rightarrow> ctype \<Rightarrow> bytes built \<Rightarrow> candid_error + type_table" where
  "add_built tdt t b = (case b of Failed e \<Rightarrow> Inl e | Swallowed \<Rightarrow> Inr tdt | Built bs \<Rightarrow> Inr (tdt_add tdt t bs))"

definition unsigned_length :: "'a list \<Rightarrow> bytes" where
  "unsigned_length xs = encode_unsigned (length xs) []"

fun definition_bytes :: "ctype \<Rightarrow> type_table \<Rightarrow> bytes built" where
  "definition_bytes (TOpt t) tdt = building (EncodeType t tdt) (\<lambda>v. EncodeSigned OptOpCode @ v)"
| "definition_bytes (TVec t) tdt = building (EncodeType t tdt) (\<lambda>v. EncodeSigned VecOpCode @ v)"
| "definition_bytes (TRecord fs tuple) tdt =
     swallowing (field_bytes (zip (record_keys fs tuple) (map snd fs)) tdt)
       (\<lambda>vs. EncodeSigned RecOpCode @ unsigned_length fs @ vs)"
| "definition_bytes (TVariant fs) tdt =
     swallowing (field_bytes (map (\<lambda>f. (Hash (fst f), snd f)) fs) tdt)
       (\<lambda>vs. EncodeSigned VarOpCode @ unsigned_length fs @ vs)"
| "definition_bytes (TFunc args rets anns) tdt =
     building (andThen (encodeTypes args tdt) (\<lambda>vsa. andThen (encodeTypes rets tdt) (\<lambda>vsr.
         andThen (annotation_bytes anns []) (\<lambda>vs. Inr (vsa @ vsr @ unsigned_length anns @ vs)))))
       (\<lambda>vs. EncodeSigned FuncOpCode @ vs)"
| "definition_bytes (TService ms) tdt =
     swallowing (method_bytes ms tdt) (\<lambda>vs. EncodeSigned ServiceOpCode @ unsigned_length ms @ vs)"
| "definition_bytes t tdt = Swallowed"

text \<open>A primitive type adds nothing, a composite one its parts first.\<close>

fun AddTypeDefinition :: "ctype \<Rightarrow> type_table \<Rightarrow> candid_error + type_table"
  and add_types :: "ctype list \<Rightarrow> type_table \<Rightarrow> candid_error + type_table"
  and add_fields :: "(string \<times> ctype) list \<Rightarrow> type_table \<Rightarrow> candid_error + type_table" where
  "AddTypeDefinition (TOpt t) tdt =
     andThen (AddTypeDefinition t tdt) (\<lambda>tdt. add_built tdt (TOpt t) (definition_bytes (TOpt t) tdt))"
| "AddTypeDefinition (TVec t) tdt =
     andThen (AddTypeDefinition t tdt) (\<lambda>tdt. add_built tdt (TVec t) (definition_bytes (TVec t) tdt))"
| "AddTypeDefinition (TRecord fs tuple) tdt =
     andThen (add_fields fs tdt) (\<lambda>tdt. add_built tdt (TRecord fs tuple) (definition_bytes (TRecord fs tuple) tdt))"
| "AddTypeDefinition (TVariant fs) tdt =
     andThen (add_fields fs tdt) (\<lambda>tdt. add_built tdt (TVariant fs) (definition_bytes (TVariant fs) tdt))"
| "AddTypeDefinition (TFunc args rets anns) tdt =
     andThen (add_types args tdt) (\<lambda>tdt. andThen (add_types rets tdt) (\<lambda>tdt.
       add_built tdt (TFunc args rets anns) (definition_bytes (TFunc args rets anns) tdt)))"
| "AddTypeDefinition (TService ms) tdt =
     andThen (add_fields ms tdt) (\<lambda>tdt. add_built tdt (TService ms) (definition_bytes (TService ms) tdt))"
| "AddTypeDefinition _ tdt = Inr tdt"
| "add_types [] tdt = Inr tdt"
| "add_types (t # ts) tdt = andThen (AddTypeDefinition t tdt) (add_types ts)"
| "add_fields [] tdt = Inr tdt"
| "add_fields ((name, t) # fs) tdt = andThen (AddTypeDefinition t tdt) (add_fields fs)"

end
