(* ===== verification/CandidValues.thy ===== *)
theory CandidValues
  imports CandidTypes "HOL-Library.AList"
begin

unbundle bit_operations_syntax

text \<open>
  The values of Candid: the methods \<^verbatim>\<open>EncodeValue\<close> and \<^verbatim>\<open>Decode\<close> of the types in
  \<^verbatim>\<open>chain/internet_computer/candid/idl\<close>. A value of the Go type \<^verbatim>\<open>any\<close> is a \<open>cvalue\<close>, a \<^verbatim>\<open>bytes.Reader\<close> the
  list of the unread bytes.
\<close>

subsection \<open>Go values\<close>

text \<open>
  What the code distinguishes in an \<^verbatim>\<open>any\<close>. \<open>VNil\<close> is nil and \<open>VNull\<close> the struct \<^verbatim>\<open>Null\<close>; the unbounded \<open>VNat\<close> and
  \<open>VInt\<close> hold a \<^verbatim>\<open>*big.Int\<close> that may be nil; floats are their bits; \<open>VVec\<close> is any slice or array, \<open>VMap\<close> a
  map with string keys in any order. A struct lists its fields; \<open>VVariant\<close> is a \<^verbatim>\<open>Variant\<close> less the type that
  decoding also records in it, \<open>VMethod\<close> the struct \<^verbatim>\<open>PrincipalMethod\<close>, \<open>VPtr\<close> a pointer (nil pointers to methods are left out).
\<close>

record go_field =
  gf_name :: string
  gf_tag :: string
  gf_exported :: bool

datatype cvalue =
    VNil
  | VNull
  | VBool bool
  | VNat "int option"
  | VUint "64 word"
  | VUint8 "8 word"
  | VUint16 "16 word"
  | VUint32 "32 word"
  | VUint64 "64 word"
  | VInt "int option"
  | VGoInt "64 word"
  | VInt8 "8 word"
  | VInt16 "16 word"
  | VInt32 "32 word"
  | VInt64 "64 word"
  | VFloat32 "32 word"
  | VFloat64 "64 word"
  | VText bytes
  | VPrincipal bytes
  | VVec "cvalue list"
  | VMap "(string \<times> cvalue) list"
  | VStruct "(go_field \<times> cvalue) list"
  | VVariant string cvalue
  | VMethod bytes bytes
  | VPtr "cvalue option"
  | VOther

text \<open>The tags of struct fields (\<^verbatim>\<open>tags.go\<close>).\<close>

record tag =
  tg_name :: string
  tg_variant :: bool
  tg_tuple :: bool

definition lowerFirstCharacter :: "string \<Rightarrow> string" where
  "lowerFirstCharacter s = (if s = [] then s else to_lower (take 1 s) @ drop 1 s)"

definition ParseTags :: "go_field \<Rightarrow> tag" where
  "ParseTags field =
    (if gf_tag field = [] then \<lparr>tg_name = lowerFirstCharacter (gf_name field), tg_variant = False, tg_tuple = False\<rparr>
     else (let tags = split_char (CHR '','') (gf_tag field)
       in \<lparr>tg_name = hd tags, tg_variant = ''variant'' \<in> set (tl tags), tg_tuple = ''tuple'' \<in> set (tl tags)\<rparr>))"

definition isTupleType :: "cvalue \<Rightarrow> bool" where
  "isTupleType value = (case value of
     VStruct fs \<Rightarrow> list_ex (\<lambda>(f, _). gf_exported f \<and> tg_tuple (ParseTags f)) fs | _ \<Rightarrow> False)"

definition isVariantType :: "cvalue \<Rightarrow> bool" where
  "isVariantType value = (case value of
     VStruct fs \<Rightarrow> list_ex (\<lambda>(f, _). gf_exported f \<and> tg_variant (ParseTags f)) fs | _ \<Rightarrow> False)"

definition StructToMap :: "cvalue \<Rightarrow> candid_error + (string \<rightharpoonup> cvalue)" where
  "StructToMap value = (case value of
     VStruct fs \<Rightarrow> Inr (foldl (\<lambda>m (f, v). if gf_exported f then m(tg_name (ParseTags f) \<mapsto> v) else m) Map.empty fs)
   | _ \<Rightarrow> Inl InvalidKind)"

text \<open>\<^verbatim>\<open>structToVariant\<close>: \<^verbatim>\<open>IsNil\<close> and \<^verbatim>\<open>Elem\<close> panic on a field that is no pointer; interface fields are left out.\<close>

fun struct_variant :: "(go_field \<times> cvalue) list \<Rightarrow> candid_error + string \<times> cvalue" where
  "struct_variant [] = Inl InvalidKind"
| "struct_variant ((f, v) # fs) =
     (if \<not> gf_exported f then struct_variant fs
      else if \<not> tg_variant (ParseTags f) then Inl NotVariantField
      else (case v of
          VPtr (Some x) \<Rightarrow> Inr (tg_name (ParseTags f), x)
        | VPtr None \<Rightarrow> if fs = [] then Inl NoVariantSelected else struct_variant fs
        | _ \<Rightarrow> Inl Panic))"

definition structToVariant :: "cvalue \<Rightarrow> candid_error + string \<times> cvalue" where
  "structToVariant value = (case value of VStruct fs \<Rightarrow> struct_variant fs | _ \<Rightarrow> Inl InvalidKind)"

subsection \<open>Integers in bytes (\<open>util.go\<close>, \<open>encoding/binary\<close>)\<close>

text \<open>\<^verbatim>\<open>big.Int.Bytes\<close> is big-endian without leading zeros.\<close>

fun min_bytes :: "nat \<Rightarrow> bytes" where
  "min_bytes v = (if v = 0 then [] else of_nat (v mod 256) # min_bytes (v div 256))"

declare min_bytes.simps [simp del]

definition big_bytes :: "int \<Rightarrow> bytes" where
  "big_bytes n = rev (min_bytes (nat \<bar>n\<bar>))"

definition set_bytes :: "bytes \<Rightarrow> int" where
  "set_bytes bs = int (le_value (rev bs))"

definition twosCompl :: "int \<Rightarrow> int" where
  "twosCompl bi = set_bytes (map (\<lambda>b. NOT b) (big_bytes bi)) + 1"

text \<open>The loops of \<^verbatim>\<open>pad0\<close> and \<^verbatim>\<open>pad1\<close> append until the length is \<open>n\<close>; they would not end on longer slices.\<close>

definition pad0 :: "nat \<Rightarrow> bytes \<Rightarrow> bytes" where
  "pad0 n bs = bs @ replicate (n - length bs) 0"

definition pad1 :: "nat \<Rightarrow> bytes \<Rightarrow> bytes" where
  "pad1 n bs = bs @ replicate (n - length bs) 0xFF"

definition zeros :: "nat \<Rightarrow> bytes" where
  "zeros n = replicate n 0"

definition writeInt :: "int \<Rightarrow> nat \<Rightarrow> bytes" where
  "writeInt bi n =
    (if bi = 0 then zeros n
     else if bi < 0 then pad1 n (rev (big_bytes (twosCompl bi)))
     else pad0 n (rev (big_bytes bi)))"

definition readInt :: "int \<Rightarrow> nat \<Rightarrow> int" where
  "readInt bi n = (let m = 2 ^ ((n - 1) * 8 + 7) in if bi \<ge> m then bi + m * (-2) else bi)"

subsection \<open>Encoding values\<close>

fun encodeNat8 :: "cvalue \<Rightarrow> (8 word) option" where
  "encodeNat8 (VUint8 w) = Some w"
| "encodeNat8 _ = None"

definition encodeNat16 :: "cvalue \<Rightarrow> (16 word) option" where
  "encodeNat16 v = (case v of VUint16 w \<Rightarrow> Some w | _ \<Rightarrow> map_option ucast (encodeNat8 v))"

definition encodeNat32 :: "cvalue \<Rightarrow> (32 word) option" where
  "encodeNat32 v = (case v of VUint32 w \<Rightarrow> Some w | _ \<Rightarrow> map_option ucast (encodeNat16 v))"

definition encodeNat64 :: "cvalue \<Rightarrow> (64 word) option" where
  "encodeNat64 v = (case v of VUint w \<Rightarrow> Some w | VUint64 w \<Rightarrow> Some w | _ \<Rightarrow> map_option ucast (encodeNat16 v))"

fun encodeInt8 :: "cvalue \<Rightarrow> (8 word) option" where
  "encodeInt8 (VInt8 w) = Some w"
| "encodeInt8 _ = None"

definition encodeInt16 :: "cvalue \<Rightarrow> (16 word) option" where
  "encodeInt16 v = (case v of VInt16 w \<Rightarrow> Some w | _ \<Rightarrow> map_option scast (encodeInt8 v))"

definition encodeInt32 :: "cvalue \<Rightarrow> (32 word) option" where
  "encodeInt32 v = (case v of VInt32 w \<Rightarrow> Some w | _ \<Rightarrow> map_option scast (encodeInt16 v))"

definition encodeInt64 :: "cvalue \<Rightarrow> (64 word) option" where
  "encodeInt64 v = (case v of VGoInt w \<Rightarrow> Some w | VInt64 w \<Rightarrow> Some w | _ \<Rightarrow> map_option scast (encodeInt16 v))"

text \<open>
  The conversion of a float32 to a float64, exact on numbers: the exponent is rebased, a subnormal
  number is normalized, and a NaN is made quiet.
\<close>

fun top_bit :: "nat \<Rightarrow> nat" where
  "top_bit n = (if n < 2 then 0 else Suc (top_bit (n div 2)))"

declare top_bit.simps [simp del]

definition float_widen :: "32 word \<Rightarrow> 64 word" where
  "float_widen w =
    (let n = unat w; s = n div 2 ^ 31; e = n div 2 ^ 23 mod 2 ^ 8; m = n mod 2 ^ 23; k = top_bit m;
         (e, m) = (if e = 255 then (2047, if m = 0 then 0 else (m mod 2 ^ 22 + 2 ^ 22) * 2 ^ 29)
           else if e \<noteq> 0 then (e + 896, m * 2 ^ 29)
           else if m = 0 then (0, 0)
           else (k + 874, (m - 2 ^ k) * 2 ^ (52 - k)))
     in of_nat (s * 2 ^ 63 + e * 2 ^ 52 + m))"

fun encodeFloat32 :: "cvalue \<Rightarrow> (32 word) option" where
  "encodeFloat32 (VFloat32 w) = Some w"
| "encodeFloat32 _ = None"

definition encodeFloat64 :: "cvalue \<Rightarrow> (64 word) option" where
  "encodeFloat64 v = (case v of VFloat64 w \<Rightarrow> Some w | _ \<Rightarrow> map_option float_widen (encodeFloat32 v))"

definition of_word :: "('a :: len word) option \<Rightarrow> ('a word \<Rightarrow> bytes) \<Rightarrow> candid_error + bytes" where
  "of_word w f = (case w of None \<Rightarrow> Inl InvalidValue | Some w \<Rightarrow> Inr (f w))"

definition encode_nat :: "nat \<Rightarrow> cvalue \<Rightarrow> candid_error + bytes" where
  "encode_nat n v =
    (if n = 0 then (case v of VNat bi \<Rightarrow> leb_unsigned (case bi of None \<Rightarrow> 0 | Some i \<Rightarrow> i) | _ \<Rightarrow> Inl InvalidValue)
     else if n = 8 then of_word (encodeNat64 v) (\<lambda>w. le_bytes 8 (unat w))
     else if n = 4 then of_word (encodeNat32 v) (\<lambda>w. le_bytes 4 (unat w))
     else if n = 2 then of_word (encodeNat16 v) (\<lambda>w. le_bytes 2 (unat w))
     else if n = 1 then of_word (encodeNat8 v) (\<lambda>w. [w])
     else Inl (EncodeValueError NatOpCode))"

definition encode_int :: "nat \<Rightarrow> cvalue \<Rightarrow> candid_error + bytes" where
  "encode_int n v =
    (if n = 0 then (case v of VInt bi \<Rightarrow> (case bi of None \<Rightarrow> Inl Panic | Some i \<Rightarrow> Inr (EncodeSigned i))
       | _ \<Rightarrow> Inl InvalidValue)
     else if n = 8 then of_word (encodeInt64 v) (\<lambda>w. writeInt (sint w) 8)
     else if n = 4 then of_word (encodeInt32 v) (\<lambda>w. writeInt (sint w) 4)
     else if n = 2 then of_word (encodeInt16 v) (\<lambda>w. writeInt (sint w) 2)
     else if n = 1 then of_word (encodeInt8 v) (\<lambda>w. writeInt (sint w) 1)
     else Inl (EncodeValueError IntOpCode))"

definition encode_float :: "nat \<Rightarrow> cvalue \<Rightarrow> candid_error + bytes" where
  "encode_float n v =
    (if n = 8 then of_word (encodeFloat64 v) (\<lambda>w. le_bytes 8 (unat w))
     else if n = 4 then of_word (encodeFloat32 v) (\<lambda>w. le_bytes 4 (unat w))
     else Inl (EncodeValueError FloatXOpCode))"

text \<open>The map a record is encoded from; \<open>None\<close> is the early return for nil.\<close>

definition record_map :: "cvalue \<Rightarrow> candid_error + (string \<rightharpoonup> cvalue) option" where
  "record_map v = (case v of
     VNil \<Rightarrow> Inr None
   | VMap m \<Rightarrow> Inr (Some (map_of m))
   | _ \<Rightarrow> (case StructToMap v of Inl _ \<Rightarrow> Inl (EncodeValueError RecOpCode) | Inr m \<Rightarrow> Inr (Some m)))"

text \<open>A missing field of a map is nil.\<close>

definition field_value :: "(string \<rightharpoonup> cvalue) \<Rightarrow> nat \<Rightarrow> string \<Rightarrow> cvalue" where
  "field_value m i name = (case m name of Some v \<Rightarrow> v | None \<Rightarrow>
     (case m (show_nat i) of Some v \<Rightarrow> v | None \<Rightarrow> VNil))"

text \<open>\<^verbatim>\<open>OptionalType.EncodeValue\<close> calls itself on what a pointer points to.\<close>

fun pointee :: "cvalue \<Rightarrow> cvalue" where
  "pointee v = (case v of VPtr (Some v) \<Rightarrow> pointee v | _ \<Rightarrow> v)"

declare pointee.simps [simp del]

fun EncodeValue :: "ctype \<Rightarrow> cvalue \<Rightarrow> candid_error + bytes"
  and encode_elements :: "ctype \<Rightarrow> cvalue list \<Rightarrow> candid_error + bytes"
  and encode_fields :: "(string \<times> ctype) list \<Rightarrow> nat \<Rightarrow> (string \<rightharpoonup> cvalue) \<Rightarrow> candid_error + bytes"
  and encode_variant :: "(string \<times> ctype) list \<Rightarrow> nat \<Rightarrow> string \<Rightarrow> cvalue \<Rightarrow> candid_error + bytes" where
  "EncodeValue TNull v = (if v = VNull \<or> v = VNil then Inr [] else Inl (EncodeValueError NullOpCode))"
| "EncodeValue TBool v = (case v of VBool b \<Rightarrow> Inr (if b then [1] else [0]) | _ \<Rightarrow> Inl (EncodeValueError BoolOpCode))"
| "EncodeValue (TNat n) v = encode_nat n v"
| "EncodeValue (TInt n) v = encode_int n v"
| "EncodeValue (TFloat n) v = encode_float n v"
| "EncodeValue TText v = (case v of
     VText s \<Rightarrow> andThen (leb_unsigned (int (length s))) (\<lambda>bs. Inr (bs @ s)) | _ \<Rightarrow> Inl (EncodeValueError TextOpCode))"
| "EncodeValue TReserved v = Inr []"
| "EncodeValue TEmpty v = Inr []"
| "EncodeValue TPrincipal v = (case v of
     VPrincipal p \<Rightarrow> andThen (leb_unsigned (int (length p))) (\<lambda>l. Inr ([1] @ l @ p))
   | _ \<Rightarrow> Inl (EncodeValueError PrincipalOpCode))"
| "EncodeValue (TOpt t) v = (let v = pointee v in if v = VNil \<or> v = VPtr None then Inr [0]
     else andThen (EncodeValue t v) (\<lambda>v. Inr ([1] @ v)))"
| "EncodeValue (TVec t) v = (case v of
     VVec vs \<Rightarrow> andThen (encode_elements t vs) (\<lambda>bs. Inr (EncodeSigned (int (length vs)) @ bs))
   | _ \<Rightarrow> Inl (EncodeValueError VecOpCode))"
| "EncodeValue (TRecord fs tuple) v = (case record_map v of
     Inl e \<Rightarrow> Inl e | Inr None \<Rightarrow> Inr [] | Inr (Some m) \<Rightarrow> encode_fields fs 0 m)"
| "EncodeValue (TVariant fs) v = (case v of
     VVariant name x \<Rightarrow> encode_variant fs 0 name x
   | _ \<Rightarrow> (case structToVariant v of Inl e \<Rightarrow> Inl e | Inr (name, x) \<Rightarrow> encode_variant fs 0 name x))"
| "EncodeValue (TFunc args rets anns) v = (case v of
     VPtr (Some (VMethod p m)) \<Rightarrow> andThen (leb_unsigned (int (length p))) (\<lambda>l. andThen (leb_unsigned (int (length m)))
       (\<lambda>lm. Inr ([1, 1] @ l @ p @ lm @ m)))
   | _ \<Rightarrow> Inl (EncodeValueError FuncOpCode))"
| "EncodeValue (TService ms) v = (case v of
     VPrincipal p \<Rightarrow> andThen (leb_unsigned (int (length p))) (\<lambda>l. Inr ([1] @ l @ p))
   | _ \<Rightarrow> Inl (EncodeValueError ServiceOpCode))"
| "encode_elements t [] = Inr []"
| "encode_elements t (v # vs) = andThen (EncodeValue t v) (\<lambda>b. andThen (encode_elements t vs) (\<lambda>bs. Inr (b @ bs)))"
| "encode_fields [] i m = Inr []"
| "encode_fields ((name, t) # fs) i m =
     andThen (EncodeValue t (field_value m i name)) (\<lambda>b. andThen (encode_fields fs (Suc i) m) (\<lambda>bs. Inr (b @ bs)))"
| "encode_variant [] i name x = Inl UnknownVariant"
| "encode_variant ((name', t) # fs) i name x =
     (if name' = name then andThen (leb_unsigned (int i)) (\<lambda>id. andThen (EncodeValue t x) (\<lambda>v. Inr (id @ v)))
      else encode_variant fs (Suc i) name x)"

end
