(* ===== verification/CandidDecode.thy ===== *)
theory CandidDecode
  imports CandidValues "HOL-Library.Monad_Syntax"
begin

text \<open>
  Decoding of Candid values (\<^verbatim>\<open>Decode\<close> of the types in \<^verbatim>\<open>candid/idl\<close>). The types of a message may refer to each other and
  to themselves through pointers, so here a composite type is an entry of a table and a pointer to it
  its index; decoding a value follows the pointers and may run forever, which is \<open>None\<close>.
\<close>

subsection \<open>Types with pointers\<close>

datatype type_ref = Prim ctype | Ref nat

text \<open>\<^verbatim>\<open>FieldType\<close> and \<^verbatim>\<open>FunctionParameter\<close>: the type is nil until it is resolved.\<close>

record field_type =
  fl_name :: string
  fl_index :: int
  fl_type :: "type_ref option"

record function_parameter =
  fp_index :: int
  fp_type :: "type_ref option"

datatype type_entry =
    EOpt type_ref
  | EVec type_ref
  | ERecord "field_type list"
  | EVariant "field_type list"
  | EFunc "function_parameter list" "function_parameter list" "bytes list"
  | EService "(bytes \<times> nat) list"

type_synonym type_list = "type_entry option list"

definition GetType :: "int \<Rightarrow> type_list \<Rightarrow> candid_error + type_ref" where
  "GetType op tds =
    (if 0 \<le> op then
       (if int (length tds) \<le> op \<or> tds ! nat op = None then Inl (TypeIndexOutOfRange op) else Inr (Ref (nat op)))
     else if op = NullOpCode then Inr (Prim TNull)
     else if op = BoolOpCode then Inr (Prim TBool)
     else if op = NatOpCode then Inr (Prim (TNat 0))
     else if op = IntOpCode then Inr (Prim (TInt 0))
     else if op = NatXOpCode then Inr (Prim (TNat 1))
     else if op = NatXOpCode - 1 then Inr (Prim (TNat 2))
     else if op = NatXOpCode - 2 then Inr (Prim (TNat 4))
     else if op = NatXOpCode - 3 then Inr (Prim (TNat 8))
     else if op = IntXOpCode then Inr (Prim (TInt 1))
     else if op = IntXOpCode - 1 then Inr (Prim (TInt 2))
     else if op = IntXOpCode - 2 then Inr (Prim (TInt 4))
     else if op = IntXOpCode - 3 then Inr (Prim (TInt 8))
     else if op = FloatXOpCode then Inr (Prim (TFloat 4))
     else if op = FloatXOpCode - 1 then Inr (Prim (TFloat 8))
     else if op = TextOpCode then Inr (Prim TText)
     else if op = ReservedOpCode then Inr (Prim TReserved)
     else if op = EmptyOpCode then Inr (Prim TEmpty)
     else if op = PrincipalOpCode then Inr (Prim TPrincipal)
     else if op < -24 then Inl TypeOutOfRange
     else Inl TypeNotPrimitive)"

subsection \<open>Reading\<close>

text \<open>
  \<^verbatim>\<open>bytes.Reader.Read\<close> into a slice of length \<open>n\<close>: at the end of the input it fails, even for \<open>n = 0\<close>, and it may
  read less than \<open>n\<close>. \<open>make_bytes\<close> is whether \<^verbatim>\<open>make([]byte, n)\<close> returns: it panics on lengths beyond
  the address space of amd64 (running out of memory below that is left out). The panic is the outcome
  \<open>Inl Panic\<close>, which ends the decoding as an error does, but which the code does not return.
\<close>

definition read :: "nat \<Rightarrow> bytes \<Rightarrow> candid_error + bytes \<times> bytes" where
  "read n r = (if r = [] then Inl EndOfInput else Inr (take n r, drop n r))"

definition read_byte :: "bytes \<Rightarrow> candid_error + byte \<times> bytes" where
  "read_byte r = (case r of [] \<Rightarrow> Inl EndOfInput | b # r \<Rightarrow> Inr (b, r))"

definition make_bytes :: "int \<Rightarrow> candid_error + nat" where
  "make_bytes n = (if 0 \<le> n \<and> n \<le> 2 ^ 48 then Inr (nat n) else Inl Panic)"

definition read_unsigned :: "bytes \<Rightarrow> candid_error + int \<times> bytes" where
  "read_unsigned r = (case DecodeUnsigned r of None \<Rightarrow> Inl EndOfInput | Some x \<Rightarrow> Inr x)"

definition read_signed :: "bytes \<Rightarrow> candid_error + int \<times> bytes" where
  "read_signed r = (case DecodeSigned r of None \<Rightarrow> Inl EndOfInput | Some x \<Rightarrow> Inr x)"

text \<open>\<^verbatim>\<open>Int64\<close> of a decoded number.\<close>

definition int64_of :: "int \<Rightarrow> int" where
  "int64_of n = sint (big_int64 n)"

text \<open>The fixed widths: all bytes have to be there.\<close>

definition read_exactly :: "nat \<Rightarrow> bytes \<Rightarrow> candid_error + nat \<times> bytes" where
  "read_exactly n r = andThen (read n r) (\<lambda>(v, r). if length v \<noteq> n then Inl TooShort else Inr (le_value v, r))"

definition decode_nat :: "nat \<Rightarrow> bytes \<Rightarrow> candid_error + cvalue \<times> bytes" where
  "decode_nat n r =
    (if n = 0 then andThen (read_unsigned r) (\<lambda>(bi, r). Inr (VNat (Some bi), r))
     else if n = 8 then andThen (read_exactly 8 r) (\<lambda>(v, r). Inr (VUint64 (of_nat v), r))
     else if n = 4 then andThen (read_exactly 4 r) (\<lambda>(v, r). Inr (VUint32 (of_nat v), r))
     else if n = 2 then andThen (read_exactly 2 r) (\<lambda>(v, r). Inr (VUint16 (of_nat v), r))
     else if n = 1 then andThen (read_byte r) (\<lambda>(b, r). Inr (VUint8 b, r))
     else Inl (InvalidSize n))"

text \<open>Every width goes through \<^verbatim>\<open>readInt(_, 8)\<close> and the conversion of its \<^verbatim>\<open>Int64\<close>.\<close>

definition decode_int :: "nat \<Rightarrow> bytes \<Rightarrow> candid_error + cvalue \<times> bytes" where
  "decode_int n r =
    (if n = 0 then andThen (read_signed r) (\<lambda>(bi, r). Inr (VInt (Some bi), r))
     else if n = 8 then andThen (read_exactly 8 r) (\<lambda>(v, r). Inr (VInt64 (word_of_int (int64_of (readInt (int v) 8))), r))
     else if n = 4 then andThen (read_exactly 4 r) (\<lambda>(v, r). Inr (VInt32 (word_of_int (int64_of (readInt (int v) 8))), r))
     else if n = 2 then andThen (read_exactly 2 r) (\<lambda>(v, r). Inr (VInt16 (word_of_int (int64_of (readInt (int v) 8))), r))
     else if n = 1 then andThen (read_byte r) (\<lambda>(b, r). Inr (VInt8 (word_of_int (int64_of (readInt (uint b) 8))), r))
     else Inl (InvalidSize n))"

definition decode_float :: "nat \<Rightarrow> bytes \<Rightarrow> candid_error + cvalue \<times> bytes" where
  "decode_float n r =
    (if n = 4 then andThen (read_exactly 4 r) (\<lambda>(v, r). Inr (VFloat32 (of_nat v), r))
     else if n = 8 then andThen (read_exactly 8 r) (\<lambda>(v, r). Inr (VFloat64 (of_nat v), r))
     else Inl (InvalidSize n))"

definition decode_bool :: "bytes \<Rightarrow> candid_error + cvalue \<times> bytes" where
  "decode_bool r = andThen (read_byte r) (\<lambda>(v, r).
     if v = 0 then Inr (VBool False, r) else if v = 1 then Inr (VBool True, r) else Inl (InvalidBool v))"

text \<open>At the end of the input a text is empty, whatever its length.\<close>

definition decode_text :: "bytes \<Rightarrow> candid_error + cvalue \<times> bytes" where
  "decode_text r = andThen (read_unsigned r) (\<lambda>(n, r). andThen (make_bytes (int64_of n)) (\<lambda>n.
     case read n r of Inl _ \<Rightarrow> Inr (VText [], r)
     | Inr (bs, r) \<Rightarrow> if length bs \<noteq> n then Inl EndOfInput
         else if \<not> utf8_valid bs then Inl InvalidUtf8 else Inr (VText bs, r)))"

text \<open>The principal keeps the zeros of the slice where the input ends early.\<close>

definition decode_principal :: "bytes \<Rightarrow> candid_error + cvalue \<times> bytes" where
  "decode_principal r = andThen (read_byte r) (\<lambda>(b, r). if b \<noteq> 1 then Inl InvalidPrincipal else
     andThen (read_unsigned r) (\<lambda>(l, r). let l = uint (big_uint64 l) in
       if l = 0 then Inr (VPrincipal [], r)
       else andThen (make_bytes l) (\<lambda>l. andThen (read l r)
         (\<lambda>(v, r). Inr (VPrincipal (v @ replicate (l - length v) 0), r)))))"

text \<open>A slice of a given length, which has to be filled.\<close>

definition read_slice :: "int \<Rightarrow> bytes \<Rightarrow> candid_error + bytes \<times> bytes" where
  "read_slice l r = andThen (make_bytes (int64_of l)) (\<lambda>n. andThen (read n r) (\<lambda>(v, r).
     if length v \<noteq> n then Inl TooShort else Inr (v, r)))"

definition decode_func :: "bytes \<Rightarrow> candid_error + cvalue \<times> bytes" where
  "decode_func r = andThen (read 2 r) (\<lambda>(bs, r). if bs \<noteq> [1, 1] then Inl InvalidReference else
     andThen (read_unsigned r) (\<lambda>(l, r). andThen (read_slice l r) (\<lambda>(pid, r).
     andThen (read_unsigned r) (\<lambda>(ml, r). andThen (read_slice ml r) (\<lambda>(m, r).
       Inr (VPtr (Some (VMethod pid m)), r))))))"

definition decode_service :: "bytes \<Rightarrow> candid_error + cvalue \<times> bytes" where
  "decode_service r = andThen (read 1 r) (\<lambda>(bs, r). if bs \<noteq> [1] then Inl InvalidReference else
     andThen (read_unsigned r) (\<lambda>(l, r). andThen (read_slice l r) (\<lambda>(pid, r).
       Inr (VPtr (Some (VPrincipal pid)), r))))"

fun decode_prim :: "ctype \<Rightarrow> bytes \<Rightarrow> candid_error + cvalue \<times> bytes" where
  "decode_prim TNull r = Inr (VNil, r)"
| "decode_prim TBool r = decode_bool r"
| "decode_prim (TNat n) r = decode_nat n r"
| "decode_prim (TInt n) r = decode_int n r"
| "decode_prim (TFloat n) r = decode_float n r"
| "decode_prim TText r = decode_text r"
| "decode_prim TReserved r = Inr (VNil, r)"
| "decode_prim TPrincipal r = decode_principal r"
| "decode_prim _ r = Inl EmptyType"

subsection \<open>Values of all types\<close>

text \<open>
  The \<^verbatim>\<open>Decode\<close> methods call each other through the pointers. They are one function here, over what is left to do: a
  value, the elements of a vector after those decoded, or the fields of a record after the map so far.
\<close>

datatype task = Value type_ref | Elements nat type_ref "cvalue list" | Fields "field_type list" "(string \<times> cvalue) list"

partial_function (option) decode :: "type_list \<Rightarrow> task \<Rightarrow> bytes \<Rightarrow> (candid_error + cvalue \<times> bytes) option" where
  "decode tds k r = (case k of
     Value (Prim t) \<Rightarrow> Some (decode_prim t r)
   | Value (Ref i) \<Rightarrow> (case tds ! i of None \<Rightarrow> Some (Inl Panic) | Some e \<Rightarrow> (case e of
       EOpt t \<Rightarrow> (case read_byte r of Inl e \<Rightarrow> Some (Inl e) | Inr (l, r) \<Rightarrow>
          if l = 0 then Some (Inr (VNil, r)) else if l = 1 then decode tds (Value t) r
          else Some (Inl (InvalidOption l)))
     | EVec t \<Rightarrow> (case read_unsigned r of Inl e \<Rightarrow> Some (Inl e) | Inr (l, r) \<Rightarrow>
          decode tds (Elements (nat (int64_of l)) t []) r)
     | ERecord fs \<Rightarrow> decode tds (Fields fs []) r \<bind> (\<lambda>x. Some (andThen x (\<lambda>(v, r).
          Inr (if v = VMap [] then VNil else v, r))))
     | EVariant fs \<Rightarrow> (case read_unsigned r of Inl e \<Rightarrow> Some (Inl e) | Inr (n, r) \<Rightarrow>
          if int (length fs) \<le> n then Some (Inl (InvalidVariantIndex n))
          else (let f = fs ! nat (int64_of n) in case fl_type f of None \<Rightarrow> Some (Inl Panic) | Some t \<Rightarrow>
            decode tds (Value t) r \<bind> (\<lambda>x. Some (andThen x (\<lambda>(v, r).
              Inr (VPtr (Some (VVariant (fl_name f) v)), r))))))
     | EFunc _ _ _ \<Rightarrow> Some (decode_func r)
     | EService _ \<Rightarrow> Some (decode_service r)))
   | Elements n t vs \<Rightarrow> (case n of 0 \<Rightarrow> Some (Inr (VVec vs, r)) | Suc n \<Rightarrow>
       decode tds (Value t) r \<bind> (\<lambda>x. case x of Inl e \<Rightarrow> Some (Inl e) | Inr (v, r) \<Rightarrow>
         decode tds (Elements n t (vs @ [v])) r))
   | Fields fs m \<Rightarrow> (case fs of [] \<Rightarrow> Some (Inr (VMap m, r)) | f # fs \<Rightarrow>
       (case fl_type f of None \<Rightarrow> Some (Inl Panic) | Some t \<Rightarrow>
       decode tds (Value t) r \<bind> (\<lambda>x. case x of Inl e \<Rightarrow> Some (Inl e) | Inr (v, r) \<Rightarrow>
         decode tds (Fields fs (AList.update (fl_name f) v m)) r))))"

lemma decode_Prim [simp]: "decode tds (Value (Prim t)) r = Some (decode_prim t r)"
  by (subst decode.simps) simp

lemma decode_Opt: "tds ! i = Some (EOpt t) \<Longrightarrow> decode tds (Value (Ref i)) r =
    (case read_byte r of Inl e \<Rightarrow> Some (Inl e) | Inr (l, r) \<Rightarrow>
       if l = 0 then Some (Inr (VNil, r)) else if l = 1 then decode tds (Value t) r
       else Some (Inl (InvalidOption l)))"
  by (subst decode.simps) simp

lemma decode_Vec: "tds ! i = Some (EVec t) \<Longrightarrow> decode tds (Value (Ref i)) r =
    (case read_unsigned r of Inl e \<Rightarrow> Some (Inl e) | Inr (l, r) \<Rightarrow>
       decode tds (Elements (nat (int64_of l)) t []) r)"
  by (subst decode.simps) simp

lemma decode_Record: "tds ! i = Some (ERecord fs) \<Longrightarrow> decode tds (Value (Ref i)) r =
    decode tds (Fields fs []) r \<bind> (\<lambda>x. Some (andThen x (\<lambda>(v, r). Inr (if v = VMap [] then VNil else v, r))))"
  by (subst decode.simps) simp

lemma decode_Variant: "tds ! i = Some (EVariant fs) \<Longrightarrow> decode tds (Value (Ref i)) r =
    (case read_unsigned r of Inl e \<Rightarrow> Some (Inl e) | Inr (n, r) \<Rightarrow>
       if int (length fs) \<le> n then Some (Inl (InvalidVariantIndex n))
       else (let f = fs ! nat (int64_of n) in case fl_type f of None \<Rightarrow> Some (Inl Panic) | Some t \<Rightarrow>
         decode tds (Value t) r \<bind> (\<lambda>x. Some (andThen x (\<lambda>(v, r).
           Inr (VPtr (Some (VVariant (fl_name f) v)), r))))))"
  by (subst decode.simps) simp

lemma decode_Func: "tds ! i = Some (EFunc a b c) \<Longrightarrow> decode tds (Value (Ref i)) r = Some (decode_func r)"
  by (subst decode.simps) simp

lemma decode_Service: "tds ! i = Some (EService ms) \<Longrightarrow> decode tds (Value (Ref i)) r = Some (decode_service r)"
  by (subst decode.simps) simp

lemma decode_Elements [simp]:
  "decode tds (Elements 0 t vs) r = Some (Inr (VVec vs, r))"
  "decode tds (Elements (Suc n) t vs) r = decode tds (Value t) r \<bind> (\<lambda>x. case x of Inl e \<Rightarrow> Some (Inl e)
     | Inr (v, r) \<Rightarrow> decode tds (Elements n t (vs @ [v])) r)"
  by (subst decode.simps, simp)+

lemma decode_Fields [simp]:
  "decode tds (Fields [] m) r = Some (Inr (VMap m, r))"
  "decode tds (Fields (f # fs) m) r = (case fl_type f of None \<Rightarrow> Some (Inl Panic) | Some t \<Rightarrow>
     decode tds (Value t) r \<bind> (\<lambda>x. case x of Inl e \<Rightarrow> Some (Inl e)
       | Inr (v, r) \<Rightarrow> decode tds (Fields fs (AList.update (fl_name f) v m)) r))"
  by (subst decode.simps, simp)+

end
