(* ===== verification/CandidIntegers.thy ===== *)
theory CandidIntegers
  imports CandidDecode
begin

unbundle bit_operations_syntax

text \<open>
  Integers of a fixed width in Candid: little-endian bytes, and exactly which of them the code writes and reads
  back, since \<^verbatim>\<open>writeInt\<close> (\<^verbatim>\<open>candid/idl/util.go\<close>) pads a complement that has lost its leading zeros with ones.
\<close>

lemma le_value_zeros: "le_value (replicate n 0) = 0"
  by (induction n) simp_all

lemma le_value_ones: "le_value (replicate n 0xFF) + 1 = 256 ^ n"
  by (induction n) simp_all

lemma le_value_min_bytes: "le_value (min_bytes v) = v"
proof (induction v rule: min_bytes.induct)
  case (1 v)
  then show ?case by (subst min_bytes.simps) (auto simp: unat_of_mod256)
qed

lemma length_min_bytes: "length (min_bytes v) \<le> n \<longleftrightarrow> v < 256 ^ n"
proof (induction v arbitrary: n rule: min_bytes.induct)
  case (1 v)
  show ?case
  proof (cases "v = 0")
    case True
    then show ?thesis by (subst min_bytes.simps) simp
  next
    case False
    then show ?thesis
    proof (cases n)
      case (Suc m)
      with 1 False show ?thesis
        by (subst min_bytes.simps) (simp add: div_less_iff_less_mult mult.commute)
    qed (simp add: min_bytes.simps)
  qed
qed

lemma le_value_inj: "length as = length bs \<Longrightarrow> le_value as = le_value bs \<longleftrightarrow> as = bs"
  by (metis le_bytes_le_value)

lemma le_value_NOT: "le_value (map (\<lambda>b. NOT b) bs) + le_value bs + 1 = 256 ^ length bs"
proof (induction bs)
  case (Cons b bs)
  have "NOT b = 255 - b" by (simp add: not_eq_complement)
  moreover have "b \<le> 255" using byte_less [of b] by (simp add: word_le_nat_alt)
  ultimately have "unat (NOT b) = 255 - unat b" using unat_sub [of b 255] by simp
  then have "unat (NOT b) + unat b = 255" using byte_less [of b] by simp
  with Cons show ?case by simp
qed simp


lemma writeInt_nonneg: "0 \<le> v \<Longrightarrow> v < 256 ^ n \<Longrightarrow> writeInt v n = le_bytes n (nat v)"
proof -
  assume v: "0 \<le> v" "v < 256 ^ n"
  then have "nat v < 256 ^ n" by (simp add: nat_less_iff)
  then have len: "length (min_bytes (nat v)) \<le> n" by (simp add: length_min_bytes)
  have "le_value (writeInt v n) = nat v" "length (writeInt v n) = n"
    using v len by (auto simp: writeInt_def pad0_def zeros_def big_bytes_def le_value_append le_value_min_bytes le_value_zeros)
  then show ?thesis by (metis le_bytes_le_value)
qed

text \<open>The numbers whose complement loses a leading zero byte.\<close>

definition garbled :: "int \<Rightarrow> nat \<Rightarrow> bool" where
  "garbled v n \<longleftrightarrow> list_ex (\<lambda>k. 255 * 256 ^ (k - 1) < - v \<and> - v < 256 ^ k) [2..<n]"

lemma writeInt_neg:
  assumes v: "v < 0" "- v \<le> 128 * 256 ^ (n - 1)" "0 < n"
  shows "length (writeInt v n) = n" "writeInt v n = le_bytes n (nat (v mod 256 ^ n)) \<longleftrightarrow> \<not> garbled v n"
proof -
  define a where "a = nat (- v)"
  define k where "k = length (min_bytes a)"
  define c where "c = 256 ^ k - a"
  define j where "j = length (min_bytes c)"
  have a: "0 < a" "a \<le> 128 * 256 ^ (n - 1)" and va: "v = - int a"
    using v by (auto simp: a_def nat_le_iff)
  have n: "(256 :: nat) ^ n = 256 * 256 ^ (n - 1)" using v(3) by (cases n) auto
  have an: "a < 256 ^ n" using a n by simp
  have ak: "a < 256 ^ m \<longleftrightarrow> k \<le> m" for m using length_min_bytes [of a m] by (simp add: k_def)
  have kn: "k \<le> n" using an ak by simp
  have k0: "0 < k" using a ak [of 0] by (cases k) auto
  have cj: "c < 256 ^ m \<longleftrightarrow> j \<le> m" for m using length_min_bytes [of c m] by (simp add: j_def)
  have ck: "c + a = 256 ^ k" using ak [of k] by (simp add: c_def)
  have jk: "j \<le> k" using cj [of k] ck a by simp
  have "twosCompl v = int c"
  proof -
    have "le_value (map (\<lambda>b. NOT b) (min_bytes a)) + a + 1 = 256 ^ k"
      using le_value_NOT [of "min_bytes a"] by (simp add: le_value_min_bytes k_def)
    then show ?thesis using ck by (simp add: twosCompl_def set_bytes_def big_bytes_def va rev_map)
  qed
  then have w: "writeInt v n = min_bytes c @ replicate (n - j) 0xFF"
    using v by (simp add: writeInt_def pad1_def big_bytes_def j_def)
  then show len: "length (writeInt v n) = n" using jk kn by (simp add: j_def)
  have "le_value (writeInt v n) + 256 ^ j = c + 256 ^ n"
  proof -
    have "256 ^ j * (le_value (replicate (n - j) 0xFF) + 1) = (256 ^ n :: nat)"
      using jk kn by (simp only: le_value_ones flip: power_add) simp
    then show ?thesis by (simp add: w le_value_append le_value_min_bytes j_def algebra_simps)
  qed
  moreover have "nat (v mod 256 ^ n) + 256 ^ k = c + 256 ^ n"
  proof -
    have "v mod 256 ^ n = 256 ^ n - int a"
      using a an by (simp add: va zmod_zminus1_eq_if)
    then have "int (nat (v mod 256 ^ n)) = 256 ^ n - int a" using an by (simp add: less_imp_le)
    moreover have "int c + int a = 256 ^ k" using ck by (metis of_nat_add of_nat_numeral of_nat_power)
    moreover have "int a \<le> 256 ^ n" using an by (metis less_imp_le of_nat_le_iff of_nat_numeral of_nat_power)
    ultimately have "int (nat (v mod 256 ^ n) + 256 ^ k) = int (c + 256 ^ n)" by simp
    then show ?thesis by (simp only: of_nat_eq_iff)
  qed
  ultimately have "le_value (writeInt v n) = nat (v mod 256 ^ n) \<longleftrightarrow> (256 :: nat) ^ j = 256 ^ k"
    by - (rule iffI; linarith)
  then have eqj: "le_value (writeInt v n) = nat (v mod 256 ^ n) \<longleftrightarrow> j = k" by simp
  then have eq: "writeInt v n = le_bytes n (nat (v mod 256 ^ n)) \<longleftrightarrow> j = k"
  proof -
    have "nat (v mod 256 ^ n) < 256 ^ n" by (simp add: nat_less_iff)
    then have "le_value (le_bytes n (nat (v mod 256 ^ n))) = nat (v mod 256 ^ n)"
      by (simp add: le_value_le_bytes)
    then show ?thesis using le_value_inj [of "writeInt v n" "le_bytes n (nat (v mod 256 ^ n))"] len eqj by simp
  qed
  have P: "(256 :: nat) ^ m = 256 * 256 ^ (m - 1)" if "0 < m" for m using that by (cases m) auto
  have j: "j < k \<longleftrightarrow> 255 * 256 ^ (k - 1) < a"
    using cj [of "k - 1"] ck P [OF k0] k0 by linarith
  have "garbled v n \<longleftrightarrow> j < k"
  proof
    assume "garbled v n"
    then obtain m where m: "2 \<le> m" "m < n" "255 * 256 ^ (m - 1) < int a" "int a < 256 ^ m"
      by (auto simp: garbled_def list_ex_iff va)
    then have "int (255 * 256 ^ (m - 1)) < int a" "int a < int (256 ^ m)" by simp_all
    then have m': "255 * 256 ^ (m - 1) < a" "a < 256 ^ m" by (simp_all only: of_nat_less_iff)
    then have "\<not> a < 256 ^ (m - 1)" by simp
    then have "\<not> k \<le> m - 1" using ak [of "m - 1"] by simp
    moreover have "k \<le> m" using m' ak [of m] by simp
    ultimately have "k = m" by simp
    then show "j < k" using j m' by simp
  next
    assume jk': "j < k"
    then have big: "255 * 256 ^ (k - 1) < a" using j by simp
    have "k \<noteq> 1" using big ak [of 1] by auto
    moreover have "k \<noteq> n" using big a by auto
    moreover have "int (255 * 256 ^ (k - 1)) < int a" using big by (simp only: of_nat_less_iff)
    moreover have "int a < int (256 ^ k)" using ak [of k] by (simp only: of_nat_less_iff)
    ultimately show "garbled v n" using k0 kn by (auto simp: garbled_def list_ex_iff va intro!: bexI [of _ k])
  qed
  then have "j = k \<longleftrightarrow> \<not> garbled v n" using jk by auto
  then show "writeInt v n = le_bytes n (nat (v mod 256 ^ n)) \<longleftrightarrow> \<not> garbled v n" using eq by simp
qed


lemma word_int64_of: "LENGTH('a :: len) \<le> 64 \<Longrightarrow> (word_of_int (int64_of n) :: 'a word) = word_of_int n"
  by (simp add: int64_of_def big_int64_def sint_sbintrunc' word_of_int_eq_iff take_bit_signed_take_bit)

lemma word_readInt: 
  assumes "LENGTH('a :: len) \<le> 64" 
  shows "(word_of_int (int64_of (readInt (int v) 8)) :: 'a word) = of_nat v"
proof -
  have "(2 :: int) ^ LENGTH('a) dvd 2 ^ 64" using assms by (rule le_imp_power_dvd)
  then have "(int v + 2 ^ 63 * (- 2)) mod 2 ^ LENGTH('a) = int v mod 2 ^ LENGTH('a)"
    by (simp add: mod_eq_dvd_iff)
  then have "(word_of_int (int v + 2 ^ 63 * (- 2)) :: 'a word) = word_of_int (int v)"
    by (simp only: word_of_int_eq_iff take_bit_eq_mod)
  then show ?thesis using assms by (simp add: word_int64_of readInt_def)
qed

lemma read_exactly_append: "length bs = n \<Longrightarrow> 0 < n \<Longrightarrow> read_exactly n (bs @ r) = Inr (le_value bs, r)"
  by (auto simp: read_exactly_def read_def)

lemma readInt_byte: "word_of_int (int64_of (readInt (uint (b :: byte)) 8)) = b"
  using word_readInt [where 'a = 8, of "unat b"] by simp

lemma decode_int_bytes:
  "length bs = 8 \<Longrightarrow> decode_int 8 (bs @ r) = Inr (VInt64 (of_nat (le_value bs)), r)"
  "length bs = 4 \<Longrightarrow> decode_int 4 (bs @ r) = Inr (VInt32 (of_nat (le_value bs)), r)"
  "length bs = 2 \<Longrightarrow> decode_int 2 (bs @ r) = Inr (VInt16 (of_nat (le_value bs)), r)"
  "length bs = 1 \<Longrightarrow> decode_int 1 (bs @ r) = Inr (VInt8 (of_nat (le_value bs)), r)"
  by (auto simp: decode_int_def read_exactly_append word_readInt read_byte_def length_Suc_conv
      readInt_byte)

lemma sint_mod: "LENGTH('a) = 8 * n \<Longrightarrow> sint (w :: 'a :: len word) mod 256 ^ n = uint w"
  by (simp add: uint_sint take_bit_eq_mod power_mult)

lemma garbled_neg: "garbled v n \<Longrightarrow> v < 0"
proof -
  assume "garbled v n"
  then obtain k where "255 * 256 ^ (k - 1) < - v" by (auto simp: garbled_def list_ex_iff)
  moreover have "0 \<le> 255 * (256 :: int) ^ (k - 1)" by simp
  ultimately show ?thesis by linarith
qed

lemma int_bytes:
  assumes n: "LENGTH('a) = 8 * n"
  shows "length (writeInt (sint (w :: 'a :: len word)) n) = n"
    and "(of_nat (le_value (writeInt (sint w) n)) :: 'a word) = w \<longleftrightarrow> \<not> garbled (sint w) n"
proof -
  let ?bs = "writeInt (sint w) n"
  have n0: "0 < n" using n len_gt_0 [where 'a = 'a] by linarith
  have p: "(256 :: nat) ^ n = 2 ^ LENGTH('a)" by (simp add: n power_mult)
  obtain m where m: "n = Suc m" using n0 by (cases n) auto
  then have b: "(2 :: int) ^ (LENGTH('a) - 1) = 128 * 256 ^ (n - 1)"
    by (simp add: n power_add power_mult)
  have lo: "- (2 ^ (LENGTH('a) - 1)) \<le> sint w" and hi: "sint w < 2 ^ (LENGTH('a) - 1)"
    using sint_ge [of w] sint_lt [of w] by simp_all
  have "length ?bs = n \<and> (?bs = le_bytes n (unat w) \<longleftrightarrow> \<not> garbled (sint w) n)"
  proof (cases "sint w < 0")
    case True
    have "- sint w \<le> 128 * 256 ^ (n - 1)" using lo unfolding b by linarith
    from writeInt_neg [OF True this n0] show ?thesis
      by (simp only: sint_mod [OF n] unat_eq_nat_uint)
  next
    case False
    then have "sint w < 256 ^ n" using hi b m by simp
    then have "writeInt (sint w) n = le_bytes n (nat (sint w))" using False by (simp add: writeInt_nonneg)
    moreover have "nat (sint w) = unat w" unfolding unat_eq_nat_uint sint_mod [OF n, of w, symmetric]
      using False \<open>sint w < 256 ^ n\<close> by (simp only: mod_pos_pos_trivial not_less)
    moreover have "\<not> garbled (sint w) n" using False garbled_neg by blast
    ultimately show ?thesis by simp
  qed
  then have len: "length ?bs = n" and eq: "?bs = le_bytes n (unat w) \<longleftrightarrow> \<not> garbled (sint w) n"
    by simp_all
  have "(of_nat (le_value ?bs) :: 'a word) = w \<longleftrightarrow> le_value ?bs = unat w"
    using le_value_less [of ?bs] len p by (auto simp: unat_of_nat word_unat_eq_iff)
  moreover have "unat w < 256 ^ n" using p unsigned_less [of w] by simp
  then have "le_value ?bs = unat w \<longleftrightarrow> ?bs = le_bytes n (unat w)"
    using len le_value_inj [of ?bs "le_bytes n (unat w)"] by (simp add: le_value_le_bytes)
  ultimately show "(of_nat (le_value ?bs) :: 'a word) = w \<longleftrightarrow> \<not> garbled (sint w) n" using eq by simp
  show "length ?bs = n" by (rule len)
qed


text \<open>Integers of 8, 16 and 32 or 64 bits are written with their width, and a value is read back exactly
  when it is not one whose complement loses a leading zero byte; for 8 and 16 bits there are none.\<close>

theorem int_values_exact:
  "(\<exists>bs. EncodeValue (TInt 8) (VInt64 w8) = Inr bs \<and> length bs = 8
      \<and> (decode_prim (TInt 8) (bs @ r) = Inr (VInt64 w8, r) \<longleftrightarrow> \<not> garbled (sint w8) 8))
   \<and> (\<exists>bs. EncodeValue (TInt 4) (VInt32 w4) = Inr bs \<and> length bs = 4
      \<and> (decode_prim (TInt 4) (bs @ r) = Inr (VInt32 w4, r) \<longleftrightarrow> \<not> garbled (sint w4) 4))
   \<and> (\<exists>bs. EncodeValue (TInt 2) (VInt16 w2) = Inr bs \<and> decode_prim (TInt 2) (bs @ r) = Inr (VInt16 w2, r))
   \<and> (\<exists>bs. EncodeValue (TInt 1) (VInt8 w1) = Inr bs \<and> decode_prim (TInt 1) (bs @ r) = Inr (VInt8 w1, r))"
  using int_bytes [of 8 w8] int_bytes [of 4 w4] int_bytes [of 2 w2] int_bytes [of 1 w1]
  by (simp add: encode_int_def of_word_def decode_int_bytes decode_int_bytes(4) [unfolded One_nat_def] encodeInt64_def encodeInt32_def encodeInt16_def garbled_def)

text \<open>For instance \<open>-65281\<close> is written like \<open>-1\<close>.\<close>

lemma garbled_example:
  "garbled (- 65281) 4" "EncodeValue (TInt 4) (VInt32 (- 65281)) = EncodeValue (TInt 4) (VInt32 (- 1))"
  by (simp_all add: garbled_def encode_int_def of_word_def encodeInt32_def writeInt_def twosCompl_def
      set_bytes_def big_bytes_def min_bytes.simps pad1_def not_eq_complement numeral_eq_Suc [of Num.One] upt_rec)

end
