(* ===== verification/CandidRoundTrip.thy ===== *)
theory CandidRoundTrip
  imports CandidIntegers
begin

text \<open>
  What the codec of Candid values promises: \<open>conveys t v v'\<close> lists the values \<open>v\<close> that a type \<open>t\<close> carries and how
  they arrive, \<open>denotes\<close> relates a type with pointers to the type it was encoded from, and every conveyed
  value is encoded and decoded that way, whatever follows it.
\<close>

subsection \<open>The specification\<close>

definition wire_names :: "(string \<times> ctype) list \<Rightarrow> bool \<Rightarrow> string list" where
  "wire_names fs tuple = map (\<lambda>h. show_nat (nat h)) (record_keys fs tuple)"

definition as_variant :: "cvalue \<Rightarrow> candid_error + string \<times> cvalue" where
  "as_variant v = (case v of VVariant name x \<Rightarrow> Inr (name, x) | _ \<Rightarrow> structToVariant v)"

definition nothing :: "cvalue \<Rightarrow> bool" where
  "nothing v \<longleftrightarrow> pointee v = VNil \<or> pointee v = VPtr None"

inductive conveys :: "ctype \<Rightarrow> cvalue \<Rightarrow> cvalue \<Rightarrow> bool" where
  null: "v = VNil \<or> v = VNull \<Longrightarrow> conveys TNull v VNil"
| reserved: "conveys TReserved v VNil"
| bool: "conveys TBool (VBool b) (VBool b)"
| nat: "n = (case bi of None \<Rightarrow> 0 | Some i \<Rightarrow> i) \<Longrightarrow> 0 \<le> n \<Longrightarrow> conveys (TNat 0) (VNat bi) (VNat (Some n))"
| nat8: "encodeNat8 v = Some w \<Longrightarrow> conveys (TNat 1) v (VUint8 w)"
| nat16: "encodeNat16 v = Some w \<Longrightarrow> conveys (TNat 2) v (VUint16 w)"
| nat32: "encodeNat32 v = Some w \<Longrightarrow> conveys (TNat 4) v (VUint32 w)"
| nat64: "encodeNat64 v = Some w \<Longrightarrow> conveys (TNat 8) v (VUint64 w)"
| int: "conveys (TInt 0) (VInt (Some i)) (VInt (Some i))"
| int8: "encodeInt8 v = Some w \<Longrightarrow> conveys (TInt 1) v (VInt8 w)"
| int16: "encodeInt16 v = Some w \<Longrightarrow> conveys (TInt 2) v (VInt16 w)"
| int32: "encodeInt32 v = Some w \<Longrightarrow> \<not> garbled (sint w) 4 \<Longrightarrow> conveys (TInt 4) v (VInt32 w)"
| int64: "encodeInt64 v = Some w \<Longrightarrow> \<not> garbled (sint w) 8 \<Longrightarrow> conveys (TInt 8) v (VInt64 w)"
| float32: "encodeFloat32 v = Some w \<Longrightarrow> conveys (TFloat 4) v (VFloat32 w)"
| float64: "encodeFloat64 v = Some w \<Longrightarrow> conveys (TFloat 8) v (VFloat64 w)"
| text_value: "utf8_valid s \<Longrightarrow> length s \<le> 2 ^ 48 \<Longrightarrow> conveys TText (VText s) (VText s)"
| principal: "length p \<le> 2 ^ 48 \<Longrightarrow> conveys TPrincipal (VPrincipal p) (VPrincipal p)"
| opt_none: "nothing v \<Longrightarrow> conveys (TOpt t) v VNil"
| opt_some: "\<not> nothing v \<Longrightarrow> conveys t (pointee v) v' \<Longrightarrow> conveys (TOpt t) v v'"
| vec: "length vs = length vs' \<Longrightarrow> length vs < 2 ^ 63 \<Longrightarrow> (\<forall>i<length vs. conveys t (vs ! i) (vs' ! i))
    \<Longrightarrow> conveys (TVec t) (VVec vs) (VVec vs')"
| empty_record: "conveys (TRecord [] tuple) VNil VNil"
| fields: "record_map v = Inr (Some m) \<Longrightarrow> length vs = length fs \<Longrightarrow> distinct (wire_names fs tuple)
    \<Longrightarrow> (\<forall>i<length fs. conveys (snd (fs ! i)) (field_value m i (fst (fs ! i))) (vs ! i))
    \<Longrightarrow> conveys (TRecord fs tuple) v (if fs = [] then VNil else VMap (zip (wire_names fs tuple) vs))"
| variant: "as_variant v = Inr (fst (fs ! i), x) \<Longrightarrow> i < length fs \<Longrightarrow> length fs < 2 ^ 63
    \<Longrightarrow> (\<forall>j<i. fst (fs ! j) \<noteq> fst (fs ! i)) \<Longrightarrow> conveys (snd (fs ! i)) x y
    \<Longrightarrow> conveys (TVariant fs) v (VPtr (Some (VVariant (HashString (fst (fs ! i))) y)))"
| func: "length p \<le> 2 ^ 48 \<Longrightarrow> length m \<le> 2 ^ 48 \<Longrightarrow> m \<noteq> [] \<Longrightarrow>
    conveys (TFunc args rets anns) (VPtr (Some (VMethod p m))) (VPtr (Some (VMethod p m)))"
| service: "length p \<le> 2 ^ 48 \<Longrightarrow> p \<noteq> [] \<Longrightarrow> conveys (TService ms) (VPrincipal p) (VPtr (Some (VPrincipal p)))"

fun is_prim :: "ctype \<Rightarrow> bool" where
  "is_prim (TOpt t) \<longleftrightarrow> False"
| "is_prim (TVec t) \<longleftrightarrow> False"
| "is_prim (TRecord fs tuple) \<longleftrightarrow> False"
| "is_prim (TVariant fs) \<longleftrightarrow> False"
| "is_prim (TFunc args rets anns) \<longleftrightarrow> False"
| "is_prim (TService ms) \<longleftrightarrow> False"
| "is_prim _ \<longleftrightarrow> True"

inductive denotes :: "type_list \<Rightarrow> type_ref \<Rightarrow> ctype \<Rightarrow> bool" for tds where
  prim: "is_prim t \<Longrightarrow> denotes tds (Prim t) t"
| opt: "i < length tds \<Longrightarrow> tds ! i = Some (EOpt r) \<Longrightarrow> denotes tds r t \<Longrightarrow> denotes tds (Ref i) (TOpt t)"
| vec: "i < length tds \<Longrightarrow> tds ! i = Some (EVec r) \<Longrightarrow> denotes tds r t \<Longrightarrow> denotes tds (Ref i) (TVec t)"
| fields: "i < length tds \<Longrightarrow> tds ! i = Some (ERecord es) \<Longrightarrow> map fl_name es = wire_names fs tuple
    \<Longrightarrow> (\<forall>j<length fs. \<exists>r. fl_type (es ! j) = Some r \<and> denotes tds r (snd (fs ! j)))
    \<Longrightarrow> denotes tds (Ref i) (TRecord fs tuple)"
| variant: "i < length tds \<Longrightarrow> tds ! i = Some (EVariant es) \<Longrightarrow> map fl_name es = wire_names fs False
    \<Longrightarrow> (\<forall>j<length fs. \<exists>r. fl_type (es ! j) = Some r \<and> denotes tds r (snd (fs ! j)))
    \<Longrightarrow> denotes tds (Ref i) (TVariant fs)"
| func: "i < length tds \<Longrightarrow> tds ! i = Some (EFunc a b c) \<Longrightarrow> denotes tds (Ref i) (TFunc args rets anns)"
| service: "i < length tds \<Longrightarrow> tds ! i = Some (EService es) \<Longrightarrow> denotes tds (Ref i) (TService ms)"

inductive_cases denotes_Prim: "denotes tds (Prim t') t"
inductive_cases denotes_TOpt: "denotes tds r (TOpt t)"
inductive_cases denotes_TVec: "denotes tds r (TVec t)"
inductive_cases denotes_TRecord: "denotes tds r (TRecord fs tuple)"
inductive_cases denotes_TVariant: "denotes tds r (TVariant fs)"
inductive_cases denotes_TFunc: "denotes tds r (TFunc args rets anns)"
inductive_cases denotes_TService: "denotes tds r (TService ms)"

lemma denotes_prim: "denotes tds r t \<Longrightarrow> is_prim t \<Longrightarrow> r = Prim t"
  by (cases rule: denotes.cases) auto

subsection \<open>Reading what was written\<close>

named_theorems reading "what the readers make of written bytes"

lemma leb_unsigned_int: "leb_unsigned (int n) = Inr (encode_unsigned n [])"
  by (simp add: leb_unsigned_nonneg)

lemma read_unsigned_encoded [reading]: "read_unsigned (encode_unsigned n [] @ r) = Inr (int n, r)"
  using Decode_EncodeUnsigned [of "int n"] by (simp add: read_unsigned_def EncodeUnsigned_def)

lemma read_unsigned_signed [reading]: "read_unsigned (EncodeSigned (int n) @ r) = Inr (int n, r)"
  by (simp add: read_unsigned_def DecodeUnsigned_EncodeSigned)

lemma read_signed_encoded [reading]: "read_signed (EncodeSigned n @ r) = Inr (n, r)"
  by (simp add: read_signed_def Decode_EncodeSigned)

lemma int64_of_nat: "n < 2 ^ 63 \<Longrightarrow> int64_of (int n) = int n"
  by (simp add: int64_of_def sint_big_int64)

lemma make_bytes_int: "n \<le> 2 ^ 48 \<Longrightarrow> make_bytes (int64_of (int n)) = Inr n"
  by (subst int64_of_nat) (simp_all add: make_bytes_def)

lemma read_append: "length bs = n \<Longrightarrow> bs \<noteq> [] \<or> r \<noteq> [] \<Longrightarrow> read n (bs @ r) = Inr (bs, r)"
  by (auto simp: read_def)

lemma read_slice_append: "length bs \<le> 2 ^ 48 \<Longrightarrow> bs \<noteq> [] \<or> r \<noteq> [] \<Longrightarrow> read_slice (int (length bs)) (bs @ r) = Inr (bs, r)"
  by (simp add: read_slice_def make_bytes_int read_append)

lemma encode_unsigned_not_Nil: "encode_unsigned n [] \<noteq> []"
proof
  assume "encode_unsigned n [] = []"
  with read_unsigned_encoded [of n "[]"] show False
    by (simp add: read_unsigned_def DecodeUnsigned_def)
qed

lemma word_le_bytes:
  assumes "LENGTH('a :: len) = 8 * n"
  shows "(of_nat (unat (w :: 'a word) mod 256 ^ n) :: 'a word) = w"
proof -
  have "(256 :: nat) ^ n = 2 ^ LENGTH('a)" by (simp add: assms power_mult)
  then show ?thesis by simp
qed

lemma decode_nat_bytes [reading]:
  "decode_nat 8 (le_bytes 8 (unat w8) @ r) = Inr (VUint64 w8, r)"
  "decode_nat 4 (le_bytes 4 (unat w4) @ r) = Inr (VUint32 w4, r)"
  "decode_nat 2 (le_bytes 2 (unat w2) @ r) = Inr (VUint16 w2, r)"
  "decode_nat 1 (w1 # r) = Inr (VUint8 w1, r)"
  using word_le_bytes [of 8 w8] word_le_bytes [of 4 w4] word_le_bytes [of 2 w2]
  by (simp_all add: decode_nat_def read_exactly_append le_value_le_bytes read_byte_def)

lemma decode_float_bytes [reading]:
  "decode_float 8 (le_bytes 8 (unat w8) @ r) = Inr (VFloat64 w8, r)"
  "decode_float 4 (le_bytes 4 (unat w4) @ r) = Inr (VFloat32 w4, r)"
  using word_le_bytes [of 8 w8] word_le_bytes [of 4 w4]
  by (simp_all add: decode_float_def read_exactly_append le_value_le_bytes)

lemma decode_int_written [reading]:
  "\<not> garbled (sint w8) 8 \<Longrightarrow> decode_int 8 (writeInt (sint w8) 8 @ r) = Inr (VInt64 w8, r)"
  "\<not> garbled (sint w4) 4 \<Longrightarrow> decode_int 4 (writeInt (sint w4) 4 @ r) = Inr (VInt32 w4, r)"
  "decode_int 2 (writeInt (sint w2) 2 @ r) = Inr (VInt16 w2, r)"
  "decode_int 1 (writeInt (sint w1) 1 @ r) = Inr (VInt8 w1, r)"
proof -
  have "\<not> garbled (sint w2) 2" "\<not> garbled (sint w1) 1" by (simp_all add: garbled_def)
  then show "decode_int 2 (writeInt (sint w2) 2 @ r) = Inr (VInt16 w2, r)"
    "decode_int 1 (writeInt (sint w1) 1 @ r) = Inr (VInt8 w1, r)"
    using int_bytes [of 2 w2] int_bytes [of 1 w1] decode_int_bytes(3) [of "writeInt (sint w2) 2" r]
      decode_int_bytes(4) [of "writeInt (sint w1) 1" r] by simp_all
qed (use int_bytes [of 8 w8] int_bytes [of 4 w4] in \<open>simp_all only: decode_int_bytes\<close>; simp)+

lemma decode_text_written [reading]:
  assumes "utf8_valid s" and "length s \<le> 2 ^ 48"
  shows "decode_text (encode_unsigned (length s) [] @ s @ r) = Inr (VText s, r)"
proof (cases "s = [] \<and> r = []")
  case True
  then show ?thesis using read_unsigned_encoded [of 0 "[]"] make_bytes_int [of 0]
    by (simp add: decode_text_def read_def)
next
  case False
  then show ?thesis using assms(1) make_bytes_int [OF assms(2)]
    by (simp add: decode_text_def reading read_append)
qed

lemma decode_principal_written [reading]:
  assumes "length p \<le> 2 ^ 48"
  shows "decode_principal (1 # encode_unsigned (length p) [] @ p @ r) = Inr (VPrincipal p, r)"
proof -
  have l: "uint (big_uint64 (int (length p))) = int (length p)"
    using assms by (intro uint_big_uint64) auto
  then show ?thesis using assms
    by (cases "p = []") (auto simp: decode_principal_def read_byte_def reading make_bytes_def read_append)
qed

lemma decode_func_written [reading]:
  assumes "length p \<le> 2 ^ 48" "length m \<le> 2 ^ 48" "m \<noteq> []"
  shows "decode_func (1 # 1 # encode_unsigned (length p) [] @ p @ encode_unsigned (length m) [] @ m @ r)
    = Inr (VPtr (Some (VMethod p m)), r)"
  using assms encode_unsigned_not_Nil
  by (simp add: decode_func_def read_def [of 2] reading read_slice_append)

lemma decode_service_written [reading]:
  assumes "length p \<le> 2 ^ 48" "p \<noteq> []"
  shows "decode_service (1 # encode_unsigned (length p) [] @ p @ r) = Inr (VPtr (Some (VPrincipal p)), r)"
  using assms by (simp add: decode_service_def read_def [of "Suc 0"] reading read_slice_append)


subsection \<open>Elements and fields\<close>

lemma encode_unsigned_frames: "encode_unsigned n [] @ bs @ r = (encode_unsigned n [] @ bs) @ r"
  by simp

text \<open>\<open>carried tds t r v v'\<close>: \<open>v\<close> is encoded, and decoded as \<open>v'\<close> with the type reference \<open>r\<close>.\<close>

definition carried :: "type_list \<Rightarrow> ctype \<Rightarrow> type_ref \<Rightarrow> cvalue \<Rightarrow> cvalue \<Rightarrow> bool" where
  "carried tds t r v v' \<longleftrightarrow> (\<exists>bs. EncodeValue t v = Inr bs
     \<and> (\<forall>rest. decode tds (Value r) (bs @ rest) = Some (Inr (v', rest))))"

lemma carriedI: "EncodeValue t v = Inr bs \<Longrightarrow> (\<And>rest. decode tds (Value r) (bs @ rest) = Some (Inr (v', rest)))
    \<Longrightarrow> carried tds t r v v'"
  by (auto simp: carried_def)

lemma elements_carried:
  assumes "length vs = length vs'" and "\<forall>i<length vs. carried tds t r (vs ! i) (vs' ! i)"
  shows "\<exists>bs. encode_elements t vs = Inr bs
    \<and> (\<forall>rest acc. decode tds (Elements (length vs) r acc) (bs @ rest) = Some (Inr (VVec (acc @ vs'), rest)))"
  using assms
proof (induction vs vs' rule: list_induct2)
  case (Cons v vs v' vs')
  then have "\<forall>i<length vs. carried tds t r (vs ! i) (vs' ! i)" by fastforce
  with Cons.IH obtain bs where bs: "encode_elements t vs = Inr bs"
    "\<And>rest acc. decode tds (Elements (length vs) r acc) (bs @ rest) = Some (Inr (VVec (acc @ vs'), rest))" by blast
  have "carried tds t r v v'" using Cons.prems by fastforce
  then obtain b where "EncodeValue t v = Inr b"
    "\<And>rest. decode tds (Value r) (b @ rest) = Some (Inr (v', rest))" by (auto simp: carried_def)
  with bs show ?case by (intro exI [of _ "b @ bs"]) simp
qed simp

lemma update_new: "k \<notin> fst ` set m \<Longrightarrow> AList.update k v m = m @ [(k, v)]"
  by (induction m) auto

lemma fields_carried:
  assumes "length es = length fs" and "length vs = length fs"
    and "\<forall>j<length fs. \<exists>r. fl_type (es ! j) = Some r
      \<and> carried tds (snd (fs ! j)) r (field_value m (i + j) (fst (fs ! j))) (vs ! j)"
    and "distinct (map fst acc @ map fl_name es)"
  shows "\<exists>bs. encode_fields fs i m = Inr bs
    \<and> (\<forall>rest. decode tds (Fields es acc) (bs @ rest) = Some (Inr (VMap (acc @ zip (map fl_name es) vs), rest)))"
  using assms
proof (induction es fs arbitrary: vs i acc rule: list_induct2)
  case (Cons e es f fs)
  obtain name t where f: "f = (name, t)" by (cases f)
  obtain v vs' where vs: "vs = v # vs'" using Cons.prems(1) by (cases vs) auto
  have "\<forall>j<length fs. \<exists>r. fl_type (es ! j) = Some r
      \<and> carried tds (snd (fs ! j)) r (field_value m (Suc i + j) (fst (fs ! j))) (vs' ! j)"
    using Cons.prems(2) unfolding vs by fastforce
  with Cons.IH [of vs' "Suc i" "acc @ [(fl_name e, v)]"] Cons.prems(1,3)
  obtain bs where bs: "encode_fields fs (Suc i) m = Inr bs"
    "\<And>rest. decode tds (Fields es (acc @ [(fl_name e, v)])) (bs @ rest)
      = Some (Inr (VMap (acc @ (fl_name e, v) # zip (map fl_name es) vs'), rest))" by (auto simp: vs)
  from Cons.prems(2) obtain r where r: "fl_type e = Some r" "carried tds t r (field_value m i name) v"
    by (auto simp: vs f)
  then obtain b where b: "EncodeValue t (field_value m i name) = Inr b"
    "\<And>rest. decode tds (Value r) (b @ rest) = Some (Inr (v, rest))" by (auto simp: carried_def)
  have new: "AList.update (fl_name e) v acc = acc @ [(fl_name e, v)]"
    using Cons.prems(3) by (auto intro: update_new simp: image_iff)
  show ?case using b bs r new by (intro exI [of _ "b @ bs"]) (simp add: f vs)
qed simp

lemma encode_variant_first:
  assumes "i < length fs" and "\<forall>j<i. fst (fs ! j) \<noteq> fst (fs ! i)"
  shows "encode_variant fs k (fst (fs ! i)) x
    = andThen (EncodeValue (snd (fs ! i)) x) (\<lambda>v. Inr (encode_unsigned (k + i) [] @ v))"
  using assms
proof (induction fs arbitrary: i k)
  case (Cons f fs)
  show ?case
  proof (cases i)
    case 0
    then show ?thesis by (cases f) (simp add: leb_unsigned_int)
  next
    case (Suc j)
    then have "\<forall>j'<j. fst (fs ! j') \<noteq> fst (fs ! j)" "fst f \<noteq> fst (fs ! j)" "j < length fs"
      using Cons.prems by fastforce+
    with Cons.IH [of j "Suc k"] show ?thesis by (cases f) (simp add: Suc)
  qed
qed simp

lemma carried_prim: "EncodeValue t v = Inr bs \<Longrightarrow> is_prim t \<Longrightarrow> (\<And>rest. decode_prim t (bs @ rest) = Inr (v', rest))
    \<Longrightarrow> denotes tds r t \<Longrightarrow> carried tds t r v v'"
  by (auto simp: carried_def dest: denotes_prim)


lemma carried_word: "EncodeValue t v = of_word w f \<Longrightarrow> w = Some x \<Longrightarrow> is_prim t
    \<Longrightarrow> (\<And>rest. decode_prim t (f x @ rest) = Inr (v', rest)) \<Longrightarrow> denotes tds r t \<Longrightarrow> carried tds t r v v'"
  by (rule carried_prim [of _ _ "f x"]) (simp_all add: of_word_def)

subsection \<open>All values\<close>

lemma conveys_carried: "conveys t v v' \<Longrightarrow> denotes tds r t \<Longrightarrow> carried tds t r v v'"
proof (induction arbitrary: r rule: conveys.induct)
  case (opt_none v t)
  then obtain i r' where "r = Ref i" "tds ! i = Some (EOpt r')" by (auto elim: denotes_TOpt)
  then show ?case using opt_none.hyps
    by (intro carriedI [of _ _ "[0]"]) (auto simp: nothing_def decode_Opt read_byte_def)
next
  case (opt_some v t v')
  then obtain i r' where r: "r = Ref i" "tds ! i = Some (EOpt r')" "denotes tds r' t" by (auto elim: denotes_TOpt)
  with opt_some obtain bs where "EncodeValue t (pointee v) = Inr bs"
    "\<And>rest. decode tds (Value r') (bs @ rest) = Some (Inr (v', rest))" by (auto simp: carried_def)
  then show ?case using opt_some.hyps(1) r
    by (intro carriedI [of _ _ "1 # bs"]) (auto simp: nothing_def decode_Opt read_byte_def Let_def)
next
  case (vec vs vs' t)
  then obtain i r' where r: "r = Ref i" "tds ! i = Some (EVec r')" "denotes tds r' t" by (auto elim: denotes_TVec)
  with vec have "\<forall>i<length vs. carried tds t r' (vs ! i) (vs' ! i)" by blast
  from elements_carried [OF vec.hyps(1) this] obtain bs where "encode_elements t vs = Inr bs"
    "\<And>rest acc. decode tds (Elements (length vs) r' acc) (bs @ rest) = Some (Inr (VVec (acc @ vs'), rest))" by blast
  then show ?case using r int64_of_nat [OF vec.hyps(2)]
    by (intro carriedI [of _ _ "EncodeSigned (int (length vs)) @ bs"]) (auto simp: decode_Vec reading)
next
  case (empty_record tuple)
  then obtain i es where "r = Ref i" "tds ! i = Some (ERecord es)" "map fl_name es = wire_names [] tuple"
    by (auto elim: denotes_TRecord)
  then show ?case
    by (intro carriedI [of _ _ "[]"]) (auto simp: record_map_def decode_Record wire_names_def record_keys_def split: if_splits)
next
  case (fields v m vs fs tuple)
  then obtain i es where r: "r = Ref i" "tds ! i = Some (ERecord es)" "map fl_name es = wire_names fs tuple"
    "\<forall>j<length fs. \<exists>r. fl_type (es ! j) = Some r \<and> denotes tds r (snd (fs ! j))"
    by (auto elim: denotes_TRecord)
  have len: "length es = length fs"
    using arg_cong [OF r(3), of length] by (simp add: wire_names_def record_keys_def split: if_splits)
  have "\<forall>j<length fs. \<exists>r. fl_type (es ! j) = Some r
      \<and> carried tds (snd (fs ! j)) r (field_value m (0 + j) (fst (fs ! j))) (vs ! j)"
    using fields.IH r(4) by fastforce
  from fields_carried [OF len fields.hyps(2) this, of "[]"] fields.hyps(3) obtain bs where
    bs: "encode_fields fs 0 m = Inr bs"
      "\<And>rest. decode tds (Fields es []) (bs @ rest) = Some (Inr (VMap (zip (wire_names fs tuple) vs), rest))"
    by (auto simp: r(3))
  have "zip (wire_names fs tuple) vs = [] \<longleftrightarrow> fs = []"
    using fields.hyps(2) len arg_cong [OF r(3), of length] by (cases vs; cases "wire_names fs tuple") auto
  then show ?case using bs r fields.hyps(1)
    by (intro carriedI [of _ _ bs]) (auto simp: decode_Record)
next
  case (variant v fs k x y)
  then obtain i es where r: "r = Ref i" "tds ! i = Some (EVariant es)" "map fl_name es = wire_names fs False"
    "\<forall>j<length fs. \<exists>r. fl_type (es ! j) = Some r \<and> denotes tds r (snd (fs ! j))"
    by (auto elim: denotes_TVariant)
  have len: "length es = length fs"
    using arg_cong [OF r(3), of length] by (simp add: wire_names_def record_keys_def)
  obtain r' where r': "fl_type (es ! k) = Some r'" "denotes tds r' (snd (fs ! k))" using r(4) variant.hyps(2) by blast
  with variant.IH obtain bs where bs: "EncodeValue (snd (fs ! k)) x = Inr bs"
    "\<And>rest. decode tds (Value r') (bs @ rest) = Some (Inr (y, rest))" by (auto simp: carried_def)
  have name: "fl_name (es ! k) = HashString (fst (fs ! k))"
    using nth_map [of k es fl_name] variant.hyps(2) len
    by (simp add: r(3) wire_names_def record_keys_def HashString_def)
  have k: "int64_of (int k) = int k" using variant.hyps(2,3) by (intro int64_of_nat) simp
  have "EncodeValue (TVariant fs) v = Inr (encode_unsigned k [] @ bs)"
    using variant.hyps(1) encode_variant_first [OF variant.hyps(2,4), of 0 x] bs(1)
    by (auto simp: as_variant_def split: cvalue.splits)
  then show ?case using r r' bs(2) name k variant.hyps(2) len
    by (intro carriedI [of _ _ "encode_unsigned k [] @ bs"]) (auto simp: decode_Variant reading)
next
  case (func p m args rets anns)
  then obtain i a b c where "r = Ref i" "tds ! i = Some (EFunc a b c)" by (auto elim: denotes_TFunc)
  then show ?case using func
    by (intro carriedI [of _ _ "[1, 1] @ encode_unsigned (length p) [] @ p @ encode_unsigned (length m) [] @ m"])
      (auto simp: leb_unsigned_int decode_Func reading)
next
  case (service p ms)
  then obtain i es where "r = Ref i" "tds ! i = Some (EService es)" by (auto elim: denotes_TService)
  then show ?case using service
    by (intro carriedI [of _ _ "[1] @ encode_unsigned (length p) [] @ p"]) (auto simp: leb_unsigned_int decode_Service reading)
next
  case (bool b)
  then show ?case by (intro carried_prim [of _ _ "[if b then 1 else 0]"]) (auto simp: decode_bool_def read_byte_def)
next
  case (nat n bi)
  then show ?case by (intro carried_prim [of _ _ "encode_unsigned (nat n) []"])
    (auto simp: encode_nat_def leb_unsigned_nonneg decode_nat_def reading)
next
  case (int i)
  then show ?case by (intro carried_prim [of _ _ "EncodeSigned i"])
    (auto simp: encode_int_def decode_int_def reading)
next
  case (text_value s)
  then show ?case by (intro carried_prim [of _ _ "encode_unsigned (length s) [] @ s"])
    (auto simp: leb_unsigned_int decode_text_written)
next
  case (principal p)
  then show ?case by (intro carried_prim [of _ _ "[1] @ encode_unsigned (length p) [] @ p"])
    (auto simp: leb_unsigned_int decode_principal_written)
next
  case (null v)
  then show ?case by (intro carried_prim [of _ _ "[]"]) auto
next
  case (reserved v)
  then show ?case by (intro carried_prim [of _ _ "[]"]) auto
qed (rule carried_word, simp add: encode_nat_def encode_int_def encode_float_def, rule refl, simp,
    simp add: reading decode_nat_bytes(4) [unfolded One_nat_def] decode_int_written(4) [unfolded One_nat_def], assumption)+

end
