(* ===== verification/Candid.thy ===== *)
theory Candid
  imports CandidRoundTrip
begin

text \<open>
  Messages of the Internet Computer (\<^verbatim>\<open>candid/encode.go\<close>, \<^verbatim>\<open>candid/decode.go\<close>): a header, the table of type
  definitions, the types of the arguments and their values.
\<close>

subsection \<open>Encoding\<close>

definition magic :: bytes where
  "magic = string_bytes ''DIDL''"

definition empty_table :: type_table where
  "empty_table = \<lparr>tt_types = [], tt_indexes = \<lambda>_. None\<rparr>"

fun encode_args :: "ctype list \<Rightarrow> cvalue list \<Rightarrow> type_table \<Rightarrow> candid_error + bytes \<times> bytes" where
  "encode_args (t # ts) (v # vs) tdt = andThen (EncodeType t tdt) (\<lambda>t'. andThen (EncodeValue t v)
     (\<lambda>v'. andThen (encode_args ts vs tdt) (\<lambda>(types, values). Inr (t' @ types, v' @ values))))"
| "encode_args _ _ tdt = Inr ([], [])"

definition Encode :: "ctype list \<Rightarrow> cvalue list \<Rightarrow> candid_error + bytes" where
  "Encode argumentTypes arguments =
    (if length arguments < length argumentTypes then Inl TooFewArguments
     else andThen (add_types argumentTypes empty_table) (\<lambda>tdt.
       andThen (encode_args argumentTypes arguments tdt) (\<lambda>(ts, vs).
         Inr (magic @ unsigned_length (tt_types tdt) @ concat (tt_types tdt)
           @ EncodeSigned (int (length argumentTypes)) @ ts @ vs))))"

subsection \<open>Decoding the type table\<close>

text \<open>
  An optional or a vector of a type not read yet is put off: its place in the list is nil, and the
  cache remembers what to make of which op code.
\<close>

datatype wrapper = OptOf | VecOf

record delay_type =
  dl_index :: nat
  dl_wrapper :: wrapper
  dl_op :: int

fun wrap :: "wrapper \<Rightarrow> type_ref \<Rightarrow> type_entry" where
  "wrap OptOf t = EOpt t"
| "wrap VecOf t = EVec t"

definition decodeWrapped :: "wrapper \<Rightarrow> type_list \<Rightarrow> delay_type list \<Rightarrow> bytes
    \<Rightarrow> candid_error + (type_list \<times> delay_type list) \<times> bytes" where
  "decodeWrapped w tds cache r = andThen (read_signed r) (\<lambda>(tid, r).
    (let op = int64_of tid in case GetType op tds of
       Inr v \<Rightarrow> Inr ((tds @ [Some (wrap w v)], cache), r)
     | Inl _ \<Rightarrow> Inr ((tds @ [None], cache @ [\<lparr>dl_index = length tds, dl_wrapper = w, dl_op = op\<rparr>]), r)))"

definition field_of :: "type_list \<Rightarrow> int \<Rightarrow> int \<Rightarrow> field_type" where
  "field_of tds h op = (case GetType op tds of
     Inl _ \<Rightarrow> \<lparr>fl_name = show_nat (nat h), fl_index = op, fl_type = None\<rparr>
   | Inr v \<Rightarrow> \<lparr>fl_name = show_nat (nat h), fl_index = 0, fl_type = Some v\<rparr>)"

fun read_fields :: "nat \<Rightarrow> type_list \<Rightarrow> bytes \<Rightarrow> candid_error + field_type list \<times> bytes" where
  "read_fields 0 tds r = Inr ([], r)"
| "read_fields (Suc n) tds r = andThen (read_unsigned r) (\<lambda>(h, r). andThen (read_signed r) (\<lambda>(tid, r).
     andThen (read_fields n tds r) (\<lambda>(fs, r). Inr (field_of tds h (int64_of tid) # fs, r))))"

definition decodeFieldsSubType :: "type_list \<Rightarrow> bytes \<Rightarrow> candid_error + field_type list \<times> bytes" where
  "decodeFieldsSubType tds r = andThen (read_unsigned r) (\<lambda>(l, r). read_fields (nat (int64_of l)) tds r)"

definition parameter_of :: "type_list \<Rightarrow> int \<Rightarrow> function_parameter" where
  "parameter_of tds op = (case GetType op tds of
     Inl _ \<Rightarrow> \<lparr>fp_index = op, fp_type = None\<rparr> | Inr v \<Rightarrow> \<lparr>fp_index = 0, fp_type = Some v\<rparr>)"

fun read_parameters :: "nat \<Rightarrow> type_list \<Rightarrow> bytes \<Rightarrow> candid_error + function_parameter list \<times> bytes" where
  "read_parameters 0 tds r = Inr ([], r)"
| "read_parameters (Suc n) tds r = andThen (read_signed r) (\<lambda>(tid, r).
     andThen (read_parameters n tds r) (\<lambda>(ps, r). Inr (parameter_of tds (int64_of tid) # ps, r)))"

definition decodeParameters :: "type_list \<Rightarrow> bytes \<Rightarrow> candid_error + function_parameter list \<times> bytes" where
  "decodeParameters tds r = andThen (read_unsigned r) (\<lambda>(l, r). read_parameters (nat (int64_of l)) tds r)"

text \<open>The annotation bytes are one slice, which keeps its zeros where the input ends early.\<close>

definition decodeFuncOpCode :: "type_list \<Rightarrow> bytes \<Rightarrow> candid_error + type_entry \<times> bytes" where
  "decodeFuncOpCode tds r = andThen (decodeParameters tds r) (\<lambda>(args, r).
     andThen (decodeParameters tds r) (\<lambda>(rets, r). andThen (read_unsigned r) (\<lambda>(l, r).
     andThen (make_bytes (int64_of l)) (\<lambda>n. andThen (read n r) (\<lambda>(v, r).
       let ann = v @ replicate (n - length v) 0
       in Inr (EFunc args rets (if ann = [] then [] else [ann]), r))))))"

fun read_methods :: "nat \<Rightarrow> type_list \<Rightarrow> bytes \<Rightarrow> candid_error + (bytes \<times> nat) list \<times> bytes" where
  "read_methods 0 tds r = Inr ([], r)"
| "read_methods (Suc n) tds r = andThen (read_unsigned r) (\<lambda>(lm, r). andThen (read_slice lm r) (\<lambda>(name, r).
     andThen (read_signed r) (\<lambda>(tid, r). andThen (GetType (int64_of tid) tds) (\<lambda>v. case v of
       Prim _ \<Rightarrow> Inl NotAFunction
     | Ref i \<Rightarrow> (case tds ! i of Some (EFunc _ _ _) \<Rightarrow>
           andThen (read_methods n tds r) (\<lambda>(ms, r). Inr ((name, i) # ms, r))
         | _ \<Rightarrow> Inl NotAFunction)))))"

definition decodeServiceOpCode :: "type_list \<Rightarrow> bytes \<Rightarrow> candid_error + type_entry \<times> bytes" where
  "decodeServiceOpCode tds r = andThen (read_unsigned r) (\<lambda>(l, r).
     andThen (read_methods (nat (int64_of l)) tds r) (\<lambda>(ms, r). Inr (EService ms, r)))"

text \<open>One round of the loop over the table: an unknown op code adds nothing.\<close>

definition decode_definition :: "type_list \<Rightarrow> delay_type list \<Rightarrow> bytes
    \<Rightarrow> candid_error + (type_list \<times> delay_type list) \<times> bytes" where
  "decode_definition tds cache r = andThen (read_signed r) (\<lambda>(tid, r).
    let op = int64_of tid; entry = (\<lambda>(e, r). Inr ((tds @ [Some e], cache), r))
    in if op = OptOpCode then decodeWrapped OptOf tds cache r
       else if op = VecOpCode then decodeWrapped VecOf tds cache r
       else if op = RecOpCode then andThen (decodeFieldsSubType tds r) (\<lambda>(fs, r). entry (ERecord fs, r))
       else if op = VarOpCode then andThen (decodeFieldsSubType tds r) (\<lambda>(fs, r). entry (EVariant fs, r))
       else if op = FuncOpCode then andThen (decodeFuncOpCode tds r) entry
       else if op = ServiceOpCode then andThen (decodeServiceOpCode tds r) entry
       else Inr ((tds, cache), r))"

fun decode_table :: "nat \<Rightarrow> type_list \<Rightarrow> delay_type list \<Rightarrow> bytes
    \<Rightarrow> candid_error + (type_list \<times> delay_type list) \<times> bytes" where
  "decode_table 0 tds cache r = Inr ((tds, cache), r)"
| "decode_table (Suc n) tds cache r = andThen (decode_definition tds cache r)
     (\<lambda>((tds, cache), r). decode_table n tds cache r)"

text \<open>\<^verbatim>\<open>resolve\<close> takes the first entry of the cache that can be resolved, again and again.\<close>

definition resolvable :: "type_list \<Rightarrow> delay_type \<Rightarrow> bool" where
  "resolvable tds d = (case GetType (dl_op d) tds of Inl _ \<Rightarrow> False | Inr _ \<Rightarrow> True)"

function resolve :: "type_list \<Rightarrow> delay_type list \<Rightarrow> candid_error + type_list" where
  "resolve tds cache =
    (if cache = [] then Inr tds
     else (case dropWhile (\<lambda>d. \<not> resolvable tds d) cache of
         [] \<Rightarrow> Inl Unresolved
       | d # ds \<Rightarrow> (case GetType (dl_op d) tds of Inl _ \<Rightarrow> Inl Unresolved
           | Inr v \<Rightarrow> resolve (tds[dl_index d := Some (wrap (dl_wrapper d) v)])
               (takeWhile (\<lambda>d. \<not> resolvable tds d) cache @ ds))))"
  by pat_completeness auto
termination
proof (relation "measure (\<lambda>(tds, cache). length cache)")
  fix tds cache d ds v
  assume "dropWhile (\<lambda>d. \<not> resolvable tds d) cache = d # ds"
  then have "length cache = length (takeWhile (\<lambda>d. \<not> resolvable tds d) cache) + Suc (length ds)"
    by (metis length_append length_Cons takeWhile_dropWhile_id)
  then show "((tds[dl_index d := Some (wrap (dl_wrapper d) v)],
      takeWhile (\<lambda>d. \<not> resolvable tds d) cache @ ds), tds, cache) \<in> measure (\<lambda>(tds, cache). length cache)"
    by simp
qed simp

declare resolve.simps [simp del]

text \<open>The types still missing in records, variants and functions.\<close>

fun resolve_fields :: "type_list \<Rightarrow> field_type list \<Rightarrow> candid_error + field_type list" where
  "resolve_fields tds [] = Inr []"
| "resolve_fields tds (f # fs) = (case (if fl_type f = None then GetType (fl_index f) tds else Inr (the (fl_type f))) of
     Inl _ \<Rightarrow> Inl Unresolved
   | Inr v \<Rightarrow> andThen (resolve_fields tds fs) (\<lambda>fs. Inr (f\<lparr>fl_type := Some v\<rparr> # fs)))"

fun resolve_parameters :: "type_list \<Rightarrow> function_parameter list \<Rightarrow> candid_error + function_parameter list" where
  "resolve_parameters tds [] = Inr []"
| "resolve_parameters tds (p # ps) = (case (if fp_type p = None then GetType (fp_index p) tds else Inr (the (fp_type p))) of
     Inl _ \<Rightarrow> Inl Unresolved
   | Inr v \<Rightarrow> andThen (resolve_parameters tds ps) (\<lambda>ps. Inr (p\<lparr>fp_type := Some v\<rparr> # ps)))"

fun resolve_entry :: "type_list \<Rightarrow> type_entry option \<Rightarrow> candid_error + type_entry option" where
  "resolve_entry tds (Some (ERecord fs)) = andThen (resolve_fields tds fs) (\<lambda>fs. Inr (Some (ERecord fs)))"
| "resolve_entry tds (Some (EVariant fs)) = andThen (resolve_fields tds fs) (\<lambda>fs. Inr (Some (EVariant fs)))"
| "resolve_entry tds (Some (EFunc args rets anns)) = andThen (resolve_parameters tds args)
     (\<lambda>args. andThen (resolve_parameters tds rets) (\<lambda>rets. Inr (Some (EFunc args rets anns))))"
| "resolve_entry tds e = Inr e"

fun resolve_entries :: "type_list \<Rightarrow> type_list \<Rightarrow> candid_error + type_list" where
  "resolve_entries tds [] = Inr []"
| "resolve_entries tds (e # es) = andThen (resolve_entry tds e)
     (\<lambda>e. andThen (resolve_entries tds es) (\<lambda>es. Inr (e # es)))"

subsection \<open>Decoding messages\<close>

definition checkHeader :: "bytes \<Rightarrow> candid_error + unit \<times> bytes" where
  "checkHeader r = andThen (read 4 r) (\<lambda>(m, r).
     if length m < 4 then Inl NoMagic else if m \<noteq> magic then Inl WrongMagic else Inr ((), r))"

fun read_types :: "nat \<Rightarrow> type_list \<Rightarrow> bytes \<Rightarrow> candid_error + type_ref list \<times> bytes" where
  "read_types 0 tds r = Inr ([], r)"
| "read_types (Suc n) tds r = andThen (read_signed r) (\<lambda>(tid, r). andThen (GetType (int64_of tid) tds)
     (\<lambda>t. andThen (read_types n tds r) (\<lambda>(ts, r). Inr (t # ts, r))))"

definition decode_header :: "bytes \<Rightarrow> candid_error + (type_list \<times> type_ref list) \<times> bytes" where
  "decode_header bs = andThen (checkHeader bs) (\<lambda>(_, r). andThen (read_unsigned r) (\<lambda>(tdtl, r).
     andThen (decode_table (nat (int64_of tdtl)) [] [] r) (\<lambda>((tds, cache), r).
     andThen (resolve tds cache) (\<lambda>tds. andThen (resolve_entries tds tds) (\<lambda>tds.
     andThen (read_unsigned r) (\<lambda>(tsl, r). andThen (read_types (nat (int64_of tsl)) tds r)
       (\<lambda>(ts, r). Inr ((tds, ts), r))))))))"

fun decode_values :: "type_list \<Rightarrow> type_ref list \<Rightarrow> bytes \<Rightarrow> (candid_error + cvalue list \<times> bytes) option" where
  "decode_values tds [] r = Some (Inr ([], r))"
| "decode_values tds (t # ts) r = decode tds (Value t) r \<bind> (\<lambda>x. case x of Inl e \<Rightarrow> Some (Inl e)
     | Inr (v, r) \<Rightarrow> decode_values tds ts r \<bind> (\<lambda>y. Some (andThen y (\<lambda>(vs, r). Inr (v # vs, r)))))"

text \<open>The types are returned with the list their pointers refer to.\<close>

definition Decode :: "bytes \<Rightarrow> (candid_error + type_list \<times> type_ref list \<times> cvalue list) option" where
  "Decode bs = (if bs = [] then Some (Inl EmptyMessage) else (case decode_header bs of
     Inl e \<Rightarrow> Some (Inl e)
   | Inr ((tds, ts), r) \<Rightarrow> decode_values tds ts r \<bind> (\<lambda>x. Some (andThen x (\<lambda>(vs, r).
       if r \<noteq> [] then Inl TooLong else Inr (tds, ts, vs))))))"


subsection \<open>Messages that are decoded forever\<close>

lemma decode_loops:
  assumes loop: "tds ! i = Some (ERecord (f # fs))" "fl_type f = Some (Ref i)"
  shows "decode tds (Value (Ref i)) r = None"
proof -
  let ?loops = "\<lambda>k. k = Value (Ref i) \<or> (\<exists>m. k = Fields (f # fs) m)"
  have "\<not> ?loops k" if ret: "decode tds k r = Some y" for k r y
  proof -
    have "tds = tds \<longrightarrow> \<not> ?loops k"
      by (rule decode.raw_induct [where P = "\<lambda>tds' k r y. tds' = tds \<longrightarrow> \<not> ?loops k", OF _ ret],
          auto simp: loop Option.bind_eq_Some_conv, blast+)
    then show ?thesis by simp
  qed
  then show ?thesis by (cases "decode tds (Value (Ref i)) r") auto
qed

lemma loop_header: "decode_header (magic @ [1, 0x6C, 1, 0, 0, 1, 0]) = Inr (([Some (ERecord
    [\<lparr>fl_name = ''0'', fl_index = 0, fl_type = Some (Ref 0)\<rparr>])], [Ref 0]), [])"
  by code_simp

text \<open>The decoder need not return: on a message of eleven bytes, whose only type is a record with itself
  as its only field, it recurses forever.\<close>

theorem decode_never_returns: "Decode (string_bytes ''DIDL'' @ [1, 0x6C, 1, 0, 0, 1, 0]) = None"
  using loop_header by (simp add: Decode_def decode_loops flip: magic_def)

end
