(* ===== verification/CandidMessages.thy ===== *)
theory CandidMessages
  imports Candid
begin

text \<open>
  The round trip of whole Candid messages: the table of type definitions is read back as types with pointers that
  denote the types it was built from, and the values as they are conveyed.
\<close>

subsection \<open>Types that can be sent\<close>

text \<open>A type with its parts, in the order they are added to the table.\<close>

primrec parts :: "ctype \<Rightarrow> ctype list" where
  "parts TNull = [TNull]"
| "parts TBool = [TBool]"
| "parts (TNat n) = [TNat n]"
| "parts (TInt n) = [TInt n]"
| "parts (TFloat n) = [TFloat n]"
| "parts TText = [TText]"
| "parts TReserved = [TReserved]"
| "parts TEmpty = [TEmpty]"
| "parts TPrincipal = [TPrincipal]"
| "parts (TOpt t) = parts t @ [TOpt t]"
| "parts (TVec t) = parts t @ [TVec t]"
| "parts (TRecord fs tuple) = concat (map snd (map (map_prod id parts) fs)) @ [TRecord fs tuple]"
| "parts (TVariant fs) = concat (map snd (map (map_prod id parts) fs)) @ [TVariant fs]"
| "parts (TFunc args rets anns) = concat (map parts args) @ concat (map parts rets) @ [TFunc args rets anns]"
| "parts (TService ms) = concat (map snd (map (map_prod id parts) ms)) @ [TService ms]"

text \<open>
  What a type has to keep to: the sizes there are, at most one annotation (the length written counts them,
  but only the byte of the last is), functions as methods, and lengths that fit.
\<close>

fun type_ok :: "ctype \<Rightarrow> bool" where
  "type_ok (TNat n) \<longleftrightarrow> n \<in> {0, 1, 2, 4, 8}"
| "type_ok (TInt n) \<longleftrightarrow> n \<in> {0, 1, 2, 4, 8}"
| "type_ok (TFloat n) \<longleftrightarrow> n \<in> {4, 8}"
| "type_ok (TRecord fs tuple) \<longleftrightarrow> length fs < 2 ^ 48"
| "type_ok (TVariant fs) \<longleftrightarrow> length fs < 2 ^ 48"
| "type_ok (TFunc args rets anns) \<longleftrightarrow> length args < 2 ^ 48 \<and> length rets < 2 ^ 48
     \<and> (anns = [] \<or> anns = [''query''] \<or> anns = [''oneway''])"
| "type_ok (TService ms) \<longleftrightarrow> length ms < 2 ^ 48
     \<and> (\<forall>(name, t)\<in>set ms. length name < 2 ^ 48 \<and> (\<exists>a b c. t = TFunc a b c))"
| "type_ok _ \<longleftrightarrow> True"

fun type_op :: "ctype \<Rightarrow> type_table \<Rightarrow> int option" where
  "type_op TNull tdt = Some NullOpCode"
| "type_op TBool tdt = Some BoolOpCode"
| "type_op (TNat n) tdt = Some (if n = 0 then NatOpCode else NatXOpCode + (3 - int (log2 (n * 8))))"
| "type_op (TInt n) tdt = Some (if n = 0 then IntOpCode else IntXOpCode + (3 - int (log2 (n * 8))))"
| "type_op (TFloat n) tdt = Some (if n = 8 then FloatXOpCode + (- 1) else FloatXOpCode)"
| "type_op TText tdt = Some TextOpCode"
| "type_op TReserved tdt = Some ReservedOpCode"
| "type_op TEmpty tdt = Some EmptyOpCode"
| "type_op TPrincipal tdt = Some PrincipalOpCode"
| "type_op t tdt = map_option int (tt_indexes tdt (type_string t))"

lemma EncodeType_op: "type_op t tdt = Some op \<Longrightarrow> EncodeType t tdt = Inr (EncodeSigned op)"
  by (cases t) auto

lemma type_op_composite: "\<not> is_prim t \<Longrightarrow> type_op t tdt = map_option int (tt_indexes tdt (type_string t))"
  by (cases t) auto

lemma log2_values: "log2 8 = 3" "log2 16 = 4" "log2 32 = 5" "log2 64 = 6"
  by (simp_all add: log2.simps)

lemma type_op_prim:
  assumes "is_prim t" and "type_ok t"
  shows "\<exists>op. type_op t tdt = Some op \<and> - 24 \<le> op \<and> op < 0 \<and> (\<forall>tds. GetType op tds = Inr (Prim t))"
  using assms by (cases t) (auto simp: op_code_defs GetType_def log2_values)

lemma int64_of_small: "- (2 ^ 63) \<le> n \<Longrightarrow> n < 2 ^ 63 \<Longrightarrow> int64_of n = n"
  by (simp add: int64_of_def sint_big_int64)

lemma GetType_Ref: "GetType op tds = Inr x \<Longrightarrow> 0 \<le> op \<Longrightarrow> x = Ref (nat op) \<and> nat op < length tds"
  by (auto simp: GetType_def split: if_splits)

subsection \<open>Longer lists of types\<close>

lemma denotes_append: "denotes tds r t \<Longrightarrow> denotes (tds @ es) r t"
proof (induction rule: denotes.induct)
  case (fields i es' fs tuple)
  then show ?case by (intro denotes.fields [of _ _ es']) (auto simp: nth_append)
next
  case (variant i es' fs)
  then show ?case by (intro denotes.variant [of _ _ es']) (auto simp: nth_append)
qed (auto simp: nth_append intro: denotes.intros)

text \<open>What an entry says, wherever it stands.\<close>

fun describes :: "type_list \<Rightarrow> type_entry \<Rightarrow> ctype \<Rightarrow> bool" where
  "describes tds (EOpt x) (TOpt t) \<longleftrightarrow> denotes tds x t"
| "describes tds (EVec x) (TVec t) \<longleftrightarrow> denotes tds x t"
| "describes tds (ERecord es) (TRecord fs tuple) \<longleftrightarrow> map fl_name es = wire_names fs tuple
     \<and> (\<forall>j<length fs. \<exists>r. fl_type (es ! j) = Some r \<and> denotes tds r (snd (fs ! j)))"
| "describes tds (EVariant es) (TVariant fs) \<longleftrightarrow> map fl_name es = wire_names fs False
     \<and> (\<forall>j<length fs. \<exists>r. fl_type (es ! j) = Some r \<and> denotes tds r (snd (fs ! j)))"
| "describes tds (EFunc _ _ _) (TFunc _ _ _) \<longleftrightarrow> True"
| "describes tds (EService _) (TService _) \<longleftrightarrow> True"
| "describes tds _ _ \<longleftrightarrow> False"

lemma describes_denotes: "describes tds e t \<Longrightarrow> i < length tds \<Longrightarrow> tds ! i = Some e \<Longrightarrow> denotes tds (Ref i) t"
  by (cases "(tds, e, t)" rule: describes.cases) (auto intro: denotes.intros)

lemma describes_append: "describes tds e t \<Longrightarrow> describes (tds @ es) e t"
  by (cases "(tds, e, t)" rule: describes.cases) (auto intro: denotes_append)

fun complete :: "type_entry \<Rightarrow> bool" where
  "complete (ERecord fs) \<longleftrightarrow> (\<forall>f\<in>set fs. fl_type f \<noteq> None)"
| "complete (EVariant fs) \<longleftrightarrow> (\<forall>f\<in>set fs. fl_type f \<noteq> None)"
| "complete (EFunc args rets anns) \<longleftrightarrow> (\<forall>p\<in>set args \<union> set rets. fp_type p \<noteq> None)"
| "complete _ \<longleftrightarrow> True"

lemma resolve_fields_complete: "\<forall>f\<in>set fs. fl_type f \<noteq> None \<Longrightarrow> resolve_fields tds fs = Inr fs"
  by (induction fs) auto

lemma resolve_parameters_complete: "\<forall>p\<in>set ps. fp_type p \<noteq> None \<Longrightarrow> resolve_parameters tds ps = Inr ps"
  by (induction ps) auto

lemma resolve_entry_complete: "complete e \<Longrightarrow> resolve_entry tds (Some e) = Inr (Some e)"
  by (cases e) (auto simp: resolve_fields_complete resolve_parameters_complete)

lemma resolve_entries_complete: "\<forall>e\<in>set es. \<exists>e'. e = Some e' \<and> complete e' \<Longrightarrow> resolve_entries tds es = Inr es"
  by (induction es) (auto simp: resolve_entry_complete)


subsection \<open>Reading a definition\<close>

text \<open>The table has a reference for the type, which denotes it.\<close>

definition known :: "type_list \<Rightarrow> type_table \<Rightarrow> ctype \<Rightarrow> bool" where
  "known tds tdt t \<longleftrightarrow> (is_prim t \<and> type_ok t)
     \<or> (\<exists>i. tt_indexes tdt (type_string t) = Some i \<and> \<not> is_prim t \<and> i < length tds
          \<and> tds ! i \<noteq> None \<and> denotes tds (Ref i) t)"

definition code_of :: "type_table \<Rightarrow> ctype \<Rightarrow> int" where
  "code_of tdt t = the (type_op t tdt)"

lemma known_code:
  assumes k: "known tds tdt t" and l: "length tds < 2 ^ 48"
  shows "EncodeType t tdt = Inr (EncodeSigned (code_of tdt t))" and "int64_of (code_of tdt t) = code_of tdt t"
    and "\<exists>x. GetType (code_of tdt t) tds = Inr x"
    and "GetType (code_of tdt t) P = Inr x \<Longrightarrow> denotes tds x t"
proof -
  have "(\<exists>op. type_op t tdt = Some op \<and> - 24 \<le> op \<and> op < 0 \<and> (\<forall>P. GetType op P = Inr (Prim t))) \<and> is_prim t
    \<or> (\<exists>i<length tds. type_op t tdt = Some (int i) \<and> tds ! i \<noteq> None \<and> denotes tds (Ref i) t)"
    using k type_op_prim [of t tdt] type_op_composite [of t tdt] by (auto simp: known_def)
  then have "EncodeType t tdt = Inr (EncodeSigned (code_of tdt t)) \<and> int64_of (code_of tdt t) = code_of tdt t
    \<and> (\<exists>x. GetType (code_of tdt t) tds = Inr x) \<and> (GetType (code_of tdt t) P = Inr x \<longrightarrow> denotes tds x t)"
  proof
    assume "(\<exists>op. type_op t tdt = Some op \<and> - 24 \<le> op \<and> op < 0 \<and> (\<forall>P. GetType op P = Inr (Prim t))) \<and> is_prim t"
    then obtain op where "type_op t tdt = Some op" "- 24 \<le> op" "op < 0" "\<forall>P. GetType op P = Inr (Prim t)" "is_prim t" by blast
    then show ?thesis by (auto simp: code_of_def EncodeType_op int64_of_small intro: denotes.prim)
  next
    assume "\<exists>i<length tds. type_op t tdt = Some (int i) \<and> tds ! i \<noteq> None \<and> denotes tds (Ref i) t"
    then obtain i where i: "i < length tds" "type_op t tdt = Some (int i)" "tds ! i \<noteq> None" "denotes tds (Ref i) t" by blast
    then have "int64_of (int i) = int i" using l by (intro int64_of_small) auto
    moreover have "GetType (int i) tds = Inr (Ref i)" using i by (simp add: GetType_def)
    moreover have "x = Ref i" if "GetType (int i) P = Inr x" using GetType_Ref [OF that] by simp
    ultimately show ?thesis using i by (auto simp: code_of_def EncodeType_op)
  qed
  then show "EncodeType t tdt = Inr (EncodeSigned (code_of tdt t))" "int64_of (code_of tdt t) = code_of tdt t"
    "\<exists>x. GetType (code_of tdt t) tds = Inr x" "GetType (code_of tdt t) P = Inr x \<Longrightarrow> denotes tds x t" by blast+
qed

lemma field_bytes_read:
  assumes "\<forall>(h, t)\<in>set hts. 0 \<le> h \<and> known tds tdt t" and "length tds < 2 ^ 48"
  shows "\<exists>bs. field_bytes hts tdt = Inr bs
    \<and> (\<forall>P r. read_fields (length hts) P (bs @ r) = Inr (map (\<lambda>(h, t). field_of P h (code_of tdt t)) hts, r))"
  using assms(1)
proof (induction hts)
  case (Cons ht hts)
  obtain h t where ht: "ht = (h, t)" by (cases ht)
  with Cons obtain bs where "field_bytes hts tdt = Inr bs"
    "\<And>P r. read_fields (length hts) P (bs @ r) = Inr (map (\<lambda>(h, t). field_of P h (code_of tdt t)) hts, r)" by auto
  moreover have "known tds tdt t" "0 \<le> h" using Cons.prems ht by auto
  moreover have "read_unsigned (encode_unsigned (nat h) [] @ r) = Inr (h, r)" for r
    using read_unsigned_encoded [of "nat h" r] \<open>0 \<le> h\<close> by simp
  ultimately show ?case using known_code(1,2) [OF \<open>known tds tdt t\<close> assms(2)]
    by (intro exI [of _ "encode_unsigned (nat h) [] @ EncodeSigned (code_of tdt t) @ bs"])
      (simp add: ht leb_unsigned_nonneg reading)
qed simp

lemma encode_all_read:
  assumes "\<forall>t\<in>set ts. known tds tdt t" and "length tds < 2 ^ 48"
  shows "\<exists>bs. encode_all ts tdt = Inr bs
    \<and> (\<forall>P r. read_parameters (length ts) P (bs @ r) = Inr (map (\<lambda>t. parameter_of P (code_of tdt t)) ts, r))"
  using assms(1)
proof (induction ts)
  case (Cons t ts)
  then obtain bs where "encode_all ts tdt = Inr bs"
    "\<And>P r. read_parameters (length ts) P (bs @ r) = Inr (map (\<lambda>t. parameter_of P (code_of tdt t)) ts, r)" by auto
  moreover have "known tds tdt t" using Cons.prems by auto
  ultimately show ?case using known_code(1,2) [OF \<open>known tds tdt t\<close> assms(2)]
    by (intro exI [of _ "EncodeSigned (code_of tdt t) @ bs"]) (simp add: reading)
qed simp

lemma encodeTypes_read:
  assumes "\<forall>t\<in>set ts. known tds tdt t" and "length tds < 2 ^ 48" and "length ts < 2 ^ 48"
  shows "\<exists>bs. encodeTypes ts tdt = Inr bs
    \<and> (\<forall>P r. decodeParameters P (bs @ r) = Inr (map (\<lambda>t. parameter_of P (code_of tdt t)) ts, r))"
proof -
  obtain bs where "encode_all ts tdt = Inr bs"
    "\<And>P r. read_parameters (length ts) P (bs @ r) = Inr (map (\<lambda>t. parameter_of P (code_of tdt t)) ts, r)"
    using encode_all_read [OF assms(1,2)] by blast
  moreover have "int64_of (int (length ts)) = int (length ts)" using assms(3) by (intro int64_of_nat) simp
  ultimately show ?thesis
    by (intro exI [of _ "encode_unsigned (length ts) [] @ bs"])
      (simp add: encodeTypes_def decodeParameters_def leb_unsigned_int reading)
qed

text \<open>Methods have to refer to functions before them.\<close>

definition method_ref :: "type_list \<Rightarrow> type_table \<Rightarrow> string \<times> ctype \<Rightarrow> bool" where
  "method_ref P tdt m \<longleftrightarrow> (\<exists>i a b c. GetType (code_of tdt (snd m)) P = Inr (Ref i) \<and> P ! i = Some (EFunc a b c))"

lemma method_bytes_read:
  assumes "\<forall>m\<in>set ms. known tds tdt (snd m) \<and> length (fst m) < 2 ^ 48" and "length tds < 2 ^ 48"
  shows "\<exists>bs. method_bytes ms tdt = Inr bs
    \<and> (\<forall>P. (\<forall>m\<in>set ms. method_ref P tdt m) \<longrightarrow> (\<exists>es. \<forall>r. read_methods (length ms) P (bs @ r) = Inr (es, r)))"
  using assms(1)
proof (induction ms)
  case (Cons m ms)
  obtain name t where m: "m = (name, t)" by (cases m)
  with Cons obtain bs where bs: "method_bytes ms tdt = Inr bs"
    "\<And>P. \<forall>m\<in>set ms. method_ref P tdt m \<Longrightarrow> \<exists>es. \<forall>r. read_methods (length ms) P (bs @ r) = Inr (es, r)" by auto
  have k: "known tds tdt t" "length (string_bytes name) < 2 ^ 48" using Cons.prems m by (auto simp: string_bytes_def)
  note code = known_code(1,2) [OF k(1) assms(2)]
  let ?bs = "encode_unsigned (length name) [] @ string_bytes name @ EncodeSigned (code_of tdt t) @ bs"
  have ne: "EncodeSigned n @ r' \<noteq> []" for n r'
    using read_signed_encoded [of n r'] by (auto simp: read_signed_def DecodeSigned_def)
  have "\<exists>es. \<forall>r. read_methods (length (m # ms)) P (?bs @ r) = Inr (es, r)"
    if refs: "\<forall>m\<in>set (m # ms). method_ref P tdt m" for P
  proof -
    obtain i a b c where "GetType (code_of tdt t) P = Inr (Ref i)" "P ! i = Some (EFunc a b c)"
      using refs m by (auto simp: method_ref_def)
    moreover obtain es where "\<And>r. read_methods (length ms) P (bs @ r) = Inr (es, r)" using bs(2) [of P] refs by auto
    moreover have "read_slice (int (length name)) (string_bytes name @ EncodeSigned (code_of tdt t) @ bs @ r)
      = Inr (string_bytes name, EncodeSigned (code_of tdt t) @ bs @ r)" for r
      using read_slice_append [of "string_bytes name" "EncodeSigned (code_of tdt t) @ bs @ r"] k(2) ne [of _ "bs @ r"]
      by (simp add: string_bytes_def)
    ultimately show ?thesis using code
      by (intro exI [of _ "(string_bytes name, i) # es"]) (simp add: reading)
  qed
  then show ?case using bs(1) code m by (intro exI [of _ ?bs]) (simp add: leb_unsigned_int)
qed simp


lemma complete_fields:
  assumes "\<forall>(h, t)\<in>set hts. 0 \<le> h \<and> known tds tdt t" and "length tds < 2 ^ 48"
    and "\<forall>f\<in>set (map (\<lambda>(h, t). field_of P h (code_of tdt t)) hts). fl_type f \<noteq> None"
  shows "\<forall>j<length hts. \<exists>r. fl_type (map (\<lambda>(h, t). field_of P h (code_of tdt t)) hts ! j) = Some r
    \<and> denotes tds r (snd (hts ! j))"
proof (intro allI impI)
  fix j assume j: "j < length hts"
  obtain h t where ht: "hts ! j = (h, t)" by (cases "hts ! j")
  then have k: "known tds tdt t" using assms(1) j nth_mem by fastforce
  have "fl_type (field_of P h (code_of tdt t)) \<noteq> None" using assms(3) j ht nth_mem [OF j] by force
  then obtain r where "GetType (code_of tdt t) P = Inr r" "fl_type (field_of P h (code_of tdt t)) = Some r"
    by (auto simp: field_of_def split: sum.splits)
  with known_code(4) [OF k assms(2)] show "\<exists>r. fl_type (map (\<lambda>(h, t). field_of P h (code_of tdt t)) hts ! j) = Some r
    \<and> denotes tds r (snd (hts ! j))" using j ht by auto
qed

lemma fields_complete:
  assumes "\<forall>(h, t)\<in>set hts. 0 \<le> h \<and> known tds tdt t" and "length tds < 2 ^ 48"
  shows "\<forall>f\<in>set (map (\<lambda>(h, t). field_of tds h (code_of tdt t)) hts). fl_type f \<noteq> None"
proof
  fix f assume "f \<in> set (map (\<lambda>(h, t). field_of tds h (code_of tdt t)) hts)"
  then obtain h t where f: "(h, t) \<in> set hts" "f = field_of tds h (code_of tdt t)" by auto
  with assms(1) have k: "known tds tdt t" by auto
  obtain x where "GetType (code_of tdt t) tds = Inr x" using known_code(3) [OF k assms(2)] by blast
  then show "fl_type f \<noteq> None" by (simp add: f(2) field_of_def)
qed

lemma parameters_complete:
  assumes "\<forall>t\<in>set ts. known tds tdt t" and "length tds < 2 ^ 48"
  shows "\<forall>p\<in>set (map (\<lambda>t. parameter_of tds (code_of tdt t)) ts). fp_type p \<noteq> None"
proof
  fix p assume "p \<in> set (map (\<lambda>t. parameter_of tds (code_of tdt t)) ts)"
  then obtain t where p: "t \<in> set ts" "p = parameter_of tds (code_of tdt t)" by auto
  then have k: "known tds tdt t" using assms(1) by blast
  obtain x where "GetType (code_of tdt t) tds = Inr x" using known_code(3) [OF k assms(2)] by blast
  then show "fp_type p \<noteq> None" by (simp add: p(2) parameter_of_def)
qed

lemma field_names: "map fl_name (map (\<lambda>(h, t). field_of P h (code_of tdt t)) hts) = map (\<lambda>h. show_nat (nat h)) (map fst hts)"
  by (auto simp: field_of_def split: sum.splits)

text \<open>The direct parts of a type.\<close>

fun components :: "ctype \<Rightarrow> ctype list" where
  "components (TOpt t) = [t]"
| "components (TVec t) = [t]"
| "components (TRecord fs tuple) = map snd fs"
| "components (TVariant fs) = map snd fs"
| "components (TFunc args rets anns) = args @ rets"
| "components (TService ms) = map snd ms"
| "components t = []"

text \<open>
  \<open>reads\<close>: the definition can be read when the list has all it refers to, and whatever complete
  entry is read from it, with any list before it, describes the type. Something has to follow.
\<close>

definition reads :: "type_list \<Rightarrow> type_table \<Rightarrow> ctype \<Rightarrow> bytes \<Rightarrow> bool" where
  "reads tds tdt t bs \<longleftrightarrow>
     (\<exists>e. complete e \<and> (\<forall>r. r \<noteq> [] \<longrightarrow> decode_definition tds [] (bs @ r) = Inr ((tds @ [Some e], []), r)))
   \<and> (\<forall>P e c r. r \<noteq> [] \<longrightarrow> decode_definition P [] (bs @ r) = Inr ((P @ [Some e], c), r) \<longrightarrow> complete e \<longrightarrow> describes tds e t)"

lemma readsI: "(\<And>P r. r \<noteq> [] \<Longrightarrow> decode_definition P [] (bs @ r) = Inr ((P @ [Some (e P)], []), r))
    \<Longrightarrow> complete (e tds) \<Longrightarrow> (\<And>P. complete (e P) \<Longrightarrow> describes tds (e P) t) \<Longrightarrow> reads tds tdt t bs"
  by (auto simp: reads_def)

lemma op_codes [simp]: "int64_of OptOpCode = OptOpCode" "int64_of VecOpCode = VecOpCode" "int64_of RecOpCode = RecOpCode"
  "int64_of VarOpCode = VarOpCode" "int64_of FuncOpCode = FuncOpCode" "int64_of ServiceOpCode = ServiceOpCode"
  by (simp_all add: op_code_defs int64_of_small)

lemma op_codes_distinct [simp]: "VecOpCode \<noteq> OptOpCode" "RecOpCode \<noteq> OptOpCode" "RecOpCode \<noteq> VecOpCode"
  "VarOpCode \<noteq> OptOpCode" "VarOpCode \<noteq> VecOpCode" "VarOpCode \<noteq> RecOpCode" "FuncOpCode \<noteq> OptOpCode"
  "FuncOpCode \<noteq> VecOpCode" "FuncOpCode \<noteq> RecOpCode" "FuncOpCode \<noteq> VarOpCode" "ServiceOpCode \<noteq> OptOpCode"
  "ServiceOpCode \<noteq> VecOpCode" "ServiceOpCode \<noteq> RecOpCode" "ServiceOpCode \<noteq> VarOpCode" "ServiceOpCode \<noteq> FuncOpCode"
  by (simp_all add: op_code_defs)

lemma decode_wrapped:
  assumes "int64_of op = op"
  shows "decode_definition P [] (EncodeSigned OptOpCode @ EncodeSigned op @ r) =
      (case GetType op P of Inr v \<Rightarrow> Inr ((P @ [Some (EOpt v)], []), r)
       | Inl _ \<Rightarrow> Inr ((P @ [None], [\<lparr>dl_index = length P, dl_wrapper = OptOf, dl_op = op\<rparr>]), r))"
    and "decode_definition P [] (EncodeSigned VecOpCode @ EncodeSigned op @ r) =
      (case GetType op P of Inr v \<Rightarrow> Inr ((P @ [Some (EVec v)], []), r)
       | Inl _ \<Rightarrow> Inr ((P @ [None], [\<lparr>dl_index = length P, dl_wrapper = VecOf, dl_op = op\<rparr>]), r))"
  by (simp_all add: decode_definition_def decodeWrapped_def reading assms Let_def split: sum.splits)

lemma reads_wrapped:
  assumes k: "known tds tdt t" and l: "length tds < 2 ^ 48"
  shows "reads tds tdt (TOpt t) (EncodeSigned OptOpCode @ EncodeSigned (code_of tdt t))"
    and "reads tds tdt (TVec t) (EncodeSigned VecOpCode @ EncodeSigned (code_of tdt t))"
proof -
  obtain x where "GetType (code_of tdt t) tds = Inr x" using known_code(3) [OF k l] by blast
  moreover have "denotes tds y t" if "GetType (code_of tdt t) P = Inr y" for P y
    using known_code(4) [OF k l that] .
  ultimately show "reads tds tdt (TOpt t) (EncodeSigned OptOpCode @ EncodeSigned (code_of tdt t))"
    "reads tds tdt (TVec t) (EncodeSigned VecOpCode @ EncodeSigned (code_of tdt t))"
    by (auto simp: reads_def decode_wrapped [OF known_code(2) [OF k l]]
        split: sum.split_asm intro: exI [of _ "EOpt x"] exI [of _ "EVec x"])
qed


lemma int64_of_length: "n < 2 ^ 48 \<Longrightarrow> int64_of (int n) = int n"
  by (intro int64_of_nat) simp

lemma decode_field_types:
  assumes "length hts < 2 ^ 48" and "length fs = length hts"
    and "\<forall>P r. read_fields (length hts) P (bs @ r) = Inr (es P, r)"
  shows "decode_definition P [] (EncodeSigned RecOpCode @ unsigned_length fs @ bs @ r)
      = Inr ((P @ [Some (ERecord (es P))], []), r)"
    and "decode_definition P [] (EncodeSigned VarOpCode @ unsigned_length fs @ bs @ r)
      = Inr ((P @ [Some (EVariant (es P))], []), r)"
  using assms int64_of_length [OF assms(1)]
  by (simp_all add: decode_definition_def decodeFieldsSubType_def reading unsigned_length_def Let_def)

lemma fields_described:
  assumes hts: "\<forall>(h, t)\<in>set hts. 0 \<le> h \<and> known tds tdt t" and l: "length tds < 2 ^ 48"
    and keys: "map fst hts = record_keys fs tuple" "map snd hts = map snd fs"
    and full: "\<forall>f\<in>set (map (\<lambda>(h, t). field_of P h (code_of tdt t)) hts). fl_type f \<noteq> None"
  shows "map fl_name (map (\<lambda>(h, t). field_of P h (code_of tdt t)) hts) = wire_names fs tuple
    \<and> (\<forall>j<length fs. \<exists>r. fl_type (map (\<lambda>(h, t). field_of P h (code_of tdt t)) hts ! j) = Some r
         \<and> denotes tds r (snd (fs ! j)))"
proof -
  have len: "length hts = length fs" using keys(2) by (metis length_map)
  have "snd (hts ! j) = snd (fs ! j)" if "j < length fs" for j
    using keys(2) that len by (metis nth_map)
  with complete_fields [OF hts l full] len show ?thesis
    by (simp only: field_names keys(1) wire_names_def) simp
qed

lemma reads_fields:
  assumes hts: "\<forall>(h, t)\<in>set hts. 0 \<le> h \<and> known tds tdt t" and l: "length tds < 2 ^ 48"
    and n: "length fs < 2 ^ 48" and snds: "map snd hts = map snd fs"
  shows "\<exists>bs. field_bytes hts tdt = Inr bs
    \<and> (map fst hts = record_keys fs tuple \<longrightarrow>
        reads tds tdt (TRecord fs tuple) (EncodeSigned RecOpCode @ unsigned_length fs @ bs))
    \<and> (map fst hts = record_keys fs False \<longrightarrow>
        reads tds tdt (TVariant fs) (EncodeSigned VarOpCode @ unsigned_length fs @ bs))"
proof -
  define es where "es P = map (\<lambda>(h, t). field_of P h (code_of tdt t)) hts" for P
  have len: "length hts = length fs" using snds by (metis length_map)
  obtain bs where bs: "field_bytes hts tdt = Inr bs" "\<forall>P r. read_fields (length hts) P (bs @ r) = Inr (es P, r)"
    using field_bytes_read [OF hts l] unfolding es_def by blast
  have "length hts < 2 ^ 48" using len n by simp
  note dec = decode_field_types [OF this len [symmetric] bs(2)]
  have full: "\<forall>f\<in>set (es tds). fl_type f \<noteq> None" unfolding es_def by (rule fields_complete [OF hts l])
  have desc: "map fl_name (es P) = wire_names fs tuple
      \<and> (\<forall>j<length fs. \<exists>r. fl_type (es P ! j) = Some r \<and> denotes tds r (snd (fs ! j)))"
    if "map fst hts = record_keys fs tuple" "\<forall>f\<in>set (es P). fl_type f \<noteq> None" for P tuple
    using that fields_described [OF hts l _ snds, of tuple P] unfolding es_def by blast
  have "reads tds tdt (TRecord fs tuple) (EncodeSigned RecOpCode @ unsigned_length fs @ bs)"
    if "map fst hts = record_keys fs tuple"
    by (rule readsI [of _ "\<lambda>P. ERecord (es P)"], simp only: append_assoc dec,
      use full desc [OF that] in \<open>auto simp only: complete.simps describes.simps\<close>)
  moreover have "reads tds tdt (TVariant fs) (EncodeSigned VarOpCode @ unsigned_length fs @ bs)"
    if "map fst hts = record_keys fs False"
    by (rule readsI [of _ "\<lambda>P. EVariant (es P)"], simp only: append_assoc dec,
      use full desc [OF that] in \<open>auto simp only: complete.simps describes.simps\<close>)
  ultimately show ?thesis using bs(1) by blast
qed

lemma reads_func:
  assumes args: "\<forall>t\<in>set args. known tds tdt t" "length args < 2 ^ 48"
    and rets: "\<forall>t\<in>set rets. known tds tdt t" "length rets < 2 ^ 48"
    and l: "length tds < 2 ^ 48" and anns: "anns = [] \<or> anns = [''query''] \<or> anns = [''oneway'']"
  shows "\<exists>bs. definition_bytes (TFunc args rets anns) tdt = Built bs \<and> reads tds tdt (TFunc args rets anns) bs"
proof -
  let ?ps = "\<lambda>P. map (\<lambda>t. parameter_of P (code_of tdt t))"
  obtain as where as: "encodeTypes args tdt = Inr as" "\<And>P r. decodeParameters P (as @ r) = Inr (?ps P args, r)"
    using encodeTypes_read [OF args(1) l args(2)] by blast
  obtain rs where rs: "encodeTypes rets tdt = Inr rs" "\<And>P r. decodeParameters P (rs @ r) = Inr (?ps P rets, r)"
    using encodeTypes_read [OF rets(1) l rets(2)] by blast
  obtain vs where vs: "annotation_bytes anns [] = Inr vs" "length vs = length anns" using anns by auto
  let ?bs = "EncodeSigned FuncOpCode @ as @ rs @ unsigned_length anns @ vs"
  let ?e = "\<lambda>P. EFunc (?ps P args) (?ps P rets) (if vs = [] then [] else [vs])"
  have "int64_of (int (length anns)) = int (length anns)" using anns by (intro int64_of_length) auto
  moreover have "make_bytes (int (length anns)) = Inr (length anns)" using anns by (auto simp: make_bytes_def)
  ultimately have dec: "decode_definition P [] (?bs @ r) = Inr ((P @ [Some (?e P)], []), r)" if "r \<noteq> []" for P r
    using that vs(2) by (simp add: decode_definition_def decodeFuncOpCode_def reading as(2) rs(2) unsigned_length_def
        read_append Let_def)
  have "complete (?e tds)" using parameters_complete [OF args(1) l] parameters_complete [OF rets(1) l]
    by (simp only: complete.simps ball_Un)
  then have "reads tds tdt (TFunc args rets anns) ?bs" using dec by (intro readsI [of _ ?e]) simp_all
  then show ?thesis using as(1) rs(1) vs(1) by (intro exI [of _ ?bs]) (simp add: building_def)
qed

lemma method_ref_known:
  assumes "known tds tdt t" and "length tds < 2 ^ 48" and "t = TFunc a b c"
  shows "method_ref tds tdt (name, t)"
proof -
  obtain x where x: "GetType (code_of tdt t) tds = Inr x" using known_code(3) [OF assms(1,2)] by blast
  then have "denotes tds x t" by (rule known_code(4) [OF assms(1,2)])
  then show ?thesis using x assms(3) by (auto simp: method_ref_def elim: denotes_TFunc)
qed

lemma reads_service:
  assumes ms: "\<forall>m\<in>set ms. known tds tdt (snd m)" and l: "length tds < 2 ^ 48" and ok: "type_ok (TService ms)"
  shows "\<exists>bs. definition_bytes (TService ms) tdt = Built bs \<and> reads tds tdt (TService ms) bs"
proof -
  have "\<forall>m\<in>set ms. known tds tdt (snd m) \<and> length (fst m) < 2 ^ 48" using ms ok by auto
  then obtain bs where bs: "method_bytes ms tdt = Inr bs"
    "\<And>P. \<forall>m\<in>set ms. method_ref P tdt m \<Longrightarrow> \<exists>es. \<forall>r. read_methods (length ms) P (bs @ r) = Inr (es, r)"
    using method_bytes_read [of ms tds tdt] l by blast
  let ?bs = "EncodeSigned ServiceOpCode @ unsigned_length ms @ bs"
  have n: "int64_of (int (length ms)) = int (length ms)" using ok by (intro int64_of_length) auto
  have refs: "\<forall>m\<in>set ms. method_ref tds tdt m" using ms ok method_ref_known [OF _ l] by fastforce
  have dec: "decode_definition P [] (?bs @ r) = andThen (read_methods (length ms) P (bs @ r))
      (\<lambda>(es, r). Inr ((P @ [Some (EService es)], []), r))" for P r
    by (cases "read_methods (length ms) P (bs @ r)")
      (auto simp: decode_definition_def decodeServiceOpCode_def reading unsigned_length_def n Let_def)
  obtain es where "\<And>r. read_methods (length ms) tds (bs @ r) = Inr (es, r)" using bs(2) [OF refs] by blast
  then have "reads tds tdt (TService ms) ?bs" unfolding reads_def dec
    by (auto simp: andThen_Inr intro: exI [of _ "EService es"])
  then show ?thesis using bs(1) by (intro exI [of _ ?bs]) (simp add: swallowing_def)
qed


lemma Hash_nonneg: "0 \<le> Hash s"
  by (cases "runes (string_bytes s)" rule: rev_cases) (simp_all add: Hash_def)

lemma known_zip:
  assumes "length ks = length ts" and "\<forall>h\<in>set ks. 0 \<le> h" and "\<forall>t\<in>set ts. known tds tdt t"
  shows "\<forall>(h, t)\<in>set (zip ks ts). 0 \<le> h \<and> known tds tdt t"
  using assms by (auto dest: set_zip_leftD set_zip_rightD)

lemma record_keys_nonneg: "\<forall>h\<in>set (record_keys fs tuple). 0 \<le> h"
  by (auto simp: record_keys_def Hash_nonneg)

lemma length_record_keys [simp]: "length (record_keys fs tuple) = length fs"
  by (simp add: record_keys_def)

lemma definition_read:
  assumes t: "\<not> is_prim t" "type_ok t" and k: "\<forall>c\<in>set (components t). known tds tdt c" and l: "length tds < 2 ^ 48"
  shows "\<exists>bs. definition_bytes t tdt = Built bs \<and> reads tds tdt t bs"
proof (cases t)
  case (TOpt t')
  then show ?thesis using k reads_wrapped(1) [of tds tdt t'] l known_code(1) [of tds tdt t'] by (auto simp: building_def)
next
  case (TVec t')
  then show ?thesis using k reads_wrapped(2) [of tds tdt t'] l known_code(1) [of tds tdt t'] by (auto simp: building_def)
next
  case (TRecord fs tuple)
  then have "\<forall>(h, t)\<in>set (zip (record_keys fs tuple) (map snd fs)). 0 \<le> h \<and> known tds tdt t"
    using k by (intro known_zip) (simp_all add: record_keys_nonneg)
  from reads_fields [OF this l, of fs tuple] show ?thesis using t(2) TRecord by (auto simp: swallowing_def)
next
  case (TVariant fs)
  let ?hts = "map (\<lambda>f. (Hash (fst f), snd f)) fs"
  have "\<forall>(h, t)\<in>set ?hts. 0 \<le> h \<and> known tds tdt t" using k TVariant by (auto simp: Hash_nonneg)
  moreover have "map snd ?hts = map snd fs" "map fst ?hts = record_keys fs False" by (simp_all add: record_keys_def)
  ultimately show ?thesis using reads_fields [of ?hts tds tdt fs False] l t(2) TVariant by (auto simp: swallowing_def)
next
  case (TFunc args rets anns)
  then show ?thesis using reads_func [of args tds tdt rets anns] k l t(2) by auto
next
  case (TService ms)
  then show ?thesis using reads_service [of ms tds tdt] k l t(2) by auto
qed (use t in auto)

subsection \<open>Filling the table\<close>

text \<open>
  \<open>table_ok\<close>: the list of types is what the definitions of the table are read as, one after the other. \<open>adds\<close>: an
  operation on the table keeps what is known of the types in \<open>R\<close>, which include \<open>C\<close>, and makes \<open>ps\<close> known.
\<close>

definition table_ok :: "type_table \<Rightarrow> type_list \<Rightarrow> bool" where
  "table_ok tdt tds \<longleftrightarrow> length tds = length (tt_types tdt)
   \<and> (\<forall>e\<in>set tds. \<exists>e'. e = Some e' \<and> complete e')
   \<and> (\<forall>j<length tds. \<forall>r. r \<noteq> [] \<longrightarrow>
        decode_definition (take j tds) [] (tt_types tdt ! j @ r) = Inr ((take (Suc j) tds, []), r))"

definition adds :: "ctype set \<Rightarrow> ctype set \<Rightarrow> (type_table \<Rightarrow> candid_error + type_table) \<Rightarrow> ctype list \<Rightarrow> bool" where
  "adds S C f ps \<longleftrightarrow> (\<forall>tdt tds R. table_ok tdt tds \<and> C \<subseteq> R \<and> R \<union> set ps \<subseteq> S \<and> (\<forall>p\<in>R. known tds tdt p)
     \<and> length tds + length ps < 2 ^ 48 \<longrightarrow>
     (\<exists>tdt' es. f tdt = Inr tdt' \<and> table_ok tdt' (tds @ es) \<and> (\<forall>p\<in>R \<union> set ps. known (tds @ es) tdt' p)
        \<and> length es \<le> length ps))"

lemma addsI:
  assumes "\<And>tdt tds R. table_ok tdt tds \<Longrightarrow> C \<subseteq> R \<Longrightarrow> R \<union> set ps \<subseteq> S \<Longrightarrow> \<forall>p\<in>R. known tds tdt p
    \<Longrightarrow> length tds + length ps < 2 ^ 48 \<Longrightarrow>
    \<exists>tdt' es. f tdt = Inr tdt' \<and> table_ok tdt' (tds @ es) \<and> (\<forall>p\<in>R \<union> set ps. known (tds @ es) tdt' p)
      \<and> length es \<le> length ps"
  shows "adds S C f ps"
  using assms unfolding adds_def by blast

lemma addsD:
  assumes "adds S C f ps" and "table_ok tdt tds" and "C \<subseteq> R" and "R \<union> set ps \<subseteq> S" and "\<forall>p\<in>R. known tds tdt p"
    and "length tds + length ps < 2 ^ 48"
  obtains tdt' es where "f tdt = Inr tdt'" "table_ok tdt' (tds @ es)" "\<forall>p\<in>R \<union> set ps. known (tds @ es) tdt' p"
    "length es \<le> length ps"
proof -
  have "\<exists>tdt' es. f tdt = Inr tdt' \<and> table_ok tdt' (tds @ es) \<and> (\<forall>p\<in>R \<union> set ps. known (tds @ es) tdt' p)
      \<and> length es \<le> length ps"
    by (rule assms(1) [unfolded adds_def, rule_format]) (use assms in simp)
  then show ?thesis using that by blast
qed

lemma adds_then:
  assumes f: "adds S C f ps" and g: "adds S (C \<union> set ps) g qs"
  shows "adds S C (\<lambda>tdt. andThen (f tdt) g) (ps @ qs)"
proof (rule addsI)
  fix tdt tds R
  assume a: "table_ok tdt tds" "C \<subseteq> R" "R \<union> set (ps @ qs) \<subseteq> S" "\<forall>p\<in>R. known tds tdt p"
    "length tds + length (ps @ qs) < 2 ^ 48"
  obtain tdt1 es where 1: "f tdt = Inr tdt1" "table_ok tdt1 (tds @ es)" "\<forall>p\<in>R \<union> set ps. known (tds @ es) tdt1 p"
    "length es \<le> length ps"
    by (rule addsD [OF f a(1,2) _ a(4)]) (use a in auto)
  obtain tdt2 es' where 2: "g tdt1 = Inr tdt2" "table_ok tdt2 ((tds @ es) @ es')"
    "\<forall>p\<in>(R \<union> set ps) \<union> set qs. known ((tds @ es) @ es') tdt2 p" "length es' \<le> length qs"
    by (rule addsD [OF g 1(2) _ _ 1(3)]) (use a 1(4) in auto)
  show "\<exists>tdt' es. andThen (f tdt) g = Inr tdt' \<and> table_ok tdt' (tds @ es)
      \<and> (\<forall>p\<in>R \<union> set (ps @ qs). known (tds @ es) tdt' p) \<and> length es \<le> length (ps @ qs)"
    using 1(1,4) 2 by (intro exI [of _ tdt2] exI [of _ "es @ es'"]) auto
qed

lemma adds_mono:
  assumes "adds S C f ps" and "C \<subseteq> C'"
  shows "adds S C' f ps"
proof (rule addsI)
  fix tdt tds R
  assume a: "table_ok tdt tds" "C' \<subseteq> R" "R \<union> set ps \<subseteq> S" "\<forall>p\<in>R. known tds tdt p" "length tds + length ps < 2 ^ 48"
  from assms(2) a(2) have "C \<subseteq> R" by blast
  from addsD [OF assms(1) a(1) this a(3-5)]
  show "\<exists>tdt' es. f tdt = Inr tdt' \<and> table_ok tdt' (tds @ es)
    \<and> (\<forall>p\<in>R \<union> set ps. known (tds @ es) tdt' p) \<and> length es \<le> length ps" by metis
qed

lemma index_of_Some: "index_of x ys = Some i \<Longrightarrow> i < length ys \<and> ys ! i = x"
  by (induction ys arbitrary: i) (auto split: if_splits)


lemma known_append: "known tds tdt p \<Longrightarrow> tt_indexes tdt' (type_string p) = tt_indexes tdt (type_string p)
    \<Longrightarrow> known (tds @ es) tdt' p"
proof (unfold known_def, elim disjE exE)
  fix i
  assume "tt_indexes tdt' (type_string p) = tt_indexes tdt (type_string p)"
    and "tt_indexes tdt (type_string p) = Some i \<and> \<not> is_prim p \<and> i < length tds \<and> tds ! i \<noteq> None \<and> denotes tds (Ref i) p"
  then show "is_prim p \<and> type_ok p \<or> (\<exists>i. tt_indexes tdt' (type_string p) = Some i \<and> \<not> is_prim p
      \<and> i < length (tds @ es) \<and> (tds @ es) ! i \<noteq> None \<and> denotes (tds @ es) (Ref i) p)"
    by (intro disjI2 exI [of _ i]) (simp add: nth_append denotes_append)
qed simp

text \<open>One definition is added, or found in the table.\<close>

lemma adds_definition:
  assumes S: "inj_on type_string S" and t: "\<not> is_prim t" "type_ok t"
  shows "adds S (set (components t)) (\<lambda>tdt. add_built tdt t (definition_bytes t tdt)) [t]"
proof (rule addsI)
  fix tdt tds R
  assume ok: "table_ok tdt tds" and C: "set (components t) \<subseteq> R" and RS: "R \<union> set [t] \<subseteq> S"
    and R: "\<forall>p\<in>R. known tds tdt p" and l: "length tds + length [t] < 2 ^ 48"
  have len: "length tds = length (tt_types tdt)" using ok by (simp add: table_ok_def)
  obtain bs where bs: "definition_bytes t tdt = Built bs" "reads tds tdt t bs"
    using definition_read [OF t, of tds tdt] C R l by auto
  have other: "type_string p \<noteq> type_string t" if "p \<in> R" "p \<noteq> t" for p
    using inj_onD [OF S, of p t] that RS by auto
  show "\<exists>tdt' es. add_built tdt t (definition_bytes t tdt) = Inr tdt' \<and> table_ok tdt' (tds @ es)
      \<and> (\<forall>p\<in>R \<union> set [t]. known (tds @ es) tdt' p) \<and> length es \<le> length [t]"
  proof (cases "index_of bs (tt_types tdt)")
    case (Some j)
    then have j: "j < length tds" "tt_types tdt ! j = bs" using index_of_Some [OF Some] len by simp_all
    obtain e where e: "tds ! j = Some e" "complete e"
      using ok j(1) nth_mem [OF j(1)] unfolding table_ok_def by metis
    have "decode_definition (take j tds) [] (bs @ [0]) = Inr ((take j tds @ [Some e], []), [0])"
    proof -
      have "decode_definition (take j tds) [] (tt_types tdt ! j @ [0]) = Inr ((take (Suc j) tds, []), [0])"
        using ok j(1) by (simp add: table_ok_def)
      then show ?thesis by (simp only: j(2) take_Suc_conv_app_nth [OF j(1)] e(1))
    qed
    then have "describes tds e t" using bs(2) e(2) unfolding reads_def by blast
    then have d: "denotes tds (Ref j) t" using j(1) e(1) by (rule describes_denotes)
    let ?tdt = "tdt\<lparr>tt_indexes := (tt_indexes tdt)(type_string t \<mapsto> j)\<rparr>"
    have "known tds ?tdt p" if "p \<in> insert t R" for p
    proof (cases "p = t")
      case True
      then show ?thesis using d j e t by (auto simp: known_def)
    next
      case False
      then show ?thesis using known_append [of tds tdt p ?tdt "[]"] R other that by auto
    qed
    then show ?thesis using ok Some bs(1)
      by (intro exI [of _ ?tdt] exI [of _ "[]"]) (auto simp: add_built_def tdt_add_def table_ok_def)
  next
    case None
    obtain e where e: "complete e" "\<And>r. r \<noteq> [] \<Longrightarrow> decode_definition tds [] (bs @ r) = Inr ((tds @ [Some e], []), r)"
      using bs(2) unfolding reads_def by blast
    then have "describes tds e t" using bs(2) e(2) [of "[0]"] unfolding reads_def by blast
    then have d: "denotes (tds @ [Some e]) (Ref (length tds)) t"
      by (intro describes_denotes [of _ e] describes_append) simp_all
    let ?tdt = "\<lparr>tt_types = tt_types tdt @ [bs], tt_indexes = (tt_indexes tdt)(type_string t \<mapsto> length (tt_types tdt))\<rparr>"
    have "known (tds @ [Some e]) ?tdt p" if "p \<in> insert t R" for p
    proof (cases "p = t")
      case True
      then show ?thesis using d t len by (auto simp: known_def nth_append)
    next
      case False
      then show ?thesis using known_append [of tds tdt p ?tdt "[Some e]"] R other that by auto
    qed
    moreover have "table_ok ?tdt (tds @ [Some e])"
      using ok e len by (auto simp: table_ok_def nth_append less_Suc_eq)
    ultimately show ?thesis using None bs(1)
      by (intro exI [of _ ?tdt] exI [of _ "[Some e]"]) (auto simp: add_built_def tdt_add_def)
  qed
qed


lemma adds_prim: "is_prim t \<Longrightarrow> type_ok t \<Longrightarrow> adds S {} Inr [t]"
  by (rule addsI) (auto simp: known_def intro!: exI [of _ "[]"])

lemma adds_nothing: "adds S C Inr []"
  by (rule addsI) (auto intro!: exI [of _ "[]"])

lemma add_funs:
  "add_types [] = Inr" "add_types (t # ts) = (\<lambda>tdt. andThen (AddTypeDefinition t tdt) (add_types ts))"
  "add_fields [] = Inr" "add_fields (f # fs) = (\<lambda>tdt. andThen (AddTypeDefinition (snd f) tdt) (add_fields fs))"
  by (rule ext, simp)+ (rule ext, cases f, simp)

lemma andThen_assoc: "andThen (andThen x f) g = andThen x (\<lambda>a. andThen (f a) g)"
  by (cases x) simp_all

lemma add_composite:
  "AddTypeDefinition (TOpt t) = (\<lambda>tdt. andThen (AddTypeDefinition t tdt)
     (\<lambda>tdt. add_built tdt (TOpt t) (definition_bytes (TOpt t) tdt)))"
  "AddTypeDefinition (TVec t) = (\<lambda>tdt. andThen (AddTypeDefinition t tdt)
     (\<lambda>tdt. add_built tdt (TVec t) (definition_bytes (TVec t) tdt)))"
  "AddTypeDefinition (TRecord fs tuple) = (\<lambda>tdt. andThen (add_fields fs tdt)
     (\<lambda>tdt. add_built tdt (TRecord fs tuple) (definition_bytes (TRecord fs tuple) tdt)))"
  "AddTypeDefinition (TVariant fs) = (\<lambda>tdt. andThen (add_fields fs tdt)
     (\<lambda>tdt. add_built tdt (TVariant fs) (definition_bytes (TVariant fs) tdt)))"
  "AddTypeDefinition (TService fs) = (\<lambda>tdt. andThen (add_fields fs tdt)
     (\<lambda>tdt. add_built tdt (TService fs) (definition_bytes (TService fs) tdt)))"
  "AddTypeDefinition (TFunc args rets anns) = (\<lambda>tdt. andThen (andThen (add_types args tdt) (add_types rets))
     (\<lambda>tdt. add_built tdt (TFunc args rets anns) (definition_bytes (TFunc args rets anns) tdt)))"
  by (rule ext, simp add: andThen_assoc)+

lemma add_prim: "is_prim t \<Longrightarrow> AddTypeDefinition t = Inr" "is_prim t \<Longrightarrow> parts t = [t]"
  by (cases t; auto)+

lemma adds_types: "\<forall>t\<in>set ts. adds S {} (AddTypeDefinition t) (parts t) \<Longrightarrow> adds S {} (add_types ts) (concat (map parts ts))"
proof (induction ts)
  case Nil
  show ?case by (simp add: add_funs adds_nothing)
next
  case (Cons t ts)
  have t: "adds S {} (AddTypeDefinition t) (parts t)" and ts: "adds S {} (add_types ts) (concat (map parts ts))"
    using Cons by simp_all
  from adds_then [OF t adds_mono [OF ts]] show ?case by (simp add: add_funs)
qed

lemma adds_fields: "\<forall>f\<in>set fs. adds S {} (AddTypeDefinition (snd f)) (parts (snd f))
  \<Longrightarrow> adds S {} (add_fields fs) (concat (map snd (map (map_prod id parts) fs)))"
proof (induction fs)
  case Nil
  show ?case by (simp add: add_funs adds_nothing)
next
  case (Cons f fs)
  have t: "adds S {} (AddTypeDefinition (snd f)) (parts (snd f))"
    and ts: "adds S {} (add_fields fs) (concat (map snd (map (map_prod id parts) fs)))" using Cons by simp_all
  from adds_then [OF t adds_mono [OF ts]] show ?case by (simp add: add_funs)
qed

lemma parts_self: "t \<in> set (parts t)"
  by (cases t) auto

lemma adds_composite:
  assumes f: "adds S {} f ps" and S: "inj_on type_string S" and t: "\<not> is_prim t" "type_ok t"
    and c: "set (components t) \<subseteq> set ps"
  shows "adds S {} (\<lambda>tdt. andThen (f tdt) (\<lambda>tdt. add_built tdt t (definition_bytes t tdt))) (ps @ [t])"
  by (rule adds_then [OF f adds_mono [OF adds_definition [OF S t]]]) (use c in simp)

lemma adds_named:
  assumes IH: "\<And>f. f \<in> set fs \<Longrightarrow> adds S {} (AddTypeDefinition (snd f)) (parts (snd f))"
    and S: "inj_on type_string S" and t: "\<not> is_prim t" "type_ok t" "components t = map snd fs"
  shows "adds S {} (\<lambda>tdt. andThen (add_fields fs tdt) (\<lambda>tdt. add_built tdt t (definition_bytes t tdt)))
    (concat (map snd (map (map_prod id parts) fs)) @ [t])"
proof (rule adds_composite [OF adds_fields S t(1,2)])
  show "set (components t) \<subseteq> set (concat (map snd (map (map_prod id parts) fs)))"
    using parts_self t(3) by (fastforce simp del: parts.simps)
qed (use IH in blast)

lemma adds_type:
  assumes S: "inj_on type_string S"
  shows "\<forall>p\<in>set (parts t). type_ok p \<Longrightarrow> adds S {} (AddTypeDefinition t) (parts t)"
proof (induction t)
  case (TOpt t)
  then have "adds S {} (AddTypeDefinition t) (parts t)" by simp
  from adds_composite [OF this S, of "TOpt t"] show ?case by (simp add: add_composite parts_self)
next
  case (TVec t)
  then have "adds S {} (AddTypeDefinition t) (parts t)" by simp
  from adds_composite [OF this S, of "TVec t"] show ?case by (simp add: add_composite parts_self)
next
  case (TRecord fs tuple)
  have "adds S {} (AddTypeDefinition (snd f)) (parts (snd f))" if "f \<in> set fs" for f
    using TRecord.IH [OF that snds.intros] TRecord.prems that by fastforce
  from adds_named [OF this S, where t = "TRecord fs tuple"] TRecord.prems show ?case by (simp add: add_composite)
next
  case (TVariant fs)
  have "adds S {} (AddTypeDefinition (snd f)) (parts (snd f))" if "f \<in> set fs" for f
    using TVariant.IH [OF that snds.intros] TVariant.prems that by fastforce
  from adds_named [OF this S, where t = "TVariant fs"] TVariant.prems show ?case by (simp add: add_composite)
next
  case (TService fs)
  have "adds S {} (AddTypeDefinition (snd f)) (parts (snd f))" if "f \<in> set fs" for f
    using TService.IH [OF that snds.intros] TService.prems that by fastforce
  from adds_named [OF this S, where t = "TService fs"] TService.prems show ?case by (simp add: add_composite)
next
  case (TFunc args rets anns)
  have "\<forall>p\<in>set (parts t). type_ok p" if "t \<in> set args \<union> set rets" for t using TFunc.prems that by auto
  then have a: "adds S {} (add_types args) (concat (map parts args))"
    and r: "adds S {} (add_types rets) (concat (map parts rets))"
    by (intro adds_types ballI TFunc.IH; blast)+
  from adds_composite [OF adds_then [OF a adds_mono [OF r]] S, of "TFunc args rets anns"] TFunc.prems show ?case
    using parts_self by (auto simp: add_composite subset_eq)
qed (use adds_prim in \<open>simp add: add_prim; fail\<close>)+


subsection \<open>Messages\<close>

lemma decode_table_read:
  assumes "table_ok tdt tds" and "r \<noteq> []" and "j + n = length tds"
  shows "decode_table n (take j tds) [] (concat (drop j (tt_types tdt)) @ r) = Inr ((tds, []), r)"
  using assms(3)
proof (induction n arbitrary: j)
  case 0
  then show ?case using assms(1) by (simp add: table_ok_def)
next
  case (Suc n)
  then have j: "j < length tds" by simp
  then have "drop j (tt_types tdt) = tt_types tdt ! j # drop (Suc j) (tt_types tdt)"
    using assms(1) by (simp add: table_ok_def Cons_nth_drop_Suc)
  moreover have "decode_definition (take j tds) [] (tt_types tdt ! j @ r') = Inr ((take (Suc j) tds, []), r')"
    if "r' \<noteq> []" for r' using assms(1) j that by (simp add: table_ok_def)
  ultimately show ?case using Suc.IH [of "Suc j"] Suc.prems assms(2) by simp
qed

lemma args_read:
  assumes "length ts = length vs" and "length vs = length vs'"
    and "\<forall>i<length ts. known tds tdt (ts ! i) \<and> conveys (ts ! i) (vs ! i) (vs' ! i)" and "length tds < 2 ^ 48"
  shows "\<exists>tys bs refs. encode_args ts vs tdt = Inr (tys, bs) \<and> list_all2 (denotes tds) refs ts
    \<and> (\<forall>r. read_types (length ts) tds (tys @ r) = Inr (refs, r))
    \<and> (\<forall>r. decode_values tds refs (bs @ r) = Some (Inr (vs', r)))"
  using assms(1-3)
proof (induction ts vs vs' rule: list_induct3)
  case (Cons t ts v vs v' vs')
  have "\<forall>i<length ts. known tds tdt (ts ! i) \<and> conveys (ts ! i) (vs ! i) (vs' ! i)" using Cons.prems by fastforce
  from Cons.IH [OF this] obtain tys bs refs where IH: "encode_args ts vs tdt = Inr (tys, bs)"
    "list_all2 (denotes tds) refs ts" "\<And>r. read_types (length ts) tds (tys @ r) = Inr (refs, r)"
    "\<And>r. decode_values tds refs (bs @ r) = Some (Inr (vs', r))" by blast
  have k: "known tds tdt t" and c: "conveys t v v'" using Cons.prems by fastforce+
  obtain x where x: "GetType (code_of tdt t) tds = Inr x" using known_code(3) [OF k assms(4)] by blast
  then have d: "denotes tds x t" by (rule known_code(4) [OF k assms(4)])
  obtain b where b: "EncodeValue t v = Inr b" "\<And>r. decode tds (Value x) (b @ r) = Some (Inr (v', r))"
    using conveys_carried [OF c d] unfolding carried_def by blast
  show ?case using IH known_code(1,2) [OF k assms(4)] x d b
    by (intro exI [of _ "EncodeSigned (code_of tdt t) @ tys"] exI [of _ "b @ bs"] exI [of _ "x # refs"])
      (simp add: reading)
qed simp

lemma encode_args_append: "length ts = length vs \<Longrightarrow> encode_args ts (vs @ extra) tdt = encode_args ts vs tdt"
  by (induction ts vs rule: list_induct2) (cases extra; simp)+

text \<open>The argument types can be sent together: no two of their parts are printed alike, and each is in order.\<close>

definition sendable :: "ctype list \<Rightarrow> bool" where
  "sendable ts \<longleftrightarrow> (let ps = concat (map parts ts) in
     inj_on type_string (set ps) \<and> (\<forall>p\<in>set ps. type_ok p) \<and> length ps < 2 ^ 48)"

lemma length_concat_parts: "length ts \<le> length (concat (map parts ts))"
proof (induction ts)
  case (Cons t ts)
  have "0 < length (parts t)" using parts_self [of t] by (cases "parts t") auto
  with Cons show ?case by (simp del: length_concat length_greater_0_conv)
qed simp

text \<open>C5: A message arrives as it was sent: when the types can be sent together and the values are conveyed by them, the
  encoder succeeds, and the decoder reads from its output references that denote those types,
  pointing into a list of types, and the values as conveyed. Values beyond the types are dropped.\<close>

theorem message_round_trip:
  assumes "sendable ts" and "length vs = length ts" and "length vs' = length ts"
    and "\<forall>i<length ts. conveys (ts ! i) (vs ! i) (vs' ! i)"
  shows "\<exists>bs tds refs. Encode ts (vs @ extra) = Inr bs \<and> Decode bs = Some (Inr (tds, refs, vs'))
    \<and> list_all2 (denotes tds) refs ts"
proof -
  let ?ps = "concat (map parts ts)"
  have S: "inj_on type_string (set ?ps)" "\<forall>p\<in>set ?ps. type_ok p" "length ?ps < 2 ^ 48"
    using assms(1) by (simp_all add: sendable_def Let_def)
  have "adds (set ?ps) {} (AddTypeDefinition t) (parts t)" if "t \<in> set ts" for t
    using that S(2) by (intro adds_type [OF S(1)]) auto
  then have "adds (set ?ps) {} (add_types ts) ?ps" by (intro adds_types) simp
  then obtain tdt tds where tdt: "add_types ts empty_table = Inr tdt" "table_ok tdt ([] @ tds)"
    "\<forall>p\<in>{} \<union> set ?ps. known ([] @ tds) tdt p" "length tds \<le> length ?ps"
    by (rule addsD [of _ _ _ _ empty_table "[]" "{}"]) (use S(3) in \<open>auto simp: table_ok_def empty_table_def\<close>)
  have l: "length tds < 2 ^ 48" using tdt(4) S(3) by linarith
  have "known tds tdt (ts ! i)" if "i < length ts" for i
    using tdt(3) parts_self [of "ts ! i"] nth_mem [OF that] by auto
  then obtain tys bs refs where args: "encode_args ts vs tdt = Inr (tys, bs)" "list_all2 (denotes tds) refs ts"
    "\<And>r. read_types (length ts) tds (tys @ r) = Inr (refs, r)" "\<And>r. decode_values tds refs (bs @ r) = Some (Inr (vs', r))"
    using args_read [of ts vs vs' tds tdt] assms(2-4) l by auto
  have ok: "table_ok tdt tds" using tdt(2) by simp
  then have tds: "length (tt_types tdt) = length tds" "resolve_entries tds tds = Inr tds"
    by (simp_all add: table_ok_def resolve_entries_complete)
  let ?r = "EncodeSigned (int (length ts)) @ tys @ bs"
  have ne: "?r \<noteq> []" using read_signed_encoded [of "int (length ts)" "tys @ bs"]
    by (auto simp: read_signed_def DecodeSigned_def)
  have n: "int64_of (int (length tds)) = int (length tds)" "int64_of (int (length ts)) = int (length ts)"
    using l length_concat_parts [of ts] S(3) by (auto intro!: int64_of_length)
  have "checkHeader (magic @ r) = Inr ((), r)" for r
    by (simp add: checkHeader_def read_def magic_def string_bytes_def)
  then have header: "decode_header (magic @ unsigned_length (tt_types tdt) @ concat (tt_types tdt) @ ?r) = Inr ((tds, refs), bs)"
    using decode_table_read [OF ok ne, of 0 "length tds"] args(3) tds n
    by (simp add: decode_header_def reading unsigned_length_def resolve.simps)
  let ?bs = "magic @ unsigned_length (tt_types tdt) @ concat (tt_types tdt) @ ?r"
  have "Encode ts (vs @ extra) = Inr ?bs"
    using tdt(1) args(1) assms(2) encode_args_append [of ts vs extra tdt] by (simp add: Encode_def)
  moreover have "?bs \<noteq> []" by (simp add: magic_def string_bytes_def)
  then have "Decode ?bs = Some (Inr (tds, refs, vs'))"
    using header args(4) [of "[]"] by (simp add: Decode_def)
  ultimately show ?thesis using args(2) by blast
qed

theorem message_round_trip_witness:
  "\<exists>bs tds refs. Encode [TVec (TNat 1), TRecord [(''a'', TBool)] False] [VVec [VUint8 7, VUint8 9], VMap [(''a'', VBool True)], VNil] = Inr bs
     \<and> Decode bs = Some (Inr (tds, refs, [VVec [VUint8 7, VUint8 9], VMap [(''97'', VBool True)]]))
     \<and> list_all2 (denotes tds) refs [TVec (TNat 1), TRecord [(''a'', TBool)] False]"
proof -
  let ?r = "TRecord [(''a'', TBool)] False"
  have "type_string (TVec (TNat 1)) = ''vec nat8''" "type_string ?r = ''record {a:bool}''" "type_string (TNat 1) = ''nat8''" "type_string TBool = ''bool''" by code_simp+
  then have "sendable [TVec (TNat 1), ?r]" by (simp add: sendable_def)
  moreover have "conveys (TVec (TNat 1)) (VVec [VUint8 7, VUint8 9]) (VVec [VUint8 7, VUint8 9])"
  proof -
    have "conveys (TNat 1) (VUint8 w) (VUint8 w)" for w by (rule conveys.nat8) simp
    then show ?thesis by (intro conveys.vec) (auto simp: less_Suc_eq)
  qed
  moreover have "record_map (VMap [(''a'', VBool True)]) = Inr (Some [''a'' \<mapsto> VBool True])"
    "wire_names [(''a'', TBool)] False = [''97'']" "field_value [''a'' \<mapsto> VBool True] 0 ''a'' = VBool True"
    by (simp_all add: record_map_def field_value_def) code_simp
  then have "conveys ?r (VMap [(''a'', VBool True)]) (VMap [(''97'', VBool True)])"
    using conveys.fields [of "VMap [(''a'', VBool True)]" _ "[VBool True]" "[(''a'', TBool)]" False]
    by (simp add: conveys.bool)
  ultimately show ?thesis
    using message_round_trip [of "[TVec (TNat 1), ?r]" "[VVec [VUint8 7, VUint8 9], VMap [(''a'', VBool True)]]"
      "[VVec [VUint8 7, VUint8 9], VMap [(''97'', VBool True)]]" "[VNil]"]
    by (simp add: less_Suc_eq all_conj_distrib)
qed

end
