(* ===== verification/CandidSafety.thy ===== *)
theory CandidSafety
  imports CandidMessages
begin

text \<open>
  What the decoder of Candid messages guarantees on any input: the table of types it returns is complete and closed, and
  the values have the types it returns.
\<close>

subsection \<open>Values of a type\<close>

fun prim_value :: "ctype \<Rightarrow> cvalue \<Rightarrow> bool" where
  "prim_value TNull v \<longleftrightarrow> v = VNil"
| "prim_value TReserved v \<longleftrightarrow> v = VNil"
| "prim_value TBool v \<longleftrightarrow> (\<exists>b. v = VBool b)"
| "prim_value (TNat n) v \<longleftrightarrow> n = 0 \<and> (\<exists>i\<ge>0. v = VNat (Some i)) \<or> n = 1 \<and> (\<exists>w. v = VUint8 w)
     \<or> n = 2 \<and> (\<exists>w. v = VUint16 w) \<or> n = 4 \<and> (\<exists>w. v = VUint32 w) \<or> n = 8 \<and> (\<exists>w. v = VUint64 w)"
| "prim_value (TInt n) v \<longleftrightarrow> n = 0 \<and> (\<exists>i. v = VInt (Some i)) \<or> n = 1 \<and> (\<exists>w. v = VInt8 w)
     \<or> n = 2 \<and> (\<exists>w. v = VInt16 w) \<or> n = 4 \<and> (\<exists>w. v = VInt32 w) \<or> n = 8 \<and> (\<exists>w. v = VInt64 w)"
| "prim_value (TFloat n) v \<longleftrightarrow> n = 4 \<and> (\<exists>w. v = VFloat32 w) \<or> n = 8 \<and> (\<exists>w. v = VFloat64 w)"
| "prim_value TText v \<longleftrightarrow> (\<exists>s. v = VText s \<and> utf8_valid s)"
| "prim_value TPrincipal v \<longleftrightarrow> (\<exists>p. v = VPrincipal p)"
| "prim_value _ v \<longleftrightarrow> False"

text \<open>The map of a record has each name of the fields once, with a value for a field of that name.\<close>

inductive has_type :: "type_list \<Rightarrow> type_ref \<Rightarrow> cvalue \<Rightarrow> bool" for tds where
  prim: "prim_value t v \<Longrightarrow> has_type tds (Prim t) v"
| opt_none: "tds ! i = Some (EOpt t) \<Longrightarrow> has_type tds (Ref i) VNil"
| opt_some: "tds ! i = Some (EOpt t) \<Longrightarrow> has_type tds t v \<Longrightarrow> has_type tds (Ref i) v"
| vec: "tds ! i = Some (EVec t) \<Longrightarrow> (\<forall>v\<in>set vs. has_type tds t v) \<Longrightarrow> has_type tds (Ref i) (VVec vs)"
| empty_record: "tds ! i = Some (ERecord []) \<Longrightarrow> has_type tds (Ref i) VNil"
| fields: "tds ! i = Some (ERecord fs) \<Longrightarrow> m \<noteq> [] \<Longrightarrow> distinct (map fst m) \<Longrightarrow> fst ` set m = fl_name ` set fs
    \<Longrightarrow> (\<forall>(k, v)\<in>set m. \<exists>f\<in>set fs. fl_name f = k \<and> (\<exists>t. fl_type f = Some t \<and> has_type tds t v))
    \<Longrightarrow> has_type tds (Ref i) (VMap m)"
| variant: "tds ! i = Some (EVariant fs) \<Longrightarrow> f \<in> set fs \<Longrightarrow> fl_type f = Some t \<Longrightarrow> has_type tds t v
    \<Longrightarrow> has_type tds (Ref i) (VPtr (Some (VVariant (fl_name f) v)))"
| func: "tds ! i = Some (EFunc a b c) \<Longrightarrow> has_type tds (Ref i) (VPtr (Some (VMethod p m)))"
| service: "tds ! i = Some (EService ms) \<Longrightarrow> has_type tds (Ref i) (VPtr (Some (VPrincipal p)))"

lemma decode_unsigned_nonneg: "decode_unsigned w v bs = Some (n, r) \<Longrightarrow> 0 \<le> w \<Longrightarrow> 0 \<le> v \<Longrightarrow> 0 \<le> n"
  by (induction w v bs rule: decode_unsigned.induct) (auto simp: Let_def split: if_splits)

lemma read_unsigned_nonneg: "read_unsigned bs = Inr (n, r) \<Longrightarrow> 0 \<le> n"
  by (auto simp: read_unsigned_def DecodeUnsigned_def split: option.splits dest: decode_unsigned_nonneg)

lemma decode_text_value:
  assumes "decode_text bs = Inr (v, r)"
  shows "\<exists>s. v = VText s \<and> utf8_valid s"
proof -
  obtain a b where ru: "read_unsigned bs = Inr (a, b)" using assms by (cases "read_unsigned bs") (auto simp: decode_text_def)
  obtain n where mb: "make_bytes (int64_of a) = Inr n"
    using assms ru by (cases "make_bytes (int64_of a)") (auto simp: decode_text_def)
  show ?thesis using assms ru mb by (cases "read n b") (auto simp: decode_text_def split: if_split_asm)
qed

lemma decode_prim_value: "decode_prim t bs = Inr (v, r) \<Longrightarrow> prim_value t v"
  by (cases t) (auto simp: decode_bool_def decode_nat_def decode_int_def decode_float_def
      decode_principal_def andThen_Inr Let_def dest: read_unsigned_nonneg decode_text_value split: if_split_asm)

lemma decode_func_value: "decode_func bs = Inr (v, r) \<Longrightarrow> \<exists>p m. v = VPtr (Some (VMethod p m))"
  by (auto simp: decode_func_def andThen_Inr split: if_splits)

lemma decode_service_value: "decode_service bs = Inr (v, r) \<Longrightarrow> \<exists>p. v = VPtr (Some (VPrincipal p))"
  by (auto simp: decode_service_def andThen_Inr split: if_splits)

lemma int64_of_le: "0 \<le> n \<Longrightarrow> int64_of n \<le> n"
proof (cases "n < 2 ^ 63")
  case False
  have "int64_of n < 2 ^ 63" unfolding int64_of_def using sint_lt [of "big_int64 n"] by simp
  with False show ?thesis by linarith
qed (simp add: int64_of_def sint_big_int64)

text \<open>What the result of each task is.\<close>

fun task_value :: "type_list \<Rightarrow> task \<Rightarrow> cvalue \<Rightarrow> bool" where
  "task_value tds (Value t) v \<longleftrightarrow> has_type tds t v"
| "task_value tds (Elements n t acc) v \<longleftrightarrow> (\<exists>vs. v = VVec (acc @ vs) \<and> (\<forall>x\<in>set vs. has_type tds t x))"
| "task_value tds (Fields fs m) v \<longleftrightarrow> (\<exists>m'. v = VMap m' \<and> (distinct (map fst m) \<longrightarrow> distinct (map fst m'))
     \<and> fst ` set m' = fst ` set m \<union> fl_name ` set fs
     \<and> (\<forall>(k, x)\<in>set m'. (k, x) \<in> set m
          \<or> (\<exists>f\<in>set fs. fl_name f = k \<and> (\<exists>t. fl_type f = Some t \<and> has_type tds t x))))"

lemma task_element: "has_type tds t v \<Longrightarrow> task_value tds (Elements n t (acc @ [v])) x \<Longrightarrow> task_value tds (Elements (Suc n) t acc) x"
  by fastforce

lemma update_set: "x \<in> set (AList.update k v m) \<Longrightarrow> x = (k, v) \<or> x \<in> set m"
  by (induction m) (auto split: if_splits)

lemma task_field:
  assumes "fl_type f = Some t" and "has_type tds t v" and "task_value tds (Fields fs (AList.update (fl_name f) v m)) x"
  shows "task_value tds (Fields (f # fs) m) x"
proof -
  obtain m' where m': "x = VMap m'" "distinct (map fst (AList.update (fl_name f) v m)) \<longrightarrow> distinct (map fst m')"
    "fst ` set m' = fst ` set (AList.update (fl_name f) v m) \<union> fl_name ` set fs"
    "\<forall>(k, x)\<in>set m'. (k, x) \<in> set (AList.update (fl_name f) v m)
       \<or> (\<exists>f\<in>set fs. fl_name f = k \<and> (\<exists>t. fl_type f = Some t \<and> has_type tds t x))"
    using assms(3) by auto
  have "fst ` set (AList.update (fl_name f) v m) = insert (fl_name f) (fst ` set m)"
    using AList.dom_update [of "fl_name f" v m] by simp
  with m' assms(1,2) show ?thesis
    by (auto simp: distinct_update dest!: update_set)
qed


definition result_ok :: "type_list \<Rightarrow> task \<Rightarrow> candid_error + cvalue \<times> bytes \<Rightarrow> bool" where
  "result_ok tds k y \<longleftrightarrow> (\<forall>v r. y = Inr (v, r) \<longrightarrow> task_value tds k v)"

lemma result_ok_Inl [simp]: "result_ok tds k (Inl e)"
  by (simp add: result_ok_def)

text \<open>The steps for records and variants, over any function \<open>dec\<close> that keeps to the types.\<close>

lemma record_step:
  assumes IH: "\<And>k r v r'. dec k r = Some (Inr (v, r')) \<Longrightarrow> task_value tds k v" and i: "tds ! i = Some (ERecord fs)"
    and eq: "dec (Fields fs []) r \<bind> (\<lambda>x. Some (andThen x (\<lambda>(v, r). Inr (if v = VMap [] then VNil else v, r)))) = Some y"
  shows "result_ok tds (Value (Ref i)) y"
proof -
  obtain x where x: "dec (Fields fs []) r = Some x" "y = andThen x (\<lambda>(v, r). Inr (if v = VMap [] then VNil else v, r))"
    using eq by (auto simp: Option.bind_eq_Some_conv)
  show ?thesis
  proof (cases x)
    case (Inr vr)
    then obtain v r' where xi: "x = Inr (v, r')" by (cases vr) simp
    then have "task_value tds (Fields fs []) v" using IH x(1) by blast
    then show ?thesis using x(2) i
      by (cases "fs = []") (auto simp: xi result_ok_def intro: has_type.empty_record has_type.fields)
  qed (use x in simp)
qed

lemma variant_step:
  assumes IH: "\<And>k r v r'. dec k r = Some (Inr (v, r')) \<Longrightarrow> task_value tds k v" and i: "tds ! i = Some (EVariant fs)"
    and eq: "(case read_unsigned r of Inl e \<Rightarrow> Some (Inl e) | Inr (n, r) \<Rightarrow>
       if int (length fs) \<le> n then Some (Inl (InvalidVariantIndex n))
       else (let f = fs ! nat (int64_of n) in case fl_type f of None \<Rightarrow> Some (Inl Panic) | Some t \<Rightarrow>
         dec (Value t) r \<bind> (\<lambda>x. Some (andThen x (\<lambda>(v, r). Inr (VPtr (Some (VVariant (fl_name f) v)), r)))))) = Some y"
  shows "result_ok tds (Value (Ref i)) y"
proof (cases "read_unsigned r")
  case (Inr nr)
  then obtain n r' where n: "read_unsigned r = Inr (n, r')" by (cases nr) simp
  show ?thesis
  proof (cases "int (length fs) \<le> n")
    case False
    then have "fs ! nat (int64_of n) \<in> set fs"
      using int64_of_le [OF read_unsigned_nonneg [OF n]] read_unsigned_nonneg [OF n] by (intro nth_mem) linarith
    then show ?thesis using eq i n False
      by (auto simp: result_ok_def Let_def andThen_Inr Option.bind_eq_Some_conv split: option.split_asm dest!: IH)
        (metis has_type.variant)
  qed (use eq n in auto)
qed (use eq in auto)

lemma elements_step:
  assumes IH: "\<And>k r v r'. dec k r = Some (Inr (v, r')) \<Longrightarrow> task_value tds k v"
    and eq: "dec (Value t) r \<bind> (\<lambda>x. case x of Inl e \<Rightarrow> Some (Inl e)
      | Inr (v, r) \<Rightarrow> dec (Elements n t (vs @ [v])) r) = Some y"
  shows "result_ok tds (Elements (Suc n) t vs) y"
proof -
  obtain x where x: "dec (Value t) r = Some x"
    "(case x of Inl e \<Rightarrow> Some (Inl e) | Inr (v, r) \<Rightarrow> dec (Elements n t (vs @ [v])) r) = Some y"
    using eq by (auto simp: Option.bind_eq_Some_conv)
  show ?thesis
  proof (cases x)
    case (Inr vr)
    then show ?thesis using x IH [of "Value t"] IH [of "Elements n t (vs @ [fst vr])"]
      unfolding result_ok_def by (cases vr) (auto intro!: task_element simp del: task_value.simps(2))
  qed (use x in auto)
qed

lemma fields_step:
  assumes IH: "\<And>k r v r'. dec k r = Some (Inr (v, r')) \<Longrightarrow> task_value tds k v"
    and eq: "(case fl_type f of None \<Rightarrow> Some (Inl Panic) | Some t \<Rightarrow> dec (Value t) r \<bind> (\<lambda>x. case x of
      Inl e \<Rightarrow> Some (Inl e) | Inr (v, r) \<Rightarrow> dec (Fields fs (AList.update (fl_name f) v m)) r)) = Some y"
  shows "result_ok tds (Fields (f # fs) m) y"
proof (cases "fl_type f")
  case (Some t)
  then obtain x where x: "dec (Value t) r = Some x"
    "(case x of Inl e \<Rightarrow> Some (Inl e) | Inr (v, r) \<Rightarrow> dec (Fields fs (AList.update (fl_name f) v m)) r) = Some y"
    using eq by (auto simp: Option.bind_eq_Some_conv)
  show ?thesis
  proof (cases x)
    case (Inr vr)
    obtain v r' where vr: "vr = (v, r')" by (cases vr)
    have v: "has_type tds t v" using IH x(1) by (fastforce simp: Inr vr)
    have "dec (Fields fs (AList.update (fl_name f) v m)) r' = Some y" using x(2) by (simp add: Inr vr)
    then show ?thesis using IH task_field [OF Some v] unfolding result_ok_def by blast
  qed (use x in auto)
qed (use eq in auto)

lemma decode_result:
  assumes ret: "decode tds k r = Some y"
  shows "result_ok tds k y"
  apply (rule decode.raw_induct [where P = "\<lambda>tds k _ y. result_ok tds k y", OF _ ret])
  subgoal premises p for dec tds k r y
  proof -
    have IH: "dec tds k r = Some (Inr (v, r')) \<Longrightarrow> task_value tds k v" for k r v r'
      using p(1) by (fastforce simp: result_ok_def)
    show ?thesis
    proof (cases k)
      case (Value t)
      show ?thesis
      proof (cases t)
        case (Prim c)
        then show ?thesis using p(2) Value by (auto simp: result_ok_def dest: decode_prim_value intro: has_type.prim)
      next
        case (Ref i)
        show ?thesis
        proof (cases "tds ! i")
          case None
          then show ?thesis using p(2) Value Ref by auto
        next
          case (Some e)
          note eq = p(2) [unfolded Value Ref, simplified, unfolded Some, simplified]
          show ?thesis
          proof (cases e)
            case (EOpt t')
            with eq Some show ?thesis unfolding Value Ref result_ok_def
              by (auto split: sum.split_asm if_split_asm dest!: IH) (metis has_type.opt_none has_type.opt_some)+
          next
            case (EVec t')
            with eq Some show ?thesis unfolding Value Ref result_ok_def
              by (auto split: sum.split_asm dest!: IH intro: has_type.vec)
          next
            case (ERecord fs)
            have "result_ok tds (Value (Ref i)) y"
              by (rule record_step [where dec = "dec tds" and r = r and fs = fs, OF IH])
                (use eq Some ERecord in simp_all)
            then show ?thesis unfolding Value Ref .
          next
            case (EVariant fs)
            have "result_ok tds (Value (Ref i)) y"
              by (rule variant_step [where dec = "dec tds" and r = r and fs = fs, OF IH])
                (use eq Some EVariant in simp_all)
            then show ?thesis unfolding Value Ref .
          next
            case (EFunc a b c)
            with eq Some show ?thesis unfolding Value Ref result_ok_def
              by (auto dest!: decode_func_value intro: has_type.func)
          next
            case (EService ms)
            with eq Some show ?thesis unfolding Value Ref result_ok_def
              by (auto dest!: decode_service_value intro: has_type.service)
          qed
        qed
      qed
    next
      case (Elements n t acc)
      show ?thesis
      proof (cases n)
        case (Suc n')
        have "result_ok tds (Elements (Suc n') t acc) y"
          by (rule elements_step [where dec = "dec tds" and r = r, OF IH]) (use p(2) Elements Suc in simp_all)
        then show ?thesis unfolding Elements Suc .
      qed (use p(2) Elements in \<open>auto simp: result_ok_def\<close>)
    next
      case (Fields fs m)
      show ?thesis
      proof (cases fs)
        case (Cons f fs')
        have "result_ok tds (Fields (f # fs') m) y"
          by (rule fields_step [where dec = "dec tds" and r = r, OF IH]) (use p(2) Fields Cons in simp_all)
        then show ?thesis unfolding Fields Cons .
      qed (use p(2) Fields in \<open>auto simp: result_ok_def\<close>)
    qed
  qed
  done

subsection \<open>The table of types is closed\<close>

text \<open>The entries that the decoder of values follows from an entry.\<close>

fun target :: "type_ref option \<Rightarrow> nat list" where
  "target (Some (Ref i)) = [i]"
| "target _ = []"

fun targets :: "type_entry \<Rightarrow> nat list" where
  "targets (EOpt t) = target (Some t)"
| "targets (EVec t) = target (Some t)"
| "targets (ERecord fs) = concat (map (\<lambda>f. target (fl_type f)) fs)"
| "targets (EVariant fs) = concat (map (\<lambda>f. target (fl_type f)) fs)"
| "targets _ = []"

definition within :: "nat \<Rightarrow> type_entry option \<Rightarrow> bool" where
  "within n e \<longleftrightarrow> (\<forall>e'. e = Some e' \<longrightarrow> (\<forall>j\<in>set (targets e'). j < n))"

definition closed :: "type_list \<Rightarrow> bool" where
  "closed tds \<longleftrightarrow> (\<forall>e\<in>set tds. (\<exists>e'. e = Some e' \<and> complete e') \<and> within (length tds) e)"

text \<open>While the table is read, what is missing is in the cache.\<close>

definition pending :: "type_list \<Rightarrow> delay_type list \<Rightarrow> bool" where
  "pending tds cache \<longleftrightarrow> (\<forall>e\<in>set tds. within (length tds) e)
     \<and> (\<forall>i<length tds. tds ! i = None \<longrightarrow> i \<in> dl_index ` set cache)"

lemma target_GetType: "GetType op tds = Inr t \<Longrightarrow> j \<in> set (target (Some t)) \<Longrightarrow> j < length tds"
  by (cases "0 \<le> op") (auto simp: GetType_def split: if_split_asm)

lemma within_wrap: "GetType op tds = Inr t \<Longrightarrow> within (length tds) (Some (wrap w t))"
  using target_GetType by (cases w) (auto simp: within_def)

lemma within_mono: "within n e \<Longrightarrow> n \<le> m \<Longrightarrow> within m e"
  using order_less_le_trans by (fastforce simp: within_def)

lemma pending_add:
  assumes "pending tds cache" and "within (length tds) (Some e)"
  shows "pending (tds @ [Some e]) cache"
  using assms by (auto simp: pending_def nth_append less_Suc_eq intro: within_mono)

lemma pending_delay:
  "pending tds cache \<Longrightarrow> pending (tds @ [None]) (cache @ [\<lparr>dl_index = length tds, dl_wrapper = w, dl_op = op\<rparr>])"
  by (auto simp: pending_def nth_append less_Suc_eq within_def intro: less_SucI)

lemma within_fields:
  assumes "read_fields n tds r = Inr (fs, r')"
  shows "\<forall>f\<in>set fs. \<forall>j\<in>set (target (fl_type f)). j < length tds"
  using assms
proof (induction n arbitrary: r fs r')
  case (Suc n)
  have "\<forall>j\<in>set (target (fl_type (field_of tds h op))). j < length tds" for h op
    using target_GetType by (auto simp: field_of_def split: sum.split)
  with Suc show ?case by (auto simp: andThen_Inr)
qed simp

lemma pending_definition:
  assumes "decode_definition tds cache r = Inr ((tds', cache'), r')" and "pending tds cache"
  shows "pending tds' cache'"
proof -
  have fields: "within (length tds) (Some (ERecord fs))" "within (length tds) (Some (EVariant fs))"
    if "decodeFieldsSubType tds r = Inr (fs, r')" for fs r r'
    using that within_fields by (fastforce simp: decodeFieldsSubType_def andThen_Inr within_def)+
  have wrapped: "pending tds' cache'" if w: "decodeWrapped w tds cache r = Inr ((tds', cache'), r')" for w r
  proof -
    obtain tid r1 where "read_signed r = Inr (tid, r1)" using w by (cases "read_signed r") (auto simp: decodeWrapped_def)
    with w assms(2) show ?thesis
      by (cases "GetType (int64_of tid) tds")
        (auto simp: decodeWrapped_def Let_def intro: pending_add within_wrap pending_delay)
  qed
  have other: "within (length tds) (Some (EFunc a b c))" "within (length tds) (Some (EService ms))" for a b c ms
    by (simp_all add: within_def)
  show ?thesis using assms
    by (auto simp: decode_definition_def Let_def andThen_Inr decodeFuncOpCode_def decodeServiceOpCode_def
        split: if_split_asm intro!: pending_add other dest: wrapped fields)
qed

lemma pending_table: "decode_table n tds cache r = Inr ((tds', cache'), r') \<Longrightarrow> pending tds cache \<Longrightarrow> pending tds' cache'"
  by (induction n tds cache r rule: decode_table.induct) (auto simp: andThen_Inr dest: pending_definition)

lemma pending_resolve:
  "resolve tds cache = Inr tds' \<Longrightarrow> pending tds cache \<Longrightarrow> pending tds' [] \<and> length tds' = length tds"
proof (induction tds cache rule: resolve.induct)
  case (1 tds cache)
  show ?case
  proof (cases "cache = []")
    case False
    then obtain d ds v where d: "dropWhile (\<lambda>d. \<not> resolvable tds d) cache = d # ds" "GetType (dl_op d) tds = Inr v"
      "resolve (tds[dl_index d := Some (wrap (dl_wrapper d) v)])
        (takeWhile (\<lambda>d. \<not> resolvable tds d) cache @ ds) = Inr tds'"
      using 1(2) by (subst (asm) resolve.simps) (auto split: list.split_asm sum.split_asm)
    have "set cache = set (takeWhile (\<lambda>d. \<not> resolvable tds d) cache) \<union> insert d (set ds)"
      by (metis d(1) list.simps(15) set_append takeWhile_dropWhile_id)
    moreover have "i \<noteq> k \<and> tds ! i = None" if "tds[k := Some x] ! i = None" "i < length tds" for i k x
      using that by (cases "i = k") auto
    ultimately have "pending (tds[dl_index d := Some (wrap (dl_wrapper d) v)]) (takeWhile (\<lambda>d. \<not> resolvable tds d) cache @ ds)"
      using 1(3) within_wrap [OF d(2)]
      by (auto simp: pending_def dest!: set_update_subset_insert [THEN subsetD])
    then show ?thesis using 1(1) [OF False d(1,2,3)] by simp
  qed (use 1 in \<open>simp add: resolve.simps\<close>)
qed

lemma resolve_fields_closed:
  "resolve_fields tds fs = Inr fs' \<Longrightarrow> \<forall>f\<in>set fs. \<forall>j\<in>set (target (fl_type f)). j < length tds
   \<Longrightarrow> \<forall>f\<in>set fs'. fl_type f \<noteq> None \<and> (\<forall>j\<in>set (target (fl_type f)). j < length tds)"
proof (induction fs arbitrary: fs')
  case (Cons f fs)
  then show ?case using target_GetType
    by (auto simp: andThen_Inr split: sum.split_asm if_split_asm)
qed simp

lemma resolve_parameters_closed: "resolve_parameters tds ps = Inr ps' \<Longrightarrow> \<forall>p\<in>set ps'. fp_type p \<noteq> None"
  by (induction ps arbitrary: ps') (auto simp: andThen_Inr split: sum.split_asm)

lemma resolve_entry_closed:
  assumes "resolve_entry tds e = Inr e'" and "within (length tds) e" and "e \<noteq> None"
  shows "(\<exists>x. e' = Some x \<and> complete x) \<and> within (length tds) e'"
  using assms resolve_fields_closed [of tds] resolve_parameters_closed [of tds]
  by (cases "(tds, e)" rule: resolve_entry.cases) (fastforce simp: andThen_Inr within_def)+

lemma resolve_entries_closed:
  "resolve_entries tds es = Inr es' \<Longrightarrow> \<forall>e\<in>set es. e \<noteq> None \<and> within (length tds) e
   \<Longrightarrow> length es' = length es \<and> (\<forall>e\<in>set es'. (\<exists>x. e = Some x \<and> complete x) \<and> within (length tds) e)"
proof (induction es arbitrary: es')
  case (Cons e es)
  then obtain x xs where "resolve_entry tds e = Inr x" "resolve_entries tds es = Inr xs" "es' = x # xs"
    by (auto simp: andThen_Inr)
  with Cons resolve_entry_closed [of tds e x] show ?case by simp
qed simp

lemma read_types_within: "read_types n tds r = Inr (ts, r') \<Longrightarrow> t \<in> set ts \<Longrightarrow> j \<in> set (target (Some t)) \<Longrightarrow> j < length tds"
  by (induction n arbitrary: r ts r') (auto simp: andThen_Inr dest: target_GetType)

lemma decode_header_closed:
  assumes "decode_header bs = Inr ((tds, ts), r)"
  shows "closed tds" and "\<forall>t\<in>set ts. \<forall>j\<in>set (target (Some t)). j < length tds"
proof -
  obtain n r' tds0 cache r0 tds1 m r1 where h: "decode_table n [] [] r' = Inr ((tds0, cache), r0)"
    "resolve tds0 cache = Inr tds1" "resolve_entries tds1 tds1 = Inr tds" "read_types m tds r1 = Inr (ts, r)"
    using assms by (auto simp: decode_header_def andThen_Inr)
  have "pending tds0 cache" using pending_table [OF h(1)] by (simp add: pending_def)
  then have "pending tds1 []" using pending_resolve [OF h(2)] by simp
  then have "\<forall>e\<in>set tds1. e \<noteq> None \<and> within (length tds1) e"
    by (auto simp: pending_def in_set_conv_nth)
  then show "closed tds" using resolve_entries_closed [OF h(3)] by (simp add: closed_def)
  show "\<forall>t\<in>set ts. \<forall>j\<in>set (target (Some t)). j < length tds" using read_types_within [OF h(4)] by blast
qed

lemma decode_values_typed:
  "decode_values tds ts r = Some (Inr (vs, r')) \<Longrightarrow> list_all2 (has_type tds) ts vs"
proof (induction tds ts r arbitrary: vs r' rule: decode_values.induct)
  case (2 tds t ts r)
  obtain x where x: "decode tds (Value t) r = Some x" using 2(2) by (auto simp: Option.bind_eq_Some_conv)
  show ?case
  proof (cases x)
    case (Inr vr)
    then obtain v r1 where v: "x = Inr (v, r1)" by (cases vr) simp
    then obtain vs' where vs: "decode_values tds ts r1 = Some (Inr (vs', r'))" "vs = v # vs'"
      using 2(2) x by (auto simp: Option.bind_eq_Some_conv andThen_Inr)
    have "has_type tds t v" using decode_result [OF x] by (simp add: v result_ok_def)
    then show ?thesis using 2(1) x v vs by simp
  qed (use 2(2) x in simp)
qed simp

subsection \<open>Values and termination\<close>

text \<open>C6: Whatever message is decoded, the decoder returns values of the types it returns: one value for each type; the
  table of the types is complete, so that no pointer of it is nil, and closed; a natural number is not negative, a text is
  valid UTF-8, the elements of a vector have its type, a record has each field of its type once and a variant one of them.\<close>

theorem decode_typed:
  assumes "Decode bs = Some (Inr (tds, ts, vs))"
  shows "closed tds \<and> list_all2 (has_type tds) ts vs"
proof -
  obtain r x where r: "decode_header bs = Inr ((tds, ts), r)" "decode_values tds ts r = Some (Inr (vs, []))"
  proof (cases "decode_header bs")
    case (Inr h)
    then obtain tds' ts' r where h: "decode_header bs = Inr ((tds', ts'), r)" by (metis prod.collapse)
    then obtain x where "decode_values tds' ts' r = Some x" using assms
      by (auto simp: Decode_def Option.bind_eq_Some_conv split: if_split_asm)
    then show ?thesis using that assms h
      by (cases x) (auto simp: Decode_def split: if_split_asm)
  qed (use assms in \<open>auto simp: Decode_def split: if_split_asm\<close>)
  show ?thesis using decode_header_closed [OF r(1)] decode_values_typed [OF r(2)] by simp
qed

theorem decode_typed_witness:
  "Decode (string_bytes ''DIDL'' @ [1, 0x6D, 0x7B, 1, 0, 2, 7, 9]) = Some (Inr ([Some (EVec (Prim (TNat 1)))], [Ref 0],
     [VVec [VUint8 7, VUint8 9]]))
   \<and> list_all2 (has_type [Some (EVec (Prim (TNat 1)))]) [Ref 0] [VVec [VUint8 7, VUint8 9]]"
proof -
  have "decode_header (string_bytes ''DIDL'' @ [1, 0x6D, 0x7B, 1, 0, 2, 7, 9]) = Inr (([Some (EVec (Prim (TNat 1)))], [Ref 0]), [2, 7, 9])"
    by code_simp
  moreover have "read_unsigned [2, 7, 9] = Inr (2, [7, 9])" "decode_prim (TNat 1) [7, 9] = Inr (VUint8 7, [9])"
    "decode_prim (TNat 1) [9] = Inr (VUint8 9, [])" "nat (int64_of 2) = Suc (Suc 0)"
    by code_simp+
  ultimately have "Decode (string_bytes ''DIDL'' @ [1, 0x6D, 0x7B, 1, 0, 2, 7, 9]) = Some (Inr ([Some (EVec (Prim (TNat 1)))], [Ref 0],
     [VVec [VUint8 7, VUint8 9]]))"
    by (simp add: Decode_def decode_Vec)
  then show ?thesis using decode_typed by blast
qed

end
