(* ===== verification/CandidTermination.thy ===== *)
theory CandidTermination
  imports CandidSafety
begin

text \<open>
  When the decoder of Candid messages returns: the graph of the pointers between the types of a message, and the
  descent along it.
\<close>

subsection \<open>The graph of the pointers\<close>

text \<open>Which entry points to which: an edge leads from an entry to those in whose type it is.\<close>

definition points :: "type_list \<Rightarrow> (nat \<times> nat) set" where
  "points tds = {(j, i). i < length tds \<and> (\<exists>e. tds ! i = Some e \<and> j \<in> set (targets e))}"

lemma finite_points: "finite (points tds)"
proof -
  have "points tds \<subseteq> (\<Union>i<length tds. (case tds ! i of None \<Rightarrow> {} | Some e \<Rightarrow> set (targets e)) \<times> {i})"
    by (auto simp: points_def)
  then show ?thesis by (rule finite_subset) (auto split: option.split)
qed

definition returns :: "type_list \<Rightarrow> task \<Rightarrow> bool" where
  "returns tds k \<longleftrightarrow> (\<forall>r. \<exists>y. decode tds k r = Some y)"

lemma returns_elements: "returns tds (Value t) \<Longrightarrow> returns tds (Elements n t vs)"
proof (induction n arbitrary: vs)
  case (Suc n)
  show ?case unfolding returns_def
  proof
    fix r
    obtain y where "decode tds (Value t) r = Some y" using Suc.prems by (auto simp: returns_def)
    then show "\<exists>y. decode tds (Elements (Suc n) t vs) r = Some y"
      using Suc.IH [OF Suc.prems] by (cases y) (auto simp: returns_def)
  qed
qed (simp add: returns_def)

lemma returns_fields: "\<forall>f\<in>set fs. \<forall>t. fl_type f = Some t \<longrightarrow> returns tds (Value t) \<Longrightarrow> returns tds (Fields fs m)"
proof (induction fs arbitrary: m)
  case (Cons f fs)
  show ?case
  proof (cases "fl_type f")
    case (Some t)
    show ?thesis unfolding returns_def
    proof
      fix r
      obtain y where "decode tds (Value t) r = Some y" using Cons.prems Some unfolding returns_def by fastforce
      then show "\<exists>y. decode tds (Fields (f # fs) m) r = Some y"
        using Cons Some by (cases y) (auto simp: returns_def)
    qed
  qed (simp add: returns_def)
qed (simp add: returns_def)

lemma returns_entry:
  assumes e: "tds ! i = Some e" and IH: "\<And>t. (\<And>j. j \<in> set (target (Some t)) \<Longrightarrow> j \<in> set (targets e)) \<Longrightarrow> returns tds (Value t)"
  shows "returns tds (Value (Ref i))"
proof (cases e)
  case (EOpt t)
  then have "returns tds (Value t)" by (intro IH) simp
  then show ?thesis using e EOpt by (auto simp: returns_def decode_Opt split: sum.split)
next
  case (EVec t)
  then have "returns tds (Value t)" by (intro IH) simp
  then show ?thesis using e EVec returns_elements [of tds t]
    by (auto simp: returns_def decode_Vec split: sum.split)
next
  case (ERecord fs)
  then have "\<forall>f\<in>set fs. \<forall>t. fl_type f = Some t \<longrightarrow> returns tds (Value t)" by (auto intro!: IH) (metis)
  then show ?thesis using e ERecord returns_fields [of fs tds "[]"]
    by (auto simp: returns_def decode_Record Option.bind_eq_Some_conv)
next
  case (EVariant fs)
  then have fs: "\<forall>f\<in>set fs. \<forall>t. fl_type f = Some t \<longrightarrow> returns tds (Value t)" by (auto intro!: IH) (metis)
  show ?thesis unfolding returns_def
  proof
    fix r
    show "\<exists>y. decode tds (Value (Ref i)) r = Some y"
    proof (cases "read_unsigned r")
      case (Inr nr)
      then obtain n r' where n: "read_unsigned r = Inr (n, r')" by (cases nr) simp
      show ?thesis
      proof (cases "int (length fs) \<le> n")
        case False
        then have "fs ! nat (int64_of n) \<in> set fs"
          using int64_of_le [OF read_unsigned_nonneg [OF n]] read_unsigned_nonneg [OF n] by (intro nth_mem) linarith
        then show ?thesis using e EVariant n False fs
          by (cases "fl_type (fs ! nat (int64_of n))")
            (auto simp: returns_def decode_Variant Let_def Option.bind_eq_Some_conv)
      qed (use e EVariant n in \<open>simp add: decode_Variant\<close>)
    qed (use e EVariant in \<open>simp add: decode_Variant\<close>)
  qed
qed (use e in \<open>auto simp: returns_def decode_Func decode_Service\<close>)

lemma returns_prim: "returns tds (Value (Prim t))"
  by (simp add: returns_def)

lemma returns_ref:
  assumes c: "closed tds" and wf: "wf (points tds)"
  shows "i < length tds \<Longrightarrow> returns tds (Value (Ref i))"
  using wf
proof (induction i rule: wf_induct_rule)
  case (less i)
  then have "tds ! i \<in> set tds" by simp
  then obtain e where e: "tds ! i = Some e" "within (length tds) (Some e)"
    using c unfolding closed_def by metis
  show ?case
  proof (rule returns_entry [OF e(1)])
    fix t
    assume t: "\<And>j. j \<in> set (target (Some t)) \<Longrightarrow> j \<in> set (targets e)"
    show "returns tds (Value t)"
    proof (cases t)
      case (Ref j)
      then have "j \<in> set (targets e)" using t by simp
      then have "(j, i) \<in> points tds" "j < length tds" using e less(2) by (auto simp: points_def within_def)
      then show ?thesis using less(1) Ref by blast
    qed (simp add: returns_prim)
  qed
qed

lemma returns_values: "\<forall>t\<in>set ts. returns tds (Value t) \<Longrightarrow> \<exists>y. decode_values tds ts r = Some y"
proof (induction ts arbitrary: r)
  case (Cons t ts)
  then obtain y where "decode tds (Value t) r = Some y" unfolding returns_def by fastforce
  then show ?case using Cons by (cases y) (auto simp: Option.bind_eq_Some_conv)
qed simp

text \<open>C13: The decoder comes to an end on every message in whose table of types no type contains itself: when
  the graph of the pointers, which leads through optionals, vectors, records and variants, has no cycle. It ends with
  values, with an error, or with the panic of an allocation of an impossible length (\<open>Inl Panic\<close>), but never runs on
  without end. A message whose header is not read is such a message.\<close>

theorem decode_returns:
  assumes "\<And>tds ts r. decode_header bs = Inr ((tds, ts), r) \<Longrightarrow> acyclic (points tds)"
  shows "\<exists>y. Decode bs = Some y"
proof (cases "decode_header bs")
  case (Inr h)
  then obtain tds ts r where h: "decode_header bs = Inr ((tds, ts), r)" by (metis prod.collapse)
  have wf: "wf (points tds)" using finite_acyclic_wf [OF finite_points assms [OF h]] .
  have "returns tds (Value t)" if "t \<in> set ts" for t
  proof (cases t)
    case (Ref j)
    then show ?thesis using decode_header_closed [OF h] that returns_ref [OF _ wf] by fastforce
  qed (simp add: returns_prim)
  then obtain y where "decode_values tds ts r = Some y" using returns_values by blast
  then show ?thesis by (auto simp: Decode_def h)
qed (auto simp: Decode_def)

theorem decode_returns_witness:
  "acyclic (points [Some (EVec (Prim (TNat 1)))]) \<and> (\<exists>y. Decode (string_bytes ''DIDL'' @ [1, 0x6D, 0x7B, 1, 0, 2, 7, 9]) = Some y)"
proof -
  have h: "decode_header (string_bytes ''DIDL'' @ [1, 0x6D, 0x7B, 1, 0, 2, 7, 9]) = Inr (([Some (EVec (Prim (TNat 1)))], [Ref 0]), [2, 7, 9])"
    by code_simp
  have a: "acyclic (points [Some (EVec (Prim (TNat 1)))])"
  proof -
    have "points [Some (EVec (Prim (TNat 1)))] = {}" by (auto simp: points_def)
    then show ?thesis by (simp add: acyclic_def)
  qed
  show ?thesis using a decode_returns [of "string_bytes ''DIDL'' @ [1, 0x6D, 0x7B, 1, 0, 2, 7, 9]"] h by auto
qed

text \<open>Such a panic: the message announces a text of \<open>2^49\<close> bytes, and the length is allocated before it is read.\<close>

lemma huge_text_panics: "Decode (string_bytes ''DIDL'' @ [0, 1, 0x71, 0x80, 0x80, 0x80, 0x80, 0x80, 0x80, 0x80, 1]) = Some (Inl Panic)"
proof -
  have h: "decode_header (string_bytes ''DIDL'' @ [0, 1, 0x71, 0x80, 0x80, 0x80, 0x80, 0x80, 0x80, 0x80, 1])
      = Inr (([], [Prim TText]), [0x80, 0x80, 0x80, 0x80, 0x80, 0x80, 0x80, 1])"
    by code_simp
  have d: "decode_text [0x80, 0x80, 0x80, 0x80, 0x80, 0x80, 0x80, 1] = Inl Panic" by code_simp
  show ?thesis by (simp add: Decode_def h d)
qed

end
