(* ===== verification/CantonAddress.thy ===== *)
theory CantonAddress
  imports Prelude
begin

text \<open>
  Canton party ids: the address of a public key and its checks (\<^verbatim>\<open>chain/canton/address/address.go\<close>,
  \<^verbatim>\<open>chain/canton/validate.go\<close>). A party id is a name and a fingerprint, parted by two colons. SHA-256
  is the parameter \<open>sha\<close>.
\<close>

subsection \<open>Separators\<close>

text \<open>\<^verbatim>\<open>strings.Index\<close> and \<^verbatim>\<open>strings.Split\<close> for \<^verbatim>\<open>"::"\<close>.\<close>

fun index_colons :: "string \<Rightarrow> nat option" where
  "index_colons [] = None"
| "index_colons [c] = None"
| "index_colons (c # d # s) = (if c = CHR '':'' \<and> d = CHR '':'' then Some 0 else map_option Suc (index_colons (d # s)))"

fun split_colons :: "string \<Rightarrow> string list" where
  "split_colons [] = [[]]"
| "split_colons [c] = [[c]]"
| "split_colons (c # d # s) = (if c = CHR '':'' \<and> d = CHR '':'' then [] # split_colons s
     else (case split_colons (d # s) of [] \<Rightarrow> [[c]] | w # ws \<Rightarrow> (c # w) # ws))"

lemma split_colons_index: "split_colons s = (case index_colons s of None \<Rightarrow> [s]
    | Some i \<Rightarrow> take i s # split_colons (drop (i + 2) s))"
  by (induction s rule: split_colons.induct) (auto split: option.splits)

lemma index_colons_Some: "index_colons s = Some i \<Longrightarrow> s = take i s @ ''::'' @ drop (i + 2) s \<and> index_colons (take i s) = None"
proof (induction s arbitrary: i rule: index_colons.induct)
  case (3 c d s)
  show ?case
  proof (cases "c = CHR '':'' \<and> d = CHR '':''")
    case False
    then obtain j where j: "i = Suc j" "index_colons (d # s) = Some j" using 3(2) by auto
    then have IH: "d # s = take j (d # s) @ ''::'' @ drop (j + 2) (d # s)" "index_colons (take j (d # s)) = None"
      using 3(1) [OF False] by blast+
    have "index_colons (c # take j (d # s)) = None" using IH(2) False by (cases j) auto
    then show ?thesis using IH(1) j(1) by simp
  qed (use 3(2) in auto)
qed auto

lemma index_colons_append: "index_colons s = None \<Longrightarrow> s \<noteq> [] \<Longrightarrow> last s \<noteq> CHR '':'' \<Longrightarrow> index_colons (s @ ''::'' @ t) = Some (length s)"
proof (induction s rule: index_colons.induct)
  case (3 c d s)
  then show ?case by (auto split: if_splits)
qed auto

lemma index_colons_no_colon: "CHR '':'' \<notin> set s \<Longrightarrow> index_colons s = None"
  by (induction s rule: index_colons.induct) auto

lemma contains_colons: "contains_str s ''::'' \<longleftrightarrow> index_colons s \<noteq> None"
  by (induction s rule: index_colons.induct) (auto simp: has_prefix_def)

subsection \<open>Fingerprints and addresses\<close>

datatype party_error =
    KeyLength nat
  | NoSeparator
  | FingerprintPrefix
  | NameNotHex
  | FingerprintMismatch string string
  | EmptyAddress
  | PartCount
  | NameEmpty
  | NameLong
  | NameCharacters
  | NameColons
  | FingerprintLength
  | FingerprintNotHex

definition cantonPublicKeyFingerprintHashPurpose :: bytes where
  "cantonPublicKeyFingerprintHashPurpose = [0, 0, 0, 12]"

definition FingerprintFromPublicKey :: "(bytes \<Rightarrow> bytes) \<Rightarrow> bytes \<Rightarrow> party_error + string" where
  "FingerprintFromPublicKey sha rawPubKey = (if length rawPubKey \<noteq> 32 then Inl (KeyLength (length rawPubKey))
     else Inr (''1220'' @ hex_encode (map unat (sha (cantonPublicKeyFingerprintHashPurpose @ rawPubKey)))))"

definition GetAddressFromPublicKey :: "(bytes \<Rightarrow> bytes) \<Rightarrow> bytes \<Rightarrow> party_error + string" where
  "GetAddressFromPublicKey sha publicKeyBytes = andThen (FingerprintFromPublicKey sha publicKeyBytes) (\<lambda>fingerprint.
     let name = hex_encode (map unat publicKeyBytes) in Inr (name @ ''::'' @ fingerprint))"

definition ParsePartyID :: "string \<Rightarrow> party_error + string \<times> string" where
  "ParsePartyID s = (case index_colons s of None \<Rightarrow> Inl NoSeparator | Some idx \<Rightarrow>
     (let name = take idx s; fingerprint = drop (idx + 2) s
      in if length fingerprint < 4 \<or> take 4 fingerprint \<noteq> ''1220'' then Inl FingerprintPrefix
         else Inr (name, fingerprint)))"

definition FingerprintFromPartyID :: "(bytes \<Rightarrow> bytes) \<Rightarrow> string \<Rightarrow> party_error + string" where
  "FingerprintFromPartyID sha addr = andThen (ParsePartyID addr) (\<lambda>(name, fingerprint).
     case hex_decode name of None \<Rightarrow> Inl NameNotHex | Some publicKeyBytes \<Rightarrow>
       andThen (FingerprintFromPublicKey sha (map of_nat publicKeyBytes)) (\<lambda>computed.
         if computed \<noteq> fingerprint then Inl (FingerprintMismatch computed fingerprint) else Inr computed))"

subsection \<open>Validation\<close>

definition party_char :: "char \<Rightarrow> bool" where
  "party_char c \<longleftrightarrow> (let n = of_char c :: nat in 97 \<le> n \<and> n \<le> 122 \<or> 65 \<le> n \<and> n \<le> 90 \<or> 48 \<le> n \<and> n \<le> 57
     \<or> c \<in> set '':-_ '')"

definition validatePartyName :: "string \<Rightarrow> party_error + unit" where
  "validatePartyName name = (if length name = 0 then Inl NameEmpty
     else if length name > 185 then Inl NameLong
     else if \<not> list_all party_char name then Inl NameCharacters
     else if contains_str name ''::'' then Inl NameColons else Inr ())"

definition validateFingerprint :: "string \<Rightarrow> party_error + unit" where
  "validateFingerprint fingerprint = (if \<not> has_prefix fingerprint ''1220'' then Inl FingerprintPrefix
     else (let hexPart = drop 4 fingerprint in if length hexPart \<noteq> 64 then Inl FingerprintLength
       else (case hex_decode hexPart of None \<Rightarrow> Inl FingerprintNotHex | Some _ \<Rightarrow> Inr ())))"

definition ValidateAddress :: "string \<Rightarrow> party_error + unit" where
  "ValidateAddress addr = (if addr = [] then Inl EmptyAddress
     else (case split_colons addr of [name, fingerprint] \<Rightarrow>
         andThen (validatePartyName name) (\<lambda>_. andThen (validateFingerprint fingerprint) (\<lambda>_. Inr ()))
       | _ \<Rightarrow> Inl PartCount))"

subsection \<open>Addresses of keys\<close>

lemma hex_encode_chars: "\<forall>b\<in>set bs. b < 256 \<Longrightarrow> c \<in> set (hex_encode bs) \<Longrightarrow> \<exists>n<16. c = hex_char n"
proof (induction bs)
  case (Cons b bs)
  have "b div 16 < 16" "b mod 16 < 16" using Cons by (simp_all add: less_mult_imp_div_less)
  moreover have "c = hex_char (b div 16) \<or> c = hex_char (b mod 16) \<or> c \<in> set (hex_encode bs)" using Cons(3) by simp
  ultimately show ?case using Cons by (metis list.set_intros(2))
qed simp

lemma length_hex_encode [simp]: "length (hex_encode bs) = 2 * length bs"
  by (induction bs) simp_all

lemma hex_char_party:
  assumes "n < 16"
  shows "party_char (hex_char n) \<and> hex_char n \<noteq> CHR '':''"
proof -
  have c: "of_char (hex_char n) = (if n < 10 then n + 48 else n + 87)" using assms by (simp add: hex_char_def)
  have "of_char (hex_char n) \<noteq> (58 :: nat)" using assms unfolding c by simp
  then have "hex_char n \<noteq> CHR '':''" by auto
  then show ?thesis using assms by (auto simp: party_char_def c)
qed

lemma hex_of_bytes:
  fixes bs :: bytes
  defines "h \<equiv> hex_encode (map unat bs)"
  shows "hex_decode h = Some (map unat bs)" "CHR '':'' \<notin> set h" "list_all party_char h" "index_colons h = None"
proof -
  have b: "\<forall>b\<in>set (map unat bs). b < 256" using byte_less by auto
  show "hex_decode h = Some (map unat bs)" using hex_decode_encode [OF b] by (simp add: h_def)
  have c: "\<exists>n<16. c = hex_char n" if "c \<in> set h" for c using hex_encode_chars [OF b] that by (simp add: h_def)
  show "list_all party_char h" using c hex_char_party by (auto simp: list_all_iff)
  show n: "CHR '':'' \<notin> set h" using c hex_char_party by metis
  show "index_colons h = None" by (rule index_colons_no_colon [OF n])
qed

lemma split_party:
  assumes "CHR '':'' \<notin> set n" "n \<noteq> []" "CHR '':'' \<notin> set f"
  shows "index_colons (n @ ''::'' @ f) = Some (length n)" "split_colons (n @ ''::'' @ f) = [n, f]"
proof -
  show i: "index_colons (n @ ''::'' @ f) = Some (length n)"
    using assms by (intro index_colons_append index_colons_no_colon) (auto dest: last_in_set)
  have "split_colons f = [f]" using split_colons_index [of f] index_colons_no_colon [OF assms(3)] by simp
  then show "split_colons (n @ ''::'' @ f) = [n, f]" using split_colons_index [of "n @ ''::'' @ f"] i by simp
qed

text \<open>C39: The address of a public key of 32 bytes is a valid party id, from which its name and fingerprint are read back, and the
  fingerprint recomputed from it is the one it holds.\<close>

theorem canton_address_round_trip:
  assumes sha: "\<And>x. length (sha x) = 32" and key: "length key = 32"
  shows "\<exists>addr name fp. GetAddressFromPublicKey sha key = Inr addr \<and> FingerprintFromPublicKey sha key = Inr fp
    \<and> hex_decode name = Some (map unat key) \<and> ParsePartyID addr = Inr (name, fp)
    \<and> FingerprintFromPartyID sha addr = Inr fp \<and> ValidateAddress addr = Inr ()"
proof -
  define d where "d = sha (cantonPublicKeyFingerprintHashPurpose @ key)"
  define n where "n = hex_encode (map unat key)"
  define f where "f = ''1220'' @ hex_encode (map unat d)"
  have F: "FingerprintFromPublicKey sha key = Inr f" using key by (simp add: FingerprintFromPublicKey_def f_def d_def)
  then have A: "GetAddressFromPublicKey sha key = Inr (n @ ''::'' @ f)" by (simp add: GetAddressFromPublicKey_def n_def)
  have n: "CHR '':'' \<notin> set n" "n \<noteq> []" "length n = 64" "hex_decode n = Some (map unat key)" "list_all party_char n" "index_colons n = None"
    using hex_of_bytes [of key] key by (auto simp: n_def)
  have f: "CHR '':'' \<notin> set f" "length (drop 4 f) = 64" "hex_decode (drop 4 f) = Some (map unat d)" "has_prefix f ''1220''"
    using hex_of_bytes [of d] sha by (auto simp: f_def d_def has_prefix_def)
  note s = split_party [OF n(1,2) f(1)]
  have P: "ParsePartyID (n @ ''::'' @ f) = Inr (n, f)" by (simp add: ParsePartyID_def s(1) [simplified]) (simp add: f_def)
  have "map of_nat (map unat key) = key" by (simp add: o_def)
  then have "FingerprintFromPartyID sha (n @ ''::'' @ f) = Inr f"
    unfolding FingerprintFromPartyID_def P using n(4) F by simp
  moreover have "ValidateAddress (n @ ''::'' @ f) = Inr ()"
    unfolding ValidateAddress_def s using n f by (simp add: validatePartyName_def validateFingerprint_def contains_colons)
  ultimately show ?thesis using A F P n(4) by blast
qed

theorem canton_address_round_trip_witness:
  "\<exists>addr name fp. GetAddressFromPublicKey (\<lambda>x. take 32 (x @ replicate 32 0)) (replicate 32 171) = Inr addr
    \<and> FingerprintFromPublicKey (\<lambda>x. take 32 (x @ replicate 32 0)) (replicate 32 171) = Inr fp
    \<and> hex_decode name = Some (map unat (replicate 32 (171 :: byte))) \<and> ParsePartyID addr = Inr (name, fp)
    \<and> FingerprintFromPartyID (\<lambda>x. take 32 (x @ replicate 32 0)) addr = Inr fp \<and> ValidateAddress addr = Inr ()"
  by (rule canton_address_round_trip [of "\<lambda>x. take 32 (x @ replicate 32 0)" "replicate 32 171"]) simp_all

text \<open>The check accepts exactly the ids of these shapes, and \<^verbatim>\<open>ParsePartyID\<close> reads all of them.\<close>

lemma validated_address:
  assumes "ValidateAddress addr = Inr ()"
  shows "\<exists>name hex. addr = name @ ''::1220'' @ hex \<and> name \<noteq> [] \<and> length name \<le> 185 \<and> list_all party_char name
    \<and> length hex = 64 \<and> hex_decode hex \<noteq> None \<and> ParsePartyID addr = Inr (name, ''1220'' @ hex)"
proof -
  obtain n f where s: "split_colons addr = [n, f]" "validatePartyName n = Inr ()" "validateFingerprint f = Inr ()"
    using assms by (auto simp: ValidateAddress_def andThen_Inr split: if_split_asm list.split_asm)
  obtain i where i: "index_colons addr = Some i" "n = take i addr" "split_colons (drop (i + 2) addr) = [f]"
    using s(1) split_colons_index [of addr] by (cases "index_colons addr") auto
  have f: "f = drop (i + 2) addr"
    using i(3) split_colons_index [of "drop (i + 2) addr"] split_colons_index [of "drop (the (index_colons (drop (i + 2) addr)) + 2) (drop (i + 2) addr)"]
    by (auto split: option.split_asm)
  have a: "addr = n @ ''::'' @ f" using index_colons_Some [OF i(1)] i(2) f by simp
  have v': "take 4 f = ''1220''" "length (drop 4 f) = 64" "hex_decode (drop 4 f) \<noteq> None"
    using s(3) by (auto simp: validateFingerprint_def has_prefix_def Let_def numeral_eq_Suc split: if_split_asm option.split_asm)
  have v: "f = ''1220'' @ drop 4 f" using append_take_drop_id [of 4 f] v'(1) by metis
  have n: "n \<noteq> []" "length n \<le> 185" "list_all party_char n"
    using s(2) by (auto simp: validatePartyName_def split: if_split_asm)
  have "ParsePartyID addr = Inr (n, f)"
    using i f v' by (simp add: ParsePartyID_def)
  then show ?thesis using a v v' n by (intro exI [of _ n] exI [of _ "drop 4 f"]) simp
qed

end
