(* ===== verification/CantonValues.thy ===== *)
theory CantonValues
  imports Prelude
begin

text \<open>
  The encoding of Daml values that a Canton transaction is hashed from (\<^verbatim>\<open>chain/canton/tx_input/hash_validation.go\<close>), and
  why no two values share one. The messages are generated from protocol buffers: each pointer the
  code compares with nil is an option, and a list that is nil is the empty one, as its
  getter gives. A oneof that is not set is \<open>DUnset\<close>.
\<close>

subsection \<open>Values\<close>

record daml_id =
  id_package :: string
  id_module :: string
  id_entity :: string

datatype dvalue =
    DUnit
  | DBool bool
  | DInt64 i64
  | DNumeric string
  | DTimestamp i64
  | DDate u32
  | DParty string
  | DText string
  | DContractId string
  | DOptional "dvalue option option"
  | DList "dvalue option list"
  | DTextMap "(string \<times> dvalue option) option list"
  | DRecord "(daml_id option \<times> (string \<times> dvalue option) option list) option"
  | DVariant "(daml_id option \<times> string \<times> dvalue option) option"
  | DEnum "(daml_id option \<times> string) option"
  | DGenMap "(dvalue option \<times> dvalue option) option list"
  | DUnset

text \<open>What the hashing refuses.\<close>

datatype hash_error =
    NilPrepared
  | NilTransaction
  | NilMetadata
  | NilSubmitterInfo
  | NilNode
  | NilInputContract
  | NilValue
  | NilRecord
  | NilVariant
  | NilEnum
  | NilMapEntry
  | NilField
  | NilIdentifier
  | NilNodeType
  | InvalidHex string
  | NodeNotFound string
  | MissingSeed string
  | UnsupportedVersion
  | UnsupportedNode
  | UnsupportedValue
  | EmptyHash
  | HashMismatch bytes bytes

subsection \<open>Primitive encodings\<close>

definition encodeBool :: "bool \<Rightarrow> bytes" where
  "encodeBool b = (if b then [1] else [0])"

definition encodeInt32_be :: "u32 \<Rightarrow> bytes" where
  "encodeInt32_be w = rev (le_bytes 4 (unat w))"

definition encodeInt64_be :: "u64 \<Rightarrow> bytes" where
  "encodeInt64_be w = rev (le_bytes 8 (unat w))"

definition encodeBytes :: "bytes \<Rightarrow> bytes" where
  "encodeBytes v = encodeInt32_be (of_nat (length v)) @ v"

definition encodeString :: "string \<Rightarrow> bytes" where
  "encodeString s = encodeBytes (string_bytes s)"

definition encodeHash :: "bytes \<Rightarrow> bytes" where
  "encodeHash v = v"

definition encodeHexString :: "string \<Rightarrow> hash_error + bytes" where
  "encodeHexString s = (case hex_decode (trim_prefix s ''0x'') of
     None \<Rightarrow> Inl (InvalidHex s) | Some raw \<Rightarrow> Inr (encodeBytes (map of_nat raw)))"

definition encodeOptionalBytes :: "bytes option \<Rightarrow> (bytes \<Rightarrow> bytes) \<Rightarrow> bytes" where
  "encodeOptionalBytes v encodeFn = (case v of Some v \<Rightarrow> [1] @ encodeFn v | None \<Rightarrow> [0])"

definition encodeOptionalString :: "string \<Rightarrow> bytes" where
  "encodeOptionalString s = (if s \<noteq> [] then [1] @ encodeString s else [0])"

definition encodeOptionalUint64 :: "u64 option \<Rightarrow> bytes" where
  "encodeOptionalUint64 v = (case v of Some v \<Rightarrow> [1] @ encodeInt64_be v | None \<Rightarrow> [0])"

text \<open>The number of elements, then each; the first error ends it.\<close>

fun encode_each :: "('a \<Rightarrow> 'e + bytes) \<Rightarrow> 'a list \<Rightarrow> 'e + bytes" where
  "encode_each encodeFn [] = Inr []"
| "encode_each encodeFn (v # vs) = andThen (encodeFn v) (\<lambda>b. andThen (encode_each encodeFn vs) (\<lambda>bs. Inr (b @ bs)))"

definition encodeRepeated :: "('a \<Rightarrow> 'e + bytes) \<Rightarrow> 'a list \<Rightarrow> 'e + bytes" where
  "encodeRepeated encodeFn vs = andThen (encode_each encodeFn vs) (\<lambda>bs. Inr (encodeInt32_be (of_nat (length vs)) @ bs))"

definition encode_strings :: "string list \<Rightarrow> hash_error + bytes" where
  "encode_strings vs = encodeRepeated (\<lambda>v. Inr (encodeString v)) vs"

definition encodeIdentifier :: "daml_id option \<Rightarrow> hash_error + bytes" where
  "encodeIdentifier i = (case i of None \<Rightarrow> Inl NilIdentifier | Some i \<Rightarrow>
     andThen (encode_strings (split_char (CHR ''.'') (id_module i))) (\<lambda>moduleParts.
     andThen (encode_strings (split_char (CHR ''.'') (id_entity i))) (\<lambda>entityParts.
       Inr (encodeString (id_package i) @ moduleParts @ entityParts))))"

definition encodeProtoOptionalIdentifier :: "daml_id option \<Rightarrow> hash_error + bytes" where
  "encodeProtoOptionalIdentifier i = (case i of None \<Rightarrow> Inr [0]
     | Some _ \<Rightarrow> andThen (encodeIdentifier i) (\<lambda>b. Inr ([1] @ b)))"

subsection \<open>Values\<close>

text \<open>
  The functions for the parts of a value take the parts with their values already encoded, so that
  \<open>encodeValue\<close> is recursive on the value; \<open>encoded\<close> is \<^verbatim>\<open>encodeValue\<close> of a pointer.
\<close>

definition encoded :: "(hash_error + bytes) option \<Rightarrow> hash_error + bytes" where
  "encoded v = (case v of None \<Rightarrow> Inl NilValue | Some r \<Rightarrow> r)"

definition tagged :: "byte \<Rightarrow> hash_error + bytes \<Rightarrow> hash_error + bytes" where
  "tagged t r = andThen r (\<lambda>b. Inr (t # b))"

definition encodeTextMapEntry :: "(string \<times> (hash_error + bytes) option) option \<Rightarrow> hash_error + bytes" where
  "encodeTextMapEntry entry = (case entry of None \<Rightarrow> Inl NilMapEntry
     | Some (key, v) \<Rightarrow> andThen (encoded v) (\<lambda>v. Inr (encodeString key @ v)))"

definition encodeRecordField :: "(string \<times> (hash_error + bytes) option) option \<Rightarrow> hash_error + bytes" where
  "encodeRecordField field = (case field of None \<Rightarrow> Inl NilField
     | Some (label, v) \<Rightarrow> andThen (encoded v) (\<lambda>v. Inr (encodeOptionalString label @ v)))"

definition encodeGenMapEntry :: "((hash_error + bytes) option \<times> (hash_error + bytes) option) option \<Rightarrow> hash_error + bytes" where
  "encodeGenMapEntry entry = (case entry of None \<Rightarrow> Inl NilMapEntry
     | Some (key, v) \<Rightarrow> andThen (encoded key) (\<lambda>key. andThen (encoded v) (\<lambda>v. Inr (key @ v))))"

definition encodeOptionalValue :: "(hash_error + bytes) option option \<Rightarrow> hash_error + bytes" where
  "encodeOptionalValue opt = (case opt of
     Some (Some v) \<Rightarrow> andThen v (\<lambda>encoded. Inr ([9] @ [1] @ encoded))
   | _ \<Rightarrow> Inr ([9] @ [0]))"

definition encodeRecordValue
  :: "(daml_id option \<times> (string \<times> (hash_error + bytes) option) option list) option \<Rightarrow> hash_error + bytes" where
  "encodeRecordValue r = (case r of None \<Rightarrow> Inl NilRecord | Some (i, fs) \<Rightarrow>
     andThen (encodeProtoOptionalIdentifier i) (\<lambda>recordID.
     andThen (encodeRepeated encodeRecordField fs) (\<lambda>fields. Inr ([12] @ recordID @ fields))))"

definition encodeVariantValue
  :: "(daml_id option \<times> string \<times> (hash_error + bytes) option) option \<Rightarrow> hash_error + bytes" where
  "encodeVariantValue variant = (case variant of None \<Rightarrow> Inl NilVariant | Some (i, c, v) \<Rightarrow>
     andThen (encodeProtoOptionalIdentifier i) (\<lambda>variantID.
     andThen (encoded v) (\<lambda>v. Inr ([13] @ variantID @ encodeString c @ v))))"

definition encodeEnumValue :: "(daml_id option \<times> string) option \<Rightarrow> hash_error + bytes" where
  "encodeEnumValue enum = (case enum of None \<Rightarrow> Inl NilEnum | Some (i, c) \<Rightarrow>
     andThen (encodeProtoOptionalIdentifier i) (\<lambda>enumID. Inr ([14] @ enumID @ encodeString c)))"

primrec encodeValue :: "dvalue \<Rightarrow> hash_error + bytes" where
  "encodeValue DUnit = Inr [0]"
| "encodeValue (DBool b) = Inr ([1] @ encodeBool b)"
| "encodeValue (DInt64 w) = Inr ([2] @ encodeInt64_be w)"
| "encodeValue (DNumeric s) = Inr ([3] @ encodeString s)"
| "encodeValue (DTimestamp w) = Inr ([4] @ encodeInt64_be w)"
| "encodeValue (DDate w) = Inr ([5] @ encodeInt32_be w)"
| "encodeValue (DParty s) = Inr ([6] @ encodeString s)"
| "encodeValue (DText s) = Inr ([7] @ encodeString s)"
| "encodeValue (DContractId s) = tagged 8 (encodeHexString s)"
| "encodeValue (DOptional v) = encodeOptionalValue (map_option (map_option encodeValue) v)"
| "encodeValue (DList vs) = tagged 10 (encodeRepeated encoded (map (map_option encodeValue) vs))"
| "encodeValue (DTextMap es) = tagged 11 (encodeRepeated encodeTextMapEntry
     (map (map_option (map_prod id (map_option encodeValue))) es))"
| "encodeValue (DRecord r) = encodeRecordValue (map_option (map_prod id
     (map (map_option (map_prod id (map_option encodeValue))))) r)"
| "encodeValue (DVariant r) = encodeVariantValue (map_option (map_prod id (map_prod id (map_option encodeValue))) r)"
| "encodeValue (DEnum r) = encodeEnumValue r"
| "encodeValue (DGenMap es) = tagged 15 (encodeRepeated encodeGenMapEntry
     (map (map_option (map_prod (map_option encodeValue) (map_option encodeValue))) es))"
| "encodeValue DUnset = Inl UnsupportedValue"

definition encode_value :: "dvalue option \<Rightarrow> hash_error + bytes" where
  "encode_value v = encoded (map_option encodeValue v)"

definition encodeProtoOptionalValue :: "dvalue option \<Rightarrow> hash_error + bytes" where
  "encodeProtoOptionalValue v = (case v of None \<Rightarrow> Inr [0]
     | Some v \<Rightarrow> andThen (encodeValue v) (\<lambda>b. Inr ([1] @ b)))"

end
