(* ===== verification/CantonCodes.thy ===== *)
theory CantonCodes
  imports CantonValues
begin

text \<open>
  The encoding of Daml values is a prefix code: what is read back from it, and where it ends, are
  determined by its bytes. All lengths are written in 32 bits, so this is about
  encodings of less than four gigabytes (\<open>short\<close>).
\<close>

subsection \<open>Prefix codes\<close>

definition short :: "bytes \<Rightarrow> bool" where
  "short b \<longleftrightarrow> length b < 2 ^ 32"

lemma short_append: "short (a @ b) \<Longrightarrow> short a" "short (a @ b) \<Longrightarrow> short b"
  by (simp_all add: short_def)

lemma short_Cons: "short (x # b) \<Longrightarrow> short b"
  by (simp add: short_def)

text \<open>\<open>view x\<close> is what the encoding of \<open>x\<close> determines.\<close>

definition uniquely :: "('a \<Rightarrow> 'e + bytes) \<Rightarrow> ('a \<Rightarrow> 'b) \<Rightarrow> 'a \<Rightarrow> bool" where
  "uniquely enc view x \<longleftrightarrow> (\<forall>y b c r s. enc x = Inr b \<longrightarrow> enc y = Inr c \<longrightarrow> short b \<longrightarrow> short c
     \<longrightarrow> b @ r = c @ s \<longrightarrow> view x = view y \<and> r = s)"

lemma uniquelyI: "(\<And>y b c r s. enc x = Inr b \<Longrightarrow> enc y = Inr c \<Longrightarrow> short b \<Longrightarrow> short c \<Longrightarrow> b @ r = c @ s
    \<Longrightarrow> view x = view y \<and> r = s) \<Longrightarrow> uniquely enc view x"
  unfolding uniquely_def by blast

lemma uniquelyD: "uniquely enc view x \<Longrightarrow> enc x = Inr b \<Longrightarrow> enc y = Inr c \<Longrightarrow> short b \<Longrightarrow> short c
    \<Longrightarrow> b @ r = c @ s \<Longrightarrow> view x = view y \<and> r = s"
  unfolding uniquely_def by blast

definition solid :: "('a \<Rightarrow> 'e + bytes) \<Rightarrow> bool" where
  "solid enc \<longleftrightarrow> (\<forall>x b. enc x = Inr b \<longrightarrow> b \<noteq> [])"

lemma encode_each_unique:
  assumes "\<forall>x\<in>set xs. uniquely enc view x" and "length xs = length ys"
    and "encode_each enc xs = Inr b" and "encode_each enc ys = Inr c" and "short b" and "short c" and "b @ r = c @ s"
  shows "map view xs = map view ys \<and> r = s"
  using assms
proof (induction xs ys arbitrary: b c rule: list_induct2')
  case (4 x xs y ys)
  obtain bx bxs where b: "enc x = Inr bx" "encode_each enc xs = Inr bxs" "b = bx @ bxs"
    using 4(4) by (auto simp: andThen_Inr)
  obtain cy cys where c: "enc y = Inr cy" "encode_each enc ys = Inr cys" "c = cy @ cys"
    using 4(5) by (auto simp: andThen_Inr)
  have sh: "short bx" "short bxs" "short cy" "short cys"
    using 4(6,7) b(3) c(3) short_append by blast+
  have "bx @ bxs @ r = cy @ cys @ s" using 4(8) b(3) c(3) by simp
  then have "view x = view y \<and> bxs @ r = cys @ s"
    using 4(2) uniquelyD [of enc view x bx y cy "bxs @ r" "cys @ s"] b(1) c(1) sh(1,3) by simp
  moreover from this have "map view xs = map view ys \<and> r = s"
    using 4(1) [OF _ _ b(2) c(2) sh(2,4)] 4(2,3) by simp
  ultimately show ?case by simp
qed simp_all

lemma encode_each_length: "solid enc \<Longrightarrow> encode_each enc xs = Inr b \<Longrightarrow> length xs \<le> length b"
proof (induction xs arbitrary: b)
  case (Cons x xs)
  then obtain bx bxs where b: "enc x = Inr bx" "encode_each enc xs = Inr bxs" "b = bx @ bxs"
    by (auto simp: andThen_Inr)
  then have "1 \<le> length bx" using Cons(2) by (auto simp: solid_def Suc_le_eq)
  then show ?case using Cons(1) [OF Cons(2) b(2)] b(3) by simp
qed simp

lemma encode_each_map: "encode_each enc (map f xs) = encode_each (\<lambda>x. enc (f x)) xs"
  by (induction xs) simp_all

lemma encodeRepeated_map: "encodeRepeated enc (map f xs) = encodeRepeated (\<lambda>x. enc (f x)) xs"
  by (simp add: encodeRepeated_def encode_each_map)

subsection \<open>Numbers and strings\<close>

lemma encodeInt_length [simp]: "length (encodeInt32_be w) = 4" "length (encodeInt64_be v) = 8"
  by (simp_all add: encodeInt32_be_def encodeInt64_be_def)

lemma le_bytes_inj: "le_bytes n a = le_bytes n b \<Longrightarrow> a < 256 ^ n \<Longrightarrow> b < 256 ^ n \<Longrightarrow> a = b"
  by (metis le_value_le_bytes mod_less)

lemma unat_less32: "unat (v :: u32) < 4294967296"
  using unsigned_less [of v] by simp

lemma unat_less64: "unat (v :: u64) < 18446744073709551616"
  using unsigned_less [of v] by simp

lemma encodeInt32_be_inj [simp]: "encodeInt32_be v = encodeInt32_be w \<longleftrightarrow> v = w"
proof
  assume "encodeInt32_be v = encodeInt32_be w"
  then have "unat v = unat w"
    using unat_less32 [of v] unat_less32 [of w] by (intro le_bytes_inj [of 4]) (simp_all add: encodeInt32_be_def)
  then show "v = w" by (simp add: word_unat_eq_iff)
qed simp

lemma encodeInt64_be_inj [simp]: "encodeInt64_be v = encodeInt64_be w \<longleftrightarrow> v = w"
proof
  assume "encodeInt64_be v = encodeInt64_be w"
  then have "unat v = unat w"
    using unat_less64 [of v] unat_less64 [of w] by (intro le_bytes_inj [of 8]) (simp_all add: encodeInt64_be_def)
  then show "v = w" by (simp add: word_unat_eq_iff)
qed simp

lemma encodeBool_inj [simp]: "encodeBool a @ r = encodeBool b @ s \<longleftrightarrow> a = b \<and> r = s"
  by (auto simp: encodeBool_def)

lemma length_inj: "m < 2 ^ 32 \<Longrightarrow> n < 2 ^ 32 \<Longrightarrow> (of_nat m :: u32) = of_nat n \<longleftrightarrow> m = n"
proof
  assume "m < 2 ^ 32" "n < 2 ^ 32" "(of_nat m :: u32) = of_nat n"
  then have "unat (of_nat m :: u32) = unat (of_nat n :: u32)" by simp
  with \<open>m < 2 ^ 32\<close> \<open>n < 2 ^ 32\<close> show "m = n" by (simp add: unat_of_nat)
qed simp

lemma encodeBytes_unique:
  assumes "encodeBytes a @ r = encodeBytes b @ s" and "short (encodeBytes a)" and "short (encodeBytes b)"
  shows "a = b \<and> r = s"
proof -
  have "length a < 2 ^ 32" "length b < 2 ^ 32" using assms(2,3) by (auto simp: encodeBytes_def short_def)
  moreover have "encodeInt32_be (of_nat (length a)) = encodeInt32_be (of_nat (length b)) \<and> a @ r = b @ s"
    using assms(1) by (simp add: encodeBytes_def)
  ultimately have "length a = length b" by (simp add: length_inj)
  with assms(1) show ?thesis by (simp add: encodeBytes_def)
qed

lemma string_bytes_inj [simp]: "string_bytes s = string_bytes t \<longleftrightarrow> s = t"
proof
  assume "string_bytes s = string_bytes t"
  moreover have "inj (of_char :: char \<Rightarrow> byte)"
  proof (rule injI)
    fix a b :: char assume "(of_char a :: byte) = of_char b"
    then have "unat (of_nat (of_char a) :: byte) = unat (of_nat (of_char b) :: byte)" by (simp add: of_nat_of_char)
    then have "(of_char a :: nat) = of_char b" by (simp add: unat_of_nat)
    then show "a = b" by simp
  qed
  ultimately show "s = t" by (simp add: string_bytes_def inj_map_eq_map)
qed simp

lemma encodeString_unique:
  "encodeString a @ r = encodeString b @ s \<Longrightarrow> short (encodeString a) \<Longrightarrow> short (encodeString b) \<Longrightarrow> a = b \<and> r = s"
  unfolding encodeString_def by (drule (2) encodeBytes_unique) simp

lemma encodeInt32_be_solid [simp]: "encodeInt32_be w \<noteq> []"
proof
  assume "encodeInt32_be w = []"
  then have "length (encodeInt32_be w) = length ([] :: bytes)" by (rule arg_cong)
  then show False unfolding encodeInt_length by simp
qed

lemma encodeInt64_be_solid [simp]: "encodeInt64_be w \<noteq> []"
proof
  assume "encodeInt64_be w = []"
  then have "length (encodeInt64_be w) = length ([] :: bytes)" by (rule arg_cong)
  then show False unfolding encodeInt_length by simp
qed

lemma solid_bytes [simp]: "encodeBytes b \<noteq> []" "encodeString a \<noteq> []"
  by (simp_all add: encodeBytes_def encodeString_def)

subsection \<open>The locale\<close>

locale prefix_code =
  fixes enc :: "'a \<Rightarrow> hash_error + bytes" and view :: "'a \<Rightarrow> 'b"
  assumes unique: "uniquely enc view x" and sound: "solid enc"
begin

lemma step: "enc x = Inr b \<Longrightarrow> enc y = Inr c \<Longrightarrow> short b \<Longrightarrow> short c \<Longrightarrow> b @ r = c @ s \<Longrightarrow> view x = view y \<and> r = s"
  by (rule uniquelyD [OF unique])

lemma same: "enc x = Inr b \<Longrightarrow> enc y = Inr b \<Longrightarrow> short b \<Longrightarrow> view x = view y"
  using step [of x b y b "[]" "[]"] by simp

end

lemma encodeRepeated_unique:
  assumes "\<forall>x\<in>set xs. uniquely enc view x" and "solid enc"
  shows "uniquely (encodeRepeated enc) (map view) xs"
proof (rule uniquelyI)
  fix ys b c r s
  assume "encodeRepeated enc xs = Inr b" "encodeRepeated enc ys = Inr c" and sh: "short b" "short c" and eq: "b @ r = c @ s"
  then obtain bs cs where b: "encode_each enc xs = Inr bs" "b = encodeInt32_be (of_nat (length xs)) @ bs"
    and c: "encode_each enc ys = Inr cs" "c = encodeInt32_be (of_nat (length ys)) @ cs"
    by (auto simp: encodeRepeated_def andThen_Inr)
  have "length xs < 2 ^ 32" "length ys < 2 ^ 32" "short bs" "short cs"
    using sh b(2) c(2) encode_each_length [OF assms(2) b(1)] encode_each_length [OF assms(2) c(1)]
    by (auto simp: short_def)
  moreover have e: "encodeInt32_be (of_nat (length xs)) = encodeInt32_be (of_nat (length ys)) \<and> bs @ r = cs @ s"
    using eq b(2) c(2) by simp
  ultimately have "length xs = length ys" by (simp add: length_inj)
  then show "map view xs = map view ys \<and> r = s"
    using encode_each_unique [OF assms(1) _ b(1) c(1) \<open>short bs\<close> \<open>short cs\<close>] e by blast
qed

lemma encodeRepeated_solid: "solid (encodeRepeated enc)"
  by (auto simp: solid_def encodeRepeated_def andThen_Inr)

lemma prefix_code_repeated: "prefix_code enc view \<Longrightarrow> prefix_code (encodeRepeated enc) (map view)"
  by (auto simp: prefix_code_def intro: encodeRepeated_unique encodeRepeated_solid)

interpretation strings: prefix_code encode_strings "\<lambda>x. x"
proof -
  have "uniquely (\<lambda>v. Inr (encodeString v)) (\<lambda>x. x) v" for v
    by (rule uniquelyI) (auto dest: encodeString_unique)
  then have "prefix_code (encodeRepeated (\<lambda>v. Inr (encodeString v))) (map (\<lambda>x. x))"
    by (intro prefix_code_repeated prefix_code.intro) (simp_all add: solid_def)
  then show "prefix_code encode_strings (\<lambda>x. x)"
    unfolding encode_strings_def [abs_def] by simp
qed

subsection \<open>Identifiers and contract ids\<close>

lemma Nil_not_split_char [simp]: "[] \<noteq> split_char d s"
  using split_char_not_Nil by metis

lemma split_char_inj: "split_char d s = split_char d t \<Longrightarrow> s = t"
proof (induction s arbitrary: t)
  case Nil
  then show ?case by (cases t) (auto split: if_split_asm list.split_asm)
next
  case (Cons a s)
  then show ?case
    by (cases t) (auto split: if_split_asm list.split_asm)
qed

lemma encodeIdentifier_shape: "encodeIdentifier i = Inr b \<Longrightarrow> \<exists>x m e. i = Some x
   \<and> encode_strings (split_char (CHR ''.'') (id_module x)) = Inr m
   \<and> encode_strings (split_char (CHR ''.'') (id_entity x)) = Inr e \<and> b = encodeString (id_package x) @ m @ e"
  by (auto simp: encodeIdentifier_def andThen_Inr split: option.split_asm)

interpretation ident: prefix_code encodeIdentifier "\<lambda>x. x"
proof
  fix x
  show "uniquely encodeIdentifier (\<lambda>x. x) x"
  proof (rule uniquelyI)
    fix y b c r s
    assume xb: "encodeIdentifier x = Inr b" and yc: "encodeIdentifier y = Inr c" and sh: "short b" "short c" and eq: "b @ r = c @ s"
    obtain i m e where i: "x = Some i" "encode_strings (split_char (CHR ''.'') (id_module i)) = Inr m"
      "encode_strings (split_char (CHR ''.'') (id_entity i)) = Inr e" "b = encodeString (id_package i) @ m @ e"
      using encodeIdentifier_shape [OF xb] by blast
    obtain j m' e' where j: "y = Some j" "encode_strings (split_char (CHR ''.'') (id_module j)) = Inr m'"
      "encode_strings (split_char (CHR ''.'') (id_entity j)) = Inr e'" "c = encodeString (id_package j) @ m' @ e'"
      using encodeIdentifier_shape [OF yc] by blast
    have s: "short (encodeString (id_package i))" "short m" "short e" "short (encodeString (id_package j))" "short m'" "short e'"
      using sh i(4) j(4) by (auto simp: short_def)
    have 1: "id_package i = id_package j \<and> m @ e @ r = m' @ e' @ s"
      using eq i(4) j(4) s by (intro encodeString_unique) simp_all
    then have 2: "id_module i = id_module j \<and> e @ r = e' @ s"
      using strings.step [OF i(2) j(2) s(2,5)] split_char_inj by blast
    then have "id_entity i = id_entity j \<and> r = s"
      using strings.step [OF i(3) j(3) s(3,6)] split_char_inj by blast
    with 1 2 show "x = y \<and> r = s" using i(1) j(1) by (simp add: daml_id.equality)
  qed
next
  show "solid encodeIdentifier" by (auto simp: solid_def dest!: encodeIdentifier_shape)
qed

interpretation opt_ident: prefix_code encodeProtoOptionalIdentifier "\<lambda>x. x"
proof
  fix x
  show "uniquely encodeProtoOptionalIdentifier (\<lambda>x. x) x"
  proof (rule uniquelyI)
    fix y b c r s
    assume "encodeProtoOptionalIdentifier x = Inr b" "encodeProtoOptionalIdentifier y = Inr c"
      and "short b" "short c" "b @ r = c @ s"
    then show "x = y \<and> r = s"
      using ident.step [of x "tl b" y "tl c" r s]
      by (auto simp: encodeProtoOptionalIdentifier_def andThen_Inr short_Cons split: option.split_asm)
  qed
next
  show "solid encodeProtoOptionalIdentifier"
    by (auto simp: solid_def encodeProtoOptionalIdentifier_def andThen_Inr split: option.split_asm)
qed

text \<open>A contract id is determined up to the case of its digits and the prefix 0x.\<close>

definition canon_hex :: "string \<Rightarrow> string" where
  "canon_hex s = (case hex_decode (trim_prefix s ''0x'') of None \<Rightarrow> s | Some raw \<Rightarrow> hex_encode raw)"

lemma bytes_of_nats_inj:
  assumes "map (of_nat :: nat \<Rightarrow> byte) xs = map of_nat ys" and "\<forall>x\<in>set xs. x < 256" and "\<forall>y\<in>set ys. y < 256"
  shows "xs = ys"
proof -
  have "inj_on (of_nat :: nat \<Rightarrow> byte) (set xs \<union> set ys)"
  proof (rule inj_onI)
    fix a b :: nat assume "a \<in> set xs \<union> set ys" "b \<in> set xs \<union> set ys" "(of_nat a :: byte) = of_nat b"
    then show "a = b" using assms(2,3) by (metis Un_iff mod_less unat_of_mod256)
  qed
  then show ?thesis using assms(1) by (simp add: inj_on_map_eq_map)
qed

interpretation hex: prefix_code encodeHexString canon_hex
proof
  fix x
  show "uniquely encodeHexString canon_hex x"
  proof (rule uniquelyI)
    fix y b c r s
    assume "encodeHexString x = Inr b" "encodeHexString y = Inr c" and sh: "short b" "short c" and eq: "b @ r = c @ s"
    then obtain v w where v: "hex_decode (trim_prefix x ''0x'') = Some v" "b = encodeBytes (map of_nat v)"
      and w: "hex_decode (trim_prefix y ''0x'') = Some w" "c = encodeBytes (map of_nat w)"
      by (auto simp: encodeHexString_def split: option.split_asm)
    have "map (of_nat :: nat \<Rightarrow> byte) v = map of_nat w \<and> r = s"
      using eq sh v(2) w(2) by (intro encodeBytes_unique) simp_all
    then show "canon_hex x = canon_hex y \<and> r = s"
      using bytes_of_nats_inj [of v w] hex_decode_bytes [OF v(1)] hex_decode_bytes [OF w(1)]
      by (simp add: canon_hex_def v(1) w(1))
  qed
next
  show "solid encodeHexString" by (auto simp: solid_def encodeHexString_def split: option.split_asm)
qed

subsection \<open>Values\<close>

text \<open>What the encoding of a value determines: contract ids up to their spelling, and an empty optional however
  it is represented.\<close>

definition joined :: "'a option option \<Rightarrow> 'a option" where
  "joined v = (case v of Some w \<Rightarrow> w | None \<Rightarrow> None)"

primrec canon :: "dvalue \<Rightarrow> dvalue" where
  "canon DUnit = DUnit"
| "canon (DBool b) = DBool b"
| "canon (DInt64 w) = DInt64 w"
| "canon (DNumeric s) = DNumeric s"
| "canon (DTimestamp w) = DTimestamp w"
| "canon (DDate w) = DDate w"
| "canon (DParty s) = DParty s"
| "canon (DText s) = DText s"
| "canon (DContractId s) = DContractId (canon_hex s)"
| "canon (DOptional v) = DOptional (Some (joined (map_option (map_option canon) v)))"
| "canon (DList vs) = DList (map (map_option canon) vs)"
| "canon (DTextMap es) = DTextMap (map (map_option (map_prod id (map_option canon))) es)"
| "canon (DRecord r) = DRecord (map_option (map_prod id (map (map_option (map_prod id (map_option canon))))) r)"
| "canon (DVariant r) = DVariant (map_option (map_prod id (map_prod id (map_option canon))) r)"
| "canon (DEnum r) = DEnum r"
| "canon (DGenMap es) = DGenMap (map (map_option (map_prod (map_option canon) (map_option canon))) es)"
| "canon DUnset = DUnset"

primrec value_tag :: "dvalue \<Rightarrow> byte" where
  "value_tag DUnit = 0"
| "value_tag (DBool b) = 1"
| "value_tag (DInt64 w) = 2"
| "value_tag (DNumeric s) = 3"
| "value_tag (DTimestamp w) = 4"
| "value_tag (DDate w) = 5"
| "value_tag (DParty s) = 6"
| "value_tag (DText s) = 7"
| "value_tag (DContractId s) = 8"
| "value_tag (DOptional v) = 9"
| "value_tag (DList vs) = 10"
| "value_tag (DTextMap es) = 11"
| "value_tag (DRecord r) = 12"
| "value_tag (DVariant r) = 13"
| "value_tag (DEnum r) = 14"
| "value_tag (DGenMap es) = 15"
| "value_tag DUnset = 16"

lemma encodeValue_tag: "encodeValue v = Inr b \<Longrightarrow> \<exists>b'. b = value_tag v # b'"
  by (cases v) (auto simp: tagged_def andThen_Inr encodeOptionalValue_def encodeRecordValue_def encodeVariantValue_def
    encodeEnumValue_def split: option.split_asm prod.split_asm)

lemma same_tag: "encodeValue v = Inr b \<Longrightarrow> encodeValue w = Inr c \<Longrightarrow> b @ r = c @ s \<Longrightarrow> value_tag v = value_tag w"
  by (auto dest!: encodeValue_tag)

lemma uniquely_option:
  assumes "\<forall>x\<in>set_option v. uniquely f g x"
  shows "uniquely (\<lambda>v. encoded (map_option f v)) (map_option g) v"
proof (rule uniquelyI)
  fix w b c r s
  assume "encoded (map_option f v) = Inr b" "encoded (map_option f w) = Inr c" "short b" "short c" "b @ r = c @ s"
  then show "map_option g v = map_option g w \<and> r = s"
    using assms by (cases v; cases w) (auto simp: encoded_def dest: uniquelyD)
qed

lemma uniquely_prefixed:
  assumes "\<And>a b r s. f a @ r = f b @ s \<Longrightarrow> short (f a) \<Longrightarrow> short (f b) \<Longrightarrow> a = b \<and> r = s" and "uniquely enc view v"
    and "x = Some (k, v)" and "\<And>k v. enc' (Some (k, v)) = andThen (enc v) (\<lambda>b. Inr (f k @ b))" and "\<And>b. enc' None \<noteq> Inr b"
  shows "uniquely enc' (map_option (map_prod id view)) x"
proof (rule uniquelyI)
  fix y b c r s
  assume xb: "enc' x = Inr b" and yc: "enc' y = Inr c" and sh: "short b" "short c" and eq: "b @ r = c @ s"
  obtain l w where y: "y = Some (l, w)" using yc assms(5) by (cases y) auto
  obtain bv cw where bv: "enc v = Inr bv" "b = f k @ bv" and cw: "enc w = Inr cw" "c = f l @ cw"
    using xb yc y assms(3,4) by (auto simp: andThen_Inr)
  have s: "short (f k)" "short bv" "short (f l)" "short cw" using sh bv(2) cw(2) short_append by blast+
  have k: "k = l \<and> bv @ r = cw @ s" using eq bv(2) cw(2) s by (intro assms(1)) simp_all
  then have "view v = view w \<and> r = s" by (intro uniquelyD [OF assms(2) bv(1) cw(1) s(2,4)]) simp
  with k show "map_option (map_prod id view) x = map_option (map_prod id view) y \<and> r = s"
    using assms(3) y by simp
qed

lemma encodeOptionalString_unique:
  assumes "encodeOptionalString a @ r = encodeOptionalString b @ s" "short (encodeOptionalString a)" "short (encodeOptionalString b)"
  shows "a = b \<and> r = s"
  using assms encodeString_unique [of a r b s] by (auto simp: encodeOptionalString_def dest: short_Cons split: if_split_asm)

lemma text_map_entry:
  assumes "\<forall>p\<in>set_option e. \<forall>v\<in>set_option (snd p). uniquely encodeValue canon v"
  shows "uniquely (\<lambda>e. encodeTextMapEntry (map_option (map_prod id (map_option encodeValue)) e))
    (map_option (map_prod id (map_option canon))) e"
proof (cases e)
  case (Some p)
  obtain k v where p: "p = (k, v)" by (cases p)
  show ?thesis
    by (rule uniquely_prefixed [OF encodeString_unique uniquely_option [where v = v]])
      (use assms Some p in \<open>auto simp: encodeTextMapEntry_def\<close>)
qed (rule uniquelyI, simp add: encodeTextMapEntry_def)

lemma record_field:
  assumes "\<forall>p\<in>set_option e. \<forall>v\<in>set_option (snd p). uniquely encodeValue canon v"
  shows "uniquely (\<lambda>e. encodeRecordField (map_option (map_prod id (map_option encodeValue)) e))
    (map_option (map_prod id (map_option canon))) e"
proof (cases e)
  case (Some p)
  obtain k v where p: "p = (k, v)" by (cases p)
  show ?thesis
    by (rule uniquely_prefixed [OF encodeOptionalString_unique uniquely_option [where v = v]])
      (use assms Some p in \<open>auto simp: encodeRecordField_def\<close>)
qed (rule uniquelyI, simp add: encodeRecordField_def)

lemma gen_map_entry:
  assumes "\<forall>p\<in>set_option e. (\<forall>v\<in>set_option (fst p). uniquely encodeValue canon v)
    \<and> (\<forall>v\<in>set_option (snd p). uniquely encodeValue canon v)"
  shows "uniquely (\<lambda>e. encodeGenMapEntry (map_option (map_prod (map_option encodeValue) (map_option encodeValue)) e))
    (map_option (map_prod (map_option canon) (map_option canon))) e"
proof (rule uniquelyI)
  let ?enc = "\<lambda>v. encoded (map_option encodeValue v)"
  fix y b c r s
  assume "encodeGenMapEntry (map_option (map_prod (map_option encodeValue) (map_option encodeValue)) e) = Inr b"
    "encodeGenMapEntry (map_option (map_prod (map_option encodeValue) (map_option encodeValue)) y) = Inr c"
    and sh: "short b" "short c" and eq: "b @ r = c @ s"
  then obtain k v l w bk bv cl cw where e: "e = Some (k, v)" "?enc k = Inr bk" "?enc v = Inr bv" "b = bk @ bv"
    and y: "y = Some (l, w)" "?enc l = Inr cl" "?enc w = Inr cw" "c = cl @ cw"
    by (auto simp: encodeGenMapEntry_def andThen_Inr split: option.split_asm)
  have s: "short bk" "short bv" "short cl" "short cw" using sh e(4) y(4) short_append by blast+
  have u: "uniquely ?enc (map_option canon) k" "uniquely ?enc (map_option canon) v"
    using assms e(1) by (auto intro: uniquely_option)
  have "bk @ bv @ r = cl @ cw @ s" using eq e(4) y(4) by simp
  then have k: "map_option canon k = map_option canon l \<and> bv @ r = cw @ s"
    by (rule uniquelyD [OF u(1) e(2) y(2) s(1,3)])
  then have "map_option canon v = map_option canon w \<and> r = s"
    by (intro uniquelyD [OF u(2) e(3) y(3) s(2,4)]) simp
  with k show "map_option (map_prod (map_option canon) (map_option canon)) e
      = map_option (map_prod (map_option canon) (map_option canon)) y \<and> r = s"
    using e(1) y(1) by simp
qed

lemma solid_parts [simp]: "solid (\<lambda>v. encoded (map_option encodeValue v))"
  "solid (\<lambda>e. encodeTextMapEntry (map_option (map_prod id (map_option encodeValue)) e))"
  "solid (\<lambda>e. encodeRecordField (map_option (map_prod id (map_option encodeValue)) e))"
  "solid (\<lambda>e. encodeGenMapEntry (map_option (map_prod (map_option encodeValue) (map_option encodeValue)) e))"
  by (auto simp: solid_def encoded_def encodeTextMapEntry_def encodeRecordField_def encodeGenMapEntry_def
      encodeOptionalString_def andThen_Inr split: option.split_asm dest!: encodeValue_tag)

lemma list_unique: "\<forall>x\<in>set xs. uniquely enc view x \<Longrightarrow> solid enc \<Longrightarrow> encodeRepeated enc xs = Inr b
    \<Longrightarrow> encodeRepeated enc ys = Inr c \<Longrightarrow> short b \<Longrightarrow> short c \<Longrightarrow> b @ r = c @ s \<Longrightarrow> map view xs = map view ys \<and> r = s"
  by (rule uniquelyD [OF encodeRepeated_unique])

lemma tagged_Inr: "tagged t r = Inr b \<longleftrightarrow> (\<exists>b'. r = Inr b' \<and> b = t # b')"
  by (auto simp: tagged_def andThen_Inr)

lemma optional_unique:
  assumes "\<forall>w\<in>set_option v. \<forall>x\<in>set_option w. uniquely encodeValue canon x"
    and "encodeValue (DOptional v) = Inr b" and "encodeValue (DOptional y) = Inr c" and "short b" and "short c" and "b @ r = c @ s"
  shows "canon (DOptional v) = canon (DOptional y) \<and> r = s"
proof (cases "joined v"; cases "joined y")
  fix x z
  assume v: "joined v = Some x" and z: "joined y = Some z"
  then have "v = Some (Some x)" "y = Some (Some z)" by (auto simp: joined_def split: option.split_asm)
  moreover from this obtain bx cz where "encodeValue x = Inr bx" "b = 9 # 1 # bx" "encodeValue z = Inr cz" "c = 9 # 1 # cz"
    using assms(2,3) by (auto simp: encodeOptionalValue_def andThen_Inr)
  ultimately show ?thesis
    using assms(1,4-6) uniquelyD [of encodeValue canon x bx z cz r s] by (auto simp: joined_def short_def)
qed (use assms in \<open>auto simp: encodeOptionalValue_def joined_def andThen_Inr split: option.split_asm\<close>)

lemma record_unique:
  assumes "\<forall>p\<in>set_option v. \<forall>e\<in>set (snd p). \<forall>p\<in>set_option e. \<forall>x\<in>set_option (snd p). uniquely encodeValue canon x"
    and "encodeValue (DRecord v) = Inr b" and "encodeValue (DRecord y) = Inr c" and "short b" and "short c" and "b @ r = c @ s"
  shows "canon (DRecord v) = canon (DRecord y) \<and> r = s"
proof -
  let ?enc = "\<lambda>e. encodeRecordField (map_option (map_prod id (map_option encodeValue)) e)"
  obtain i fs bi bf where v: "v = Some (i, fs)" "encodeProtoOptionalIdentifier i = Inr bi"
    "encodeRepeated ?enc fs = Inr bf" "b = 12 # bi @ bf"
    using assms(2) by (auto simp: encodeRecordValue_def andThen_Inr encodeRepeated_map split: option.split_asm)
  obtain j gs cj cg where y: "y = Some (j, gs)" "encodeProtoOptionalIdentifier j = Inr cj"
    "encodeRepeated ?enc gs = Inr cg" "c = 12 # cj @ cg"
    using assms(3) by (auto simp: encodeRecordValue_def andThen_Inr encodeRepeated_map split: option.split_asm)
  have s: "short bi" "short bf" "short cj" "short cg" using assms(4,5) v(4) y(4) by (auto simp: short_def)
  have i: "i = j \<and> bf @ r = cg @ s" using assms(6) v(4) y(4) by (intro opt_ident.step [OF v(2) y(2) s(1,3)]) simp
  have "\<forall>e\<in>set fs. uniquely ?enc (map_option (map_prod id (map_option canon))) e"
    using assms(1) v(1) by (auto intro!: record_field)
  then have "map (map_option (map_prod id (map_option canon))) fs = map (map_option (map_prod id (map_option canon))) gs \<and> r = s"
    by (rule list_unique [of fs ?enc _ bf gs cg r s]) (use v(3) y(3) s i in simp_all)
  with i v(1) y(1) show ?thesis by simp
qed

lemma variant_unique:
  assumes "\<forall>p\<in>set_option v. \<forall>x\<in>set_option (snd (snd p)). uniquely encodeValue canon x"
    and "encodeValue (DVariant v) = Inr b" and "encodeValue (DVariant y) = Inr c" and "short b" and "short c" and "b @ r = c @ s"
  shows "canon (DVariant v) = canon (DVariant y) \<and> r = s"
proof -
  let ?enc = "\<lambda>v. encoded (map_option encodeValue v)"
  obtain i k x bi bx where v: "v = Some (i, k, x)" "encodeProtoOptionalIdentifier i = Inr bi" "?enc x = Inr bx"
    "b = 13 # bi @ encodeString k @ bx"
    using assms(2) by (auto simp: encodeVariantValue_def andThen_Inr split: option.split_asm)
  obtain j l z cj cz where y: "y = Some (j, l, z)" "encodeProtoOptionalIdentifier j = Inr cj" "?enc z = Inr cz"
    "c = 13 # cj @ encodeString l @ cz"
    using assms(3) by (auto simp: encodeVariantValue_def andThen_Inr split: option.split_asm)
  have s: "short bi" "short (encodeString k)" "short bx" "short cj" "short (encodeString l)" "short cz"
    using assms(4,5) v(4) y(4) by (auto simp: short_def)
  have i: "i = j \<and> encodeString k @ bx @ r = encodeString l @ cz @ s"
    using assms(6) v(4) y(4) by (intro opt_ident.step [OF v(2) y(2) s(1,4)]) simp
  then have k: "k = l \<and> bx @ r = cz @ s" using encodeString_unique s(2,5) by blast
  have "uniquely ?enc (map_option canon) x" using assms(1) v(1) by (intro uniquely_option) simp
  then have "map_option canon x = map_option canon z \<and> r = s"
    by (rule uniquelyD [of ?enc _ x bx z cz r s]) (use v(3) y(3) s k in simp_all)
  with i k v(1) y(1) show ?thesis by simp
qed

lemma enum_unique:
  assumes "encodeValue (DEnum v) = Inr b" and "encodeValue (DEnum y) = Inr c" and "short b" and "short c" and "b @ r = c @ s"
  shows "canon (DEnum v) = canon (DEnum y) \<and> r = s"
proof -
  obtain i k bi where v: "v = Some (i, k)" "encodeProtoOptionalIdentifier i = Inr bi" "b = 14 # bi @ encodeString k"
    using assms(1) by (auto simp: encodeEnumValue_def andThen_Inr split: option.split_asm)
  obtain j l cj where y: "y = Some (j, l)" "encodeProtoOptionalIdentifier j = Inr cj" "c = 14 # cj @ encodeString l"
    using assms(2) by (auto simp: encodeEnumValue_def andThen_Inr split: option.split_asm)
  have s: "short bi" "short (encodeString k)" "short cj" "short (encodeString l)"
    using assms(3,4) v(3) y(3) by (auto simp: short_def)
  have i: "i = j \<and> encodeString k @ r = encodeString l @ s"
    using assms(5) v(3) y(3) by (intro opt_ident.step [OF v(2) y(2) s(1,3)]) simp
  then have "k = l \<and> r = s" using encodeString_unique s(2,4) by blast
  with i v(1) y(1) show ?thesis by simp
qed

lemma tag_shapes:
  "value_tag y = 8 \<Longrightarrow> \<exists>s. y = DContractId s" "value_tag y = 9 \<Longrightarrow> \<exists>w. y = DOptional w"
  "value_tag y = 10 \<Longrightarrow> \<exists>ws. y = DList ws" "value_tag y = 11 \<Longrightarrow> \<exists>es. y = DTextMap es"
  "value_tag y = 12 \<Longrightarrow> \<exists>w. y = DRecord w" "value_tag y = 13 \<Longrightarrow> \<exists>w. y = DVariant w"
  "value_tag y = 14 \<Longrightarrow> \<exists>w. y = DEnum w" "value_tag y = 15 \<Longrightarrow> \<exists>es. y = DGenMap es"
  by (cases y; simp)+

lemma simple_unique:
  assumes "value_tag v < 8" and "encodeValue v = Inr b" and "encodeValue y = Inr c"
    and "short b" and "short c" and "b @ r = c @ s"
  shows "canon v = canon y \<and> r = s"
proof -
  have "value_tag y = value_tag v" using same_tag [OF assms(2,3,6)] by simp
  then show ?thesis using assms
    by (cases v; cases y) (auto dest!: short_Cons encodeString_unique)
qed

lemma contract_unique:
  assumes "encodeValue (DContractId v) = Inr b" and "encodeValue (DContractId y) = Inr c"
    and "short b" and "short c" and "b @ r = c @ s"
  shows "canon (DContractId v) = canon (DContractId y) \<and> r = s"
proof -
  obtain b' c' where "encodeHexString v = Inr b'" "b = 8 # b'" "encodeHexString y = Inr c'" "c = 8 # c'"
    using assms(1,2) by (auto simp: tagged_Inr)
  then show ?thesis using hex.step [of v b' y c' r s] assms(3-5) by (auto dest: short_Cons)
qed

lemma repeated_unique:
  assumes "\<forall>x\<in>set xs. uniquely enc view x" and "solid enc" and "tagged t (encodeRepeated enc xs) = Inr b"
    and "tagged t (encodeRepeated enc ys) = Inr c" and "short b" and "short c" and "b @ r = c @ s"
  shows "map view xs = map view ys \<and> r = s"
proof -
  obtain b' c' where "encodeRepeated enc xs = Inr b'" "b = t # b'" "encodeRepeated enc ys = Inr c'" "c = t # c'"
    using assms(3,4) by (auto simp: tagged_Inr)
  then show ?thesis using list_unique [of xs enc view b' ys c' r s] assms(1,2,5-7) by (auto dest: short_Cons)
qed

lemma list_value_unique:
  assumes "\<forall>x\<in>set xs. \<forall>v\<in>set_option x. uniquely encodeValue canon v"
    and "encodeValue (DList xs) = Inr b" and "encodeValue (DList ys) = Inr c" and "short b" and "short c" and "b @ r = c @ s"
  shows "canon (DList xs) = canon (DList ys) \<and> r = s"
proof -
  have "\<forall>x\<in>set xs. uniquely (\<lambda>v. encoded (map_option encodeValue v)) (map_option canon) x"
    using assms(1) by (fastforce intro!: uniquely_option)
  then show ?thesis
    using repeated_unique [of xs _ "map_option canon" 10 b ys c r s] assms(2-) solid_parts(1)
    by (simp add: encodeRepeated_map)
qed

lemma text_map_unique:
  assumes "\<forall>x\<in>set xs. \<forall>p\<in>set_option x. \<forall>v\<in>set_option (snd p). uniquely encodeValue canon v"
    and "encodeValue (DTextMap xs) = Inr b" and "encodeValue (DTextMap ys) = Inr c" and "short b" and "short c" and "b @ r = c @ s"
  shows "canon (DTextMap xs) = canon (DTextMap ys) \<and> r = s"
proof -
  have "\<forall>x\<in>set xs. uniquely (\<lambda>e. encodeTextMapEntry (map_option (map_prod id (map_option encodeValue)) e)) (map_option (map_prod id (map_option canon))) x"
    using assms(1) by (fastforce intro!: text_map_entry)
  then show ?thesis
    using repeated_unique [of xs _ "map_option (map_prod id (map_option canon))" 11 b ys c r s] assms(2-) solid_parts(2)
    by (simp add: encodeRepeated_map)
qed

lemma gen_map_unique:
  assumes "\<forall>x\<in>set xs. \<forall>p\<in>set_option x. (\<forall>v\<in>set_option (fst p). uniquely encodeValue canon v)
    \<and> (\<forall>v\<in>set_option (snd p). uniquely encodeValue canon v)"
    and "encodeValue (DGenMap xs) = Inr b" and "encodeValue (DGenMap ys) = Inr c" and "short b" and "short c" and "b @ r = c @ s"
  shows "canon (DGenMap xs) = canon (DGenMap ys) \<and> r = s"
proof -
  have "\<forall>x\<in>set xs. uniquely (\<lambda>e. encodeGenMapEntry (map_option (map_prod (map_option encodeValue) (map_option encodeValue)) e)) (map_option (map_prod (map_option canon) (map_option canon))) x"
    using assms(1) by (fastforce intro!: gen_map_entry)
  then show ?thesis
    using repeated_unique [of xs _ "map_option (map_prod (map_option canon) (map_option canon))" 15 b ys c r s] assms(2-) solid_parts(4)
    by (simp add: encodeRepeated_map)
qed

lemma simple_uniquely: "value_tag v < 8 \<Longrightarrow> uniquely encodeValue canon v"
  by (rule uniquelyI, rule simple_unique)

lemma uniquely_shape:
  assumes "\<And>y. value_tag y = value_tag v \<Longrightarrow> \<exists>w. y = K w"
    and "\<And>w b c r s. encodeValue v = Inr b \<Longrightarrow> encodeValue (K w) = Inr c \<Longrightarrow> short b \<Longrightarrow> short c \<Longrightarrow> b @ r = c @ s
      \<Longrightarrow> canon v = canon (K w) \<and> r = s"
  shows "uniquely encodeValue canon v"
proof (rule uniquelyI)
  fix y b c r s
  assume e: "encodeValue v = Inr b" "encodeValue y = Inr c" "short b" "short c" "b @ r = c @ s"
  then obtain w where "y = K w" using same_tag [OF e(1,2,5)] assms(1) [of y] by auto
  with e assms(2) show "canon v = canon y \<and> r = s" by blast
qed

lemma value_unique: "uniquely encodeValue canon v"
proof (induction v)
  case (DOptional v)
  then have "\<forall>w\<in>set_option v. \<forall>x\<in>set_option w. uniquely encodeValue canon x" by blast
  then show ?case by (intro uniquely_shape [where K = DOptional] optional_unique) (simp_all add: tag_shapes)
next
  case (DList vs)
  then have "\<forall>x\<in>set vs. \<forall>v\<in>set_option x. uniquely encodeValue canon v" by blast
  then show ?case by (intro uniquely_shape [where K = DList] list_value_unique) (simp_all add: tag_shapes)
next
  case (DTextMap es)
  then have "\<forall>x\<in>set es. \<forall>p\<in>set_option x. \<forall>v\<in>set_option (snd p). uniquely encodeValue canon v"
    by (fastforce simp: snds.simps)
  then show ?case by (intro uniquely_shape [where K = DTextMap] text_map_unique) (simp_all add: tag_shapes)
next
  case (DGenMap es)
  then have "\<forall>x\<in>set es. \<forall>p\<in>set_option x. (\<forall>v\<in>set_option (fst p). uniquely encodeValue canon v)
      \<and> (\<forall>v\<in>set_option (snd p). uniquely encodeValue canon v)"
    by (fastforce simp: snds.simps fsts.simps)
  then show ?case by (intro uniquely_shape [where K = DGenMap] gen_map_unique) (simp_all add: tag_shapes)
next
  case (DRecord v)
  then have "\<forall>p\<in>set_option v. \<forall>e\<in>set (snd p). \<forall>p\<in>set_option e. \<forall>x\<in>set_option (snd p). uniquely encodeValue canon x"
    by (fastforce simp: snds.simps)
  then show ?case by (intro uniquely_shape [where K = DRecord] record_unique) (simp_all add: tag_shapes)
next
  case (DVariant v)
  then have "\<forall>p\<in>set_option v. \<forall>x\<in>set_option (snd (snd p)). uniquely encodeValue canon x"
    by (fastforce simp: snds.simps)
  then show ?case by (intro uniquely_shape [where K = DVariant] variant_unique) (simp_all add: tag_shapes)
next
  case (DEnum v)
  show ?case by (intro uniquely_shape [where K = DEnum] enum_unique) (simp_all add: tag_shapes)
next
  case (DContractId v)
  show ?case by (intro uniquely_shape [where K = DContractId] contract_unique) (simp_all add: tag_shapes)
next
  case DUnset
  show ?case by (rule uniquelyI) simp
qed (simp_all add: simple_uniquely)

text \<open>So values, and pointers to values, are prefix codes.\<close>

interpretation dvalues: prefix_code encodeValue canon
  by standard (auto simp: value_unique solid_def dest: encodeValue_tag)

interpretation value_pointers: prefix_code encode_value "map_option canon"
proof
  show "uniquely encode_value (map_option canon) v" for v
    using uniquely_option [of v encodeValue canon] by (simp add: encode_value_def [abs_def] value_unique)
  show "solid encode_value" by (simp add: encode_value_def [abs_def])
qed

lemma encodeProtoOptionalValue_unique:
  assumes "encodeProtoOptionalValue v = Inr b" "encodeProtoOptionalValue w = Inr c" "short b" "short c" "b @ r = c @ s"
  shows "map_option canon v = map_option canon w \<and> r = s"
proof (cases v; cases w)
  fix x y assume v: "v = Some x" and w: "w = Some y"
  then obtain b' c' where "encodeValue x = Inr b'" "b = 1 # b'" "encodeValue y = Inr c'" "c = 1 # c'"
    using assms(1,2) by (auto simp: encodeProtoOptionalValue_def andThen_Inr)
  then show ?thesis using dvalues.step [of x b' y c' r s] assms(3-5) v w by (simp add: short_Cons)
qed (use assms in \<open>auto simp: encodeProtoOptionalValue_def andThen_Inr\<close>)

end
