(* ===== verification/CantonHash.thy ===== *)
theory CantonHash
  imports CantonCodes "HOL-Library.Monad_Syntax"
begin

text \<open>
  The hash of a prepared Canton transaction (\<^verbatim>\<open>chain/canton/tx_input/hash_validation.go\<close>), which the wallet computes
  itself and signs. SHA-256 is the parameter \<open>sha\<close>. The nodes of the transaction refer to each other by
  their ids, and the code follows them without a bound: \<open>None\<close> is a computation that does not return.
\<close>

subsection \<open>Prepared transactions\<close>

record ledger_create =
  cr_lf_version :: string
  cr_contract_id :: string
  cr_package_name :: string
  cr_template_id :: "daml_id option"
  cr_argument :: "dvalue option"
  cr_signatories :: "string list"
  cr_stakeholders :: "string list"

record ledger_exercise =
  ex_lf_version :: string
  ex_contract_id :: string
  ex_package_name :: string
  ex_template_id :: "daml_id option"
  ex_signatories :: "string list"
  ex_stakeholders :: "string list"
  ex_acting_parties :: "string list"
  ex_interface_id :: "daml_id option"
  ex_choice_id :: string
  ex_chosen_value :: "dvalue option"
  ex_consuming :: bool
  ex_children :: "string list"
  ex_result :: "dvalue option"
  ex_choice_observers :: "string list"

record ledger_fetch =
  fe_lf_version :: string
  fe_contract_id :: string
  fe_package_name :: string
  fe_template_id :: "daml_id option"
  fe_signatories :: "string list"
  fe_stakeholders :: "string list"
  fe_acting_parties :: "string list"
  fe_interface_id :: "daml_id option"

text \<open>A rollback is its children.\<close>

datatype node_type =
    NodeCreate "ledger_create option"
  | NodeExercise "ledger_exercise option"
  | NodeFetch "ledger_fetch option"
  | NodeRollback "string list option"
  | NodeUnset

text \<open>\<open>nd_v1\<close> is \<^verbatim>\<open>GetV1()\<close>, nil for every other version.\<close>

record ledger_node =
  nd_id :: string
  nd_v1 :: "node_type option"

record node_seed =
  ns_id :: u32
  ns_seed :: "bytes option"

record daml_transaction =
  dt_version :: string
  dt_roots :: "string list"
  dt_nodes :: "ledger_node option list"
  dt_seeds :: "node_seed list"

record input_contract =
  ic_created_at :: u64
  ic_v1 :: "ledger_create option"

record submitter_info =
  si_act_as :: "string list"
  si_command_id :: string

record ledger_metadata =
  md_submitter :: "submitter_info option"
  md_synchronizer :: string
  md_mediator_group :: u32
  md_transaction_uuid :: string
  md_preparation_time :: u64
  md_input_contracts :: "input_contract option list"
  md_min_time :: "u64 option"
  md_max_time :: "u64 option"

record prepared_tx =
  pt_transaction :: "daml_transaction option"
  pt_metadata :: "ledger_metadata option"

subsection \<open>Nodes\<close>

text \<open>The last node of an id is the one that counts.\<close>

fun create_nodes :: "ledger_node option list \<Rightarrow> (string \<rightharpoonup> ledger_node) \<Rightarrow> hash_error + (string \<rightharpoonup> ledger_node)" where
  "create_nodes [] nodes = Inr nodes"
| "create_nodes (None # ns) nodes = Inl NilNode"
| "create_nodes (Some n # ns) nodes = create_nodes ns (nodes(nd_id n \<mapsto> n))"

definition createNodesDict :: "prepared_tx \<Rightarrow> hash_error + (string \<rightharpoonup> ledger_node)" where
  "createNodesDict p = (case pt_transaction p of None \<Rightarrow> Inl NilTransaction
     | Some t \<Rightarrow> create_nodes (dt_nodes t) Map.empty)"

definition findSeed :: "string \<Rightarrow> node_seed list \<Rightarrow> bytes option" where
  "findSeed nodeID seeds = (case atoi nodeID of None \<Rightarrow> None
     | Some want \<Rightarrow> (case find (\<lambda>s. sint (ns_id s) = want) seeds of None \<Rightarrow> None | Some s \<Rightarrow> ns_seed s))"

definition encodeCreateNode :: "ledger_create option \<Rightarrow> bytes option \<Rightarrow> hash_error + bytes" where
  "encodeCreateNode create seed = (case create of None \<Rightarrow> Inl NilNodeType | Some c \<Rightarrow>
     andThen (encodeHexString (cr_contract_id c)) (\<lambda>contractID.
     andThen (encodeIdentifier (cr_template_id c)) (\<lambda>templateID.
     andThen (encode_value (cr_argument c)) (\<lambda>argument.
     andThen (encode_strings (cr_signatories c)) (\<lambda>signatories.
     andThen (encode_strings (cr_stakeholders c)) (\<lambda>stakeholders.
       Inr ([1] @ encodeString (cr_lf_version c) @ [0] @ encodeOptionalBytes seed encodeHash @ contractID
         @ encodeString (cr_package_name c) @ templateID @ argument @ signatories @ stakeholders)))))))"

text \<open>All of an exercise node before its children, which are encoded last.\<close>

definition exercise_head :: "ledger_exercise \<Rightarrow> string \<Rightarrow> bytes option \<Rightarrow> hash_error + bytes" where
  "exercise_head e nodeID seed = (case seed of None \<Rightarrow> Inl (MissingSeed nodeID) | Some seed \<Rightarrow>
     andThen (encodeHexString (ex_contract_id e)) (\<lambda>contractID.
     andThen (encodeIdentifier (ex_template_id e)) (\<lambda>templateID.
     andThen (encode_strings (ex_signatories e)) (\<lambda>signatories.
     andThen (encode_strings (ex_stakeholders e)) (\<lambda>stakeholders.
     andThen (encode_strings (ex_acting_parties e)) (\<lambda>actingParties.
     andThen (encodeProtoOptionalIdentifier (ex_interface_id e)) (\<lambda>interfaceID.
     andThen (encode_value (ex_chosen_value e)) (\<lambda>chosenValue.
     andThen (encodeProtoOptionalValue (ex_result e)) (\<lambda>exerciseResult.
     andThen (encode_strings (ex_choice_observers e)) (\<lambda>choiceObservers.
       Inr ([1] @ encodeString (ex_lf_version e) @ [1] @ encodeHash seed @ contractID
         @ encodeString (ex_package_name e) @ templateID @ signatories @ stakeholders @ actingParties
         @ interfaceID @ encodeString (ex_choice_id e) @ chosenValue @ encodeBool (ex_consuming e)
         @ exerciseResult @ choiceObservers)))))))))))"

definition encodeFetchNode :: "ledger_fetch option \<Rightarrow> hash_error + bytes" where
  "encodeFetchNode f = (case f of None \<Rightarrow> Inl NilNodeType | Some f \<Rightarrow>
     andThen (encodeHexString (fe_contract_id f)) (\<lambda>contractID.
     andThen (encodeIdentifier (fe_template_id f)) (\<lambda>templateID.
     andThen (encode_strings (fe_signatories f)) (\<lambda>signatories.
     andThen (encode_strings (fe_stakeholders f)) (\<lambda>stakeholders.
     andThen (encodeProtoOptionalIdentifier (fe_interface_id f)) (\<lambda>interfaceID.
     andThen (encode_strings (fe_acting_parties f)) (\<lambda>actingParties.
       Inr ([1] @ encodeString (fe_lf_version f) @ [2] @ contractID @ encodeString (fe_package_name f)
         @ templateID @ signatories @ stakeholders @ interfaceID @ actingParties))))))))"

text \<open>\<^verbatim>\<open>encodeRepeatedStrings\<close> over the children, with the encoding of one as the parameter \<open>rec\<close>.\<close>

fun encode_children :: "(string \<Rightarrow> (hash_error + bytes) option) \<Rightarrow> string list \<Rightarrow> (hash_error + bytes) option" where
  "encode_children rec [] = Some (Inr [])"
| "encode_children rec (c # cs) = rec c \<bind> (\<lambda>x. case x of Inl e \<Rightarrow> Some (Inl e)
     | Inr b \<Rightarrow> encode_children rec cs \<bind> (\<lambda>y. Some (andThen y (\<lambda>bs. Inr (b @ bs)))))"

definition encodeRepeatedStrings :: "(string \<Rightarrow> (hash_error + bytes) option) \<Rightarrow> string list \<Rightarrow> (hash_error + bytes) option" where
  "encodeRepeatedStrings rec cs = encode_children rec cs \<bind>
     (\<lambda>x. Some (andThen x (\<lambda>bs. Inr (encodeInt32_be (of_nat (length cs)) @ bs))))"

definition encodeExerciseNode :: "(string \<Rightarrow> (hash_error + bytes) option) \<Rightarrow> ledger_exercise option \<Rightarrow> string
    \<Rightarrow> bytes option \<Rightarrow> (hash_error + bytes) option" where
  "encodeExerciseNode rec e nodeID seed = (case e of None \<Rightarrow> Some (Inl NilNodeType) | Some e \<Rightarrow>
     (case exercise_head e nodeID seed of Inl err \<Rightarrow> Some (Inl err) | Inr b \<Rightarrow>
       encodeRepeatedStrings rec (ex_children e) \<bind> (\<lambda>x. Some (andThen x (\<lambda>children. Inr (b @ children))))))"

definition encodeRollbackNode :: "(string \<Rightarrow> (hash_error + bytes) option) \<Rightarrow> string list option \<Rightarrow> (hash_error + bytes) option" where
  "encodeRollbackNode rec r = (case r of None \<Rightarrow> Some (Inl NilNodeType) | Some cs \<Rightarrow>
     encodeRepeatedStrings rec cs \<bind> (\<lambda>x. Some (andThen x (\<lambda>children. Inr ([1, 3] @ children)))))"

definition encodeNode :: "(string \<Rightarrow> (hash_error + bytes) option) \<Rightarrow> ledger_node \<Rightarrow> node_seed list \<Rightarrow> (hash_error + bytes) option" where
  "encodeNode rec n seeds = (case nd_v1 n of None \<Rightarrow> Some (Inl UnsupportedVersion) | Some v1 \<Rightarrow> (case v1 of
       NodeCreate c \<Rightarrow> Some (encodeCreateNode c (findSeed (nd_id n) seeds))
     | NodeExercise e \<Rightarrow> encodeExerciseNode rec e (nd_id n) (findSeed (nd_id n) seeds)
     | NodeFetch f \<Rightarrow> Some (encodeFetchNode f)
     | NodeRollback r \<Rightarrow> encodeRollbackNode rec r
     | NodeUnset \<Rightarrow> Some (Inl UnsupportedNode)))"

text \<open>Each of them is monotone in \<open>rec\<close>, so that \<open>encodeNodeID\<close> may recurse through it.\<close>

lemma encode_children_mono [partial_function_mono]:
  assumes "\<And>c. mono_option (\<lambda>f. rec f c)"
  shows "mono_option (\<lambda>f. encode_children (rec f) cs)"
proof (induction cs)
  case (Cons c cs)
  have "mono_option (\<lambda>f. case x of Inl e \<Rightarrow> Some (Inl e)
     | Inr b \<Rightarrow> encode_children (rec f) cs \<bind> (\<lambda>y. Some (andThen y (\<lambda>bs. Inr (b @ bs)))))" for x
    by (cases x) (auto intro!: partial_function_mono Cons)
  then show ?case by (auto intro!: partial_function_mono assms)
qed (simp add: partial_function_mono)

lemma encodeRepeatedStrings_mono [partial_function_mono]:
  "(\<And>c. mono_option (\<lambda>f. rec f c)) \<Longrightarrow> mono_option (\<lambda>f. encodeRepeatedStrings (rec f) cs)"
  unfolding encodeRepeatedStrings_def by (intro partial_function_mono)

lemma encodeExerciseNode_mono [partial_function_mono]:
  assumes "\<And>c. mono_option (\<lambda>f. rec f c)"
  shows "mono_option (\<lambda>f. encodeExerciseNode (rec f) e nodeID seed)"
proof (cases e)
  case (Some x)
  then show ?thesis
    by (cases "exercise_head x nodeID seed") (auto simp: encodeExerciseNode_def intro!: partial_function_mono assms)
qed (simp add: encodeExerciseNode_def partial_function_mono)

lemma encodeRollbackNode_mono [partial_function_mono]:
  "(\<And>c. mono_option (\<lambda>f. rec f c)) \<Longrightarrow> mono_option (\<lambda>f. encodeRollbackNode (rec f) r)"
  by (cases r) (auto simp: encodeRollbackNode_def intro!: partial_function_mono)

lemma encodeNode_mono [partial_function_mono]:
  assumes "\<And>c. mono_option (\<lambda>f. rec f c)"
  shows "mono_option (\<lambda>f. encodeNode (rec f) n seeds)"
proof (cases "nd_v1 n")
  case (Some t)
  then show ?thesis by (cases t) (auto simp: encodeNode_def intro!: partial_function_mono assms)
qed (simp add: encodeNode_def partial_function_mono)

partial_function (option) encodeNodeID :: "(bytes \<Rightarrow> bytes) \<Rightarrow> (string \<rightharpoonup> ledger_node) \<Rightarrow> node_seed list \<Rightarrow> string
    \<Rightarrow> (hash_error + bytes) option" where
  "encodeNodeID sha nodes seeds nodeID = (case nodes nodeID of None \<Rightarrow> Some (Inl (NodeNotFound nodeID))
     | Some n \<Rightarrow> encodeNode (\<lambda>c. encodeNodeID sha nodes seeds c) n seeds \<bind> (\<lambda>x. Some (andThen x (\<lambda>b. Inr (sha b)))))"


subsection \<open>The transaction\<close>

definition encodeTransaction :: "(bytes \<Rightarrow> bytes) \<Rightarrow> daml_transaction option \<Rightarrow> (string \<rightharpoonup> ledger_node) \<Rightarrow> node_seed list
    \<Rightarrow> (hash_error + bytes) option" where
  "encodeTransaction sha t nodes seeds = (case t of None \<Rightarrow> Some (Inl NilTransaction) | Some t \<Rightarrow>
     encodeRepeatedStrings (encodeNodeID sha nodes seeds) (dt_roots t) \<bind>
       (\<lambda>x. Some (andThen x (\<lambda>roots. Inr (encodeString (dt_version t) @ roots)))))"

definition preparedTransactionHashPurpose :: bytes where
  "preparedTransactionHashPurpose = [0, 0, 0, 0x30]"

definition hashTransaction :: "(bytes \<Rightarrow> bytes) \<Rightarrow> daml_transaction option \<Rightarrow> (string \<rightharpoonup> ledger_node)
    \<Rightarrow> (hash_error + bytes) option" where
  "hashTransaction sha t nodes = encodeTransaction sha t nodes (case t of None \<Rightarrow> [] | Some t \<Rightarrow> dt_seeds t) \<bind>
     (\<lambda>x. Some (andThen x (\<lambda>b. Inr (sha (preparedTransactionHashPurpose @ b)))))"

subsection \<open>The metadata\<close>

definition encodeInputContract :: "(bytes \<Rightarrow> bytes) \<Rightarrow> input_contract option \<Rightarrow> hash_error + bytes" where
  "encodeInputContract sha contract = (case contract of None \<Rightarrow> Inl NilInputContract | Some c \<Rightarrow>
     (case ic_v1 c of None \<Rightarrow> Inl UnsupportedVersion | Some create \<Rightarrow>
       andThen (encodeCreateNode (Some create) (findSeed ''unused_node_id'' []))
         (\<lambda>b. Inr (encodeInt64_be (ic_created_at c) @ sha b))))"

definition encodeMetadata :: "(bytes \<Rightarrow> bytes) \<Rightarrow> ledger_metadata option \<Rightarrow> hash_error + bytes" where
  "encodeMetadata sha m = (case m of None \<Rightarrow> Inl NilMetadata | Some m \<Rightarrow>
     (case md_submitter m of None \<Rightarrow> Inl NilSubmitterInfo | Some submitter \<Rightarrow>
       andThen (encode_strings (si_act_as submitter)) (\<lambda>actAs.
       andThen (encodeRepeated (encodeInputContract sha) (md_input_contracts m)) (\<lambda>inputContracts.
         Inr ([1] @ actAs @ encodeString (si_command_id submitter) @ encodeString (md_transaction_uuid m)
           @ encodeInt32_be (md_mediator_group m) @ encodeString (md_synchronizer m)
           @ encodeOptionalUint64 (md_min_time m) @ encodeOptionalUint64 (md_max_time m)
           @ encodeInt64_be (md_preparation_time m) @ inputContracts)))))"

definition hashMetadata :: "(bytes \<Rightarrow> bytes) \<Rightarrow> ledger_metadata option \<Rightarrow> hash_error + bytes" where
  "hashMetadata sha m = andThen (encodeMetadata sha m) (\<lambda>b. Inr (sha (preparedTransactionHashPurpose @ b)))"

text \<open>2 is \<^verbatim>\<open>HASHING_SCHEME_VERSION_V2\<close>.\<close>

definition ComputePreparedTransactionHash :: "(bytes \<Rightarrow> bytes) \<Rightarrow> prepared_tx option \<Rightarrow> (hash_error + bytes) option" where
  "ComputePreparedTransactionHash sha p = (case p of None \<Rightarrow> Some (Inl NilPrepared) | Some p \<Rightarrow>
     (case createNodesDict p of Inl e \<Rightarrow> Some (Inl e) | Inr nodes \<Rightarrow>
       hashTransaction sha (pt_transaction p) nodes \<bind> (\<lambda>x. Some (andThen x (\<lambda>txHash.
         andThen (hashMetadata sha (pt_metadata p)) (\<lambda>metadataHash.
           Inr (sha (preparedTransactionHashPurpose @ [2] @ txHash @ metadataHash))))))))"

definition ValidatePreparedTransactionHash :: "(bytes \<Rightarrow> bytes) \<Rightarrow> prepared_tx option \<Rightarrow> bytes \<Rightarrow> (hash_error + unit) option" where
  "ValidatePreparedTransactionHash sha p expected =
    (if expected = [] then Some (Inl EmptyHash)
     else ComputePreparedTransactionHash sha p \<bind> (\<lambda>x. Some (andThen x (\<lambda>digest.
       if digest \<noteq> expected then Inl (HashMismatch expected digest) else Inr ()))))"

end
