(* ===== verification/CantonNodes.thy ===== *)
theory CantonNodes
  imports CantonHash
begin

text \<open>
  The nodes of a prepared Canton transaction as their encoding determines them: a node without its children, the
  trees a transaction unfolds to, and what the ledger reads of a node.
\<close>

subsection \<open>Nodes without their children\<close>

definition node_head :: "ledger_node \<Rightarrow> bytes option \<Rightarrow> hash_error + bytes" where
  "node_head n seed = (case nd_v1 n of None \<Rightarrow> Inl UnsupportedVersion | Some v1 \<Rightarrow> (case v1 of
       NodeCreate c \<Rightarrow> encodeCreateNode c seed
     | NodeExercise e \<Rightarrow> (case e of None \<Rightarrow> Inl NilNodeType | Some e \<Rightarrow> exercise_head e (nd_id n) seed)
     | NodeFetch f \<Rightarrow> encodeFetchNode f
     | NodeRollback r \<Rightarrow> (case r of None \<Rightarrow> Inl NilNodeType | Some _ \<Rightarrow> Inr [1, 3])
     | NodeUnset \<Rightarrow> Inl UnsupportedNode))"

definition node_children :: "ledger_node \<Rightarrow> string list option" where
  "node_children n = (case nd_v1 n of
       Some (NodeExercise (Some e)) \<Rightarrow> Some (ex_children e)
     | Some (NodeRollback (Some cs)) \<Rightarrow> Some cs
     | _ \<Rightarrow> None)"

lemma encode_children_Inr: "encode_children rec cs = Some (Inr bs) \<longleftrightarrow>
    (\<exists>hs. list_all2 (\<lambda>c h. rec c = Some (Inr h)) cs hs \<and> bs = concat hs)"
proof (induction cs arbitrary: bs)
  case (Cons c cs)
  show ?case
  proof
    assume "encode_children rec (c # cs) = Some (Inr bs)"
    then obtain x y where "rec c = Some x" "(case x of Inl e \<Rightarrow> Some (Inl e)
        | Inr b \<Rightarrow> encode_children rec cs \<bind> (\<lambda>y. Some (andThen y (\<lambda>bs. Inr (b @ bs))))) = Some (Inr bs)"
      by (auto simp: Option.bind_eq_Some_conv)
    then obtain b bs' where b: "rec c = Some (Inr b)" "encode_children rec cs = Some (Inr bs')" "bs = b @ bs'"
      by (cases x) (auto simp: Option.bind_eq_Some_conv andThen_Inr)
    then obtain hs where "list_all2 (\<lambda>c h. rec c = Some (Inr h)) cs hs" "bs' = concat hs" using Cons by blast
    with b show "\<exists>hs. list_all2 (\<lambda>c h. rec c = Some (Inr h)) (c # cs) hs \<and> bs = concat hs"
      by (intro exI [of _ "b # hs"]) simp
  next
    assume "\<exists>hs. list_all2 (\<lambda>c h. rec c = Some (Inr h)) (c # cs) hs \<and> bs = concat hs"
    then obtain b hs where "rec c = Some (Inr b)" "list_all2 (\<lambda>c h. rec c = Some (Inr h)) cs hs" "bs = b @ concat hs"
      by (auto simp: list_all2_Cons1)
    moreover from this(2) have "encode_children rec cs = Some (Inr (concat hs))" using Cons by blast
    ultimately show "encode_children rec (c # cs) = Some (Inr bs)" by simp
  qed
qed auto

lemma encodeRepeatedStrings_Inr: "encodeRepeatedStrings rec cs = Some (Inr b) \<longleftrightarrow>
    (\<exists>hs. list_all2 (\<lambda>c h. rec c = Some (Inr h)) cs hs \<and> b = encodeInt32_be (of_nat (length cs)) @ concat hs)"
proof -
  have "encodeRepeatedStrings rec cs = Some (Inr b) \<longleftrightarrow>
      (\<exists>bs. encode_children rec cs = Some (Inr bs) \<and> b = encodeInt32_be (of_nat (length cs)) @ bs)"
    by (auto simp: encodeRepeatedStrings_def Option.bind_eq_Some_conv andThen_Inr)
  then show ?thesis by (auto simp: encode_children_Inr)
qed

lemma encodeNode_Inr: "encodeNode rec n seeds = Some (Inr b) \<Longrightarrow>
   \<exists>h. node_head n (findSeed (nd_id n) seeds) = Inr h \<and> (case node_children n of None \<Rightarrow> b = h
     | Some cs \<Rightarrow> \<exists>hs. list_all2 (\<lambda>c h. rec c = Some (Inr h)) cs hs \<and> b = h @ encodeInt32_be (of_nat (length cs)) @ concat hs)"
  by (auto simp: encodeNode_def node_head_def node_children_def encodeExerciseNode_def encodeRollbackNode_def
      andThen_Inr Option.bind_eq_Some_conv encodeRepeatedStrings_Inr
      split: option.splits node_type.splits sum.splits)

subsection \<open>The trees of a transaction\<close>

text \<open>A tree is a node with its seed and the trees of its children; \<open>tree_string\<close> is what is hashed for it.\<close>

datatype node_tree = Tree ledger_node "bytes option" "node_tree list"

primrec tree_string :: "(bytes \<Rightarrow> bytes) \<Rightarrow> node_tree \<Rightarrow> bytes" where
  "tree_string sha (Tree n seed ts) = (case node_head n seed of Inl _ \<Rightarrow> [] | Inr h \<Rightarrow> h) @
     (if node_children n = None then [] else encodeInt32_be (of_nat (length ts)) @ concat (map (\<lambda>t. sha t) (map (tree_string sha) ts)))"

primrec tree_strings :: "(bytes \<Rightarrow> bytes) \<Rightarrow> node_tree \<Rightarrow> bytes set" where
  "tree_strings sha (Tree n seed ts) = insert (tree_string sha (Tree n seed ts)) (\<Union> (set (map (tree_strings sha) ts)))"

inductive unfolds :: "(string \<rightharpoonup> ledger_node) \<Rightarrow> node_seed list \<Rightarrow> string \<Rightarrow> node_tree \<Rightarrow> bool" for nodes seeds where
  unfold: "nodes nodeID = Some n \<Longrightarrow> node_head n (findSeed (nd_id n) seeds) = Inr h
    \<Longrightarrow> list_all2 (unfolds nodes seeds) (case node_children n of None \<Rightarrow> [] | Some cs \<Rightarrow> cs) ts
    \<Longrightarrow> unfolds nodes seeds nodeID (Tree n (findSeed (nd_id n) seeds) ts)"

lemma list_all2_choose: "list_all2 (\<lambda>c h. \<exists>t. P c t \<and> h = f t) cs hs \<Longrightarrow> \<exists>ts. list_all2 P cs ts \<and> hs = map f ts"
proof (induction cs hs rule: list_all2_induct)
  case (Cons c cs h hs)
  then obtain t ts where "P c t" "h = f t" "list_all2 P cs ts" "hs = map f ts" by blast
  then show ?case by (intro exI [of _ "t # ts"]) simp
qed simp

lemma encodeNodeID_unfolds:
  assumes "encodeNodeID sha nodes seeds nodeID = Some y"
  shows "\<forall>b. y = Inr b \<longrightarrow> (\<exists>t. unfolds nodes seeds nodeID t \<and> b = sha (tree_string sha t))"
proof (rule encodeNodeID.raw_induct [where P = "\<lambda>sha nodes seeds nodeID y. \<forall>b. y = Inr b \<longrightarrow>
    (\<exists>t. unfolds nodes seeds nodeID t \<and> b = sha (tree_string sha t))", OF _ assms])
  fix enc :: "(bytes \<Rightarrow> bytes) \<Rightarrow> (string \<rightharpoonup> ledger_node) \<Rightarrow> node_seed list \<Rightarrow> string \<Rightarrow> (hash_error + bytes) option"
    and sha nodes seeds nodeID y
  assume IH: "\<And>sha nodes seeds nodeID y. enc sha nodes seeds nodeID = Some y \<Longrightarrow>
      \<forall>b. y = Inr b \<longrightarrow> (\<exists>t. unfolds nodes seeds nodeID t \<and> b = sha (tree_string sha t))"
    and eq: "(case nodes nodeID of None \<Rightarrow> Some (Inl (NodeNotFound nodeID))
     | Some n \<Rightarrow> encodeNode (\<lambda>c. enc sha nodes seeds c) n seeds \<bind> (\<lambda>x. Some (andThen x (\<lambda>b. Inr (sha b))))) = Some y"
  show "\<forall>b. y = Inr b \<longrightarrow> (\<exists>t. unfolds nodes seeds nodeID t \<and> b = sha (tree_string sha t))"
  proof (intro allI impI)
    fix b assume "y = Inr b"
    with eq obtain n x where n: "nodes nodeID = Some n" "encodeNode (enc sha nodes seeds) n seeds = Some (Inr x)" "b = sha x"
      by (auto simp: Option.bind_eq_Some_conv andThen_Inr split: option.split_asm)
    let ?seed = "findSeed (nd_id n) seeds" and ?cs = "case node_children n of None \<Rightarrow> [] | Some cs \<Rightarrow> cs"
    obtain h where h: "node_head n ?seed = Inr h" "case node_children n of None \<Rightarrow> x = h
       | Some cs \<Rightarrow> \<exists>hs. list_all2 (\<lambda>c h. enc sha nodes seeds c = Some (Inr h)) cs hs
           \<and> x = h @ encodeInt32_be (of_nat (length cs)) @ concat hs"
      using encodeNode_Inr [OF n(2)] by blast
    obtain hs where hs: "list_all2 (\<lambda>c h. enc sha nodes seeds c = Some (Inr h)) ?cs hs"
      "x = h @ (if node_children n = None then [] else encodeInt32_be (of_nat (length ?cs)) @ concat hs)"
      using h(2) by (cases "node_children n") auto
    have "list_all2 (\<lambda>c h. \<exists>t. unfolds nodes seeds c t \<and> h = sha (tree_string sha t)) ?cs hs"
      using hs(1) by (rule list_all2_mono) (use IH in blast)
    then obtain ts where ts: "list_all2 (unfolds nodes seeds) ?cs ts" "hs = map (\<lambda>t. sha (tree_string sha t)) ts"
      using list_all2_choose [of "unfolds nodes seeds" "\<lambda>t. sha (tree_string sha t)"] by blast
    have "length ts = length ?cs" using ts(1) by (simp add: list_all2_lengthD)
    then have "x = tree_string sha (Tree n ?seed ts)"
      using hs(2) h(1) ts(2) by (simp add: o_def)
    with n(1,3) h(1) ts(1) show "\<exists>t. unfolds nodes seeds nodeID t \<and> b = sha (tree_string sha t)"
      by (intro exI [of _ "Tree n ?seed ts"]) (auto intro: unfolds.intros)
  qed
qed

subsection \<open>What a node determines\<close>

text \<open>
  A node as the ledger reads it: contract ids and values up to their spelling, without the ids of its
  children. Two kinds of nodes are told apart by a byte after the language version, except that a
  rollback has no version: a node could be read as a rollback when its version had more than 48
  megabytes, so strings up to that size are considered (\<open>compact\<close>). Seeds are not delimited, and
  have 32 bytes.
\<close>

definition compact :: "bytes \<Rightarrow> bool" where
  "compact b \<longleftrightarrow> length b < 3 * 2 ^ 24"

definition seed_ok :: "bytes option \<Rightarrow> bool" where
  "seed_ok s \<longleftrightarrow> (\<forall>x. s = Some x \<longrightarrow> length x = 32)"

definition canon_create :: "ledger_create \<Rightarrow> ledger_create" where
  "canon_create c = c\<lparr>cr_contract_id := canon_hex (cr_contract_id c), cr_argument := map_option canon (cr_argument c)\<rparr>"

definition canon_exercise :: "ledger_exercise \<Rightarrow> ledger_exercise" where
  "canon_exercise e = e\<lparr>ex_contract_id := canon_hex (ex_contract_id e), ex_chosen_value := map_option canon (ex_chosen_value e),
     ex_result := map_option canon (ex_result e), ex_children := []\<rparr>"

definition canon_fetch :: "ledger_fetch \<Rightarrow> ledger_fetch" where
  "canon_fetch f = f\<lparr>fe_contract_id := canon_hex (fe_contract_id f)\<rparr>"

datatype node_view =
    CreateView ledger_create "bytes option"
  | ExerciseView ledger_exercise "bytes option"
  | FetchView ledger_fetch
  | RollbackView
  | NoView

fun view_of :: "node_type option \<Rightarrow> bytes option \<Rightarrow> node_view" where
  "view_of (Some (NodeCreate (Some c))) seed = CreateView (canon_create c) seed"
| "view_of (Some (NodeExercise (Some e))) seed = ExerciseView (canon_exercise e) seed"
| "view_of (Some (NodeFetch (Some f))) seed = FetchView (canon_fetch f)"
| "view_of (Some (NodeRollback (Some cs))) seed = RollbackView"
| "view_of _ seed = NoView"

lemma compact_short: "compact b \<Longrightarrow> short b"
  by (simp add: compact_def short_def)

lemma encodeOptionalBytes_unique:
  "encodeOptionalBytes a encodeHash @ r = encodeOptionalBytes b encodeHash @ s \<Longrightarrow> seed_ok a \<Longrightarrow> seed_ok b \<Longrightarrow> a = b \<and> r = s"
  by (cases a; cases b) (auto simp: encodeOptionalBytes_def encodeHash_def seed_ok_def append_eq_append_conv)

lemma encodeOptionalUint64_unique:
  "encodeOptionalUint64 a @ r = encodeOptionalUint64 b @ s \<Longrightarrow> a = b \<and> r = s"
  by (cases a; cases b) (auto simp: encodeOptionalUint64_def append_eq_append_conv)

lemma encodeCreateNode_shape: "encodeCreateNode (Some c) seed = Inr b \<Longrightarrow>
   \<exists>cid tid arg sig stk. encodeHexString (cr_contract_id c) = Inr cid \<and> encodeIdentifier (cr_template_id c) = Inr tid
     \<and> encode_value (cr_argument c) = Inr arg \<and> encode_strings (cr_signatories c) = Inr sig
     \<and> encode_strings (cr_stakeholders c) = Inr stk
     \<and> b = 1 # encodeString (cr_lf_version c) @ 0 # encodeOptionalBytes seed encodeHash @ cid
         @ encodeString (cr_package_name c) @ tid @ arg @ sig @ stk"
  by (auto simp: encodeCreateNode_def andThen_Inr)

lemma create_unique:
  assumes b: "encodeCreateNode (Some x) seed = Inr b" and c: "encodeCreateNode (Some y) seed' = Inr c"
    and sh: "short b" "short c" and seeds: "seed_ok seed" "seed_ok seed'" and eq: "b @ r = c @ s"
  shows "canon_create x = canon_create y \<and> seed = seed' \<and> r = s"
proof -
  obtain cid tid arg sig stk where x: "encodeHexString (cr_contract_id x) = Inr cid" "encodeIdentifier (cr_template_id x) = Inr tid"
    "encode_value (cr_argument x) = Inr arg" "encode_strings (cr_signatories x) = Inr sig"
    "encode_strings (cr_stakeholders x) = Inr stk"
    and bx: "b = 1 # encodeString (cr_lf_version x) @ 0 # encodeOptionalBytes seed encodeHash @ cid
         @ encodeString (cr_package_name x) @ tid @ arg @ sig @ stk"
    using encodeCreateNode_shape [OF b] by blast
  obtain cid' tid' arg' sig' stk' where y: "encodeHexString (cr_contract_id y) = Inr cid'" "encodeIdentifier (cr_template_id y) = Inr tid'"
    "encode_value (cr_argument y) = Inr arg'" "encode_strings (cr_signatories y) = Inr sig'"
    "encode_strings (cr_stakeholders y) = Inr stk'"
    and cy: "c = 1 # encodeString (cr_lf_version y) @ 0 # encodeOptionalBytes seed' encodeHash @ cid'
         @ encodeString (cr_package_name y) @ tid' @ arg' @ sig' @ stk'"
    using encodeCreateNode_shape [OF c] by blast
  have s: "short (encodeString (cr_lf_version x))" "short cid" "short (encodeString (cr_package_name x))" "short tid" "short arg"
    "short sig" "short stk" using sh(1) by (auto simp: bx short_def)
  have s': "short (encodeString (cr_lf_version y))" "short cid'" "short (encodeString (cr_package_name y))" "short tid'" "short arg'"
    "short sig'" "short stk'" using sh(2) by (auto simp: cy short_def)
  note e = eq [unfolded bx cy, simplified]
  note e1 = encodeString_unique [OF e s(1) s'(1)]
  note e2 = encodeOptionalBytes_unique [OF e1 [THEN conjunct2, simplified] seeds]
  note e3 = hex.step [OF x(1) y(1) s(2) s'(2) e2 [THEN conjunct2]]
  note e4 = encodeString_unique [OF e3 [THEN conjunct2] s(3) s'(3)]
  note e5 = ident.step [OF x(2) y(2) s(4) s'(4) e4 [THEN conjunct2]]
  note e6 = value_pointers.step [OF x(3) y(3) s(5) s'(5) e5 [THEN conjunct2]]
  note e7 = strings.step [OF x(4) y(4) s(6) s'(6) e6 [THEN conjunct2]]
  note e8 = strings.step [OF x(5) y(5) s(7) s'(7) e7 [THEN conjunct2]]
  show ?thesis using e1 e2 e3 e4 e5 e6 e7 e8 by (simp add: canon_create_def)
qed

lemma exercise_shape: "exercise_head x ix (Some seed) = Inr b \<Longrightarrow> \<exists>cid tid sig stk act iid cho res obs. encodeHexString (ex_contract_id x) = Inr cid \<and> encodeIdentifier (ex_template_id x) = Inr tid \<and> encode_strings (ex_signatories x) = Inr sig \<and> encode_strings (ex_stakeholders x) = Inr stk \<and> encode_strings (ex_acting_parties x) = Inr act \<and> encodeProtoOptionalIdentifier (ex_interface_id x) = Inr iid \<and> encode_value (ex_chosen_value x) = Inr cho \<and> encodeProtoOptionalValue (ex_result x) = Inr res \<and> encode_strings (ex_choice_observers x) = Inr obs
     \<and> b = 1 # encodeString (ex_lf_version x) @ 1 # seed @ cid @ encodeString (ex_package_name x) @ tid @ sig @ stk @ act @ iid @ encodeString (ex_choice_id x) @ cho @ encodeBool (ex_consuming x) @ res @ obs"
  by (auto simp: exercise_head_def encodeHash_def andThen_Inr)

lemma exercise_unique:
  assumes b: "exercise_head x ix (Some seed) = Inr b" and c: "exercise_head y iy (Some seed') = Inr c"
    and sh: "short b" "short c" and seeds: "length seed = 32" "length seed' = 32" and eq: "b @ r = c @ s"
  shows "canon_exercise x = canon_exercise y \<and> seed = seed' \<and> r = s"
proof -
  obtain cid tid sig stk act iid cho res obs where x: "encodeHexString (ex_contract_id x) = Inr cid" "encodeIdentifier (ex_template_id x) = Inr tid" "encode_strings (ex_signatories x) = Inr sig" "encode_strings (ex_stakeholders x) = Inr stk" "encode_strings (ex_acting_parties x) = Inr act" "encodeProtoOptionalIdentifier (ex_interface_id x) = Inr iid" "encode_value (ex_chosen_value x) = Inr cho" "encodeProtoOptionalValue (ex_result x) = Inr res" "encode_strings (ex_choice_observers x) = Inr obs"
    and bx: "b = 1 # encodeString (ex_lf_version x) @ 1 # seed @ cid @ encodeString (ex_package_name x) @ tid @ sig @ stk @ act @ iid @ encodeString (ex_choice_id x) @ cho @ encodeBool (ex_consuming x) @ res @ obs"
    using exercise_shape [OF b] by blast
  obtain cid' tid' sig' stk' act' iid' cho' res' obs' where y: "encodeHexString (ex_contract_id y) = Inr cid'" "encodeIdentifier (ex_template_id y) = Inr tid'" "encode_strings (ex_signatories y) = Inr sig'" "encode_strings (ex_stakeholders y) = Inr stk'" "encode_strings (ex_acting_parties y) = Inr act'" "encodeProtoOptionalIdentifier (ex_interface_id y) = Inr iid'" "encode_value (ex_chosen_value y) = Inr cho'" "encodeProtoOptionalValue (ex_result y) = Inr res'" "encode_strings (ex_choice_observers y) = Inr obs'"
    and cy: "c = 1 # encodeString (ex_lf_version y) @ 1 # seed' @ cid' @ encodeString (ex_package_name y) @ tid' @ sig' @ stk' @ act' @ iid' @ encodeString (ex_choice_id y) @ cho' @ encodeBool (ex_consuming y) @ res' @ obs'"
    using exercise_shape [OF c] by blast
  have s: "short (encodeString (ex_lf_version x))" "short (cid)" "short (encodeString (ex_package_name x))" "short (tid)" "short (sig)" "short (stk)" "short (act)" "short (iid)" "short (encodeString (ex_choice_id x))" "short (cho)" "short (res)" "short (obs)"
    using sh(1) by (auto simp: bx short_def)
  have s': "short (encodeString (ex_lf_version y))" "short (cid')" "short (encodeString (ex_package_name y))" "short (tid')" "short (sig')" "short (stk')" "short (act')" "short (iid')" "short (encodeString (ex_choice_id y))" "short (cho')" "short (res')" "short (obs')"
    using sh(2) by (auto simp: cy short_def)
  note e = eq [unfolded bx cy, simplified]
  note e0 = encodeString_unique [OF e s(1) s'(1)]
  have e1: "seed = seed' \<and> cid @ encodeString (ex_package_name x) @ tid @ sig @ stk @ act @ iid @ encodeString (ex_choice_id x) @ cho @ encodeBool (ex_consuming x) @ res @ obs @ r = cid' @ encodeString (ex_package_name y) @ tid' @ sig' @ stk' @ act' @ iid' @ encodeString (ex_choice_id y) @ cho' @ encodeBool (ex_consuming y) @ res' @ obs' @ s"
    using e0 seeds by (simp add: append_eq_append_conv)
  note e2 = hex.step [OF x(1) y(1) s(2) s'(2) e1 [THEN conjunct2]]
  note e3 = encodeString_unique [OF e2 [THEN conjunct2] s(3) s'(3)]
  note e4 = ident.step [OF x(2) y(2) s(4) s'(4) e3 [THEN conjunct2]]
  note e5 = strings.step [OF x(3) y(3) s(5) s'(5) e4 [THEN conjunct2]]
  note e6 = strings.step [OF x(4) y(4) s(6) s'(6) e5 [THEN conjunct2]]
  note e7 = strings.step [OF x(5) y(5) s(7) s'(7) e6 [THEN conjunct2]]
  note e8 = opt_ident.step [OF x(6) y(6) s(8) s'(8) e7 [THEN conjunct2]]
  note e9 = encodeString_unique [OF e8 [THEN conjunct2] s(9) s'(9)]
  note e10 = value_pointers.step [OF x(7) y(7) s(10) s'(10) e9 [THEN conjunct2]]
  note e11 = encodeBool_inj [THEN iffD1, OF e10 [THEN conjunct2]]
  note e12 = encodeProtoOptionalValue_unique [OF x(8) y(8) s(11) s'(11) e11 [THEN conjunct2]]
  note e13 = strings.step [OF x(9) y(9) s(12) s'(12) e12 [THEN conjunct2]]
  show ?thesis using e0 e1 e2 e3 e4 e5 e6 e7 e8 e9 e10 e11 e12 e13 by (simp add: canon_exercise_def)
qed

lemma fetch_shape: "encodeFetchNode (Some x) = Inr b \<Longrightarrow> \<exists>cid tid sig stk iid act. encodeHexString (fe_contract_id x) = Inr cid \<and> encodeIdentifier (fe_template_id x) = Inr tid \<and> encode_strings (fe_signatories x) = Inr sig \<and> encode_strings (fe_stakeholders x) = Inr stk \<and> encodeProtoOptionalIdentifier (fe_interface_id x) = Inr iid \<and> encode_strings (fe_acting_parties x) = Inr act
     \<and> b = 1 # encodeString (fe_lf_version x) @ 2 # cid @ encodeString (fe_package_name x) @ tid @ sig @ stk @ iid @ act"
  by (auto simp: encodeFetchNode_def andThen_Inr)

lemma fetch_unique:
  assumes b: "encodeFetchNode (Some x) = Inr b" and c: "encodeFetchNode (Some y) = Inr c"
    and sh: "short b" "short c" and eq: "b @ r = c @ s"
  shows "canon_fetch x = canon_fetch y \<and> r = s"
proof -
  obtain cid tid sig stk iid act where x: "encodeHexString (fe_contract_id x) = Inr cid" "encodeIdentifier (fe_template_id x) = Inr tid" "encode_strings (fe_signatories x) = Inr sig" "encode_strings (fe_stakeholders x) = Inr stk" "encodeProtoOptionalIdentifier (fe_interface_id x) = Inr iid" "encode_strings (fe_acting_parties x) = Inr act"
    and bx: "b = 1 # encodeString (fe_lf_version x) @ 2 # cid @ encodeString (fe_package_name x) @ tid @ sig @ stk @ iid @ act"
    using fetch_shape [OF b] by blast
  obtain cid' tid' sig' stk' iid' act' where y: "encodeHexString (fe_contract_id y) = Inr cid'" "encodeIdentifier (fe_template_id y) = Inr tid'" "encode_strings (fe_signatories y) = Inr sig'" "encode_strings (fe_stakeholders y) = Inr stk'" "encodeProtoOptionalIdentifier (fe_interface_id y) = Inr iid'" "encode_strings (fe_acting_parties y) = Inr act'"
    and cy: "c = 1 # encodeString (fe_lf_version y) @ 2 # cid' @ encodeString (fe_package_name y) @ tid' @ sig' @ stk' @ iid' @ act'"
    using fetch_shape [OF c] by blast
  have s: "short (encodeString (fe_lf_version x))" "short (cid)" "short (encodeString (fe_package_name x))" "short (tid)" "short (sig)" "short (stk)" "short (iid)" "short (act)"
    using sh(1) by (auto simp: bx short_def)
  have s': "short (encodeString (fe_lf_version y))" "short (cid')" "short (encodeString (fe_package_name y))" "short (tid')" "short (sig')" "short (stk')" "short (iid')" "short (act')"
    using sh(2) by (auto simp: cy short_def)
  note e = eq [unfolded bx cy, simplified]
  note e0 = encodeString_unique [OF e s(1) s'(1)]
  note e1 = hex.step [OF x(1) y(1) s(2) s'(2) e0 [THEN conjunct2, simplified]]
  note e2 = encodeString_unique [OF e1 [THEN conjunct2] s(3) s'(3)]
  note e3 = ident.step [OF x(2) y(2) s(4) s'(4) e2 [THEN conjunct2]]
  note e4 = strings.step [OF x(3) y(3) s(5) s'(5) e3 [THEN conjunct2]]
  note e5 = strings.step [OF x(4) y(4) s(6) s'(6) e4 [THEN conjunct2]]
  note e6 = opt_ident.step [OF x(5) y(5) s(7) s'(7) e5 [THEN conjunct2]]
  note e7 = strings.step [OF x(6) y(6) s(8) s'(8) e6 [THEN conjunct2]]
  show ?thesis using e0 e1 e2 e3 e4 e5 e6 e7 by (simp add: canon_fetch_def)
qed

end
