(* ===== verification/CantonTrees.thy ===== *)
theory CantonTrees
  imports CantonNodes
begin

text \<open>
  Trees of nodes and metadata: equal hashes come from equal trees and equal metadata, unless two of the strings hashed
  collide.
\<close>

subsection \<open>Kinds of nodes\<close>

fun node_kind :: "node_type option \<Rightarrow> byte" where
  "node_kind (Some (NodeCreate c)) = 0"
| "node_kind (Some (NodeExercise e)) = 1"
| "node_kind (Some (NodeFetch f)) = 2"
| "node_kind _ = 3"

lemma node_head_cases:
  assumes "node_head n seed = Inr b"
  obtains (create) c where "nd_v1 n = Some (NodeCreate (Some c))" "encodeCreateNode (Some c) seed = Inr b"
  | (exercise) e sd where "nd_v1 n = Some (NodeExercise (Some e))" "seed = Some sd" "exercise_head e (nd_id n) (Some sd) = Inr b"
  | (fetch) f where "nd_v1 n = Some (NodeFetch (Some f))" "encodeFetchNode (Some f) = Inr b"
  | (rollback) cs where "nd_v1 n = Some (NodeRollback (Some cs))" "b = [1, 3]"
  using assms
  by (auto simp: node_head_def encodeCreateNode_def exercise_head_def encodeFetchNode_def
      split: option.split_asm node_type.split_asm)

lemma head_kind:
  assumes "node_head n seed = Inr b" and "compact b"
  shows "node_kind (nd_v1 n) < 3 \<and> (\<exists>lf t. b = 1 # encodeString lf @ node_kind (nd_v1 n) # t \<and> length lf < 3 * 2 ^ 24)
    \<or> node_kind (nd_v1 n) = 3 \<and> b = [1, 3]"
  using assms(1)
proof (cases rule: node_head_cases)
  case (create c)
  show ?thesis using encodeCreateNode_shape [OF create(2)] assms(2) create(1)
    by (auto simp: compact_def encodeString_def encodeBytes_def string_bytes_def)
next
  case (exercise e sd)
  show ?thesis using exercise_shape [OF exercise(3)] assms(2) exercise(1)
    by (auto simp: compact_def encodeString_def encodeBytes_def string_bytes_def)
next
  case (fetch f)
  show ?thesis using fetch_shape [OF fetch(2)] assms(2) fetch(1)
    by (auto simp: compact_def encodeString_def encodeBytes_def string_bytes_def)
qed simp

lemma encodeString_first:
  assumes "length s < 3 * 2 ^ 24"
  shows "encodeString s @ t \<noteq> 3 # u"
proof
  have n: "length s div 16777216 < 3" using assms by (simp add: less_mult_imp_div_less)
  have "encodeInt32_be w = of_nat (unat w div 256 div 256 div 256 mod 256) # tl (encodeInt32_be w)" for w
  proof -
    have four: "4 = Suc (Suc (Suc (Suc 0)))" by simp
    show ?thesis unfolding encodeInt32_be_def four le_bytes.simps by simp
  qed
  then have "\<exists>v. encodeInt32_be (of_nat (length s)) = of_nat (unat (of_nat (length s) :: u32) div 256 div 256 div 256 mod 256) # v"
    by blast
  moreover have "unat (of_nat (length s) :: u32) = length s" using assms by (simp add: unat_of_nat)
  ultimately obtain v where "encodeInt32_be (of_nat (length s)) = of_nat (length s div 16777216 mod 256) # v"
    by (auto simp: div_mult2_eq [symmetric])
  moreover assume "encodeString s @ t = 3 # u"
  ultimately have "(of_nat (length s div 16777216 mod 256) :: byte) = 3"
    by (simp add: encodeString_def encodeBytes_def string_bytes_def)
  then have "unat (of_nat (length s div 16777216 mod 256) :: byte) = unat (3 :: byte)" by (rule arg_cong)
  then have "length s div 16777216 mod 256 = 3" unfolding unat_of_mod256 by simp
  with n show False by simp
qed

lemma same_kind:
  assumes n: "node_head n seed = Inr b" "compact b" and m: "node_head m seed' = Inr c" "compact c" and eq: "b @ r = c @ s"
  shows "node_kind (nd_v1 n) = node_kind (nd_v1 m)"
  using head_kind [OF n] head_kind [OF m]
proof (elim disjE conjE exE)
  fix lf t lf' t'
  assume b: "b = 1 # encodeString lf @ node_kind (nd_v1 n) # t" and c: "c = 1 # encodeString lf' @ node_kind (nd_v1 m) # t'"
  have "short (encodeString lf)" "short (encodeString lf')"
    using compact_short [OF n(2)] compact_short [OF m(2)] by (auto simp: b c short_def)
  then show ?thesis using eq encodeString_unique [of lf "node_kind (nd_v1 n) # t @ r" lf' "node_kind (nd_v1 m) # t' @ s"]
    by (auto simp: b c)
next
  fix lf t
  assume "b = 1 # encodeString lf @ node_kind (nd_v1 n) # t" "length lf < 3 * 2 ^ 24" "c = [1, 3]"
  then show ?thesis using eq encodeString_first [of lf] by auto
next
  fix lf t
  assume "c = 1 # encodeString lf @ node_kind (nd_v1 m) # t" "length lf < 3 * 2 ^ 24" "b = [1, 3]"
  then show ?thesis using eq encodeString_first [of lf] by auto metis
qed simp

lemma head_unique:
  assumes n: "node_head n seed = Inr b" "compact b" and m: "node_head m seed' = Inr c" "compact c"
    and seeds: "seed_ok seed" "seed_ok seed'" and eq: "b @ r = c @ s"
  shows "view_of (nd_v1 n) seed = view_of (nd_v1 m) seed' \<and> (node_children n = None \<longleftrightarrow> node_children m = None) \<and> r = s"
  using n(1)
proof (cases rule: node_head_cases)
  case (create x)
  with m same_kind [OF n m eq] obtain y where "nd_v1 m = Some (NodeCreate (Some y))" "encodeCreateNode (Some y) seed' = Inr c"
    by (cases rule: node_head_cases [OF m(1)]) auto
  with create show ?thesis
    using create_unique [OF create(2) _ compact_short [OF n(2)] compact_short [OF m(2)] seeds eq] by (simp add: node_children_def)
next
  case (exercise x sd)
  with m same_kind [OF n m eq] obtain y sd' where "nd_v1 m = Some (NodeExercise (Some y))" "seed' = Some sd'"
      "exercise_head y (nd_id m) (Some sd') = Inr c"
    by (cases rule: node_head_cases [OF m(1)]) auto
  with exercise seeds show ?thesis
    using exercise_unique [OF exercise(3) _ compact_short [OF n(2)] compact_short [OF m(2)] _ _ eq] by (simp add: node_children_def seed_ok_def)
next
  case (fetch x)
  with m same_kind [OF n m eq] obtain y where "nd_v1 m = Some (NodeFetch (Some y))" "encodeFetchNode (Some y) = Inr c"
    by (cases rule: node_head_cases [OF m(1)]) auto
  with fetch show ?thesis
    using fetch_unique [OF fetch(2) _ compact_short [OF n(2)] compact_short [OF m(2)] eq] by (simp add: node_children_def)
next
  case (rollback cs)
  with m same_kind [OF n m eq] obtain ds where "nd_v1 m = Some (NodeRollback (Some ds))" "c = [1, 3]"
    by (cases rule: node_head_cases [OF m(1)]) auto
  with rollback eq show ?thesis by (simp add: node_children_def)
qed

subsection \<open>Binding of trees\<close>

datatype view_tree = ViewTree node_view "view_tree list"

primrec tree_view :: "node_tree \<Rightarrow> view_tree" where
  "tree_view (Tree n seed ts) = ViewTree (view_of (nd_v1 n) seed) (map tree_view ts)"

primrec proper :: "node_tree \<Rightarrow> bool" where
  "proper (Tree n seed ts) \<longleftrightarrow> (\<exists>h. node_head n seed = Inr h) \<and> seed_ok seed \<and> (node_children n = None \<longrightarrow> ts = [])
     \<and> (\<forall>p\<in>set (map proper ts). p)"

lemma hashes_unique:
  assumes "encodeInt32_be (of_nat (length xs)) @ concat xs @ r = encodeInt32_be (of_nat (length ys)) @ concat ys @ s"
    and "\<forall>x\<in>set xs. length (x :: bytes) = 32" and "\<forall>y\<in>set ys. length y = 32" and "short (concat xs)" and "short (concat ys)"
  shows "xs = ys \<and> r = s"
proof -
  have c: "length (concat zs) = 32 * length zs" if "\<forall>z\<in>set zs. length z = 32" for zs :: "bytes list"
    using that by (induction zs) auto
  have "length xs < 2 ^ 32" "length ys < 2 ^ 32" using assms(4,5) c [OF assms(2)] c [OF assms(3)] by (simp_all add: short_def)
  moreover have e: "encodeInt32_be (of_nat (length xs)) = encodeInt32_be (of_nat (length ys)) \<and> concat xs @ r = concat ys @ s"
    using assms(1) by (simp add: append_eq_append_conv)
  ultimately have l: "length xs = length ys" by (simp add: length_inj)
  then have "concat xs = concat ys \<and> r = s"
    using e c [OF assms(2)] c [OF assms(3)] by (simp add: append_eq_append_conv)
  moreover have "\<forall>(x, y)\<in>set (zip xs ys). length x = length y"
  proof clarify
    fix x y assume "(x, y) \<in> set (zip xs ys)"
    then have "x \<in> set xs" "y \<in> set ys" by (auto dest: set_zip_leftD set_zip_rightD)
    then show "length x = length y" using assms(2,3) by simp
  qed
  ultimately show ?thesis using concat_injective [of xs ys] l by blast
qed

lemma map_eq_map: "map f xs = map f ys \<Longrightarrow> (\<And>x y. x \<in> set xs \<Longrightarrow> y \<in> set ys \<Longrightarrow> f x = f y \<Longrightarrow> g x = g y)
    \<Longrightarrow> map g xs = map g ys"
proof (induction xs arbitrary: ys)
  case (Cons x xs)
  then show ?case by (cases ys) auto
qed simp

lemma tree_string_in: "tree_string sha t \<in> tree_strings sha t"
  by (cases t) simp

lemma tree_binding:
  assumes sha: "\<And>x. length (sha x) = 32"
  shows "proper t \<Longrightarrow> proper u \<Longrightarrow> sha (tree_string sha t) = sha (tree_string sha u)
    \<Longrightarrow> inj_on sha (tree_strings sha t \<union> tree_strings sha u) \<Longrightarrow> \<forall>x\<in>tree_strings sha t \<union> tree_strings sha u. compact x
    \<Longrightarrow> tree_view t = tree_view u"
proof (induction t arbitrary: u)
  case (Tree n seed ts)
  obtain m seed' us where u: "u = Tree m seed' us" by (cases u)
  let ?hs = "map (\<lambda>t. sha (tree_string sha t)) ts" and ?gs = "map (\<lambda>t. sha (tree_string sha t)) us"
  let ?c = "\<lambda>n (ts :: bytes list). if node_children n = None then [] else encodeInt32_be (of_nat (length ts)) @ concat ts"
  obtain h where h1: "node_head n seed = Inr h" using Tree.prems(1) by auto
  obtain g where g1: "node_head m seed' = Inr g" using Tree.prems(2) unfolding u by auto
  have "tree_string sha (Tree n seed ts) = h @ ?c n ?hs" "tree_string sha (Tree m seed' us) = g @ ?c m ?gs"
    unfolding tree_string.simps h1 g1 sum.case map_map o_def length_map by (rule refl)+
  note h = h1 this(1) and g = g1 this(2)
  have "tree_string sha (Tree n seed ts) = tree_string sha (Tree m seed' us)"
    using inj_onD [OF Tree.prems(4) Tree.prems(3)] tree_string_in unfolding u by blast
  then have eq: "h @ ?c n ?hs = g @ ?c m ?gs" unfolding h(2) g(2) .
  have "compact (tree_string sha (Tree n seed ts))" "compact (tree_string sha (Tree m seed' us))"
    using Tree.prems(5) tree_string_in unfolding u by blast+
  then have "compact (h @ ?c n ?hs)" "compact (g @ ?c m ?gs)" unfolding h(2) g(2) .
  then have c: "compact h" "compact g" "short (?c n ?hs)" "short (?c m ?gs)"
    by (auto simp: compact_def short_def)
  have k: "view_of (nd_v1 n) seed = view_of (nd_v1 m) seed' \<and> (node_children n = None \<longleftrightarrow> node_children m = None)
      \<and> ?c n ?hs = ?c m ?gs"
    using Tree.prems(1,2) u by (intro head_unique [OF h(1) c(1) g(1) c(2) _ _ eq]) simp_all
  have hs: "?hs = ?gs"
  proof (cases "node_children n = None")
    case True
    then show ?thesis using k Tree.prems(1,2) u by auto
  next
    case False
    then have "short (concat ?hs)" "short (concat ?gs)" using c(3,4) k by (auto simp: short_def)
    then show ?thesis using hashes_unique [of ?hs "[]" ?gs "[]"] False k sha by auto
  qed
  have "map tree_view ts = map tree_view us"
  proof (rule map_eq_map [OF hs])
    fix x y assume xy: "x \<in> set ts" "y \<in> set us" "sha (tree_string sha x) = sha (tree_string sha y)"
    then have "tree_strings sha x \<subseteq> tree_strings sha (Tree n seed ts)" "tree_strings sha y \<subseteq> tree_strings sha u"
      unfolding u by auto
    then show "tree_view x = tree_view y"
      using Tree.prems(1,2,5) xy u by (intro Tree.IH inj_on_subset [OF Tree.prems(4)]) auto
  qed
  with k show ?case using u by simp
qed

lemma unfolds_proper: "unfolds nodes seeds nodeID t \<Longrightarrow> \<forall>s\<in>set seeds. seed_ok (ns_seed s) \<Longrightarrow> proper t"
proof (induction rule: unfolds.induct)
  case (unfold nodeID n h ts)
  have "seed_ok (findSeed (nd_id n) seeds)"
    using unfold.prems by (auto simp: findSeed_def seed_ok_def find_Some_iff split: option.split)
  moreover have "proper t" if "t \<in> set ts" for t
    using unfold.IH unfold.prems that by (auto simp: list_all2_conv_all_nth in_set_conv_nth)
  ultimately show ?case using unfold by (auto split: option.split_asm)
qed

lemma unfolds_deterministic: "unfolds nodes seeds nodeID t \<Longrightarrow> unfolds nodes seeds nodeID u \<Longrightarrow> t = u"
proof (induction arbitrary: u rule: unfolds.induct)
  case (unfold nodeID n h ts)
  obtain us where u: "u = Tree n (findSeed (nd_id n) seeds) us"
    "list_all2 (unfolds nodes seeds) (case node_children n of None \<Rightarrow> [] | Some cs \<Rightarrow> cs) us"
    using unfold.prems unfold(1) by (cases rule: unfolds.cases) auto
  have "ts = us"
    using unfold.IH u(2) by (intro nth_equalityI) (auto simp: list_all2_conv_all_nth)
  with u(1) show ?case by simp
qed

subsection \<open>Metadata\<close>

definition canon_input :: "input_contract \<Rightarrow> input_contract" where
  "canon_input c = c\<lparr>ic_v1 := map_option canon_create (ic_v1 c)\<rparr>"

definition metadata_view :: "ledger_metadata \<Rightarrow> ledger_metadata" where
  "metadata_view m = m\<lparr>md_input_contracts := map (map_option canon_input) (md_input_contracts m)\<rparr>"

text \<open>The strings hashed for the input contracts.\<close>

definition contract_strings :: "ledger_metadata \<Rightarrow> bytes set" where
  "contract_strings m = {b. \<exists>c\<in>set (md_input_contracts m). \<exists>i. c = Some i \<and> encodeCreateNode (ic_v1 i) None = Inr b}"

lemma encodeInputContract_shape: "encodeInputContract sha c = Inr b \<Longrightarrow> \<exists>i x e. c = Some i \<and> ic_v1 i = Some x
    \<and> encodeCreateNode (Some x) None = Inr e \<and> b = encodeInt64_be (ic_created_at i) @ sha e"
proof -
  have "findSeed ''unused_node_id'' [] = None" by (simp add: findSeed_def split: option.split)
  then show "encodeInputContract sha c = Inr b \<Longrightarrow> \<exists>i x e. c = Some i \<and> ic_v1 i = Some x
    \<and> encodeCreateNode (Some x) None = Inr e \<and> b = encodeInt64_be (ic_created_at i) @ sha e"
    by (auto simp: encodeInputContract_def andThen_Inr split: option.split_asm)
qed

lemma inputs_unique:
  assumes sha: "\<And>x. length (sha x) = 32" and S: "inj_on sha S" "\<forall>x\<in>S. compact x"
  shows "encode_each (encodeInputContract sha) xs = Inr b \<Longrightarrow> encode_each (encodeInputContract sha) ys = Inr c
    \<Longrightarrow> length xs = length ys \<Longrightarrow> b @ r = c @ s
    \<Longrightarrow> {e. \<exists>c\<in>set xs \<union> set ys. \<exists>i. c = Some i \<and> encodeCreateNode (ic_v1 i) None = Inr e} \<subseteq> S
    \<Longrightarrow> map (map_option canon_input) xs = map (map_option canon_input) ys \<and> r = s"
proof (induction xs ys arbitrary: b c rule: list_induct2')
  case (4 x xs y ys)
  obtain i u e bs where b: "x = Some i" "ic_v1 i = Some u" "encodeCreateNode (Some u) None = Inr e"
    "encode_each (encodeInputContract sha) xs = Inr bs" "b = encodeInt64_be (ic_created_at i) @ sha e @ bs"
    using 4(2) encodeInputContract_shape by (fastforce simp: andThen_Inr)
  obtain j v f cs where c: "y = Some j" "ic_v1 j = Some v" "encodeCreateNode (Some v) None = Inr f"
    "encode_each (encodeInputContract sha) ys = Inr cs" "c = encodeInt64_be (ic_created_at j) @ sha f @ cs"
    using 4(3) encodeInputContract_shape by (fastforce simp: andThen_Inr)
  have ef: "e \<in> S" "f \<in> S" using 4(6) b c by auto
  have h: "ic_created_at i = ic_created_at j" "sha e = sha f" "bs @ r = cs @ s"
    using 4(5) b(5) c(5) sha by (simp_all add: append_eq_append_conv)
  then have "e = f" using inj_onD [OF S(1)] ef by blast
  then have "canon_create u = canon_create v"
    using create_unique [of u None e v None f "[]" "[]"] b(3) c(3) S(2) ef by (simp add: compact_short seed_ok_def)
  then have "canon_input i = canon_input j"
    using h(1) b(2) c(2) by (cases i; cases j) (simp add: canon_input_def)
  moreover have "map (map_option canon_input) xs = map (map_option canon_input) ys \<and> r = s"
    using 4(4,6) h(3) by (intro 4(1) [OF b(4) c(4)]) auto
  ultimately show ?case using b(1) c(1) by simp
qed simp_all

lemma encodeMetadata_shape: "encodeMetadata sha m = Inr b \<Longrightarrow> \<exists>x si act inp. m = Some x \<and> md_submitter x = Some si
   \<and> encode_strings (si_act_as si) = Inr act \<and> encode_each (encodeInputContract sha) (md_input_contracts x) = Inr inp
   \<and> b = 1 # act @ encodeString (si_command_id si) @ encodeString (md_transaction_uuid x)
           @ encodeInt32_be (md_mediator_group x) @ encodeString (md_synchronizer x)
           @ encodeOptionalUint64 (md_min_time x) @ encodeOptionalUint64 (md_max_time x)
           @ encodeInt64_be (md_preparation_time x) @ encodeInt32_be (of_nat (length (md_input_contracts x))) @ inp"
  by (auto simp: encodeMetadata_def encodeRepeated_def andThen_Inr split: option.split_asm)

lemma inputs_length: "encode_each (encodeInputContract sha) xs = Inr b \<Longrightarrow> length xs \<le> length b"
  by (rule encode_each_length) (auto simp: solid_def dest: encodeInputContract_shape)

lemma metadata_unique:
  assumes sha: "\<And>x. length (sha x) = 32" and S: "inj_on sha S" "\<forall>x\<in>S. compact x"
    and b: "encodeMetadata sha (Some m) = Inr b" and c: "encodeMetadata sha (Some m') = Inr b" and sh: "short b"
    and sub: "contract_strings m \<union> contract_strings m' \<subseteq> S"
  shows "metadata_view m = metadata_view m'"
proof -
  obtain si act inp where x: "md_submitter m = Some si" "encode_strings (si_act_as si) = Inr act"
    "encode_each (encodeInputContract sha) (md_input_contracts m) = Inr inp"
    and bx: "b = 1 # act @ encodeString (si_command_id si) @ encodeString (md_transaction_uuid m)
           @ encodeInt32_be (md_mediator_group m) @ encodeString (md_synchronizer m)
           @ encodeOptionalUint64 (md_min_time m) @ encodeOptionalUint64 (md_max_time m)
           @ encodeInt64_be (md_preparation_time m) @ encodeInt32_be (of_nat (length (md_input_contracts m))) @ inp"
    using encodeMetadata_shape [OF b] by blast
  obtain si' act' inp' where y: "md_submitter m' = Some si'" "encode_strings (si_act_as si') = Inr act'"
    "encode_each (encodeInputContract sha) (md_input_contracts m') = Inr inp'"
    and cy: "b = 1 # act' @ encodeString (si_command_id si') @ encodeString (md_transaction_uuid m')
           @ encodeInt32_be (md_mediator_group m') @ encodeString (md_synchronizer m')
           @ encodeOptionalUint64 (md_min_time m') @ encodeOptionalUint64 (md_max_time m')
           @ encodeInt64_be (md_preparation_time m') @ encodeInt32_be (of_nat (length (md_input_contracts m'))) @ inp'"
    using encodeMetadata_shape [OF c] by blast
  have s: "short act" "short (encodeString (si_command_id si))" "short (encodeString (md_transaction_uuid m))"
    "short (encodeString (md_synchronizer m))" "length (md_input_contracts m) < 2 ^ 32"
    using sh inputs_length [OF x(3)] by (auto simp: bx short_def)
  have s': "short act'" "short (encodeString (si_command_id si'))" "short (encodeString (md_transaction_uuid m'))"
    "short (encodeString (md_synchronizer m'))" "length (md_input_contracts m') < 2 ^ 32"
    using sh inputs_length [OF y(3)] by (auto simp: cy short_def)
  note e = trans [OF bx [symmetric] cy, simplified]
  note e1 = strings.step [OF x(2) y(2) s(1) s'(1) e]
  note e2 = encodeString_unique [OF e1 [THEN conjunct2] s(2) s'(2)]
  note e3 = encodeString_unique [OF e2 [THEN conjunct2] s(3) s'(3)]
  have e4: "md_mediator_group m = md_mediator_group m'" and e4': "encodeString (md_synchronizer m)
           @ encodeOptionalUint64 (md_min_time m) @ encodeOptionalUint64 (md_max_time m)
           @ encodeInt64_be (md_preparation_time m) @ encodeInt32_be (of_nat (length (md_input_contracts m))) @ inp
      = encodeString (md_synchronizer m')
           @ encodeOptionalUint64 (md_min_time m') @ encodeOptionalUint64 (md_max_time m')
           @ encodeInt64_be (md_preparation_time m') @ encodeInt32_be (of_nat (length (md_input_contracts m'))) @ inp'"
    using e3 by (simp_all add: append_eq_append_conv)
  note e5 = encodeString_unique [OF e4' s(4) s'(4)]
  note e6 = encodeOptionalUint64_unique [OF e5 [THEN conjunct2]]
  note e7 = encodeOptionalUint64_unique [OF e6 [THEN conjunct2]]
  have e8: "md_preparation_time m = md_preparation_time m'"
    "encodeInt32_be (of_nat (length (md_input_contracts m))) = encodeInt32_be (of_nat (length (md_input_contracts m')))" "inp = inp'"
    using e7 by (simp_all add: append_eq_append_conv)
  have "map (map_option canon_input) (md_input_contracts m) = map (map_option canon_input) (md_input_contracts m') \<and> [] = ([] :: bytes)"
  proof (rule inputs_unique [OF sha S x(3) y(3)])
    show "length (md_input_contracts m) = length (md_input_contracts m')" using e8(2) s(5) s'(5) by (simp add: length_inj)
    show "{e. \<exists>c\<in>set (md_input_contracts m) \<union> set (md_input_contracts m'). \<exists>i. c = Some i \<and> encodeCreateNode (ic_v1 i) None = Inr e} \<subseteq> S"
      using sub unfolding contract_strings_def by blast
  qed (simp add: e8(3))
  with e1 e2 e3 e4 e5 e6 e7 e8 x(1) y(1) show ?thesis by (simp add: metadata_view_def)
qed

end
