(* ===== verification/CantonBinding.thy ===== *)
theory CantonBinding
  imports CantonTrees
begin

text \<open>
  What the hash of a prepared Canton transaction binds: two transactions with the same hash are the
  same, as far as the ledger reads them, unless two of the strings hashed collide. And when it is computed at all.
\<close>

subsection \<open>Binding of transactions\<close>

definition unfolding_of :: "prepared_tx \<Rightarrow> node_tree list \<Rightarrow> bool" where
  "unfolding_of p ts \<longleftrightarrow> (\<exists>t nodes. pt_transaction p = Some t \<and> createNodesDict p = Inr nodes
     \<and> list_all2 (unfolds nodes (dt_seeds t)) (dt_roots t) ts)"

text \<open>The ledger's reading of a transaction, and the strings that are hashed for it.\<close>

definition ledger_reading :: "prepared_tx \<Rightarrow> (string \<times> view_tree list \<times> ledger_metadata) set" where
  "ledger_reading p = {v. \<exists>t m ts. pt_transaction p = Some t \<and> pt_metadata p = Some m \<and> unfolding_of p ts
     \<and> v = (dt_version t, map tree_view ts, metadata_view m)}"

definition transaction_string :: "(bytes \<Rightarrow> bytes) \<Rightarrow> daml_transaction \<Rightarrow> node_tree list \<Rightarrow> bytes" where
  "transaction_string sha t ts = preparedTransactionHashPurpose @ encodeString (dt_version t)
     @ encodeInt32_be (of_nat (length ts)) @ concat (map (\<lambda>t. sha (tree_string sha t)) ts)"

definition metadata_string :: "(bytes \<Rightarrow> bytes) \<Rightarrow> ledger_metadata \<Rightarrow> bytes" where
  "metadata_string sha m = preparedTransactionHashPurpose @ (case encodeMetadata sha (Some m) of Inl _ \<Rightarrow> [] | Inr b \<Rightarrow> b)"

definition hashed :: "(bytes \<Rightarrow> bytes) \<Rightarrow> prepared_tx \<Rightarrow> bytes set" where
  "hashed sha p = {x. \<exists>t m ts. pt_transaction p = Some t \<and> pt_metadata p = Some m \<and> unfolding_of p ts
     \<and> (x \<in> \<Union> (tree_strings sha ` set ts) \<union> contract_strings m \<union> {transaction_string sha t ts, metadata_string sha m,
          preparedTransactionHashPurpose @ [2] @ sha (transaction_string sha t ts) @ sha (metadata_string sha m)})}"

definition seeded :: "prepared_tx \<Rightarrow> bool" where
  "seeded p \<longleftrightarrow> (\<forall>t. pt_transaction p = Some t \<longrightarrow> (\<forall>s\<in>set (dt_seeds t). seed_ok (ns_seed s)))"

lemma unfolding_deterministic: "unfolding_of p ts \<Longrightarrow> unfolding_of p us \<Longrightarrow> ts = us"
  using unfolds_deterministic unfolding unfolding_of_def
  by (fastforce simp: list_all2_conv_all_nth intro!: nth_equalityI)

lemma ledger_reading_unique:
  assumes "pt_transaction p = Some t" "pt_metadata p = Some m" "unfolding_of p ts"
  shows "ledger_reading p = {(dt_version t, map tree_view ts, metadata_view m)}"
proof -
  have "unfolding_of p us \<longleftrightarrow> us = ts" for us using assms(3) unfolding_deterministic by blast
  then show ?thesis by (simp add: ledger_reading_def assms(1,2))
qed

lemma computed_hash:
  assumes "ComputePreparedTransactionHash sha (Some p) = Some (Inr h)"
  obtains t m ts b where "pt_transaction p = Some t" "pt_metadata p = Some m" "unfolding_of p ts"
    "encodeMetadata sha (Some m) = Inr b"
    "h = sha (preparedTransactionHashPurpose @ [2] @ sha (transaction_string sha t ts) @ sha (metadata_string sha m))"
proof -
  obtain nodes tx md where n: "createNodesDict p = Inr nodes" "hashTransaction sha (pt_transaction p) nodes = Some (Inr tx)"
    "hashMetadata sha (pt_metadata p) = Inr md" "h = sha (preparedTransactionHashPurpose @ [2] @ tx @ md)"
    using assms by (auto simp: ComputePreparedTransactionHash_def Option.bind_eq_Some_conv andThen_Inr split: sum.split_asm)
  obtain t where t: "pt_transaction p = Some t" using n(1) by (auto simp: createNodesDict_def split: option.split_asm)
  obtain e where e: "encodeTransaction sha (Some t) nodes (dt_seeds t) = Some (Inr e)" "tx = sha (preparedTransactionHashPurpose @ e)"
    using n(2) by (auto simp: hashTransaction_def t Option.bind_eq_Some_conv andThen_Inr)
  obtain hs where hs: "list_all2 (\<lambda>c h. encodeNodeID sha nodes (dt_seeds t) c = Some (Inr h)) (dt_roots t) hs"
    "e = encodeString (dt_version t) @ encodeInt32_be (of_nat (length (dt_roots t))) @ concat hs"
    using e(1) by (auto simp: encodeTransaction_def Option.bind_eq_Some_conv andThen_Inr encodeRepeatedStrings_Inr)
  have "list_all2 (\<lambda>c h. \<exists>t'. unfolds nodes (dt_seeds t) c t' \<and> h = sha (tree_string sha t')) (dt_roots t) hs"
    using hs(1) by (rule list_all2_mono) (use encodeNodeID_unfolds in blast)
  then obtain ts where ts: "list_all2 (unfolds nodes (dt_seeds t)) (dt_roots t) ts" "hs = map (\<lambda>t. sha (tree_string sha t)) ts"
    using list_all2_choose [of "unfolds nodes (dt_seeds t)" "\<lambda>t. sha (tree_string sha t)"] by blast
  obtain m b where m: "pt_metadata p = Some m" "encodeMetadata sha (Some m) = Inr b" "md = sha (preparedTransactionHashPurpose @ b)"
    using n(3) by (cases "pt_metadata p") (auto simp: hashMetadata_def encodeMetadata_def [of sha None] andThen_Inr)
  have "unfolding_of p ts" using t n(1) ts(1) by (auto simp: unfolding_of_def)
  moreover have "preparedTransactionHashPurpose @ e = transaction_string sha t ts"
    using hs(2) ts list_all2_lengthD [OF ts(1)] by (simp add: transaction_string_def)
  moreover have "preparedTransactionHashPurpose @ b = metadata_string sha m" using m(2) by (simp add: metadata_string_def)
  ultimately show ?thesis using that [of t m ts b] t m n(4) e(2) by simp
qed

text \<open>C4: The hash the wallet signs binds the transaction: when two prepared transactions have the same hash, the hash
  function gives 32 bytes and does not collide on the strings hashed for them, each of these strings has less than
  \<open>3 * 2^24\<close> bytes (48 megabytes), and every seed of both has 32 bytes, then the ledger reads the same from both: the
  same tree of creations, exercises, fetches and rollbacks with the same contracts, arguments, results, parties
  and seeds, and the same metadata and input contracts. Node ids, nodes no root leads to, the spelling of
  contract ids and what is not hashed by design (the record time, the blobs of the contracts) remain open. Without
  the bound on seeds it fails, since they are hashed without their length.\<close>

theorem prepared_hash_binding:
  assumes sha: "\<And>x. length (sha x) = 32"
    and p: "ComputePreparedTransactionHash sha (Some p) = Some (Inr h)" and q: "ComputePreparedTransactionHash sha (Some q) = Some (Inr h)"
    and inj: "inj_on sha (hashed sha p \<union> hashed sha q)" and len: "\<forall>x\<in>hashed sha p \<union> hashed sha q. compact x"
    and seeds: "seeded p" "seeded q"
  shows "\<exists>v. ledger_reading p = {v} \<and> ledger_reading q = {v}"
proof -
  obtain t m ts b where P: "pt_transaction p = Some t" "pt_metadata p = Some m" "unfolding_of p ts" "encodeMetadata sha (Some m) = Inr b"
    "h = sha (preparedTransactionHashPurpose @ [2] @ sha (transaction_string sha t ts) @ sha (metadata_string sha m))"
    using computed_hash [OF p] by metis
  obtain u n us c where Q: "pt_transaction q = Some u" "pt_metadata q = Some n" "unfolding_of q us" "encodeMetadata sha (Some n) = Inr c"
    "h = sha (preparedTransactionHashPurpose @ [2] @ sha (transaction_string sha u us) @ sha (metadata_string sha n))"
    using computed_hash [OF q] by metis
  let ?H = "hashed sha p \<union> hashed sha q"
  have inP: "\<Union> (tree_strings sha ` set ts) \<union> contract_strings m \<union> {transaction_string sha t ts, metadata_string sha m,
      preparedTransactionHashPurpose @ [2] @ sha (transaction_string sha t ts) @ sha (metadata_string sha m)} \<subseteq> ?H"
    using P by (auto simp: hashed_def)
  have inQ: "\<Union> (tree_strings sha ` set us) \<union> contract_strings n \<union> {transaction_string sha u us, metadata_string sha n,
      preparedTransactionHashPurpose @ [2] @ sha (transaction_string sha u us) @ sha (metadata_string sha n)} \<subseteq> ?H"
    using Q by (auto simp: hashed_def)
  have "sha (transaction_string sha t ts) @ sha (metadata_string sha m) = sha (transaction_string sha u us) @ sha (metadata_string sha n)"
    using inj_onD [OF inj trans [OF P(5) [symmetric] Q(5)]] inP inQ by auto
  then have "sha (transaction_string sha t ts) = sha (transaction_string sha u us)" "sha (metadata_string sha m) = sha (metadata_string sha n)"
    using sha by (simp_all add: append_eq_append_conv)
  then have tx: "transaction_string sha t ts = transaction_string sha u us" and md: "metadata_string sha m = metadata_string sha n"
    using inj_onD [OF inj] inP inQ by auto
  have bc: "b = c" using md P(4) Q(4) by (simp add: metadata_string_def)
  have c: "compact (transaction_string sha t ts)" "compact (transaction_string sha u us)" "compact (metadata_string sha m)"
    using len inP inQ by auto
  have "short b" using c(3) P(4) by (auto simp: metadata_string_def compact_def short_def)
  then have meta: "metadata_view m = metadata_view n"
    using metadata_unique [OF sha inj len P(4) Q(4) [folded bc]] inP inQ by blast
  let ?hs = "map (\<lambda>t. sha (tree_string sha t)) ts" and ?gs = "map (\<lambda>t. sha (tree_string sha t)) us"
  have s: "short (encodeString (dt_version t))" "short (encodeString (dt_version u))" "short (concat ?hs)" "short (concat ?gs)"
    using c(1,2) by (auto simp: transaction_string_def compact_def short_def)
  have v: "dt_version t = dt_version u \<and> encodeInt32_be (of_nat (length ts)) @ concat ?hs = encodeInt32_be (of_nat (length us)) @ concat ?gs"
    using tx s by (intro encodeString_unique) (simp_all add: transaction_string_def)
  then have hs: "?hs = ?gs" using hashes_unique [of ?hs "[]" ?gs "[]"] s sha by simp
  have proper: "proper x" if "x \<in> set ts \<union> set us" for x
    using P(1,3) Q(1,3) seeds that unfolds_proper unfolding unfolding_of_def seeded_def
    by (fastforce simp: list_all2_conv_all_nth in_set_conv_nth)
  have "map tree_view ts = map tree_view us"
  proof (rule map_eq_map [OF hs])
    fix x y assume xy: "x \<in> set ts" "y \<in> set us" "sha (tree_string sha x) = sha (tree_string sha y)"
    then have "tree_strings sha x \<union> tree_strings sha y \<subseteq> ?H" using inP inQ by auto
    then show "tree_view x = tree_view y"
      using xy proper len by (intro tree_binding [of sha, OF sha] inj_on_subset [OF inj]) auto
  qed
  then have "ledger_reading p = ledger_reading q"
    using ledger_reading_unique [OF P(1-3)] ledger_reading_unique [OF Q(1-3)] conjunct1 [OF v] meta by simp
  then show ?thesis using ledger_reading_unique [OF P(1-3)] by blast
qed

subsection \<open>An example\<close>

text \<open>The second transaction has one more node, which no root leads to.\<close>

definition padded :: "bytes \<Rightarrow> bytes" where
  "padded x = take 32 (x @ replicate 32 0)"

definition hash_example :: "ledger_node option list \<Rightarrow> prepared_tx" where
  "hash_example ns = \<lparr>pt_transaction = Some \<lparr>dt_version = ''2'', dt_roots = [''0''],
       dt_nodes = Some \<lparr>nd_id = ''0'', nd_v1 = Some (NodeRollback (Some []))\<rparr> # ns, dt_seeds = []\<rparr>,
     pt_metadata = Some \<lparr>md_submitter = Some \<lparr>si_act_as = [], si_command_id = []\<rparr>, md_synchronizer = [], md_mediator_group = 0,
       md_transaction_uuid = [], md_preparation_time = 0, md_input_contracts = [], md_min_time = None, md_max_time = None\<rparr>\<rparr>"

definition stray_node :: ledger_node where
  "stray_node = \<lparr>nd_id = ''1'', nd_v1 = None\<rparr>"

lemma hash_example_unfolds: "ns = [] \<or> ns = [Some stray_node] \<Longrightarrow> unfolding_of (hash_example ns) ts \<longleftrightarrow>
    ts = [Tree \<lparr>nd_id = ''0'', nd_v1 = Some (NodeRollback (Some []))\<rparr> None []]"
proof -
  let ?n = "\<lparr>nd_id = ''0'', nd_v1 = Some (NodeRollback (Some []))\<rparr>"
  assume "ns = [] \<or> ns = [Some stray_node]"
  then obtain nodes where n: "createNodesDict (hash_example ns) = Inr nodes" "nodes ''0'' = Some ?n"
    by (auto simp: createNodesDict_def hash_example_def stray_node_def)
  have "findSeed ''0'' [] = None" by (simp add: findSeed_def split: option.split)
  moreover have "node_head ?n None = Inr [1, 3]" "node_children ?n = Some []" by (simp_all add: node_head_def node_children_def)
  ultimately have "unfolds nodes [] ''0'' (Tree ?n None [])"
    using n(2) unfolds.intros [of nodes "''0''" ?n "[]" "[1, 3]" "[]"] by simp
  moreover from this have "t = Tree ?n None []" if "unfolds nodes [] ''0'' t" for t
    using unfolds_deterministic that by blast
  ultimately have "unfolds nodes [] ''0'' t \<longleftrightarrow> t = Tree ?n None []" for t by blast
  then show ?thesis using n(1)
    by (auto simp: unfolding_of_def list_all2_Cons1 hash_example_def)
qed

lemma hashed_strings:
  assumes "pt_transaction p = Some t" "pt_metadata p = Some m" "unfolding_of p ts"
  shows "hashed sha p = \<Union> (tree_strings sha ` set ts) \<union> contract_strings m \<union> {transaction_string sha t ts, metadata_string sha m,
          preparedTransactionHashPurpose @ [2] @ sha (transaction_string sha t ts) @ sha (metadata_string sha m)}"
proof -
  have "unfolding_of p us \<longleftrightarrow> us = ts" for us using assms(3) unfolding_deterministic by blast
  then show ?thesis by (auto simp: hashed_def assms(1,2))
qed

lemma hash_example_strings:
  assumes ns: "ns = [] \<or> ns = [Some stray_node]"
  shows "hashed padded (hash_example ns) =
    {[1, 3, 0, 0, 0, 0], [0, 0, 0, 0x30, 0, 0, 0, 1, 50, 0, 0, 0, 1] @ padded [1, 3, 0, 0, 0, 0],
     [0, 0, 0, 0x30, 1] @ replicate 34 0,
     [0, 0, 0, 0x30, 2] @ padded ([0, 0, 0, 0x30, 0, 0, 0, 1, 50, 0, 0, 0, 1] @ padded [1, 3, 0, 0, 0, 0])
        @ padded ([0, 0, 0, 0x30, 1] @ replicate 34 0)}"
proof -
  let ?t = "Tree \<lparr>nd_id = ''0'', nd_v1 = Some (NodeRollback (Some []))\<rparr> None []"
  define m where "m = the (pt_metadata (hash_example ns))"
  define t where "t = the (pt_transaction (hash_example ns))"
  have p: "pt_transaction (hash_example ns) = Some t" "pt_metadata (hash_example ns) = Some m"
    by (simp_all add: t_def m_def hash_example_def)
  have "contract_strings m = {}" by (auto simp: m_def contract_strings_def hash_example_def)
  moreover have "tree_string padded ?t = [1, 3, 0, 0, 0, 0]" by code_simp
  moreover have "tree_strings padded ?t = {tree_string padded ?t}" by simp
  moreover have "transaction_string padded t [?t] = [0, 0, 0, 0x30, 0, 0, 0, 1, 50, 0, 0, 0, 1] @ padded (tree_string padded ?t)"
  proof -
    have "encodeString (dt_version t) = [0, 0, 0, 1, 50]" "encodeInt32_be (of_nat (length [?t])) = [0, 0, 0, 1]"
      by (simp add: t_def hash_example_def, code_simp) code_simp
    then show ?thesis unfolding transaction_string_def preparedTransactionHashPurpose_def by (simp del: tree_string.simps)
  qed
  moreover have "metadata_string padded m = [0, 0, 0, 0x30, 1] @ replicate 34 0"
    by (simp add: m_def hash_example_def) code_simp
  ultimately show ?thesis
    unfolding hashed_strings [OF p hash_example_unfolds [OF ns, THEN iffD2, OF refl]]
    by (simp add: preparedTransactionHashPurpose_def insert_commute del: tree_string.simps tree_strings.simps)
qed

lemma hash_example_hash:
  assumes ns: "ns = [] \<or> ns = [Some stray_node]"
  shows "ComputePreparedTransactionHash padded (Some (hash_example ns)) = Some (Inr ([0, 0, 0, 0x30, 2, 0, 0, 0, 0x30, 0, 0, 0, 1, 50, 0, 0, 0, 1, 1, 3] @ replicate 12 0))"
proof -
  define m where "m = pt_metadata (hash_example ns)"
  define t where "t = the (pt_transaction (hash_example ns))"
  have t: "pt_transaction (hash_example ns) = Some t" "dt_roots t = [''0'']" "dt_version t = ''2''" "dt_seeds t = []"
    by (simp_all add: t_def hash_example_def)
  obtain nodes where n: "createNodesDict (hash_example ns) = Inr nodes"
    "nodes ''0'' = Some \<lparr>nd_id = ''0'', nd_v1 = Some (NodeRollback (Some []))\<rparr>"
    using ns by (auto simp: createNodesDict_def hash_example_def stray_node_def)
  have "encodeNodeID padded nodes [] ''0'' = Some (Inr (padded [1, 3, 0, 0, 0, 0]))"
    by (subst encodeNodeID.simps) (simp add: n encodeNode_def encodeRollbackNode_def encodeRepeatedStrings_def, code_simp)
  then have h: "hashTransaction padded (Some t) nodes = Some (Inr (padded ([0, 0, 0, 0x30, 0, 0, 0, 1, 50, 0, 0, 0, 1] @ padded [1, 3, 0, 0, 0, 0])))"
    unfolding hashTransaction_def encodeTransaction_def encodeRepeatedStrings_def
    by (simp add: t, code_simp)
  have "hashMetadata padded m = Inr (padded ([0, 0, 0, 0x30, 1] @ replicate 34 0))"
    by (simp add: m_def hash_example_def) code_simp
  then show ?thesis
    by (simp add: ComputePreparedTransactionHash_def n h t m_def [symmetric], code_simp)
qed

theorem prepared_hash_binding_witness:
  "\<exists>v. ledger_reading (hash_example []) = {v} \<and> ledger_reading (hash_example [Some stray_node]) = {v}"
proof (rule prepared_hash_binding [of padded])
  let ?S = "hashed padded (hash_example []) \<union> hashed padded (hash_example [Some stray_node])"
  show "length (padded x) = 32" for x by (simp add: padded_def)
  show "ComputePreparedTransactionHash padded (Some (hash_example [])) = Some (Inr ([0, 0, 0, 0x30, 2, 0, 0, 0, 0x30, 0, 0, 0, 1, 50, 0, 0, 0, 1, 1, 3] @ replicate 12 0))"
    by (rule hash_example_hash) simp
  show "ComputePreparedTransactionHash padded (Some (hash_example [Some stray_node])) = Some (Inr ([0, 0, 0, 0x30, 2, 0, 0, 0, 0x30, 0, 0, 0, 1, 50, 0, 0, 0, 1, 1, 3] @ replicate 12 0))"
    by (rule hash_example_hash) simp
  show "inj_on padded ?S" by (simp add: hash_example_strings padded_def)
  show "\<forall>x\<in>?S. compact x" by (simp add: hash_example_strings padded_def compact_def)
  show "seeded (hash_example [])" "seeded (hash_example [Some stray_node])"
    by (simp_all add: seeded_def hash_example_def)
qed

end
