(* ===== verification/CantonTermination.thy ===== *)
theory CantonTermination
  imports CantonBinding
begin

text \<open>
  When the hash of a prepared Canton transaction is computed: the graph of the nodes, and the descent along it.
\<close>

subsection \<open>The graph of the nodes\<close>

text \<open>An edge leads from a child to the node that lists it.\<close>

definition listed :: "(string \<rightharpoonup> ledger_node) \<Rightarrow> (string \<times> string) set" where
  "listed nodes = {(c, i). \<exists>n cs. nodes i = Some n \<and> node_children n = Some cs \<and> c \<in> set cs}"

lemma create_nodes_finite: "create_nodes ns nodes = Inr nodes' \<Longrightarrow> finite (dom nodes) \<Longrightarrow> finite (dom nodes')"
  by (induction ns nodes rule: create_nodes.induct) auto

lemma finite_listed:
  assumes "finite (dom nodes)"
  shows "finite (listed nodes)"
proof (rule finite_subset)
  show "listed nodes \<subseteq> (\<Union>i\<in>dom nodes. set (the (node_children (the (nodes i)))) \<times> {i})"
    by (fastforce simp: listed_def)
qed (use assms in simp)

lemma bind_returns: "\<exists>y. a = Some y \<Longrightarrow> (\<And>x. \<exists>y. f x = Some y) \<Longrightarrow> \<exists>y. a \<bind> f = Some y"
  by auto

lemma encode_children_returns: "\<forall>c\<in>set cs. \<exists>y. rec c = Some y \<Longrightarrow> \<exists>y. encode_children rec cs = Some y"
proof (induction cs)
  case (Cons c cs)
  then obtain x y where "rec c = Some x" "encode_children rec cs = Some y" by auto
  then show ?case by (cases x) simp_all
qed simp

lemma encodeRepeatedStrings_returns: "\<forall>c\<in>set cs. \<exists>y. rec c = Some y \<Longrightarrow> \<exists>y. encodeRepeatedStrings rec cs = Some y"
  using encode_children_returns [of cs rec] by (auto simp: encodeRepeatedStrings_def)

lemma encodeNode_returns:
  assumes "\<And>cs c. node_children n = Some cs \<Longrightarrow> c \<in> set cs \<Longrightarrow> \<exists>y. rec c = Some y"
  shows "\<exists>y. encodeNode rec n seeds = Some y"
proof (cases "node_children n")
  case None
  then show ?thesis
    by (auto simp: node_children_def encodeNode_def encodeExerciseNode_def encodeRollbackNode_def
        split: option.splits node_type.splits)
next
  case (Some cs)
  then have "\<exists>y. encodeRepeatedStrings rec cs = Some y" using assms by (intro encodeRepeatedStrings_returns) blast
  then show ?thesis using Some
    by (auto simp: node_children_def encodeNode_def encodeExerciseNode_def encodeRollbackNode_def
        split: option.splits node_type.splits sum.split)
qed

lemma encodeNodeID_returns:
  assumes "wf (listed nodes)"
  shows "\<exists>y. encodeNodeID sha nodes seeds nodeID = Some y"
  using assms
proof (induction nodeID rule: wf_induct_rule)
  case (less i)
  show ?case
  proof (cases "nodes i")
    case (Some n)
    have "\<exists>y. encodeNodeID sha nodes seeds c = Some y" if "node_children n = Some cs" "c \<in> set cs" for cs c
      using Some that by (intro less) (auto simp: listed_def)
    then obtain y where "encodeNode (encodeNodeID sha nodes seeds) n seeds = Some y" using encodeNode_returns by blast
    then show ?thesis by (simp add: encodeNodeID.simps [of _ _ _ i] Some)
  qed (simp add: encodeNodeID.simps [of _ _ _ i])
qed

text \<open>C15: The hash of a prepared transaction is computed, or an error reported, whenever no node is among its own descendants:
  when the graph of the nodes that list others as children has no cycle. Nothing is asked of the
  rest, such as children that do not exist.\<close>

theorem prepared_hash_returns:
  assumes "\<And>nodes. createNodesDict p = Inr nodes \<Longrightarrow> acyclic (listed nodes)"
  shows "\<exists>y. ComputePreparedTransactionHash sha (Some p) = Some y"
proof (cases "createNodesDict p")
  case (Inr nodes)
  then have "finite (dom nodes)"
    using create_nodes_finite by (fastforce simp: createNodesDict_def split: option.split_asm)
  then have wf: "wf (listed nodes)" using finite_acyclic_wf [OF finite_listed] assms [OF Inr] by blast
  have "\<exists>y. encodeRepeatedStrings (encodeNodeID sha nodes seeds) cs = Some y" for seeds cs
    using encodeNodeID_returns [OF wf] by (intro encodeRepeatedStrings_returns) blast
  then have "\<exists>y. encodeTransaction sha t nodes seeds = Some y" for t seeds
    by (cases t) (auto simp: encodeTransaction_def intro!: bind_returns)
  then have "\<exists>y. hashTransaction sha t nodes = Some y" for t
    by (auto simp: hashTransaction_def intro!: bind_returns)
  then show ?thesis
    by (auto simp: ComputePreparedTransactionHash_def Inr intro!: bind_returns)
qed (simp add: ComputePreparedTransactionHash_def)

theorem prepared_hash_returns_witness:
  "\<exists>y. ComputePreparedTransactionHash padded (Some (hash_example [Some stray_node])) = Some y"
proof (rule prepared_hash_returns)
  fix nodes assume "createNodesDict (hash_example [Some stray_node]) = Inr nodes"
  then have "listed nodes = {}"
    by (auto simp: createNodesDict_def hash_example_def stray_node_def listed_def node_children_def split: if_split_asm)
  then show "acyclic (listed nodes)" by (simp add: acyclic_def)
qed

subsection \<open>Cycles\<close>

text \<open>Rollbacks whose first child is one of them.\<close>

lemma rollback_cycle:
  assumes R: "\<And>i. i \<in> R \<Longrightarrow> \<exists>n c cs. nodes i = Some n \<and> nd_v1 n = Some (NodeRollback (Some (c # cs))) \<and> c \<in> R"
    and i: "i \<in> R"
  shows "encodeNodeID sha nodes seeds i = None"
proof (rule ccontr)
  assume "encodeNodeID sha nodes seeds i \<noteq> None"
  then obtain y where y: "encodeNodeID sha nodes seeds i = Some y" by blast
  have "nodes' = nodes \<longrightarrow> j \<notin> R" if "encodeNodeID s nodes' ss j = Some y'" for s nodes' ss j y'
  proof (rule encodeNodeID.raw_induct [where P = "\<lambda>s nodes' ss j y. nodes' = nodes \<longrightarrow> j \<notin> R", OF _ that])
    fix enc :: "(bytes \<Rightarrow> bytes) \<Rightarrow> (string \<rightharpoonup> ledger_node) \<Rightarrow> node_seed list \<Rightarrow> string \<Rightarrow> (hash_error + bytes) option"
      and sha nodes' seeds j y
    assume IH: "\<And>sha nodes' seeds j y. enc sha nodes' seeds j = Some y \<Longrightarrow> nodes' = nodes \<longrightarrow> j \<notin> R"
      and eq: "(case nodes' j of None \<Rightarrow> Some (Inl (NodeNotFound j))
        | Some n \<Rightarrow> encodeNode (\<lambda>c. enc sha nodes' seeds c) n seeds \<bind> (\<lambda>x. Some (andThen x (\<lambda>b. Inr (sha b))))) = Some y"
    show "nodes' = nodes \<longrightarrow> j \<notin> R"
    proof (intro impI notI)
      assume n: "nodes' = nodes" and j: "j \<in> R"
      then obtain n c cs where n': "nodes j = Some n" "nd_v1 n = Some (NodeRollback (Some (c # cs)))" "c \<in> R" using R by metis
      then have "enc sha nodes seeds c = None" using IH by (cases "enc sha nodes seeds c") auto
      with eq n n' show False by (simp add: encodeNode_def encodeRollbackNode_def encodeRepeatedStrings_def)
    qed
  qed
  then show False using y i by blast
qed

lemma self_rollback_never_returns:
  "ComputePreparedTransactionHash sha (Some \<lparr>pt_transaction = Some \<lparr>dt_version = v, dt_roots = [i],
      dt_nodes = [Some \<lparr>nd_id = i, nd_v1 = Some (NodeRollback (Some [i]))\<rparr>], dt_seeds = seeds\<rparr>, pt_metadata = m\<rparr>) = None"
proof -
  have "encodeNodeID sha [i \<mapsto> \<lparr>nd_id = i, nd_v1 = Some (NodeRollback (Some [i]))\<rparr>] seeds i = None"
    by (rule rollback_cycle [of "{i}"]) auto
  then show ?thesis
    by (simp add: ComputePreparedTransactionHash_def createNodesDict_def hashTransaction_def encodeTransaction_def
        encodeRepeatedStrings_def)
qed

end
