(* ===== verification/CantonTransfer.thy ===== *)
theory CantonTransfer
  imports CantonAddress CantonTermination Builder ObjectInputs "HOL-Library.Finite_Map"
begin

text \<open>
  Canton transfers (\<^verbatim>\<open>chain/canton/tx/tx.go\<close>, \<^verbatim>\<open>chain/canton/builder/builder.go\<close>). The transaction is prepared by a server, so
  the wallet checks, before it signs the hash, that the nodes pay the receiver no more than it was asked to.
\<close>

subsection \<open>Getters\<close>

text \<open>The getters of the generated messages, on a nil or another value the zero value.\<close>

type_synonym value_field = "(string \<times> dvalue option) option"

fun value_record :: "dvalue option \<Rightarrow> value_field list option" where
  "value_record (Some (DRecord (Some r))) = Some (snd r)"
| "value_record _ = None"

fun value_party :: "dvalue option \<Rightarrow> string" where
  "value_party (Some (DParty p)) = p"
| "value_party _ = []"

fun value_text :: "dvalue option \<Rightarrow> string" where
  "value_text (Some (DText t)) = t"
| "value_text _ = []"

fun value_numeric :: "dvalue option \<Rightarrow> string" where
  "value_numeric (Some (DNumeric n)) = n"
| "value_numeric _ = []"

fun canton_field_label :: "value_field \<Rightarrow> string" where
  "canton_field_label None = []"
| "canton_field_label (Some f) = fst f"

fun canton_field_value :: "value_field \<Rightarrow> dvalue option" where
  "canton_field_value None = None"
| "canton_field_value (Some f) = snd f"

fun node_create :: "ledger_node option \<Rightarrow> ledger_create option" where
  "node_create (Some n) = (case nd_v1 n of Some (NodeCreate c) \<Rightarrow> c | _ \<Rightarrow> None)"
| "node_create None = None"

fun node_exercise :: "ledger_node option \<Rightarrow> ledger_exercise option" where
  "node_exercise (Some n) = (case nd_v1 n of Some (NodeExercise e) \<Rightarrow> e | _ \<Rightarrow> None)"
| "node_exercise None = None"

text \<open>What the conflict checks of \<open>ObjectInputs\<close> read of a prepared transaction.\<close>

definition prepared_node :: "ledger_node option \<Rightarrow> canton_node" where
  "prepared_node n = (case n of None \<Rightarrow> None | Some m \<Rightarrow> if nd_v1 m = None then None
     else Some (map_option (\<lambda>e. \<lparr>cx_consuming = ex_consuming e, cx_contract_id = ex_contract_id e\<rparr>) (node_exercise n)))"

definition prepared_view :: "prepared_tx \<Rightarrow> prepared_transaction" where
  "prepared_view p = (case pt_transaction p of None \<Rightarrow> [] | Some t \<Rightarrow> map prepared_node (dt_nodes t))"

text \<open>\<^verbatim>\<open>strings.HasSuffix\<close>.\<close>

definition has_suffix :: "string \<Rightarrow> string \<Rightarrow> bool" where
  "has_suffix s p \<longleftrightarrow> length p \<le> length s \<and> drop (length s - length p) s = p"

text \<open>\<^verbatim>\<open>TokenRegistryKey.Parts\<close>: the instrument of a token contract, empty when the contract has another form.\<close>

definition token_parts :: "string \<Rightarrow> string \<times> string \<times> bool" where
  "token_parts key = (let admin = takeWhile (\<lambda>c. c \<noteq> CHR ''#'') key; rest = dropWhile (\<lambda>c. c \<noteq> CHR ''#'') key
     in if rest = [] \<or> admin = [] \<or> tl rest = [] then ([], [], False) else (admin, tl rest, True))"

subsection \<open>Amounts of the nodes\<close>

datatype transfer_error =
    PartyID party_error
  | PreparedNil
  | HashFailed hash_error
  | NoDamlTransaction
  | NoTransferNode
  | AmountExceeds int int
  | MissingArgument string
  | NotARecord string
  | RootReceiver string
  | MissingTransfer string
  | MissingInstrument string
  | MissingInstrumentAdmin string
  | MissingInstrumentId string
  | InstrumentAdminMismatch string
  | InstrumentIdMismatch string
  | MissingReceiver string
  | ReceiverNotParty string
  | ReceiverMismatch string
  | MissingAmount string
  | AmountNil string
  | AmountNotNumeric string
  | AmountInvalid string string
  | NotAStakeholder string
  | SignatureCount nat
  | NotSigned
  | WrongInput
  | ArgsFailed builder_error

definition containsString :: "string list \<Rightarrow> string \<Rightarrow> bool" where
  "containsString values want \<longleftrightarrow> list_ex (\<lambda>v. v = want) values"

text \<open>The first field of the label.\<close>

definition getRecordFieldValue :: "value_field list \<Rightarrow> string \<Rightarrow> dvalue option option" where
  "getRecordFieldValue fs label = map_option canton_field_value (find (\<lambda>f. canton_field_label f = label) fs)"

definition parseNumericToBlockchain :: "'d decimal_lib \<Rightarrow> string \<Rightarrow> int \<Rightarrow> string \<Rightarrow> transfer_error + int" where
  "parseNumericToBlockchain L numeric decimals ctx = (case dNewFromString L numeric of
     None \<Rightarrow> Inl (AmountInvalid ctx numeric) | Some human \<Rightarrow> Inr (ToBlockchain L human decimals))"

definition checkAmountField :: "'d decimal_lib \<Rightarrow> dvalue option \<Rightarrow> int \<Rightarrow> string \<Rightarrow> transfer_error + int" where
  "checkAmountField L val decimals ctx =
    (if val = None then Inl (AmountNil ctx)
     else if value_numeric val \<noteq> [] then parseNumericToBlockchain L (value_numeric val) decimals ctx
     else (case value_record val of None \<Rightarrow> Inl (AmountNotNumeric ctx)
       | Some fs \<Rightarrow> (case find (\<lambda>f. canton_field_label f = ''amount'' \<and> value_numeric (canton_field_value f) \<noteq> []) fs of
           None \<Rightarrow> Inl (AmountNotNumeric ctx)
         | Some f \<Rightarrow> parseNumericToBlockchain L (value_numeric (canton_field_value f)) decimals ctx)))"

definition validateAmountField :: "'d decimal_lib \<Rightarrow> value_field list \<Rightarrow> int \<Rightarrow> string \<Rightarrow> transfer_error + int" where
  "validateAmountField L fs decimals ctx = (case find (\<lambda>f. canton_field_label f = ''amount'') fs of
     None \<Rightarrow> Inl (MissingAmount ctx) | Some f \<Rightarrow> checkAmountField L (canton_field_value f) decimals ctx)"

definition validateRecordReceiverAndAmount :: "'d decimal_lib \<Rightarrow> value_field list \<Rightarrow> string \<Rightarrow> int \<Rightarrow> string
    \<Rightarrow> transfer_error + int" where
  "validateRecordReceiverAndAmount L fs wantReceiver decimals ctx = (case getRecordFieldValue fs ''receiver'' of
     None \<Rightarrow> Inl (MissingReceiver ctx)
   | Some receiverValue \<Rightarrow> (let gotReceiver = value_party receiverValue in
       if gotReceiver = [] then Inl (ReceiverNotParty ctx)
       else if gotReceiver \<noteq> wantReceiver then Inl (ReceiverMismatch ctx)
       else (case getRecordFieldValue fs ''amount'' of None \<Rightarrow> Inl (MissingAmount ctx)
         | Some amountValue \<Rightarrow> checkAmountField L amountValue decimals ctx)))"

definition check_instrument :: "value_field list \<Rightarrow> string \<Rightarrow> string \<Rightarrow> string \<Rightarrow> transfer_error + unit" where
  "check_instrument transferRecord wantAdmin wantID ctx =
    (if wantAdmin = [] \<and> wantID = [] then Inr ()
     else (case Option.bind (getRecordFieldValue transferRecord ''instrumentId'') value_record of
         None \<Rightarrow> Inl (MissingInstrument ctx)
       | Some instrument \<Rightarrow>
          (let gotAdmin = (case getRecordFieldValue instrument ''admin'' of None \<Rightarrow> [] | Some v \<Rightarrow> value_party v);
               gotID = (case getRecordFieldValue instrument ''id'' of None \<Rightarrow> [] | Some v \<Rightarrow> value_text v)
           in if gotAdmin = [] then Inl (MissingInstrumentAdmin ctx)
              else if gotID = [] then Inl (MissingInstrumentId ctx)
              else if gotAdmin \<noteq> wantAdmin then Inl (InstrumentAdminMismatch ctx)
              else if gotID \<noteq> wantID then Inl (InstrumentIdMismatch ctx) else Inr ())))"

definition validateTokenTransferRecord :: "'d decimal_lib \<Rightarrow> value_field list \<Rightarrow> string \<Rightarrow> int \<Rightarrow> string \<Rightarrow> string \<Rightarrow> string
    \<Rightarrow> transfer_error + int" where
  "validateTokenTransferRecord L fs wantReceiver decimals wantAdmin wantID ctx =
    (if getRecordFieldValue fs ''receiver'' \<noteq> None then Inl (RootReceiver ctx)
     else (case Option.bind (getRecordFieldValue fs ''transfer'') value_record of
         None \<Rightarrow> Inl (MissingTransfer ctx)
       | Some transferRecord \<Rightarrow>
           andThen (validateRecordReceiverAndAmount L transferRecord wantReceiver decimals ctx) (\<lambda>amount.
           andThen (check_instrument transferRecord wantAdmin wantID ctx) (\<lambda>_. Inr amount))))"

text \<open>A node that is no transfer is \<open>Inr None\<close>.\<close>

definition validateCreateNode :: "'d decimal_lib \<Rightarrow> ledger_create \<Rightarrow> string \<Rightarrow> int \<Rightarrow> string \<Rightarrow> string
    \<Rightarrow> transfer_error + int option" where
  "validateCreateNode L c wantReceiver decimals wantAdmin wantID = (case cr_template_id c of
     None \<Rightarrow> Inr None
   | Some tid \<Rightarrow>
      if id_entity tid \<noteq> ''TransferOffer'' then Inr None
      else if cr_argument c = None then Inl (MissingArgument ''TransferOffer'')
      else (case value_record (cr_argument c) of None \<Rightarrow> Inl (NotARecord ''TransferOffer'')
       | Some fs \<Rightarrow>
          if has_suffix (id_module tid) ''.Model.Transfer''
          then andThen (validateTokenTransferRecord L fs wantReceiver decimals wantAdmin wantID ''TransferOffer'') (\<lambda>a. Inr (Some a))
          else andThen (validateRecordReceiverAndAmount L fs wantReceiver decimals ''TransferOffer'') (\<lambda>a. Inr (Some a))))"

definition validateExerciseNode :: "'d decimal_lib \<Rightarrow> ledger_exercise \<Rightarrow> string \<Rightarrow> int \<Rightarrow> string \<Rightarrow> string
    \<Rightarrow> transfer_error + int option" where
  "validateExerciseNode L e wantReceiver decimals wantAdmin wantID =
    (if ex_choice_id e = ''TransferPreapproval_Send''
     then (if \<not> containsString (ex_stakeholders e) wantReceiver then Inl (NotAStakeholder ''TransferPreapproval_Send'')
       else if ex_chosen_value e = None then Inl (MissingArgument ''TransferPreapproval_Send'')
       else (case value_record (ex_chosen_value e) of None \<Rightarrow> Inl (NotARecord ''TransferPreapproval_Send'')
        | Some fs \<Rightarrow> andThen (validateAmountField L fs decimals ''TransferPreapproval_Send'') (\<lambda>a. Inr (Some a))))
     else if ex_choice_id e = ''TransferFactory_Transfer''
     then (if ex_chosen_value e = None then Inl (MissingArgument ''TransferFactory_Transfer'')
       else (case value_record (ex_chosen_value e) of None \<Rightarrow> Inl (NotARecord ''TransferFactory_Transfer'')
        | Some fs \<Rightarrow> andThen (validateTokenTransferRecord L fs wantReceiver decimals wantAdmin wantID ''TransferFactory_Transfer'')
            (\<lambda>a. Inr (Some a))))
     else Inr None)"

subsection \<open>The walk over the nodes\<close>

text \<open>
  The parents of the nodes, as the exercises list their children, the transfers found so far, in order,
  and their ids.
\<close>

record transfer_scan =
  parentByChildID :: "(string, string) fmap"
  validatedTransfers :: "(string \<times> int) list"
  validatedTransferIDs :: "string fset"

fun set_parents :: "string \<Rightarrow> string list \<Rightarrow> (string, string) fmap \<Rightarrow> (string, string) fmap" where
  "set_parents nodeID [] m = m"
| "set_parents nodeID (c # cs) m = set_parents nodeID cs (fmupd c nodeID m)"

definition found :: "string \<Rightarrow> int option \<Rightarrow> transfer_scan \<Rightarrow> transfer_scan" where
  "found nodeID x s = (case x of None \<Rightarrow> s | Some amount \<Rightarrow> s\<lparr>validatedTransfers := validatedTransfers s @ [(nodeID, amount)],
     validatedTransferIDs := finsert nodeID (validatedTransferIDs s)\<rparr>)"

definition scan_node :: "'d decimal_lib \<Rightarrow> string \<Rightarrow> int \<Rightarrow> string \<Rightarrow> string \<Rightarrow> ledger_node option \<Rightarrow> transfer_scan
    \<Rightarrow> transfer_error + transfer_scan" where
  "scan_node L wantReceiver decimals wantAdmin wantID node s =
    (let nodeID = (case node of None \<Rightarrow> [] | Some n \<Rightarrow> nd_id n)
     in andThen (case node_create node of None \<Rightarrow> Inr s | Some c \<Rightarrow>
          andThen (validateCreateNode L c wantReceiver decimals wantAdmin wantID) (\<lambda>x. Inr (found nodeID x s))) (\<lambda>s.
        case node_exercise node of None \<Rightarrow> Inr s | Some e \<Rightarrow>
          (let s = s\<lparr>parentByChildID := set_parents nodeID (ex_children e) (parentByChildID s)\<rparr>
           in andThen (validateExerciseNode L e wantReceiver decimals wantAdmin wantID) (\<lambda>x. Inr (found nodeID x s)))))"

fun scan_nodes :: "'d decimal_lib \<Rightarrow> string \<Rightarrow> int \<Rightarrow> string \<Rightarrow> string \<Rightarrow> ledger_node option list \<Rightarrow> transfer_scan
    \<Rightarrow> transfer_error + transfer_scan" where
  "scan_nodes L wantReceiver decimals wantAdmin wantID [] s = Inr s"
| "scan_nodes L wantReceiver decimals wantAdmin wantID (n # ns) s =
     andThen (scan_node L wantReceiver decimals wantAdmin wantID n s) (scan_nodes L wantReceiver decimals wantAdmin wantID ns)"

text \<open>The loop follows the parents until one is a transfer; \<open>seen\<close> keeps it from going in circles.\<close>

function hasRecognizedTransferAncestor :: "string \<Rightarrow> (string, string) fmap \<Rightarrow> string fset \<Rightarrow> string fset \<Rightarrow> bool" where
  "hasRecognizedTransferAncestor nodeID parents ids seen = (case fmlookup parents nodeID of
     None \<Rightarrow> False
   | Some parentID \<Rightarrow> if parentID = [] \<or> parentID |\<in>| seen then False
       else if parentID |\<in>| ids then True
       else hasRecognizedTransferAncestor parentID parents ids (finsert parentID seen))"
  by pat_completeness auto
termination
proof (relation "measure (\<lambda>(_, parents, _, seen). fcard (fmran parents |-| seen))")
  fix nodeID parentID :: string and parents :: "(string, string) fmap" and ids seen :: "string fset"
  assume p: "fmlookup parents nodeID = Some parentID" "\<not> (parentID = [] \<or> parentID |\<in>| seen)"
  then have "parentID |\<in>| fmran parents |-| seen" by (simp add: fmranI)
  then have "fmran parents |-| finsert parentID seen |\<subset>| fmran parents |-| seen" by blast
  then have "fcard (fmran parents |-| finsert parentID seen) < fcard (fmran parents |-| seen)"
    by (rule pfsubset_fcard_mono)
  then show "((parentID, parents, ids, finsert parentID seen), nodeID, parents, ids, seen)
      \<in> measure (\<lambda>(_, parents, _, seen). fcard (fmran parents |-| seen))" by (simp only: in_measure prod.case)
qed (rule wf_measure)

declare hasRecognizedTransferAncestor.simps [simp del]

fun total_amount :: "transfer_scan \<Rightarrow> int \<Rightarrow> (string \<times> int) list \<Rightarrow> int \<Rightarrow> transfer_error + int" where
  "total_amount s wantAmount [] totalAmount = Inr totalAmount"
| "total_amount s wantAmount ((nodeID, amount) # ts) totalAmount =
    (if hasRecognizedTransferAncestor nodeID (parentByChildID s) (validatedTransferIDs s) {||} then total_amount s wantAmount ts totalAmount
     else (let totalAmount = amt_add totalAmount amount in
       if amt_cmp totalAmount wantAmount > 0 then Inl (AmountExceeds totalAmount wantAmount) else total_amount s wantAmount ts totalAmount))"

definition new_scan :: transfer_scan where
  "new_scan = \<lparr>parentByChildID = fmempty, validatedTransfers = [], validatedTransferIDs = {||}\<rparr>"

text \<open>\<^verbatim>\<open>args.GetContract()\<close> is \<open>o_contract\<close>.\<close>

definition wanted_instrument :: "transfer_args \<Rightarrow> string \<times> string" where
  "wanted_instrument args = (case o_contract (ta_options args) of None \<Rightarrow> ([], [])
     | Some contract \<Rightarrow> (case token_parts contract of (admin, instrument, _) \<Rightarrow> (admin, instrument)))"

definition validateTransferArgs :: "'d decimal_lib \<Rightarrow> prepared_tx \<Rightarrow> transfer_args \<Rightarrow> int \<Rightarrow> transfer_error + unit" where
  "validateTransferArgs L p args decimals = (case pt_transaction p of None \<Rightarrow> Inl NoDamlTransaction | Some t \<Rightarrow>
     (let (wantAdmin, wantID) = wanted_instrument args
      in andThen (scan_nodes L (ta_to args) decimals wantAdmin wantID (dt_nodes t) new_scan) (\<lambda>s.
         if validatedTransfers s = [] then Inl NoTransferNode
         else andThen (total_amount s (ta_amount args) (validatedTransfers s) (NewAmountBlockchainFromUint64 0)) (\<lambda>_. Inr ()))))"

subsection \<open>Transactions\<close>

text \<open>The fields of \<^verbatim>\<open>tx_input.TxInput\<close> that become the transaction; \<open>conflict_input\<close> is what its conflict checks read.\<close>

record canton_tx_input =
  ct_ledger_end :: i64
  ct_prepared :: "prepared_tx option"
  ct_hashing_scheme_version :: u32
  ct_submission_id :: string
  ct_deduplication_window :: i64
  ct_decimals :: int
  ct_contract_address :: contract_address

definition conflict_input :: "canton_tx_input \<Rightarrow> canton_input" where
  "conflict_input i = \<lparr>cn_prepared = map_option prepared_view (ct_prepared i), cn_submission_id = ct_submission_id i\<rparr>"

record canton_tx =
  PreparedTransaction :: "prepared_tx option"
  HashingSchemeVersion :: u32
  Party :: string
  KeyFingerprint :: string
  SubmissionId :: string
  DeduplicationWindow :: i64
  LedgerEnd :: i64
  tx_signature :: bytes

definition canton_NewTx :: "'d decimal_lib \<Rightarrow> (bytes \<Rightarrow> bytes) \<Rightarrow> canton_tx_input \<Rightarrow> transfer_args \<Rightarrow> int
    \<Rightarrow> (transfer_error + canton_tx) option" where
  "canton_NewTx L sha i args decimals = (case ParsePartyID (ta_from args) of
     Inl e \<Rightarrow> Some (Inl (PartyID e))
   | Inr (_, fingerprint) \<Rightarrow> (case ct_prepared i of None \<Rightarrow> Some (Inl PreparedNil) | Some p \<Rightarrow>
       if pt_transaction p = None then Some (Inl PreparedNil)
       else ComputePreparedTransactionHash sha (Some p) \<bind> (\<lambda>h. Some (case h of Inl e \<Rightarrow> Inl (HashFailed e) | Inr _ \<Rightarrow>
         andThen (validateTransferArgs L p args decimals) (\<lambda>_.
           Inr \<lparr>PreparedTransaction = Some p, HashingSchemeVersion = ct_hashing_scheme_version i, Party = ta_from args,
             KeyFingerprint = fingerprint, SubmissionId = ct_submission_id i,
             DeduplicationWindow = ct_deduplication_window i, LedgerEnd = ct_ledger_end i, tx_signature = []\<rparr>)))))"

definition canton_computedSighash :: "(bytes \<Rightarrow> bytes) \<Rightarrow> canton_tx \<Rightarrow> (transfer_error + bytes) option" where
  "canton_computedSighash sha tx = (if PreparedTransaction tx = None then Some (Inl PreparedNil)
     else ComputePreparedTransactionHash sha (PreparedTransaction tx) \<bind>
       (\<lambda>h. Some (case h of Inl e \<Rightarrow> Inl (HashFailed e) | Inr d \<Rightarrow> Inr d)))"

definition canton_Sighashes :: "(bytes \<Rightarrow> bytes) \<Rightarrow> canton_tx \<Rightarrow> (transfer_error + bytes list) option" where
  "canton_Sighashes sha tx = canton_computedSighash sha tx \<bind> (\<lambda>h. Some (andThen h (\<lambda>d. Inr [d])))"

definition show_int :: "int \<Rightarrow> string" where
  "show_int n = (if n < 0 then ''-'' @ show_nat (nat (- n)) else show_nat (nat n))"

definition canton_Hash :: "canton_tx \<Rightarrow> string" where
  "canton_Hash tx = (if SubmissionId tx = [] then [] else show_int (sint (LedgerEnd tx)) @ ''-'' @ SubmissionId tx)"

definition canton_SetSignatures :: "bytes list \<Rightarrow> canton_tx \<Rightarrow> transfer_error + canton_tx" where
  "canton_SetSignatures sigs tx = (case sigs of [sig] \<Rightarrow> Inr (tx\<lparr>tx_signature := sig\<rparr>)
     | _ \<Rightarrow> Inl (SignatureCount (length sigs)))"

text \<open>Without a window the ledger's default of 300 seconds, in nanoseconds.\<close>

definition ResolveDeduplicationWindow :: "i64 \<Rightarrow> i64" where
  "ResolveDeduplicationWindow window = (if sint window \<le> 0 then 300000000000 else window)"

text \<open>The request that is marshalled: its fields in the order of the message.\<close>

record execute_request =
  er_prepared :: "prepared_tx option"
  er_party :: string
  er_signature :: bytes
  er_signed_by :: string
  er_deduplication :: i64
  er_submission_id :: string
  er_hashing_scheme_version :: u32

definition NewExecuteSubmissionAndWaitRequest :: "prepared_tx option \<Rightarrow> string \<Rightarrow> bytes \<Rightarrow> string \<Rightarrow> string \<Rightarrow> u32 \<Rightarrow> i64 \<Rightarrow> execute_request" where
  "NewExecuteSubmissionAndWaitRequest prepared party signature signedBy submissionID hashing window =
     \<lparr>er_prepared = prepared, er_party = party, er_signature = signature, er_signed_by = signedBy,
      er_deduplication = ResolveDeduplicationWindow window, er_submission_id = submissionID, er_hashing_scheme_version = hashing\<rparr>"

definition canton_Serialize :: "(execute_request \<Rightarrow> transfer_error + bytes) \<Rightarrow> canton_tx \<Rightarrow> transfer_error + bytes" where
  "canton_Serialize marshal tx = (if tx_signature tx = [] then Inl NotSigned
     else if PreparedTransaction tx = None then Inl PreparedNil
     else marshal (NewExecuteSubmissionAndWaitRequest (PreparedTransaction tx) (Party tx) (tx_signature tx)
       (KeyFingerprint tx) (SubmissionId tx) (HashingSchemeVersion tx) (DeduplicationWindow tx)))"

subsection \<open>The builder\<close>

text \<open>
  \<open>None\<close> for an input of another type. \<^verbatim>\<open>xcbuilder.NewTransferArgs\<close> fails only for addresses of the Internet Computer; the
  option of the contract is the only one of the new arguments.
\<close>

definition canton_decimals :: "'d chain_config \<Rightarrow> canton_tx_input \<Rightarrow> int" where
  "canton_decimals asset i = (if ct_decimals i \<le> 0 then cc_decimals asset else ct_decimals i)"

definition canton_NewNativeTransfer :: "'d decimal_lib \<Rightarrow> (bytes \<Rightarrow> bytes) \<Rightarrow> 'd chain_config \<Rightarrow> transfer_args
    \<Rightarrow> canton_tx_input option \<Rightarrow> (transfer_error + canton_tx) option" where
  "canton_NewNativeTransfer L sha asset args i = (case i of None \<Rightarrow> Some (Inl WrongInput) | Some i \<Rightarrow>
     (let decimals = canton_decimals asset i in
      if ct_contract_address i \<noteq> []
      then (case NewTransferArgs (cc_driver asset) (ta_from args) (ta_to args) (ta_amount args)
              [OptionContractAddress (ct_contract_address i) [decimals]] of
            Inl e \<Rightarrow> Some (Inl (ArgsFailed e))
          | Inr tokenArgs \<Rightarrow> canton_NewTx L sha i tokenArgs decimals)
      else canton_NewTx L sha i args decimals))"

definition canton_NewTokenTransfer :: "'d decimal_lib \<Rightarrow> (bytes \<Rightarrow> bytes) \<Rightarrow> 'd chain_config \<Rightarrow> transfer_args
    \<Rightarrow> canton_tx_input option \<Rightarrow> (transfer_error + canton_tx) option" where
  "canton_NewTokenTransfer L sha asset args i = (case i of None \<Rightarrow> Some (Inl WrongInput) | Some i \<Rightarrow>
     canton_NewTx L sha i args (canton_decimals asset i))"

definition canton_Transfer :: "'d decimal_lib \<Rightarrow> (bytes \<Rightarrow> bytes) \<Rightarrow> 'd chain_config \<Rightarrow> transfer_args
    \<Rightarrow> canton_tx_input option \<Rightarrow> (transfer_error + canton_tx) option" where
  "canton_Transfer L sha asset args i = (case o_contract (ta_options args) of
       Some contract \<Rightarrow> if contract \<noteq> cc_chain asset then canton_NewTokenTransfer L sha asset args i
         else canton_NewNativeTransfer L sha asset args i
     | None \<Rightarrow> canton_NewNativeTransfer L sha asset args i)"

end
