(* ===== verification/CantonChecked.thy ===== *)
theory CantonChecked
  imports CantonTransfer
begin

text \<open>
  What the checks of a Canton transfer establish, stated over a reading of the nodes that checks nothing, and what they
  leave open: the nodes checked are not all hashed.
\<close>

subsection \<open>Ancestors\<close>

definition parent_of :: "(string, string) fmap \<Rightarrow> (string \<times> string) set" where
  "parent_of parents = {(c, q). fmlookup parents c = Some q \<and> q \<noteq> []}"

lemma ancestor_sound: "hasRecognizedTransferAncestor x parents ids seen \<Longrightarrow> \<exists>q. q |\<in>| ids \<and> (x, q) \<in> (parent_of parents)\<^sup>+"
proof (induction x parents ids seen rule: hasRecognizedTransferAncestor.induct)
  case (1 x parents ids seen)
  then obtain q where q: "fmlookup parents x = Some q" "\<not> (q = [] \<or> q |\<in>| seen)"
    "q |\<in>| ids \<or> hasRecognizedTransferAncestor q parents ids (finsert q seen)"
    by (subst (asm) (3) hasRecognizedTransferAncestor.simps) (auto split: option.split_asm if_split_asm)
  then have e: "(x, q) \<in> parent_of parents" by (simp add: parent_of_def)
  show ?case
  proof (cases "q |\<in>| ids")
    case False
    then obtain r where "r |\<in>| ids" "(q, r) \<in> (parent_of parents)\<^sup>+" using 1(1) [OF q(1,2) False] q(3) by blast
    then show ?thesis using e by (blast intro: trancl_into_trancl2)
  qed (use e in blast)
qed

lemma ancestor_complete:
  "\<not> hasRecognizedTransferAncestor x parents ids seen \<Longrightarrow> ids |\<inter>| seen = {||}
    \<Longrightarrow> \<forall>s. s |\<in>| seen \<and> s \<noteq> x \<longrightarrow> (\<forall>q. (s, q) \<in> parent_of parents \<longrightarrow> q |\<in>| seen)
    \<Longrightarrow> (x, q) \<in> (parent_of parents)\<^sup>+ \<Longrightarrow> q |\<notin>| ids"
proof (induction x parents ids seen rule: hasRecognizedTransferAncestor.induct)
  case (1 x parents ids seen)
  let ?R = "parent_of parents"
  obtain p where p: "(x, p) \<in> ?R" "p = q \<or> (p, q) \<in> ?R\<^sup>+" using 1(5) by (metis converse_tranclE)
  then have l: "fmlookup parents x = Some p" "p \<noteq> []" by (simp_all add: parent_of_def)
  show ?case
  proof (cases "p |\<in>| seen")
    case True
    have step: "u |\<in>| seen \<Longrightarrow> (u, v) \<in> ?R \<Longrightarrow> v |\<in>| seen" for u v
      using 1(4) p(1) True by (cases "u = x") (auto simp: parent_of_def)
    have "u |\<in>| seen \<Longrightarrow> v |\<in>| seen" if "(u, v) \<in> ?R\<^sup>+" for u v
      using that by (induction rule: trancl_induct) (use step in blast)+
    then have "q |\<in>| seen" using p(2) True by blast
    then show ?thesis using 1(3) by blast
  next
    case False
    have n: "p |\<notin>| ids" "\<not> hasRecognizedTransferAncestor p parents ids (finsert p seen)"
      using 1(2) l False by (subst (asm) hasRecognizedTransferAncestor.simps, simp split: if_split_asm)+
    have "q |\<notin>| ids" if "(p, q) \<in> ?R\<^sup>+"
    proof (rule 1(1) [OF l(1) _ n(1,2) _ _ that])
      show "\<forall>s. s |\<in>| finsert p seen \<and> s \<noteq> p \<longrightarrow> (\<forall>q. (s, q) \<in> ?R \<longrightarrow> q |\<in>| finsert p seen)"
        using 1(4) l by (auto simp: parent_of_def)
    qed (use l False n 1(3) in auto)
    then show ?thesis using p(2) n(1) by blast
  qed
qed

lemma canton_ancestor_iff:
  "hasRecognizedTransferAncestor nodeID parents ids {||} \<longleftrightarrow> (\<exists>q. q |\<in>| ids \<and> (nodeID, q) \<in> (parent_of parents)\<^sup>+)"
  using ancestor_sound ancestor_complete [of nodeID parents ids "{||}"] by fastforce

text \<open>The search for a recognized ancestor ends, also when the nodes list each other in a circle, and finds one exactly when one is there:
  when a node with a recognized transfer is reached by one or more steps to the parent.\<close>

theorem canton_ancestor_exact:
  "hasRecognizedTransferAncestor nodeID parents ids {||} \<longleftrightarrow> (\<exists>q. q |\<in>| ids \<and> (nodeID, q) \<in> (parent_of parents)\<^sup>+)"
  by (rule canton_ancestor_iff)

subsection \<open>The walk\<close>

definition node_transfer :: "'d decimal_lib \<Rightarrow> string \<Rightarrow> int \<Rightarrow> string \<Rightarrow> string \<Rightarrow> ledger_node option \<Rightarrow> transfer_error + int option" where
  "node_transfer L wantReceiver decimals wantAdmin wantID n = (case node_create n of
     Some c \<Rightarrow> validateCreateNode L c wantReceiver decimals wantAdmin wantID
   | None \<Rightarrow> (case node_exercise n of Some e \<Rightarrow> validateExerciseNode L e wantReceiver decimals wantAdmin wantID | None \<Rightarrow> Inr None))"

definition node_id :: "ledger_node option \<Rightarrow> string" where
  "node_id n = (case n of None \<Rightarrow> [] | Some n \<Rightarrow> nd_id n)"

definition node_parents :: "ledger_node option \<Rightarrow> (string, string) fmap \<Rightarrow> (string, string) fmap" where
  "node_parents n m = (case node_exercise n of None \<Rightarrow> m | Some e \<Rightarrow> set_parents (node_id n) (ex_children e) m)"

lemma create_no_exercise: "node_create n = Some c \<Longrightarrow> node_exercise n = None"
  by (cases n) (auto split: option.split_asm node_type.split_asm)

lemma found_None [simp]: "found nodeID None s = s"
  by (simp add: found_def)

lemma scan_node_alt: "scan_node L r d a i n s = andThen (node_transfer L r d a i n)
   (\<lambda>x. Inr (found (node_id n) x (s\<lparr>parentByChildID := node_parents n (parentByChildID s)\<rparr>)))"
proof (cases "node_create n")
  case None
  then show ?thesis
    by (cases "node_exercise n") (simp_all add: scan_node_def node_transfer_def node_parents_def node_id_def Let_def)
next
  case (Some c)
  show ?thesis
    using create_no_exercise [OF Some] Some
    by (cases "validateCreateNode L c r d a i") (simp_all add: scan_node_def node_transfer_def node_parents_def node_id_def)
qed

text \<open>The transfers among some nodes, with their amounts.\<close>

definition transfers_of :: "(ledger_node option \<Rightarrow> transfer_error + int option) \<Rightarrow> ledger_node option list \<Rightarrow> (string \<times> int) list" where
  "transfers_of f ns = concat (map (\<lambda>n. case f n of Inr (Some a) \<Rightarrow> [(node_id n, a)] | _ \<Rightarrow> []) ns)"

lemma scan_nodes_Inr:
  "scan_nodes L r d a i ns s = Inr s' \<Longrightarrow> (\<forall>n\<in>set ns. \<exists>x. node_transfer L r d a i n = Inr x)
    \<and> validatedTransfers s' = validatedTransfers s @ transfers_of (node_transfer L r d a i) ns
    \<and> validatedTransferIDs s' = validatedTransferIDs s |\<union>| fset_of_list (map fst (transfers_of (node_transfer L r d a i) ns))
    \<and> parentByChildID s' = fold node_parents ns (parentByChildID s)"
proof (induction ns arbitrary: s)
  case (Cons n ns)
  then obtain x where x: "node_transfer L r d a i n = Inr x"
    "scan_nodes L r d a i ns (found (node_id n) x (s\<lparr>parentByChildID := node_parents n (parentByChildID s)\<rparr>)) = Inr s'"
    by (auto simp: scan_node_alt andThen_Inr)
  show ?case using Cons.IH [OF x(2)] x(1) by (cases x) (auto simp: found_def transfers_of_def)
qed (simp add: transfers_of_def)

lemma total_amount_Inr: "total_amount s want ts acc = Inr t \<Longrightarrow> acc \<le> want
   \<Longrightarrow> t = acc + sum_list (map snd (filter (\<lambda>(i, _). \<not> hasRecognizedTransferAncestor i (parentByChildID s) (validatedTransferIDs s) {||}) ts)) \<and> t \<le> want"
  by (induction s want ts acc rule: total_amount.induct) (auto simp: Let_def split: if_split_asm)

subsection \<open>What a node pays\<close>

text \<open>
  A payment as the node states it, whether it may be made or not: who is paid, the numeral of the amount, and the
  instrument (admin, id) where the node names one.
\<close>

record payment =
  pay_to :: "string set"
  pay_amount :: string
  pay_instrument :: "(string \<times> string) option"

definition numeral_of :: "dvalue option \<Rightarrow> string" where
  "numeral_of v = (if value_numeric v \<noteq> [] then value_numeric v
     else (case filter (\<lambda>x. x \<noteq> []) (map (\<lambda>f. value_numeric (canton_field_value f))
         (filter (\<lambda>f. canton_field_label f = ''amount'') (case value_record v of None \<Rightarrow> [] | Some fs \<Rightarrow> fs))) of
       [] \<Rightarrow> [] | n # _ \<Rightarrow> n))"

definition stated_field :: "value_field list \<Rightarrow> string \<Rightarrow> dvalue option" where
  "stated_field fs label = (case getRecordFieldValue fs label of None \<Rightarrow> None | Some v \<Rightarrow> v)"

definition record_of :: "dvalue option \<Rightarrow> value_field list" where
  "record_of v = (case value_record v of None \<Rightarrow> [] | Some fs \<Rightarrow> fs)"

definition plain_payment :: "value_field list \<Rightarrow> payment" where
  "plain_payment fs = \<lparr>pay_to = {value_party (stated_field fs ''receiver'')}, pay_amount = numeral_of (stated_field fs ''amount''), pay_instrument = None\<rparr>"

definition token_payment :: "value_field list \<Rightarrow> payment" where
  "token_payment fs = (let t = record_of (stated_field fs ''transfer''); i = record_of (stated_field t ''instrumentId'')
     in (plain_payment t)\<lparr>pay_instrument := Some (value_party (stated_field i ''admin''), value_text (stated_field i ''id''))\<rparr>)"

definition payment_of :: "ledger_node option \<Rightarrow> payment option" where
  "payment_of n = (case (node_create n, node_exercise n) of
     (Some c, _) \<Rightarrow> (case cr_template_id c of None \<Rightarrow> None | Some tid \<Rightarrow>
        if id_entity tid \<noteq> ''TransferOffer'' then None
        else if has_suffix (id_module tid) ''.Model.Transfer'' then Some (token_payment (record_of (cr_argument c)))
        else Some (plain_payment (record_of (cr_argument c))))
   | (_, Some e) \<Rightarrow>
        if ex_choice_id e = ''TransferPreapproval_Send'' then Some \<lparr>pay_to = set (ex_stakeholders e),
          pay_amount = numeral_of (stated_field (record_of (ex_chosen_value e)) ''amount''), pay_instrument = None\<rparr>
        else if ex_choice_id e = ''TransferFactory_Transfer'' then Some (token_payment (record_of (ex_chosen_value e)))
        else None
   | _ \<Rightarrow> None)"

text \<open>A payment that may be made: to the receiver, in the instrument asked for where it names one, of an amount that is a number.\<close>

definition pays :: "'d decimal_lib \<Rightarrow> string \<Rightarrow> string \<times> string \<Rightarrow> int \<Rightarrow> payment \<Rightarrow> int \<Rightarrow> bool" where
  "pays L receiver instrument decimals p amount \<longleftrightarrow> receiver \<in> pay_to p
     \<and> (\<exists>d. dNewFromString L (pay_amount p) = Some d \<and> amount = ToBlockchain L d decimals)
     \<and> (\<forall>i. pay_instrument p = Some i \<and> instrument \<noteq> ([], []) \<longrightarrow> i = instrument)"

lemma checkAmountField_numeral: "checkAmountField L v decimals ctx = Inr a \<Longrightarrow>
   \<exists>d. dNewFromString L (numeral_of v) = Some d \<and> a = ToBlockchain L d decimals"
proof -
  have f: "filter (\<lambda>x. x \<noteq> []) (map (\<lambda>f. value_numeric (canton_field_value f)) (filter (\<lambda>f. canton_field_label f = l) fs)) =
     map (\<lambda>f. value_numeric (canton_field_value f)) (filter (\<lambda>f. canton_field_label f = l \<and> value_numeric (canton_field_value f) \<noteq> []) fs)" for l and fs :: "value_field list"
    by (induction fs) auto
  have g: "(case map h (filter P fs) of [] \<Rightarrow> [] | n # _ \<Rightarrow> n) = (case find P fs of None \<Rightarrow> [] | Some x \<Rightarrow> h x)"
    for h :: "value_field \<Rightarrow> string" and P fs
    by (induction fs) auto
  show "checkAmountField L v decimals ctx = Inr a \<Longrightarrow> ?thesis"
    unfolding numeral_of_def f g
    by (auto simp: checkAmountField_def parseNumericToBlockchain_def split: option.splits if_split_asm)
qed

lemma stated_field_find: "getRecordFieldValue fs l = Some v \<Longrightarrow> stated_field fs l = v"
  by (simp add: stated_field_def)

lemma record_of_find: "Option.bind (getRecordFieldValue fs l) value_record = Some t \<Longrightarrow> record_of (stated_field fs l) = t"
  by (auto simp: record_of_def stated_field_def Option.bind_eq_Some_conv)

lemma plain_pays: "validateRecordReceiverAndAmount L fs receiver decimals ctx = Inr a \<Longrightarrow> pays L receiver i decimals (plain_payment fs) a"
  by (auto simp: validateRecordReceiverAndAmount_def pays_def plain_payment_def Let_def
      dest!: stated_field_find checkAmountField_numeral split: option.split_asm if_split_asm)

lemma instrument_checked: "check_instrument t (fst i) (snd i) ctx = Inr () \<Longrightarrow> i \<noteq> ([], []) \<Longrightarrow>
   i = (value_party (stated_field (record_of (stated_field t ''instrumentId'')) ''admin''), value_text (stated_field (record_of (stated_field t ''instrumentId'')) ''id''))"
  by (cases i) (auto simp: check_instrument_def Let_def dest!: stated_field_find record_of_find split: option.split_asm if_split_asm)

lemma token_pays: "validateTokenTransferRecord L fs receiver decimals (fst i) (snd i) ctx = Inr a \<Longrightarrow> pays L receiver i decimals (token_payment fs) a"
proof -
  assume v: "validateTokenTransferRecord L fs receiver decimals (fst i) (snd i) ctx = Inr a"
  then obtain t where t: "record_of (stated_field fs ''transfer'') = t" "validateRecordReceiverAndAmount L t receiver decimals ctx = Inr a"
    "check_instrument t (fst i) (snd i) ctx = Inr ()"
    by (auto simp: validateTokenTransferRecord_def andThen_Inr dest!: record_of_find split: if_split_asm option.split_asm)
  then show ?thesis
    using plain_pays [OF t(2), of i] instrument_checked [OF t(3)] by (auto simp: pays_def token_payment_def Let_def)
qed

lemma node_pays:
  assumes v: "node_transfer L receiver decimals (fst i) (snd i) n = Inr x"
  shows "case payment_of n of None \<Rightarrow> x = None | Some p \<Rightarrow> \<exists>a. x = Some a \<and> pays L receiver i decimals p a"
proof (cases "node_create n")
  case (Some c)
  then have "validateCreateNode L c receiver decimals (fst i) (snd i) = Inr x" using v by (simp add: node_transfer_def)
  then show ?thesis
    using token_pays [of L _ receiver decimals i] plain_pays [of L _ receiver decimals _ _ i]
    by (auto simp: validateCreateNode_def payment_of_def Some record_of_def andThen_Inr split: option.split_asm if_split_asm)
next
  case None
  show ?thesis
  proof (cases "node_exercise n")
    case (Some e)
    then have e: "validateExerciseNode L e receiver decimals (fst i) (snd i) = Inr x" using v None by (simp add: node_transfer_def)
    have s: "containsString xs r \<longleftrightarrow> r \<in> set xs" for xs r by (auto simp: containsString_def list_ex_iff)
    have a: "validateAmountField L fs decimals ctx = Inr a \<Longrightarrow> checkAmountField L (stated_field fs ''amount'') decimals ctx = Inr a" for fs ctx a
      by (auto simp: validateAmountField_def stated_field_def getRecordFieldValue_def split: option.split_asm)
    show ?thesis
      using e token_pays [of L _ receiver decimals i]
      by (auto simp: validateExerciseNode_def payment_of_def None Some record_of_def andThen_Inr s pays_def
          dest!: a checkAmountField_numeral split: option.split_asm if_split_asm)
  qed (use v None in \<open>simp add: node_transfer_def payment_of_def\<close>)
qed

lemma transfers_pay: "\<forall>n\<in>set ns. \<exists>x. node_transfer L receiver decimals (fst i) (snd i) n = Inr x \<Longrightarrow>
   list_all2 (\<lambda>n (k, a). k = node_id n \<and> pays L receiver i decimals (the (payment_of n)) a)
     (filter (\<lambda>n. payment_of n \<noteq> None) ns) (transfers_of (node_transfer L receiver decimals (fst i) (snd i)) ns)"
proof (induction ns)
  case (Cons n ns)
  then obtain x where "node_transfer L receiver decimals (fst i) (snd i) n = Inr x" by auto
  with node_pays [OF this] Cons show ?case by (auto simp: transfers_of_def split: option.split_asm)
qed (simp add: transfers_of_def)

definition node_tree_parents :: "ledger_node option list \<Rightarrow> (string, string) fmap" where
  "node_tree_parents ns = fold node_parents ns fmempty"

text \<open>C7: A transfer that passes the checks holds at least one payment, every payment among its nodes goes to the receiver of the arguments, in
  their instrument where both name one, and the payments that are not below another one add up to at most the amount of
  the arguments.\<close>

theorem canton_transfer_checked:
  assumes v: "validateTransferArgs L p args decimals = Inr ()" and t: "pt_transaction p = Some t" and amount: "0 \<le> ta_amount args"
  shows "\<exists>ts. ts \<noteq> [] \<and> list_all2 (\<lambda>n (k, a). k = node_id n
        \<and> pays L (ta_to args) (wanted_instrument args) decimals (the (payment_of n)) a)
      (filter (\<lambda>n. payment_of n \<noteq> None) (dt_nodes t)) ts
    \<and> sum_list (map snd (filter (\<lambda>(k, _). \<not> (\<exists>q\<in>fst ` set ts. (k, q) \<in> (parent_of (node_tree_parents (dt_nodes t)))\<^sup>+)) ts)) \<le> ta_amount args"
proof -
  let ?i = "wanted_instrument args"
  let ?f = "node_transfer L (ta_to args) decimals (fst ?i) (snd ?i)"
  obtain s x where s: "scan_nodes L (ta_to args) decimals (fst ?i) (snd ?i) (dt_nodes t) new_scan = Inr s"
    "validatedTransfers s \<noteq> []" "total_amount s (ta_amount args) (validatedTransfers s) 0 = Inr x"
    using v by (auto simp: validateTransferArgs_def t andThen_Inr NewAmountBlockchainFromUint64_def split: prod.split_asm if_split_asm)
  note S = scan_nodes_Inr [OF s(1)]
  define ts where "ts = transfers_of ?f (dt_nodes t)"
  have ts: "validatedTransfers s = ts" "validatedTransferIDs s = fset_of_list (map fst ts)"
    "parentByChildID s = node_tree_parents (dt_nodes t)"
    using S by (simp_all add: new_scan_def ts_def node_tree_parents_def)
  have "hasRecognizedTransferAncestor k (parentByChildID s) (validatedTransferIDs s) {||} \<longleftrightarrow>
      (\<exists>q\<in>fst ` set ts. (k, q) \<in> (parent_of (node_tree_parents (dt_nodes t)))\<^sup>+)" for k
    unfolding canton_ancestor_iff ts by (auto simp: fset_of_list_elem)
  then have "sum_list (map snd (filter (\<lambda>(k, _). \<not> (\<exists>q\<in>fst ` set ts. (k, q) \<in> (parent_of (node_tree_parents (dt_nodes t)))\<^sup>+)) ts)) \<le> ta_amount args"
    using total_amount_Inr [OF s(3) amount] ts by simp
  moreover have "list_all2 (\<lambda>n (k, a). k = node_id n \<and> pays L (ta_to args) ?i decimals (the (payment_of n)) a)
      (filter (\<lambda>n. payment_of n \<noteq> None) (dt_nodes t)) ts"
    using transfers_pay S unfolding ts_def by blast
  ultimately show ?thesis using s(2) ts(1) by blast
qed

subsection \<open>What is not checked\<close>

text \<open>
  A transfer of some amount, and the same with one more node, which no root leads to: it states a payment of
  nothing and lists the transfer as its child.
\<close>

definition preapproval_send :: "string \<Rightarrow> string \<Rightarrow> string list \<Rightarrow> ledger_node" where
  "preapproval_send k amount children = \<lparr>nd_id = k, nd_v1 = Some (NodeExercise (Some \<lparr>ex_lf_version = ''2.1'', ex_contract_id = ''00'',
     ex_package_name = ''splice-amulet'', ex_template_id = Some \<lparr>id_package = [], id_module = ''Splice.AmuletRules'', id_entity = ''TransferPreapproval''\<rparr>,
     ex_signatories = [], ex_stakeholders = [''bob''], ex_acting_parties = [], ex_interface_id = None,
     ex_choice_id = ''TransferPreapproval_Send'',
     ex_chosen_value = Some (DRecord (Some (None, [Some (''amount'', Some (DNumeric amount))]))),
     ex_consuming = False, ex_children = children, ex_result = None, ex_choice_observers = []\<rparr>))\<rparr>"

definition send_example :: "string \<Rightarrow> ledger_node option list \<Rightarrow> prepared_tx" where
  "send_example amount ns = \<lparr>pt_transaction = Some \<lparr>dt_version = ''2.1'', dt_roots = [''0''],
       dt_nodes = Some (preapproval_send ''0'' amount []) # ns, dt_seeds = [\<lparr>ns_id = 0, ns_seed = Some (replicate 32 7)\<rparr>]\<rparr>,
     pt_metadata = Some \<lparr>md_submitter = Some \<lparr>si_act_as = [], si_command_id = []\<rparr>, md_synchronizer = [], md_mediator_group = 0,
       md_transaction_uuid = [], md_preparation_time = 0, md_input_contracts = [], md_min_time = None, md_max_time = None\<rparr>\<rparr>"

definition send_args :: transfer_args where
  "send_args = \<lparr>ta_applied_options = [], ta_options = newBuilderOptions, ta_from = ''alice::1220'', ta_to = ''bob'', ta_amount = 5\<rparr>"

lemma preapproval_transfer: "amount \<noteq> [] \<Longrightarrow> dNewFromString L amount = Some h \<Longrightarrow>
   node_transfer L ''bob'' decimals a i (Some (preapproval_send k amount cs)) = Inr (Some (ToBlockchain L h decimals))"
  by (simp add: node_transfer_def preapproval_send_def validateExerciseNode_def containsString_def validateAmountField_def
      checkAmountField_def parseNumericToBlockchain_def)

lemma preapproval_numbers:
  "node_transfer ref_decimal ''bob'' 0 a i (Some (preapproval_send k ''5'' cs)) = Inr (Some 5)"
  "node_transfer ref_decimal ''bob'' 0 a i (Some (preapproval_send k ''0'' cs)) = Inr (Some 0)"
  "node_transfer ref_decimal ''bob'' 0 a i (Some (preapproval_send k ''1000'' cs)) = Inr (Some 1000)"
proof -
  have d: "dNewFromString ref_decimal ''5'' = Some (5, 0)" "dNewFromString ref_decimal ''0'' = Some (0, 0)"
    "dNewFromString ref_decimal ''1000'' = Some (1000, 0)" by code_simp+
  have b: "ToBlockchain ref_decimal (5, 0) 0 = 5" "ToBlockchain ref_decimal (0, 0) 0 = 0" "ToBlockchain ref_decimal (1000, 0) 0 = 1000"
    by code_simp+
  show "node_transfer ref_decimal ''bob'' 0 a i (Some (preapproval_send k ''5'' cs)) = Inr (Some 5)"
    "node_transfer ref_decimal ''bob'' 0 a i (Some (preapproval_send k ''0'' cs)) = Inr (Some 0)"
    "node_transfer ref_decimal ''bob'' 0 a i (Some (preapproval_send k ''1000'' cs)) = Inr (Some 1000)"
    using preapproval_transfer [of _ ref_decimal _ 0 a i k cs] d b by simp_all
qed

lemma preapproval_node: "node_id (Some (preapproval_send k amount cs)) = k"
  "node_parents (Some (preapproval_send k amount cs)) m = set_parents k cs m"
  by (simp_all add: node_id_def node_parents_def preapproval_send_def)

lemma send_args_wanted: "wanted_instrument send_args = ([], [])" "ta_to send_args = ''bob''" "ta_amount send_args = 5"
  by (simp_all add: wanted_instrument_def send_args_def newBuilderOptions_def)

lemma send_checked: "validateTransferArgs ref_decimal (send_example ''5'' []) send_args 0 = Inr ()"
  by (simp add: validateTransferArgs_def send_example_def send_args_wanted scan_node_alt preapproval_numbers preapproval_node
      found_def new_scan_def NewAmountBlockchainFromUint64_def hasRecognizedTransferAncestor.simps amt_cmp_def)

theorem canton_transfer_checked_witness:
  "\<exists>ts. ts \<noteq> [] \<and> list_all2 (\<lambda>n (k, a). k = node_id n
        \<and> pays ref_decimal (ta_to send_args) (wanted_instrument send_args) 0 (the (payment_of n)) a)
      (filter (\<lambda>n. payment_of n \<noteq> None) [Some (preapproval_send ''0'' ''5'' [])]) ts
    \<and> sum_list (map snd (filter (\<lambda>(k, _). \<not> (\<exists>q\<in>fst ` set ts. (k, q) \<in> (parent_of (node_tree_parents [Some (preapproval_send ''0'' ''5'' [])]))\<^sup>+)) ts))
      \<le> ta_amount send_args"
  using canton_transfer_checked [OF send_checked] by (simp add: send_example_def send_args_wanted)

lemma send_refused: "validateTransferArgs ref_decimal (send_example ''1000'' []) send_args 0 = Inl (AmountExceeds 1000 5)"
  by (simp add: validateTransferArgs_def send_example_def send_args_wanted scan_node_alt preapproval_numbers preapproval_node
      found_def new_scan_def NewAmountBlockchainFromUint64_def hasRecognizedTransferAncestor.simps amt_cmp_def)

lemma preapproval_encoded: "amount \<in> {''5'', ''1000''} \<Longrightarrow>
   \<exists>h. \<forall>nodes. nodes ''0'' = Some (preapproval_send ''0'' amount []) \<longrightarrow>
     encodeNodeID sha nodes [\<lparr>ns_id = 0, ns_seed = Some (replicate 32 7)\<rparr>] ''0'' = Some (Inr h)"
proof -
  assume a: "amount \<in> {''5'', ''1000''}"
  let ?n = "preapproval_send ''0'' amount []"
  obtain e where e: "nd_v1 ?n = Some (NodeExercise (Some e))" "ex_children e = []" "nd_id ?n = ''0''"
    by (simp add: preapproval_send_def)
  have seed: "findSeed ''0'' [\<lparr>ns_id = 0, ns_seed = Some (replicate 32 7)\<rparr>] = Some (replicate 32 7)" by code_simp
  have "\<not> isl (case node_exercise (Some (preapproval_send ''0'' ''5'' [])) of None \<Rightarrow> Inl NilNode | Some e \<Rightarrow> exercise_head e ''0'' (Some (replicate 32 7)))"
    "\<not> isl (case node_exercise (Some (preapproval_send ''0'' ''1000'' [])) of None \<Rightarrow> Inl NilNode | Some e \<Rightarrow> exercise_head e ''0'' (Some (replicate 32 7)))"
    by code_simp+
  then have "\<not> isl (case node_exercise (Some ?n) of None \<Rightarrow> Inl NilNode | Some e \<Rightarrow> exercise_head e ''0'' (Some (replicate 32 7)))"
    using a by auto
  then obtain b where "exercise_head e ''0'' (Some (replicate 32 7)) = Inr b" using e(1) by (auto simp: isl_def) (metis old.sum.exhaust)
  then show ?thesis
    by (simp add: encodeNodeID.simps [of _ _ _ "''0''"] encodeNode_def encodeExerciseNode_def e seed encodeRepeatedStrings_def)
qed

lemma send_hashed:
  assumes "amount \<in> {''5'', ''1000''}"
  shows "\<exists>h. ComputePreparedTransactionHash sha (Some (send_example amount [])) = Some (Inr h)"
proof -
  obtain h where h: "\<And>nodes. nodes ''0'' = Some (preapproval_send ''0'' amount []) \<Longrightarrow>
     encodeNodeID sha nodes [\<lparr>ns_id = 0, ns_seed = Some (replicate 32 7)\<rparr>] ''0'' = Some (Inr h)"
    using preapproval_encoded [OF assms, of sha] by blast
  have k: "nd_id (preapproval_send k a cs) = k" for k a cs by (simp add: preapproval_send_def)
  show ?thesis
    by (simp add: ComputePreparedTransactionHash_def createNodesDict_def send_example_def hashTransaction_def encodeTransaction_def
        encodeRepeatedStrings_def k h hashMetadata_def encodeMetadata_def encode_strings_def encodeRepeated_def)
qed

text \<open>The hash does not see a node with an id of its own, when it is computed without it.\<close>

lemma encodeNode_extend:
  assumes "encodeNode f n seeds = Some (Inr b)" and "\<And>c h. f c = Some (Inr h) \<Longrightarrow> g c = Some (Inr h)"
  shows "encodeNode g n seeds = Some (Inr b)"
proof -
  have r: "encodeRepeatedStrings f cs = Some (Inr b) \<Longrightarrow> encodeRepeatedStrings g cs = Some (Inr b)" for cs b
    unfolding encodeRepeatedStrings_Inr using assms(2) by (blast intro: list_all2_mono)
  show ?thesis
    using assms(1)
    by (auto simp: encodeNode_def encodeExerciseNode_def encodeRollbackNode_def Option.bind_eq_Some_conv andThen_Inr
      split: option.splits node_type.splits sum.splits dest!: r)
qed

lemma encodeNodeID_extend:
  assumes "encodeNodeID sha nodes seeds c = Some (Inr h)" "nodes k = None"
  shows "encodeNodeID sha (nodes(k \<mapsto> z)) seeds c = Some (Inr h)"
proof -
  have "\<forall>h. y = Inr h \<and> nodes k = None \<longrightarrow> encodeNodeID sha (nodes(k \<mapsto> z)) seeds j = Some (Inr h)"
    if "encodeNodeID sha nodes seeds j = Some y" for sha nodes seeds j y
  proof (rule encodeNodeID.raw_induct [where P = "\<lambda>sha nodes seeds j y. \<forall>h. y = Inr h \<and> nodes k = None \<longrightarrow>
        encodeNodeID sha (nodes(k \<mapsto> z)) seeds j = Some (Inr h)", OF _ that])
    fix enc :: "(bytes \<Rightarrow> bytes) \<Rightarrow> (string \<rightharpoonup> ledger_node) \<Rightarrow> node_seed list \<Rightarrow> string \<Rightarrow> (hash_error + bytes) option"
      and sha nodes seeds j y
    assume IH: "\<And>sha nodes seeds j y. enc sha nodes seeds j = Some y \<Longrightarrow> \<forall>h. y = Inr h \<and> nodes k = None \<longrightarrow>
        encodeNodeID sha (nodes(k \<mapsto> z)) seeds j = Some (Inr h)"
      and eq: "(case nodes j of None \<Rightarrow> Some (Inl (NodeNotFound j))
        | Some n \<Rightarrow> encodeNode (\<lambda>c. enc sha nodes seeds c) n seeds \<bind> (\<lambda>x. Some (andThen x (\<lambda>b. Inr (sha b))))) = Some y"
    show "\<forall>h. y = Inr h \<and> nodes k = None \<longrightarrow> encodeNodeID sha (nodes(k \<mapsto> z)) seeds j = Some (Inr h)"
    proof (intro allI impI)
      fix h assume h: "y = Inr h \<and> nodes k = None"
      with eq obtain n b where n: "nodes j = Some n" "encodeNode (\<lambda>c. enc sha nodes seeds c) n seeds = Some (Inr b)" "h = sha b"
        by (auto simp: Option.bind_eq_Some_conv andThen_Inr split: option.split_asm)
      have "encodeNode (\<lambda>c. encodeNodeID sha (nodes(k \<mapsto> z)) seeds c) n seeds = Some (Inr b)"
        by (rule encodeNode_extend [OF n(2)]) (use IH h in blast)
      moreover have "(nodes(k \<mapsto> z)) j = Some n" using n(1) h by auto
      ultimately show "encodeNodeID sha (nodes(k \<mapsto> z)) seeds j = Some (Inr h)"
        by (subst encodeNodeID.simps) (simp add: n(3))
    qed
  qed
  then show ?thesis using assms by blast
qed

lemma create_nodes_append: "create_nodes (ns @ ms) nodes = andThen (create_nodes ns nodes) (create_nodes ms)"
  by (induction ns nodes rule: create_nodes.induct) (simp_all del: fun_upd_apply)

lemma create_nodes_dom: "create_nodes ns m = Inr nodes \<Longrightarrow> dom nodes = dom m \<union> node_id ` set ns"
  by (induction ns m rule: create_nodes.induct) (auto simp: node_id_def)

lemma hash_extend:
  assumes "ComputePreparedTransactionHash sha (Some p) = Some (Inr h)" "pt_transaction p = Some t"
    and "nd_id z \<notin> node_id ` set (dt_nodes t)"
  shows "ComputePreparedTransactionHash sha (Some (p\<lparr>pt_transaction := Some (t\<lparr>dt_nodes := dt_nodes t @ [Some z]\<rparr>)\<rparr>)) = Some (Inr h)"
proof -
  obtain nodes where n: "create_nodes (dt_nodes t) Map.empty = Inr nodes"
    using assms(1,2) by (auto simp: ComputePreparedTransactionHash_def createNodesDict_def split: sum.split_asm)
  then have new: "nodes (nd_id z) = None" using create_nodes_dom [OF n] assms(3) by auto
  have e: "encodeNodeID sha nodes seeds c = Some (Inr h) \<Longrightarrow> encodeNodeID sha (nodes(nd_id z \<mapsto> z)) seeds c = Some (Inr h)" for seeds c h
    using new by (intro encodeNodeID_extend)
  have r: "encodeRepeatedStrings (encodeNodeID sha nodes seeds) cs = Some (Inr b) \<Longrightarrow>
      encodeRepeatedStrings (encodeNodeID sha (nodes(nd_id z \<mapsto> z)) seeds) cs = Some (Inr b)" for seeds cs b
    unfolding encodeRepeatedStrings_Inr by (blast intro: list_all2_mono e)
  show ?thesis
    using assms(1) unfolding ComputePreparedTransactionHash_def createNodesDict_def
    by (auto simp: assms(2) n create_nodes_append hashTransaction_def encodeTransaction_def Option.bind_eq_Some_conv andThen_Inr dest!: r)
qed

subsection \<open>The checks read nodes that are not hashed\<close>

text \<open>A node that states a payment of nothing to the receiver and lists some nodes as its children.\<close>

definition covering_node :: "string \<Rightarrow> string \<Rightarrow> string list \<Rightarrow> ledger_node" where
  "covering_node k receiver ids = \<lparr>nd_id = k, nd_v1 = Some (NodeExercise (Some \<lparr>ex_lf_version = ''2.1'', ex_contract_id = ''00'',
     ex_package_name = [], ex_template_id = None, ex_signatories = [], ex_stakeholders = [receiver], ex_acting_parties = [],
     ex_interface_id = None, ex_choice_id = ''TransferPreapproval_Send'',
     ex_chosen_value = Some (DRecord (Some (None, [Some (''amount'', Some (DNumeric ''0''))]))),
     ex_consuming = False, ex_children = ids, ex_result = None, ex_choice_observers = []\<rparr>))\<rparr>"

definition with_node :: "prepared_tx \<Rightarrow> daml_transaction \<Rightarrow> ledger_node \<Rightarrow> prepared_tx" where
  "with_node p t z = p\<lparr>pt_transaction := Some (t\<lparr>dt_nodes := dt_nodes t @ [Some z]\<rparr>)\<rparr>"

lemma covering_transfer:
  assumes "dNewFromString L ''0'' = Some d" "ToBlockchain L d decimals = 0"
  shows "node_transfer L receiver decimals a i (Some (covering_node k receiver ids)) = Inr (Some 0)"
  using assms by (simp add: node_transfer_def covering_node_def validateExerciseNode_def containsString_def validateAmountField_def
      checkAmountField_def parseNumericToBlockchain_def)

lemma set_parents_lookup: "fmlookup (set_parents k cs m) c = (if c \<in> set cs then Some k else fmlookup m c)"
  by (induction cs arbitrary: m) auto

lemma scan_nodes_append: "scan_nodes L r d a i (ns @ ms) s = andThen (scan_nodes L r d a i ns s) (scan_nodes L r d a i ms)"
proof (induction ns arbitrary: s)
  case (Cons n ns)
  then show ?case by (cases "scan_node L r d a i n s") simp_all
qed simp

lemma total_skipped:
  "\<forall>(k, a)\<in>set ts. hasRecognizedTransferAncestor k (parentByChildID s) (validatedTransferIDs s) {||} \<or> a = 0 \<Longrightarrow> 0 \<le> want \<Longrightarrow>
     total_amount s want ts 0 = Inr 0"
  by (induction ts) (auto simp: amt_cmp_def)

text \<open>No check of a single node reports too great an amount.\<close>

lemma check_amount: "checkAmountField L v decimals ctx \<noteq> Inl (AmountExceeds x y)"
  by (auto simp: checkAmountField_def parseNumericToBlockchain_def split: option.split)

lemma record_amount: "validateRecordReceiverAndAmount L fs r decimals ctx \<noteq> Inl (AmountExceeds x y)"
  by (auto simp: validateRecordReceiverAndAmount_def Let_def check_amount split: option.split)

lemma instrument_amount: "check_instrument t a i ctx \<noteq> Inl (AmountExceeds x y)"
  by (auto simp: check_instrument_def Let_def split: option.split)

lemma andThen_error: "andThen x f \<noteq> Inl e \<longleftrightarrow> x \<noteq> Inl e \<and> (\<forall>v. x = Inr v \<longrightarrow> f v \<noteq> Inl e)"
  by (cases x) auto

lemma token_amount: "validateTokenTransferRecord L fs r decimals a i ctx \<noteq> Inl (AmountExceeds x y)"
  by (simp add: validateTokenTransferRecord_def andThen_error record_amount instrument_amount split: option.split)

lemma node_amount: "node_transfer L r d a i n \<noteq> Inl (AmountExceeds x y)"
proof -
  have c: "validateCreateNode L c r d a i \<noteq> Inl (AmountExceeds x y)" for c
    by (simp add: validateCreateNode_def andThen_error token_amount record_amount split: option.split)
  have e: "validateExerciseNode L e r d a i \<noteq> Inl (AmountExceeds x y)" for e
    by (simp add: validateExerciseNode_def validateAmountField_def andThen_error token_amount check_amount split: option.split)
  show ?thesis using c e by (simp add: node_transfer_def split: option.split)
qed

lemma scan_amount: "scan_nodes L r d a i ns s \<noteq> Inl (AmountExceeds x y)"
proof (induction ns arbitrary: s)
  case (Cons n ns)
  then show ?case using node_amount [of L r d a i n]
    by (cases "node_transfer L r d a i n") (simp_all add: scan_node_alt)
qed simp

text \<open>C14: The checks read nodes that are not hashed. Whatever prepared transaction is refused because it pays more
  than the arguments ask for, it is accepted once one more node is added, with an id of its own, which
  states a payment of nothing to the receiver and lists all other nodes as its children;
  and the hash that is signed, whatever the hash function, is the same with and without it. (The hash of the transaction has to
  be computed, the amount asked for not to be negative, and the numeral 0 to be read as 0.)\<close>

theorem canton_check_bypassed:
  assumes "validateTransferArgs L p args decimals = Inl (AmountExceeds paid wanted)"
    and "ComputePreparedTransactionHash sha (Some p) = Some (Inr h)" "pt_transaction p = Some t"
    and "k \<noteq> []" "k \<notin> node_id ` set (dt_nodes t)" "0 \<le> ta_amount args"
    and "dNewFromString L ''0'' = Some d" "ToBlockchain L d decimals = 0"
    and "q = with_node p t (covering_node k (ta_to args) (map node_id (dt_nodes t)))"
  shows "validateTransferArgs L q args decimals = Inr () \<and> ComputePreparedTransactionHash sha (Some q) = Some (Inr h)"
proof
  let ?z = "covering_node k (ta_to args) (map node_id (dt_nodes t))"
  show "ComputePreparedTransactionHash sha (Some q) = Some (Inr h)"
    using hash_extend [OF assms(2,3), of ?z] assms(5) by (simp add: assms(9) with_node_def covering_node_def)
  obtain a i where w: "wanted_instrument args = (a, i)" by (cases "wanted_instrument args")
  note scan = scan_amount [of L "ta_to args" decimals a i "dt_nodes t" new_scan]
  obtain s where s: "scan_nodes L (ta_to args) decimals a i (dt_nodes t) new_scan = Inr s"
    using assms(1) scan by (cases "scan_nodes L (ta_to args) decimals a i (dt_nodes t) new_scan")
      (auto simp: validateTransferArgs_def assms(3) w)
  note S = scan_nodes_Inr [OF s]
  define s' where "s' = s\<lparr>parentByChildID := set_parents k (map node_id (dt_nodes t)) (parentByChildID s),
    validatedTransfers := validatedTransfers s @ [(k, 0)], validatedTransferIDs := finsert k (validatedTransferIDs s)\<rparr>"
  have "node_id (Some ?z) = k" "node_parents (Some ?z) m = set_parents k (map node_id (dt_nodes t)) m" for m
    by (simp_all add: node_id_def node_parents_def covering_node_def)
  then have s': "scan_nodes L (ta_to args) decimals a i (dt_nodes t @ [Some ?z]) new_scan = Inr s'"
    using covering_transfer [OF assms(7,8)]
    by (simp add: scan_nodes_append s scan_node_alt found_def s'_def)
  have "hasRecognizedTransferAncestor c (parentByChildID s') (validatedTransferIDs s') {||}" if "c \<in> node_id ` set (dt_nodes t)" for c
    using that assms(4) by (subst hasRecognizedTransferAncestor.simps) (simp add: s'_def set_parents_lookup)
  moreover have "fst x \<in> node_id ` set (dt_nodes t)" if "x \<in> set (validatedTransfers s)" for x
    using that S by (auto simp: new_scan_def transfers_of_def split: sum.split_asm option.split_asm)
  ultimately have "\<forall>(c, a)\<in>set (validatedTransfers s'). hasRecognizedTransferAncestor c (parentByChildID s') (validatedTransferIDs s') {||} \<or> a = 0"
    by (force simp: s'_def)
  then have "total_amount s' (ta_amount args) (validatedTransfers s') 0 = Inr 0" using assms(6) by (rule total_skipped)
  moreover have "validatedTransfers s' \<noteq> []" by (simp add: s'_def)
  ultimately show "validateTransferArgs L q args decimals = Inr ()"
    by (simp add: validateTransferArgs_def assms(9) with_node_def w s' NewAmountBlockchainFromUint64_def)
qed

lemma canton_check_bypassed_witness:
  "\<exists>t. pt_transaction (send_example ''1000'' []) = Some t
     \<and> validateTransferArgs ref_decimal (send_example ''1000'' []) send_args 0 = Inl (AmountExceeds 1000 5)
     \<and> validateTransferArgs ref_decimal (with_node (send_example ''1000'' []) t (covering_node ''9'' ''bob'' [''0''])) send_args 0 = Inr ()"
proof -
  obtain h where h: "ComputePreparedTransactionHash (\<lambda>_. []) (Some (send_example ''1000'' [])) = Some (Inr h)"
    using send_hashed [of "''1000''"] by blast
  obtain t where t: "pt_transaction (send_example ''1000'' []) = Some t" "map node_id (dt_nodes t) = [''0'']"
    by (simp add: send_example_def preapproval_node)
  have d: "dNewFromString ref_decimal ''0'' = Some (0, 0)" "ToBlockchain ref_decimal (0, 0) 0 = 0" by code_simp+
  have "node_id ` set (dt_nodes t) = {''0''}" using arg_cong [OF t(2), of set] by simp
  then have k: "''9'' \<notin> node_id ` set (dt_nodes t)" "''9'' \<noteq> ([] :: string)" by simp_all
  show ?thesis
    using canton_check_bypassed [OF send_refused h t(1) k(2,1) _ d refl] t send_refused by (simp add: send_args_wanted)
qed

text \<open>A token was asked for, and what is sent is the native coin.\<close>

lemma native_for_token:
  "wanted_instrument (send_args\<lparr>ta_options := newBuilderOptions\<lparr>o_contract := Some ''issuer#TOKEN''\<rparr>\<rparr>) = (''issuer'', ''TOKEN'')"
  "validateTransferArgs ref_decimal (send_example ''5'' []) (send_args\<lparr>ta_options := newBuilderOptions\<lparr>o_contract := Some ''issuer#TOKEN''\<rparr>\<rparr>) 0 = Inr ()"
proof -
  show w: "wanted_instrument (send_args\<lparr>ta_options := newBuilderOptions\<lparr>o_contract := Some ''issuer#TOKEN''\<rparr>\<rparr>) = (''issuer'', ''TOKEN'')"
    by (simp add: wanted_instrument_def token_parts_def)
  show "validateTransferArgs ref_decimal (send_example ''5'' []) (send_args\<lparr>ta_options := newBuilderOptions\<lparr>o_contract := Some ''issuer#TOKEN''\<rparr>\<rparr>) 0 = Inr ()"
    unfolding validateTransferArgs_def w
    by (simp add: send_example_def send_args_wanted scan_node_alt preapproval_numbers preapproval_node
        found_def new_scan_def NewAmountBlockchainFromUint64_def hasRecognizedTransferAncestor.simps amt_cmp_def)
qed

text \<open>
  The conflict checks read them too. Two transfers have nothing in common, and the check says that one is not safe to be
  signed after the other; with one more unhashed node in each, an exercise that consumes the same contract, it says
  that it is safe.
\<close>

definition stray_consumer :: ledger_node where
  "stray_consumer = \<lparr>nd_id = ''9'', nd_v1 = Some (NodeExercise (Some \<lparr>ex_lf_version = [], ex_contract_id = ''00'', ex_package_name = [],
     ex_template_id = None, ex_signatories = [], ex_stakeholders = [], ex_acting_parties = [], ex_interface_id = None, ex_choice_id = [],
     ex_chosen_value = None, ex_consuming = True, ex_children = [], ex_result = None, ex_choice_observers = []\<rparr>))\<rparr>"

definition example_input :: "string \<Rightarrow> ledger_node option list \<Rightarrow> canton_tx_input" where
  "example_input submission ns = \<lparr>ct_ledger_end = 7, ct_prepared = Some (send_example ''5'' ns), ct_hashing_scheme_version = 2,
     ct_submission_id = submission, ct_deduplication_window = 0, ct_decimals = 0, ct_contract_address = []\<rparr>"

lemma stray_consumer_feigns_conflict:
  "cantonSafeFromDoubleSend (canton_conflict_of (conflict_input (example_input ''b'' [])))
     (Some (CantonIn k (conflict_input (example_input ''a'' [])))) = False"
  "cantonSafeFromDoubleSend (canton_conflict_of (conflict_input (example_input ''b'' [Some stray_consumer])))
     (Some (CantonIn k (conflict_input (example_input ''a'' [Some stray_consumer])))) = True"
  by (simp_all add: cantonSafeFromDoubleSend_def cantonContractIDConflict_def canton_conflict_of_def conflict_input_def example_input_def
      prepared_view_def send_example_def prepared_node_def preapproval_send_def stray_consumer_def consumingContractIDs_def)

subsection \<open>From the arguments to the request\<close>

lemma NewTx_Inr:
  assumes "canton_NewTx L sha i args decimals = Some (Inr tx)"
  shows "\<exists>p name h. ct_prepared i = Some p \<and> ParsePartyID (ta_from args) = Inr (name, KeyFingerprint tx)
    \<and> ComputePreparedTransactionHash sha (Some p) = Some (Inr h) \<and> validateTransferArgs L p args decimals = Inr ()
    \<and> PreparedTransaction tx = Some p \<and> Party tx = ta_from args \<and> SubmissionId tx = ct_submission_id i
    \<and> HashingSchemeVersion tx = ct_hashing_scheme_version i \<and> DeduplicationWindow tx = ct_deduplication_window i"
proof -
  obtain name fp p x where p: "ParsePartyID (ta_from args) = Inr (name, fp)" "ct_prepared i = Some p"
    "ComputePreparedTransactionHash sha (Some p) = Some x"
    "(case x of Inl e \<Rightarrow> Inl (HashFailed e) | Inr _ \<Rightarrow> andThen (validateTransferArgs L p args decimals) (\<lambda>_.
           Inr \<lparr>PreparedTransaction = Some p, HashingSchemeVersion = ct_hashing_scheme_version i, Party = ta_from args,
             KeyFingerprint = fp, SubmissionId = ct_submission_id i,
             DeduplicationWindow = ct_deduplication_window i, LedgerEnd = ct_ledger_end i, tx_signature = []\<rparr>)) = Inr tx"
    using assms by (cases "ParsePartyID (ta_from args)")
      (auto simp: canton_NewTx_def Option.bind_eq_Some_conv split: prod.split_asm option.split_asm if_split_asm)
  then show ?thesis by (cases x) (auto simp: andThen_Inr)
qed

text \<open>C23: What is signed is what is sent: of a transfer the builder accepts, the one hash to sign is that of the prepared transaction of the input,
  which passed the checks for the receiver and the amount of the arguments; with a signature of it the request holds the
  same prepared transaction, the sender as its party, signed by the fingerprint of the sender's address.\<close>

theorem canton_signs_what_it_sends:
  assumes tr: "canton_Transfer L sha asset args (Some i) = Some (Inr tx)" and sig: "sig \<noteq> []"
  shows "\<exists>p h name args' tx'. ct_prepared i = Some p \<and> canton_Sighashes sha tx = Some (Inr [h])
    \<and> ComputePreparedTransactionHash sha (Some p) = Some (Inr h)
    \<and> ta_to args' = ta_to args \<and> ta_amount args' = ta_amount args
    \<and> validateTransferArgs L p args' (canton_decimals asset i) = Inr ()
    \<and> ParsePartyID (ta_from args) = Inr (name, KeyFingerprint tx)
    \<and> canton_SetSignatures [sig] tx = Inr tx'
    \<and> canton_Serialize marshal tx' = marshal \<lparr>er_prepared = Some p, er_party = ta_from args, er_signature = sig,
        er_signed_by = KeyFingerprint tx, er_deduplication = ResolveDeduplicationWindow (ct_deduplication_window i),
        er_submission_id = ct_submission_id i, er_hashing_scheme_version = ct_hashing_scheme_version i\<rparr>"
proof -
  obtain args' where a: "ta_to args' = ta_to args" "ta_amount args' = ta_amount args" "ta_from args' = ta_from args"
    and n: "canton_NewTx L sha i args' (canton_decimals asset i) = Some (Inr tx)"
  proof (cases "canton_NewTx L sha i args (canton_decimals asset i) = Some (Inr tx)")
    case False
    then have "canton_NewNativeTransfer L sha asset args (Some i) = Some (Inr tx)"
      using tr by (auto simp: canton_Transfer_def canton_NewTokenTransfer_def split: option.split_asm if_split_asm)
    then obtain t where t: "NewTransferArgs (cc_driver asset) (ta_from args) (ta_to args) (ta_amount args)
        [OptionContractAddress (ct_contract_address i) [canton_decimals asset i]] = Inr t"
      "canton_NewTx L sha i t (canton_decimals asset i) = Some (Inr tx)"
      using False by (auto simp: canton_NewNativeTransfer_def Let_def split: if_split_asm sum.split_asm)
    then show thesis using that [of t] NewTransferArgs_Inr [OF t(1)] by simp
  qed (use that in blast)
  show ?thesis
    using NewTx_Inr [OF n] a sig
    by (auto simp: canton_Sighashes_def canton_computedSighash_def canton_SetSignatures_def canton_Serialize_def
        NewExecuteSubmissionAndWaitRequest_def intro!: exI [of _ args'])
qed

definition canton_asset :: "(int \<times> int) chain_config" where
  "canton_asset = \<lparr>cc_chain = ''CANTON'', cc_driver = ''canton'', cc_decimals = 0, cc_chain_coin = ''CC'', cc_native_assets = [],
     cc_fee_limit = (0, 0), cc_url = [], cc_crosschain_url = [], cc_confirmations_final = 0\<rparr>"

abbreviation send_input :: canton_tx_input where
  "send_input \<equiv> example_input ''s'' []"

lemma send_accepted: "\<exists>tx. canton_Transfer ref_decimal sha canton_asset send_args (Some send_input) = Some (Inr tx)"
proof -
  have f: "ParsePartyID (ta_from send_args) = Inr (''alice'', ''1220'')" by code_simp
  have d: "canton_decimals canton_asset send_input = 0" "o_contract (ta_options send_args) = None"
    by (simp_all add: canton_decimals_def canton_asset_def example_input_def send_args_def newBuilderOptions_def)
  obtain h where "ComputePreparedTransactionHash sha (Some (send_example ''5'' [])) = Some (Inr h)"
    using send_hashed [of "''5''" sha] by blast
  then show ?thesis
    unfolding canton_Transfer_def canton_NewNativeTransfer_def canton_NewTx_def f d using send_checked
    by (simp add: example_input_def d [unfolded example_input_def]) (simp add: send_example_def)
qed

theorem canton_signs_what_it_sends_witness:
  "\<exists>tx p h name args' tx'. canton_Transfer ref_decimal (\<lambda>x. take 32 x) canton_asset send_args (Some send_input) = Some (Inr tx)
    \<and> ct_prepared send_input = Some p \<and> canton_Sighashes (\<lambda>x. take 32 x) tx = Some (Inr [h])
    \<and> validateTransferArgs ref_decimal p args' (canton_decimals canton_asset send_input) = Inr ()
    \<and> canton_SetSignatures [[1, 2, 3]] tx = Inr tx'
    \<and> canton_Serialize (\<lambda>r. Inr (er_signature r)) tx' = Inr [1, 2, 3]"
proof -
  obtain tx where tx: "canton_Transfer ref_decimal (\<lambda>x. take 32 x) canton_asset send_args (Some send_input) = Some (Inr tx)"
    using send_accepted by blast
  show ?thesis
    using canton_signs_what_it_sends [OF tx, of "[1, 2, 3]" "\<lambda>r. Inr (er_signature r)"] tx by auto
qed

end
