(* ===== verification/CantonAccount.thy ===== *)
theory CantonAccount
  imports CantonTransfer
begin

text \<open>
  The registration of a Canton account (\<^verbatim>\<open>tx_input/create_account_input.go\<close>, \<^verbatim>\<open>tx/create_account_tx.go\<close>, \<^verbatim>\<open>tx/metadata.go\<close>,
  \<^verbatim>\<open>tx/topology_hash.go\<close> of \<^verbatim>\<open>chain/canton\<close>): the input of each of its two stages, its transaction, and the
  hash of the topology transactions. The JSON of the inputs is made by \<^verbatim>\<open>protojson\<close> and a parameter.
\<close>

subsection \<open>Inputs\<close>

record create_account_input =
  ca_stage :: string
  ca_party_id :: string
  ca_public_key_fingerprint :: string
  ca_topology_transactions :: "bytes list"
  ca_setup_prepared :: "prepared_tx option"
  ca_setup_hashing :: u32
  ca_setup_submission_id :: string
  ca_signature :: bytes

datatype account_error =
    InputShort
  | MetadataLength nat
  | JsonFailed
  | MissingStage
  | SignatureNumber nat
  | NoTopology
  | TransactionEmpty nat
  | SetupEmpty
  | InvalidInput create_account_error
  | StageUnsupported string
  | NilInput
  | InputType
  | PartyMismatch
  | MissingMetadata
  | PayloadShort
  | PayloadFormat
  | SetupHash hash_error

definition CreateAccountStageAllocate :: string where
  "CreateAccountStageAllocate = ''allocate_external_party''"

definition CreateAccountStageAccept :: string where
  "CreateAccountStageAccept = ''accept_external_party_setup_proposal''"

text \<open>Big-endian bytes of a number.\<close>

definition be_bytes :: "nat \<Rightarrow> nat \<Rightarrow> bytes" where
  "be_bytes k n = rev (le_bytes k n)"

definition be_value :: "bytes \<Rightarrow> nat" where
  "be_value b = le_value (rev b)"

lemma be_value_bytes: "n < 256 ^ k \<Longrightarrow> be_value (be_bytes k n) = n"
  by (simp add: be_value_def be_bytes_def le_value_le_bytes)

lemma length_be_bytes [simp]: "length (be_bytes k n) = k"
  by (simp add: be_bytes_def)

definition metadataBytes :: "(create_account_input \<Rightarrow> account_error + bytes) \<Rightarrow> create_account_input \<Rightarrow> account_error + bytes" where
  "metadataBytes marshal i = marshal (i\<lparr>ca_signature := []\<rparr>)"

definition input_Serialize :: "(create_account_input \<Rightarrow> account_error + bytes) \<Rightarrow> create_account_input \<Rightarrow> account_error + bytes" where
  "input_Serialize marshal i = andThen (metadataBytes marshal i) (\<lambda>metadata.
     Inr (be_bytes 8 (length metadata) @ metadata @ ca_signature i))"

definition ParseCreateAccountInput :: "(bytes \<Rightarrow> account_error + create_account_input) \<Rightarrow> bytes \<Rightarrow> account_error + create_account_input" where
  "ParseCreateAccountInput unmarshal data = (if length data < 8 then Inl InputShort
     else (let metadataLen = be_value (take 8 data)
       in if metadataLen > length data - 8 then Inl (MetadataLength metadataLen)
          else andThen (unmarshal (take metadataLen (drop 8 data))) (\<lambda>i.
            if ca_stage i = [] then Inl MissingStage else Inr (i\<lparr>ca_signature := drop (8 + metadataLen) data\<rparr>))))"

definition input_SetSignatures :: "bytes list \<Rightarrow> create_account_input \<Rightarrow> account_error + create_account_input" where
  "input_SetSignatures sigs i = (case sigs of [sig] \<Rightarrow> Inr (i\<lparr>ca_signature := sig\<rparr>) | _ \<Rightarrow> Inl (SignatureNumber (length sigs)))"

text \<open>\<^verbatim>\<open>VerifySignaturePayloads\<close> and the conflict checks are those of \<open>ObjectInputs\<close>, on what they read of the input.\<close>

definition account_view :: "create_account_input \<Rightarrow> canton_create_account_input" where
  "account_view i = \<lparr>cc_stage = ca_stage i, cc_party_id = ca_party_id i, cc_topology_transactions = ca_topology_transactions i,
     cc_setup_prepared = map_option prepared_view (ca_setup_prepared i), cc_setup_submission_id = ca_setup_submission_id i\<rparr>"

definition verify_input :: "create_account_input \<Rightarrow> account_error + unit" where
  "verify_input i = (case VerifySignaturePayloads (account_view i) of Inl e \<Rightarrow> Inl (InvalidInput e) | Inr _ \<Rightarrow> Inr ())"

subsection \<open>The hash of the topology transactions\<close>

definition topologyTransactionHashPurpose :: nat where
  "topologyTransactionHashPurpose = 11"

definition topologyMultiHashPurpose :: nat where
  "topologyMultiHashPurpose = 55"

definition computeCantonHash :: "(bytes \<Rightarrow> bytes) \<Rightarrow> nat \<Rightarrow> bytes \<Rightarrow> bytes" where
  "computeCantonHash sha purpose content = [0x12, 0x20] @ sha (be_bytes 4 purpose @ content)"

definition ComputeTopologyTransactionHash :: "(bytes \<Rightarrow> bytes) \<Rightarrow> bytes \<Rightarrow> account_error + bytes" where
  "ComputeTopologyTransactionHash sha serializedTx = (if serializedTx = [] then Inl (TransactionEmpty 0)
     else Inr (computeCantonHash sha topologyTransactionHashPurpose serializedTx))"

fun topology_hashes :: "(bytes \<Rightarrow> bytes) \<Rightarrow> bytes list \<Rightarrow> account_error + bytes list" where
  "topology_hashes sha [] = Inr []"
| "topology_hashes sha (t # ts) = andThen (ComputeTopologyTransactionHash sha t) (\<lambda>h.
     andThen (topology_hashes sha ts) (\<lambda>hs. Inr (h # hs)))"

text \<open>\<^verbatim>\<open>slices.Compare\<close> is the lexicographic order of the bytes.\<close>

definition ComputeTopologyMultiHash :: "(bytes \<Rightarrow> bytes) \<Rightarrow> bytes list \<Rightarrow> account_error + bytes" where
  "ComputeTopologyMultiHash sha serializedTxs = (if serializedTxs = [] then Inl NoTopology
     else andThen (topology_hashes sha serializedTxs) (\<lambda>hashes.
       let hashes = sort hashes;
           combined = be_bytes 4 (length hashes) @ concat (map (\<lambda>h. be_bytes 4 (length h) @ h) hashes)
       in Inr (computeCantonHash sha topologyMultiHashPurpose combined)))"

subsection \<open>Transactions\<close>

text \<open>A transaction is its input, which may be nil.\<close>

definition NewCreateAccountTx :: "string \<Rightarrow> create_account_input option \<Rightarrow> account_error + create_account_input" where
  "NewCreateAccountTx addr input = (case input of None \<Rightarrow> Inl InputType | Some i \<Rightarrow>
     andThen (verify_input i) (\<lambda>_. if addr \<noteq> ca_party_id i then Inl PartyMismatch else Inr i))"

definition computeCreateAccountAcceptSighash :: "(bytes \<Rightarrow> bytes) \<Rightarrow> create_account_input \<Rightarrow> (account_error + bytes) option" where
  "computeCreateAccountAcceptSighash sha i = (if ca_setup_prepared i = None then Some (Inl SetupEmpty)
     else ComputePreparedTransactionHash sha (ca_setup_prepared i) \<bind> (\<lambda>x. Some (case x of Inl e \<Rightarrow> Inl (SetupHash e) | Inr h \<Rightarrow> Inr h)))"

definition account_Sighashes :: "(bytes \<Rightarrow> bytes) \<Rightarrow> create_account_input option \<Rightarrow> (account_error + bytes list) option" where
  "account_Sighashes sha tx = (case tx of None \<Rightarrow> Some (Inl NilInput) | Some i \<Rightarrow>
     (if ca_stage i = CreateAccountStageAllocate
      then Some (andThen (ComputeTopologyMultiHash sha (ca_topology_transactions i)) (\<lambda>h. Inr [h]))
      else if ca_stage i = CreateAccountStageAccept
      then computeCreateAccountAcceptSighash sha i \<bind> (\<lambda>x. Some (andThen x (\<lambda>h. Inr [h])))
      else Some (Inl (StageUnsupported (ca_stage i)))))"

definition account_SetSignatures :: "bytes list \<Rightarrow> create_account_input option \<Rightarrow> account_error + create_account_input option" where
  "account_SetSignatures sigs tx = (case tx of None \<Rightarrow> Inl NilInput | Some i \<Rightarrow> andThen (input_SetSignatures sigs i) (\<lambda>i. Inr (Some i)))"

definition createAccountPayloadPrefixLen :: nat where
  "createAccountPayloadPrefixLen = 8"

definition account_Serialize :: "create_account_input option \<Rightarrow> account_error + bytes" where
  "account_Serialize tx = (case tx of None \<Rightarrow> Inl NilInput
     | Some i \<Rightarrow> Inr (replicate createAccountPayloadPrefixLen 0 @ ca_signature i))"

definition account_Hash :: "(bytes \<Rightarrow> bytes) \<Rightarrow> create_account_input option \<Rightarrow> string" where
  "account_Hash sha tx = (case account_Serialize tx of Inl _ \<Rightarrow> [] | Inr b \<Rightarrow> hex_encode (map unat (sha b)))"

definition parseCreateAccountSignaturePayload :: "bytes \<Rightarrow> account_error + bytes" where
  "parseCreateAccountSignaturePayload data = (if length data < createAccountPayloadPrefixLen then Inl PayloadShort
     else if be_value (take createAccountPayloadPrefixLen data) \<noteq> 0 then Inl PayloadFormat
     else Inr (drop createAccountPayloadPrefixLen data))"

subsection \<open>Metadata\<close>

text \<open>All of the input but its signature.\<close>

record create_account_metadata =
  am_stage :: string
  am_party_id :: string
  am_public_key_fingerprint :: string
  am_topology_transactions :: "bytes list"
  am_setup_prepared :: "prepared_tx option"
  am_setup_hashing :: u32
  am_setup_submission_id :: string

record canton_metadata =
  TxType :: string
  CreateAccount :: "create_account_metadata option"

definition NewTransferMetadata :: canton_metadata where
  "NewTransferMetadata = \<lparr>TxType = ''transfer'', CreateAccount = None\<rparr>"

definition NewCreateAccountMetadata :: "create_account_input option \<Rightarrow> canton_metadata" where
  "NewCreateAccountMetadata input = (case input of None \<Rightarrow> \<lparr>TxType = ''create_account'', CreateAccount = None\<rparr>
     | Some i \<Rightarrow> \<lparr>TxType = ''create_account'', CreateAccount = Some \<lparr>am_stage = ca_stage i, am_party_id = ca_party_id i,
         am_public_key_fingerprint = ca_public_key_fingerprint i, am_topology_transactions = ca_topology_transactions i,
         am_setup_prepared = ca_setup_prepared i, am_setup_hashing = ca_setup_hashing i,
         am_setup_submission_id = ca_setup_submission_id i\<rparr>\<rparr>)"

definition metadata_CreateAccountInput :: "canton_metadata option \<Rightarrow> bytes \<Rightarrow> account_error + create_account_input" where
  "metadata_CreateAccountInput m signature = (case Option.bind m CreateAccount of None \<Rightarrow> Inl MissingMetadata
     | Some a \<Rightarrow> (let input = \<lparr>ca_stage = am_stage a, ca_party_id = am_party_id a,
          ca_public_key_fingerprint = am_public_key_fingerprint a, ca_topology_transactions = am_topology_transactions a,
          ca_setup_prepared = am_setup_prepared a, ca_setup_hashing = am_setup_hashing a,
          ca_setup_submission_id = am_setup_submission_id a, ca_signature = signature\<rparr>
        in andThen (verify_input input) (\<lambda>_. Inr input)))"

definition ParseCreateAccountTxWithMetadata :: "bytes \<Rightarrow> canton_metadata option \<Rightarrow> account_error + create_account_input" where
  "ParseCreateAccountTxWithMetadata data m = andThen (parseCreateAccountSignaturePayload data) (metadata_CreateAccountInput m)"

subsection \<open>Round trips\<close>

text \<open>An input is read back from its serialized form, with its signature, whatever the JSON of the rest, as long as that is read back.\<close>

theorem account_input_round_trip:
  assumes json: "\<And>i b. ca_signature i = [] \<Longrightarrow> marshal i = Inr b \<Longrightarrow> unmarshal b = Inr i \<and> length b < 2 ^ 64"
    and "ca_stage i \<noteq> []" "input_Serialize marshal i = Inr data"
  shows "ParseCreateAccountInput unmarshal data = Inr i"
proof -
  obtain b where b: "marshal (i\<lparr>ca_signature := []\<rparr>) = Inr b" "data = be_bytes 8 (length b) @ b @ ca_signature i"
    using assms(3) by (auto simp: input_Serialize_def metadataBytes_def andThen_Inr)
  have u: "unmarshal b = Inr (i\<lparr>ca_signature := []\<rparr>)" "length b < 2 ^ 64" using json [OF _ b(1)] by simp_all
  then have "be_value (be_bytes 8 (length b)) = length b" by (intro be_value_bytes) simp
  then show ?thesis using u(1) assms(2) b(2) by (simp add: ParseCreateAccountInput_def)
qed

text \<open>A signed account transaction is recovered from its payload and its metadata.\<close>

theorem account_tx_round_trip:
  assumes "NewCreateAccountTx addr input = Inr i" "account_SetSignatures [sig] (Some i) = Inr tx"
  shows "\<exists>data. account_Serialize tx = Inr data
    \<and> ParseCreateAccountTxWithMetadata data (Some (NewCreateAccountMetadata tx)) = Inr (the tx)"
proof -
  have v: "verify_input i = Inr ()" and tx: "tx = Some (i\<lparr>ca_signature := sig\<rparr>)"
    using assms by (auto simp: NewCreateAccountTx_def account_SetSignatures_def input_SetSignatures_def andThen_Inr
        split: option.split_asm if_split_asm)
  have "be_value (replicate 8 0) = 0" by code_simp
  moreover have "verify_input (i\<lparr>ca_signature := sig\<rparr>) = verify_input i"
    by (simp add: verify_input_def account_view_def VerifySignaturePayloads_def)
  ultimately show ?thesis using v
    by (cases i) (simp add: tx account_Serialize_def ParseCreateAccountTxWithMetadata_def parseCreateAccountSignaturePayload_def
        createAccountPayloadPrefixLen_def metadata_CreateAccountInput_def NewCreateAccountMetadata_def)
qed

subsection \<open>What the topology hash binds\<close>

definition topology_string :: "bytes \<Rightarrow> bytes" where
  "topology_string t = be_bytes 4 topologyTransactionHashPurpose @ t"

definition multi_string :: "(bytes \<Rightarrow> bytes) \<Rightarrow> bytes list \<Rightarrow> bytes" where
  "multi_string sha ts = be_bytes 4 topologyMultiHashPurpose @ be_bytes 4 (length ts)
     @ concat (map (\<lambda>t. be_bytes 4 34 @ t) (sort (map (computeCantonHash sha topologyTransactionHashPurpose) ts)))"

lemma topology_hashes_Inr: "topology_hashes sha ts = Inr hs \<longleftrightarrow> [] \<notin> set ts \<and> hs = map (computeCantonHash sha topologyTransactionHashPurpose) ts"
  by (induction ts arbitrary: hs) (auto simp: andThen_Inr ComputeTopologyTransactionHash_def)

lemma multi_hash_Inr:
  assumes "\<And>x. length (sha x) = 32"
  shows "ComputeTopologyMultiHash sha ts = Inr h \<longleftrightarrow> ts \<noteq> [] \<and> [] \<notin> set ts \<and> h = [0x12, 0x20] @ sha (multi_string sha ts)"
proof -
  let ?hs = "sort (map (computeCantonHash sha topologyTransactionHashPurpose) ts)"
  have eq: "map (\<lambda>h. be_bytes 4 (length h) @ h) ?hs = map (\<lambda>t. be_bytes 4 34 @ t) ?hs"
    using assms by (auto simp: computeCantonHash_def)
  show ?thesis
    by (auto simp: eq ComputeTopologyMultiHash_def andThen_Inr topology_hashes_Inr multi_string_def computeCantonHash_def [of _ topologyMultiHashPurpose] Let_def)
qed

text \<open>The strings that are hashed.\<close>

definition topology_strings :: "(bytes \<Rightarrow> bytes) \<Rightarrow> bytes list \<Rightarrow> bytes set" where
  "topology_strings sha ts = insert (multi_string sha ts) (topology_string ` set ts)"

lemma concat_prefixed: "concat (map (\<lambda>t. p @ t) xs) = concat (map (\<lambda>t. p @ t) ys) \<Longrightarrow> \<forall>x\<in>set xs \<union> set ys. length x = n
   \<Longrightarrow> 0 < length p \<Longrightarrow> xs = ys"
proof (induction xs arbitrary: ys)
  case Nil
  then show ?case by (cases ys) auto
next
  case (Cons x xs)
  then obtain y zs where ys: "ys = y # zs" by (cases ys) auto
  have "x @ concat (map (\<lambda>t. p @ t) xs) = y @ concat (map (\<lambda>t. p @ t) zs)" using Cons.prems(1) by (simp add: ys)
  moreover have "length x = length y" using Cons.prems(2) by (simp add: ys)
  ultimately have "x = y" "concat (map (\<lambda>t. p @ t) xs) = concat (map (\<lambda>t. p @ t) zs)"
    using append_eq_append_conv [of x y] by blast+
  moreover from this(2) have "xs = zs" using Cons.prems(2,3) by (intro Cons.IH) (simp_all add: ys)
  ultimately show ?case by (simp add: ys)
qed

lemma image_mset_inj:
  assumes "image_mset f A = image_mset f B" "inj_on f (set_mset A \<union> set_mset B)"
  shows "A = B"
proof -
  let ?g = "inv_into (set_mset A \<union> set_mset B) f"
  have g: "image_mset ?g (image_mset f C) = C" if "set_mset C \<subseteq> set_mset A \<union> set_mset B" for C
  proof -
    have "image_mset (\<lambda>x. ?g (f x)) C = image_mset (\<lambda>x. x) C"
      using inv_into_f_f [OF assms(2)] that by (intro image_mset_cong) blast
    then show ?thesis unfolding multiset.map_comp comp_def multiset.map_ident .
  qed
  have "A = image_mset ?g (image_mset f A)" using g [of A] by simp
  also have "\<dots> = B" unfolding assms(1) by (rule g) simp
  finally show ?thesis .
qed

text \<open>C30: The hash that is signed to register a party binds the topology transactions, in any order: two lists of transactions have the same hash exactly when they
  hold the same transactions as often, unless SHA-256 collides on the strings hashed for them.\<close>

theorem topology_hash_exact:
  assumes sha: "\<And>x. length (sha x) = 32"
    and inj: "inj_on sha (topology_strings sha ts \<union> topology_strings sha us)"
    and h: "ComputeTopologyMultiHash sha ts = Inr h" and g: "ComputeTopologyMultiHash sha us = Inr g"
  shows "h = g \<longleftrightarrow> mset ts = mset us"
proof
  let ?c = "computeCantonHash sha topologyTransactionHashPurpose"
  assume "h = g"
  then have "sha (multi_string sha ts) = sha (multi_string sha us)"
    using h g by (simp add: multi_hash_Inr [OF sha])
  then have "multi_string sha ts = multi_string sha us"
    by (rule inj_onD [OF inj]) (simp_all add: topology_strings_def)
  then have "concat (map (\<lambda>t. be_bytes 4 34 @ t) (sort (map ?c ts))) = concat (map (\<lambda>t. be_bytes 4 34 @ t) (sort (map ?c us)))"
    by (simp add: multi_string_def)
  then have "sort (map ?c ts) = sort (map ?c us)"
    by (rule concat_prefixed [where n = 34]) (auto simp: computeCantonHash_def sha)
  then have "image_mset ?c (mset ts) = image_mset ?c (mset us)" by (metis mset_map mset_sort)
  moreover have "inj_on ?c (set_mset (mset ts) \<union> set_mset (mset us))"
  proof (rule inj_onI)
    fix x y assume xy: "x \<in> set_mset (mset ts) \<union> set_mset (mset us)" "y \<in> set_mset (mset ts) \<union> set_mset (mset us)" "?c x = ?c y"
    then have "sha (topology_string x) = sha (topology_string y)" by (simp add: computeCantonHash_def topology_string_def)
    moreover have "topology_string x \<in> topology_strings sha ts \<union> topology_strings sha us"
      "topology_string y \<in> topology_strings sha ts \<union> topology_strings sha us"
      using xy by (auto simp: topology_strings_def)
    ultimately have "topology_string x = topology_string y" using inj_onD [OF inj] by blast
    then show "x = y" by (simp add: topology_string_def)
  qed
  ultimately show "mset ts = mset us" by (rule image_mset_inj)
next
  assume m: "mset ts = mset us"
  then have "sort (map f ts) = sort (map f us)" for f :: "bytes \<Rightarrow> bytes"
    by (metis mset_map mset_sort sorted_list_of_multiset_mset)
  moreover have "length ts = length us" using m by (rule mset_eq_length)
  ultimately have "multi_string sha ts = multi_string sha us" by (simp add: multi_string_def)
  then show "h = g" using h g by (simp add: multi_hash_Inr [OF sha])
qed

theorem topology_hash_exact_witness:
  "(ComputeTopologyMultiHash (\<lambda>x. take 32 (x @ replicate 32 0)) [[1], [2]] = ComputeTopologyMultiHash (\<lambda>x. take 32 (x @ replicate 32 0)) [[2], [1]])
     = (mset [[1 :: byte], [2]] = mset [[2], [1]])"
proof -
  let ?sha = "\<lambda>x :: bytes. take 32 (x @ replicate 32 0)"
  have sha: "length (?sha x) = 32" for x by simp
  obtain h g where h: "ComputeTopologyMultiHash ?sha [[1], [2]] = Inr h" and g: "ComputeTopologyMultiHash ?sha [[2], [1]] = Inr g"
    unfolding multi_hash_Inr [OF sha] by simp
  have s: "topology_strings ?sha [[1], [2]] \<union> topology_strings ?sha [[2], [1]] =
      {multi_string ?sha [[1], [2]], multi_string ?sha [[2], [1]], [0, 0, 0, 11, 1], [0, 0, 0, 11, 2]}"
  proof -
    have "topology_string [1] = [0, 0, 0, 11, 1]" "topology_string [2] = [0, 0, 0, 11, 2]" by code_simp+
    then show ?thesis by (auto simp: topology_strings_def)
  qed
  have m: "multi_string ?sha [[1], [2]] = multi_string ?sha [[2], [1]]" by code_simp
  have p: "be_bytes 4 topologyMultiHashPurpose = [0, 0, 0, 55]" by code_simp
  have "inj_on ?sha (topology_strings ?sha [[1], [2]] \<union> topology_strings ?sha [[2], [1]])"
    unfolding s m by (simp add: multi_string_def p)
  from topology_hash_exact [of ?sha, OF sha this h g] show ?thesis using h g by simp
qed

theorem account_input_round_trip_witness:
  "ParseCreateAccountInput (\<lambda>b. Inr \<lparr>ca_stage = ''x'', ca_party_id = [], ca_public_key_fingerprint = [], ca_topology_transactions = [b],
      ca_setup_prepared = None, ca_setup_hashing = 0, ca_setup_submission_id = [], ca_signature = []\<rparr>)
    (be_bytes 8 2 @ [7, 8] @ [9]) = Inr \<lparr>ca_stage = ''x'', ca_party_id = [], ca_public_key_fingerprint = [], ca_topology_transactions = [[7, 8]],
      ca_setup_prepared = None, ca_setup_hashing = 0, ca_setup_submission_id = [], ca_signature = [9]\<rparr>"
  by (rule account_input_round_trip [where marshal = "\<lambda>i. if i = \<lparr>ca_stage = ''x'', ca_party_id = [], ca_public_key_fingerprint = [],
      ca_topology_transactions = [hd (ca_topology_transactions i)], ca_setup_prepared = None, ca_setup_hashing = 0, ca_setup_submission_id = [],
      ca_signature = []\<rparr> \<and> length (hd (ca_topology_transactions i)) < 2 ^ 64 then Inr (hd (ca_topology_transactions i)) else Inl JsonFailed"])
    (auto simp: input_Serialize_def metadataBytes_def simp flip: numeral_2_eq_2 split: if_split_asm)

theorem account_tx_round_trip_witness:
  "\<exists>i tx data. NewCreateAccountTx ''p'' (Some i) = Inr i \<and> account_SetSignatures [[1, 2]] (Some i) = Inr tx
    \<and> account_Serialize tx = Inr data \<and> ParseCreateAccountTxWithMetadata data (Some (NewCreateAccountMetadata tx)) = Inr (the tx)"
proof -
  define i where "i = \<lparr>ca_stage = CreateAccountStageAllocate, ca_party_id = ''p'', ca_public_key_fingerprint = [], ca_topology_transactions = [[7, 8]],
      ca_setup_prepared = None, ca_setup_hashing = 0, ca_setup_submission_id = [], ca_signature = []\<rparr>"
  have n: "NewCreateAccountTx ''p'' (Some i) = Inr i" by (simp add: i_def CreateAccountStageAllocate_def NewCreateAccountTx_def verify_input_def account_view_def VerifySignaturePayloads_def)
  obtain tx where tx: "account_SetSignatures [[1, 2]] (Some i) = Inr tx" by (simp add: account_SetSignatures_def input_SetSignatures_def)
  show ?thesis using account_tx_round_trip [OF n tx] n tx by blast
qed

end
