(* ===== verification/KaspaScriptNum.thy ===== *)
theory KaspaScriptNum
  imports Prelude
begin

text \<open>
  The numbers of the kaspa script language, \<^verbatim>\<open>chain/kaspa/tx/txscript/scriptnum.go\<close>, and the errors
  of the package, \<^verbatim>\<open>error.go\<close>. A script number is an \<open>int64\<close>; on the stacks it is its absolute value
  in little-endian bytes with the sign in the highest bit. An \<open>Error\<close> of the code is its
  \<open>ErrorCode\<close>; the text beside it is left out. \<open>Panics\<close> stands for a run-time panic, which
  passes through every caller as an error does.
\<close>

datatype (plugins only: code) ErrorCode = ErrInternal | ErrInvalidFlags | ErrInvalidIndex | ErrUnsupportedAddress
  | ErrNotMultisigScript | ErrTooManyRequiredSigs | ErrEarlyReturn | ErrEmptyStack | ErrEvalFalse
  | ErrScriptUnfinished | ErrInvalidProgramCounter | ErrScriptTooBig | ErrElementTooBig
  | ErrTooManyOperations | ErrStackOverflow | ErrInvalidPubKeyCount | ErrInvalidSignatureCount
  | ErrNumberTooBig | ErrVerify | ErrEqualVerify | ErrNumEqualVerify | ErrCheckSigVerify
  | ErrCheckMultiSigVerify | ErrDisabledOpcode | ErrReservedOpcode | ErrMalformedPush
  | ErrInvalidStackOperation | ErrUnbalancedConditional | ErrMinimalData | ErrInvalidSigHashType
  | ErrSigLength | ErrSigHighS | ErrNotPushOnly | ErrPubKeyFormat | ErrCleanStack | ErrNullFail
  | ErrNegativeLockTime | ErrUnsatisfiedLockTime | ErrMinimalIf

datatype script_failure = Fails ErrorCode | Panics

unbundle bit_operations_syntax

text \<open>
  \<^verbatim>\<open>checkMinimalDataEncoding\<close>: true when the code returns nil, and \<open>ErrMinimalData\<close> is its only error.
\<close>

definition checkMinimalDataEncoding :: "bytes \<Rightarrow> bool" where
  "checkMinimalDataEncoding v \<longleftrightarrow> v = [] \<or>
     \<not> (last v AND 0x7f = 0 \<and> (length v = 1 \<or> v ! (length v - 2) AND 0x80 = 0))"

text \<open>The loop of \<^verbatim>\<open>Bytes\<close>: \<^verbatim>\<open>for n > 0\<close>, the low byte, then the arithmetic shift by 8.\<close>

lemma uint_shift8: "0 \<le> sint (n :: i64) \<Longrightarrow> uint (signed_drop_bit 8 n) = uint n div 256"
proof -
  assume nonneg: "0 \<le> sint n"
  have s: "sint (signed_drop_bit 8 n) = uint n div 256"
    using uint_eq_sint [OF nonneg] by (simp add: sint_signed_drop_bit_eq drop_bit_eq_div)
  then have "0 \<le> sint (signed_drop_bit 8 n)" by (simp add: pos_imp_zdiv_nonneg_iff)
  from uint_eq_sint [OF this] s show ?thesis by simp
qed

lemma unat_shift8:
  assumes "0 <s (n :: i64)"
  shows "unat (signed_drop_bit 8 n) = unat n div 256"
proof -
  have "0 \<le> sint n" using assms by (simp add: word_sless_alt)
  then have "int (unat (signed_drop_bit 8 n)) = int (unat n div 256)"
    using uint_shift8 [of n] by (simp add: zdiv_int)
  then show ?thesis by (simp only: of_nat_eq_iff)
qed

lemma sless_unat: "0 <s (n :: i64) \<Longrightarrow> 0 < unat n"
  using uint_eq_sint [of n] by (simp add: word_sless_alt unat_eq_nat_uint)

function (sequential) low_bytes :: "i64 \<Rightarrow> bytes" where
  "low_bytes n = (if 0 <s n then ucast (n AND 0xff) # low_bytes (signed_drop_bit 8 n) else [])"
  by pat_completeness auto

termination
  by (relation "measure unat") (auto simp: unat_shift8 dest: sless_unat)

declare low_bytes.simps [simp del]

definition script_num_bytes :: "i64 \<Rightarrow> bytes option" where
  "script_num_bytes n = (if n = 0 then Some [] else
     let isNegative = n <s 0; result = low_bytes (if isNegative then - n else n)
     in if result = [] then None
        else if last result AND 0x80 \<noteq> 0 then Some (result @ [if isNegative then 0x80 else 0x00])
        else if isNegative then Some (butlast result @ [last result OR 0x80])
        else Some result)"

definition Int32 :: "i64 \<Rightarrow> i32" where
  "Int32 n = (if 2 ^ 31 - 1 < sint n then 0x7fffffff else if sint n < - (2 ^ 31) then 0x80000000 else ucast n)"

fun or_bytes :: "nat \<Rightarrow> bytes \<Rightarrow> i64 \<Rightarrow> i64" where
  "or_bytes i [] result = result"
| "or_bytes i (val # v) result = or_bytes (Suc i) v (result OR push_bit (8 * i) (ucast val))"

definition makeScriptNum :: "bytes \<Rightarrow> int \<Rightarrow> script_failure + i64" where
  "makeScriptNum v scriptNumLen =
     (if int (length v) > scriptNumLen then Inl (Fails ErrNumberTooBig)
      else if length v > 8 then Inl (Fails ErrNumberTooBig)
      else if \<not> checkMinimalDataEncoding v then Inl (Fails ErrMinimalData)
      else if v = [] then Inr 0
      else let result = or_bytes 0 v 0 in
        if last v AND 0x80 \<noteq> 0
        then Inr (- (result AND NOT (push_bit (8 * (length v - 1)) 0x80)))
        else Inr result)"

subsection \<open>What the encoding means\<close>

text \<open>
  The number that a string of bytes stands for: the highest bit is the sign, the others the
  absolute value. \<open>mag_bytes\<close> is the shortest little-endian encoding of a natural number.
\<close>

definition num_value :: "bytes \<Rightarrow> int" where
  "num_value v = (if v = [] then 0 else
     let m = int (le_value (butlast v @ [last v AND 0x7f])) in if last v AND 0x80 \<noteq> 0 then - m else m)"

fun mag_bytes :: "nat \<Rightarrow> bytes" where
  "mag_bytes m = (if m = 0 then [] else of_nat (m mod 256) # mag_bytes (m div 256))"

declare mag_bytes.simps [simp del]

lemma mag_bytes_0 [simp]: "mag_bytes 0 = []"
  by (simp add: mag_bytes.simps)

lemma mag_bytes_Nil [simp]: "mag_bytes m = [] \<longleftrightarrow> m = 0"
  by (subst mag_bytes.simps) simp

lemma le_value_mag: "le_value (mag_bytes m) = m"
proof (induction m rule: mag_bytes.induct)
  case (1 m)
  then show ?case by (subst mag_bytes.simps) (simp add: unat_of_nat)
qed

lemma last_mag: "0 < m \<Longrightarrow> last (mag_bytes m) \<noteq> 0"
proof (induction m rule: mag_bytes.induct)
  case (1 m)
  show ?case
  proof (cases "m div 256 = 0")
    case True
    then have "m < 256" by simp
    with 1(2) True show ?thesis
      by (subst mag_bytes.simps) (simp add: word_eq_iff_unsigned unat_of_nat flip: unat_eq_zero)
  next
    case False
    with 1 show ?thesis by (subst mag_bytes.simps) simp
  qed
qed

lemma le_value_pos: "v \<noteq> [] \<Longrightarrow> last v \<noteq> 0 \<Longrightarrow> 0 < le_value v"
proof -
  assume v: "v \<noteq> []" "last v \<noteq> 0"
  have "le_value v = le_value (butlast v) + 256 ^ length (butlast v) * unat (last v)"
    by (subst append_butlast_last_id [OF v(1), symmetric], subst le_value_append) simp
  moreover have "0 < unat (last v)" using v(2) by (simp add: unat_gt_0)
  ultimately show ?thesis by simp
qed

lemma mag_le_value: "v = [] \<or> last v \<noteq> 0 \<Longrightarrow> mag_bytes (le_value v) = v"
proof (induction v)
  case (Cons b v)
  have pos: "0 < le_value (b # v)" using Cons.prems by (intro le_value_pos) auto
  have "unat b < 256" by (rule byte_less)
  then have dm: "le_value (b # v) mod 256 = unat b" "le_value (b # v) div 256 = le_value v"
    by simp_all
  have "mag_bytes (le_value v) = v" using Cons by (auto split: if_splits)
  with pos dm show ?case by (subst mag_bytes.simps) simp
qed simp

lemma ff_mask: "(0xff :: i64) = mask 8"
  by (simp add: mask_eq_exp_minus_1)

lemma low_bytes_mag: "0 \<le> sint n \<Longrightarrow> low_bytes n = mag_bytes (unat n)"
proof (induction n rule: low_bytes.induct)
  case (1 n)
  show ?case
  proof (cases "0 <s n")
    case True
    have b: "ucast (n AND 0xff) = (of_nat (unat n mod 256) :: byte)"
      by (rule bit_word_eqI)
        (simp add: bit_simps ff_mask bit_mask_iff flip: take_bit_eq_mod [of 8, simplified])
    have "0 \<le> sint (signed_drop_bit 8 n)"
      using 1(2) by (simp add: sint_signed_drop_bit_eq)
    with 1(1) [OF True] True b sless_unat [OF True] show ?thesis
      by (subst low_bytes.simps, subst mag_bytes.simps) (simp add: unat_shift8)
  next
    case False
    with 1(2) have "sint n = 0" by (simp add: word_sless_alt)
    then have "n = 0" by (simp add: signed_eq_0_iff)
    with False show ?thesis by (simp add: low_bytes.simps)
  qed
qed

subsection \<open>Reading the bytes\<close>

lemma or_push_disjoint:
  assumes "take_bit k w = (w :: i64)"
  shows "w OR push_bit k x = w + push_bit k x"
proof -
  have "\<not> bit w n \<or> \<not> bit (push_bit k x) n" for n
    using bit_take_bit_iff [of k w n] assms by (auto simp: bit_push_bit_iff)
  then show ?thesis by (simp add: disjunctive_add)
qed

lemma or_bytes_value:
  "i + length v \<le> 8 \<Longrightarrow> w < 256 ^ i \<Longrightarrow>
     or_bytes i v (of_nat w) = of_nat (w + 256 ^ i * le_value v)"
proof (induction v arbitrary: i w)
  case (Cons b v)
  have p: "(2::nat) ^ (8 * i) = 256 ^ i" by (simp add: power_mult)
  have lt: "256 ^ i \<le> (256::nat) ^ 8" using Cons.prems by (intro power_increasing) auto
  have "take_bit (8 * i) (of_nat w :: i64) = of_nat w"
    using Cons.prems by (simp add: take_bit_of_nat take_bit_nat_eq_self p)
  then have "of_nat w OR push_bit (8 * i) (ucast b) = of_nat w + push_bit (8 * i) (ucast b :: i64)"
    by (rule or_push_disjoint)
  also have "\<dots> = of_nat (w + 256 ^ i * unat b)"
    by (simp add: push_bit_eq_mult p flip: p)
  finally have step: "of_nat w OR push_bit (8 * i) (ucast b :: i64) = of_nat (w + 256 ^ i * unat b)" .
  have "w + 256 ^ i * unat b < 256 ^ Suc i"
  proof -
    have "256 ^ i * unat b \<le> 256 ^ i * 255" using byte_less [of b] by (intro mult_le_mono) auto
    with Cons.prems(2) have "w + 256 ^ i * unat b < 256 ^ i + 256 ^ i * 255" by linarith
    then show ?thesis by simp
  qed
  with Cons.IH [of "Suc i" "w + 256 ^ i * unat b"] Cons.prems step show ?case
    by (simp add: algebra_simps)
qed simp


text \<open>The sign bit of a byte and the seven bits below it, as arithmetic.\<close>

lemma low7: "unat (b AND 0x7f :: byte) = unat b mod 128"
proof -
  have "(0x7f :: byte) = mask 7" by (simp add: mask_eq_exp_minus_1)
  then have "b AND 0x7f = take_bit 7 b" by (simp add: take_bit_eq_mask)
  then have "unat (b AND 0x7f) = take_bit 7 (unat b)" by (simp only: unsigned_take_bit_eq)
  then show ?thesis by (simp add: take_bit_eq_mod)
qed

lemma bit7: "bit (b :: byte) 7 \<longleftrightarrow> 128 \<le> unat b"
proof -
  have "bit b 7 = bit (unat b) 7" by (simp add: bit_unsigned_iff)
  also have "\<dots> = odd (unat b div 128)" by (simp add: bit_iff_odd)
  also have "\<dots> = (128 \<le> unat b)"
  proof -
    have "unat b div 128 < 2" using byte_less [of b] by (simp add: div_less_iff_less_mult)
    then have "unat b div 128 = 0 \<or> unat b div 128 = 1" by linarith
    moreover have "unat b div 128 = 0 \<longleftrightarrow> unat b < 128" by (rule div_eq_0_iff [THEN trans]) simp
    ultimately show ?thesis by auto
  qed
  finally show ?thesis .
qed

lemma bit_0x80: "bit (0x80 :: byte) n \<longleftrightarrow> n = 7"
proof -
  have "bit (push_bit 7 1 :: byte) n \<longleftrightarrow> n = 7" by (auto simp only: bit_push_bit_iff bit_1_iff possible_bit_word) auto
  then show ?thesis by (simp add: push_bit_eq_mult)
qed

lemma high_bit: "b AND 0x80 = (if 128 \<le> unat b then 0x80 else (0 :: byte))"
proof (rule bit_word_eqI)
  fix n :: nat
  show "bit (b AND 0x80) n = bit (if 128 \<le> unat b then 0x80 else (0 :: byte)) n"
    unfolding bit7 [symmetric] by (cases "bit b 7"; cases "n = 7") (simp_all add: bit_and_iff bit_0x80 del: bit_numeral_word_iff)
qed

lemma sign_bit: "b AND 0x80 \<noteq> 0 \<longleftrightarrow> 128 \<le> unat (b :: byte)"
  by (simp add: high_bit)

lemma set_high_bit: "unat b < 128 \<Longrightarrow> unat (b OR 0x80 :: byte) = unat b + 128"
proof -
  assume "unat b < 128"
  then have d: "b AND 0x80 = 0" by (simp add: high_bit)
  then have e: "b + 0x80 = b OR 0x80" by (rule disjunctive_add_eq_or)
  have "unat (b + 0x80) = (unat b + 128) mod 256" by (simp add: unat_word_ariths)
  with \<open>unat b < 128\<close> e show ?thesis by simp
qed


lemma num_value_snoc:
  "num_value (u @ [b]) = (let m = int (le_value u + 256 ^ length u * (unat b mod 128))
     in if 128 \<le> unat b then - m else m)"
  by (simp add: num_value_def sign_bit low7 le_value_append Let_def)

lemma small_word: "x < 2 ^ 63 \<Longrightarrow> sint (of_nat x :: i64) = int x"
  by (simp add: sint_uint unsigned_of_nat take_bit_nat_eq_self signed_take_bit_int_eq_self)

lemma neg_small_word: "x < 2 ^ 63 \<Longrightarrow> sint (- of_nat x :: i64) = - int x"
proof -
  assume "x < 2 ^ 63"
  have "- of_nat x = (word_of_int (- int x) :: i64)" by simp
  with \<open>x < 2 ^ 63\<close> show ?thesis
    by (simp only: sint_sbintrunc') (simp add: signed_take_bit_int_eq_self)
qed

lemma clear_sign:
  assumes "x < 128 * 256 ^ k" "k \<le> 7"
  shows "of_nat (x + 128 * 256 ^ k) AND NOT (push_bit (8 * k) 0x80) = (of_nat x :: i64)"
proof -
  have p: "(256::nat) ^ k = 2 ^ (8 * k)" by (simp add: power_mult)
  have c: "push_bit (8 * k) 0x80 = (push_bit (8 * k + 7) 1 :: i64)"
    by (simp add: push_bit_eq_mult power_add)
  have "x < 2 ^ (8 * k + 7)" using assms(1) by (simp add: p power_add)
  then have t: "take_bit (8 * k + 7) (of_nat x :: i64) = of_nat x"
    by (simp add: take_bit_of_nat take_bit_nat_eq_self)
  have "of_nat (x + 128 * 256 ^ k) = of_nat x + (push_bit (8 * k + 7) 1 :: i64)"
    by (simp add: push_bit_eq_mult p power_add)
  also have "\<dots> = of_nat x OR push_bit (8 * k + 7) 1"
    by (rule or_push_disjoint [OF t, symmetric])
  finally have s: "of_nat (x + 128 * 256 ^ k) = of_nat x OR (push_bit (8 * k + 7) 1 :: i64)" .
  have "bit (of_nat x :: i64) n \<Longrightarrow> n < 8 * k + 7" for n
    by (subst (asm) t [symmetric]) (simp only: bit_take_bit_iff)
  then show ?thesis
    unfolding s c by (intro bit_word_eqI) (auto simp: bit_simps)
qed


lemma magnitude_bound: "le_value u + 256 ^ length u * (m mod 128) < 128 * 256 ^ length u"
proof -
  have "le_value u < 256 ^ length u" by (rule le_value_less)
  moreover have "256 ^ length u * (m mod 128) \<le> 256 ^ length u * 127" by (intro mult_le_mono) auto
  ultimately show ?thesis by linarith
qed

lemma num_value_bound: "v \<noteq> [] \<Longrightarrow> \<bar>num_value v\<bar> < 128 * 256 ^ (length v - 1)"
proof (cases v rule: rev_cases)
  case (snoc u b)
  define x where "x = le_value u + 256 ^ length u * (unat b mod 128)"
  have "int x < int (128 * 256 ^ length u)"
    using magnitude_bound unfolding x_def by (simp only: of_nat_less_iff)
  moreover have "\<bar>num_value v\<bar> = int x"
    unfolding snoc num_value_snoc x_def [symmetric] Let_def by simp
  ultimately show ?thesis by (simp add: snoc)
qed simp

lemma mult_add_128: "(a :: nat) = m + 128 \<Longrightarrow> p * a = p * m + 128 * p"
  by (simp add: distrib_left)

lemma makeScriptNum_eq: "makeScriptNum v k =
   (if int (length v) > k \<or> length v > 8 then Inl (Fails ErrNumberTooBig)
    else if \<not> checkMinimalDataEncoding v then Inl (Fails ErrMinimalData)
    else Inr (word_of_int (num_value v)))"
proof (cases "v = [] \<or> length v > 8")
  case True
  then show ?thesis by (auto simp: makeScriptNum_def num_value_def)
next
  case False
  then obtain u b where v: "v = u @ [b]" and len: "length u \<le> 7" by (cases v rule: rev_cases) auto
  let ?x = "le_value u + 256 ^ length u * (unat b mod 128)"
  have r: "or_bytes 0 v 0 = of_nat (le_value v)"
    using or_bytes_value [of 0 v 0] False by simp
  have "(if last v AND 0x80 \<noteq> 0
        then - (or_bytes 0 v 0 AND NOT (push_bit (8 * (length v - 1)) 0x80)) else or_bytes 0 v 0)
      = (word_of_int (num_value v) :: i64)"
  proof (cases "128 \<le> unat b")
    case True
    then have "unat b = unat b mod 128 + 128" using byte_less [of b] by (simp add: le_mod_geq)
    then have "256 ^ length u * unat b = 256 ^ length u * (unat b mod 128) + 128 * 256 ^ length u"
      by (rule mult_add_128)
    then have "le_value v = ?x + 128 * 256 ^ length u"
      by (simp add: v le_value_append)
    moreover have "?x < 128 * 256 ^ length u" by (rule magnitude_bound)
    ultimately have "or_bytes 0 v 0 AND NOT (push_bit (8 * length u) 0x80) = of_nat ?x"
      using clear_sign [OF _ len, of ?x] r by simp
    with True show ?thesis
      by (simp add: v sign_bit num_value_snoc Let_def)
  next
    case False
    then have "unat b mod 128 = unat b" by simp
    with False r show ?thesis by (simp add: v sign_bit num_value_snoc le_value_append Let_def)
  qed
  then show ?thesis using False
    by (simp only: makeScriptNum_def Let_def if_distrib [of Inr, symmetric] de_Morgan_disj if_False)
      simp
qed


text \<open>The encoding of an integer, without the width of the machine.\<close>

definition num_bytes :: "int \<Rightarrow> bytes" where
  "num_bytes z = (if z = 0 then [] else let r = mag_bytes (nat \<bar>z\<bar>) in
     if 128 \<le> unat (last r) then r @ [if z < 0 then 0x80 else 0]
     else if z < 0 then butlast r @ [last r OR 0x80] else r)"

lemma script_num_bytes_eq:
  "script_num_bytes n = (if sint n = - (2 ^ 63) then None else Some (num_bytes (sint n)))"
proof (cases "sint n = - (2 ^ 63)")
  case True
  then have "word_of_int (sint n) = (word_of_int (- (2 ^ 63)) :: i64)" by simp
  then have n: "n = word_of_int (- (2 ^ 63))" by simp
  have e: "low_bytes n = []" "- n = n" "n <s 0" "n \<noteq> 0"
    by (subst low_bytes.simps, simp_all add: n word_sless_alt)
  show ?thesis unfolding script_num_bytes_def Let_def e(2) using e(1,4) True by simp
next
  case False
  then have lo: "- (2 ^ 63) < sint n" using sint_ge [of n] by simp
  have hi: "sint n < 2 ^ 63" using sint_lt [of n] by simp
  have z: "n = 0 \<longleftrightarrow> sint n = 0" by (simp add: signed_eq_0_iff)
  let ?a = "if n <s 0 then - n else n"
  have neg: "n <s 0 \<longleftrightarrow> sint n < 0" by (simp add: word_sless_alt)
  have "?a = word_of_int \<bar>sint n\<bar>" by (simp add: neg)
  moreover have "\<bar>sint n\<bar> < 2 ^ 63" using lo hi by linarith
  ultimately have "sint ?a = \<bar>sint n\<bar>" "unat ?a = nat \<bar>sint n\<bar>"
    by (simp_all add: sint_sbintrunc' signed_take_bit_int_eq_self unsigned_of_int
      take_bit_int_eq_self)
  then have "low_bytes ?a = mag_bytes (nat \<bar>sint n\<bar>)" by (simp add: low_bytes_mag)
  with False show ?thesis
    by (cases "sint n < 0") (simp_all add: script_num_bytes_def num_bytes_def Let_def z neg sign_bit)
qed


lemma minimal_snoc: "checkMinimalDataEncoding (u @ [b]) \<longleftrightarrow>
   unat b mod 128 \<noteq> 0 \<or> (u \<noteq> [] \<and> 128 \<le> unat (last u))"
proof -
  have "b AND 0x7f = 0 \<longleftrightarrow> unat b mod 128 = 0" by (metis low7 unat_eq_zero)
  moreover have "u \<noteq> [] \<Longrightarrow> (u @ [b]) ! (length u - 1) = last u" by (simp add: nth_append last_conv_nth)
  ultimately show ?thesis by (auto simp: checkMinimalDataEncoding_def high_bit)
qed

lemma num_bytes_ne: "num_bytes z = [] \<longleftrightarrow> z = 0"
  by (auto simp: num_bytes_def Let_def)

lemma num_bytes_value: "num_value (num_bytes z) = z" and num_bytes_minimal: "checkMinimalDataEncoding (num_bytes z)"
proof -
  have "num_value (num_bytes z) = z \<and> checkMinimalDataEncoding (num_bytes z)"
  proof (cases "z = 0")
    case True
    then show ?thesis by (simp add: num_bytes_def num_value_def checkMinimalDataEncoding_def)
  next
    case False
    define r where "r = mag_bytes (nat \<bar>z\<bar>)"
    have "r \<noteq> []" "last r \<noteq> 0" using False last_mag [of "nat \<bar>z\<bar>"] by (simp_all add: r_def)
    then obtain w c where r: "r = w @ [c]" and c: "c \<noteq> 0" by (cases r rule: rev_cases) auto
    have val: "int (le_value r) = \<bar>z\<bar>" by (simp add: r_def le_value_mag)
    show ?thesis
    proof (cases "128 \<le> unat c")
      case True
      with False have e: "num_bytes z = r @ [if z < 0 then 0x80 else 0]"
        by (simp add: num_bytes_def r Let_def flip: r_def)
      have "num_value (num_bytes z) = z"
        unfolding e num_value_snoc using val by (simp add: Let_def)
      moreover have "checkMinimalDataEncoding (num_bytes z)"
        unfolding e minimal_snoc using True by (simp add: r)
      ultimately show ?thesis ..
    next
      case low: False
      define d where "d = (if z < 0 then c OR 0x80 else c)"
      from False low have e: "num_bytes z = w @ [d]"
        by (simp add: num_bytes_def r Let_def d_def flip: r_def)
      have d: "unat d = (if z < 0 then unat c + 128 else unat c)"
        using low by (simp add: d_def set_high_bit)
      then have m: "unat d mod 128 = unat c" using low by simp
      have "le_value r = le_value w + 256 ^ length w * unat c" by (simp add: r le_value_append)
      then have "num_value (num_bytes z) = (if 128 \<le> unat d then - \<bar>z\<bar> else \<bar>z\<bar>)"
        unfolding e num_value_snoc m using val by (simp add: Let_def)
      moreover have "128 \<le> unat d \<longleftrightarrow> z < 0" using d low by simp
      moreover have "checkMinimalDataEncoding (num_bytes z)"
        unfolding e minimal_snoc m using c by (simp add: unat_eq_zero)
      ultimately show ?thesis by simp
    qed
  qed
  then show "num_value (num_bytes z) = z" "checkMinimalDataEncoding (num_bytes z)" by simp_all
qed


lemma word_byte_eq: "unat a = unat (b :: byte) \<Longrightarrow> a = b"
  by (simp add: word_unat_eq_iff)

lemma num_bytes_unique:
  assumes "checkMinimalDataEncoding v"
  shows "num_bytes (num_value v) = v"
proof (cases v rule: rev_cases)
  case Nil
  then show ?thesis by (simp add: num_bytes_def num_value_def)
next
  case (snoc u b)
  define x where "x = le_value u + 256 ^ length u * (unat b mod 128)"
  have nv: "num_value v = (if 128 \<le> unat b then - int x else int x)"
    by (simp only: snoc num_value_snoc x_def Let_def)
  have b: "unat b = unat b mod 128 + (if 128 \<le> unat b then 128 else 0)"
    using byte_less [of b] by (simp add: le_mod_geq)
  show ?thesis
  proof (cases "unat b mod 128 = 0")
    case True
    then have u: "u \<noteq> []" "128 \<le> unat (last u)" using assms by (simp_all add: snoc minimal_snoc)
    then have "last u \<noteq> 0" by auto
    then have x: "mag_bytes x = u" "0 < x"
      using u True le_value_pos [of u] by (simp_all add: x_def mag_le_value)
    have "b = (if 128 \<le> unat b then 0x80 else 0)" by (rule word_byte_eq) (use b True in auto)
    moreover have "nat \<bar>num_value v\<bar> = x" "num_value v < 0 \<longleftrightarrow> 128 \<le> unat b" "num_value v \<noteq> 0"
      using x(2) by (simp_all add: nv)
    ultimately have "num_bytes (num_value v) = u @ [b]"
      using u x(1) by (simp add: num_bytes_def)
    then show ?thesis by (simp only: snoc)
  next
    case False
    define c where "c = (of_nat (unat b mod 128) :: byte)"
    have c: "unat c = unat b mod 128" by (simp add: c_def unat_of_nat)
    with False have "c \<noteq> 0" by auto
    have xe: "x = le_value (u @ [c])" by (simp add: x_def le_value_append c)
    have x: "mag_bytes x = u @ [c]" "0 < x"
      using \<open>c \<noteq> 0\<close> le_value_pos [of "u @ [c]"] by (simp_all add: xe mag_le_value)
    have hi: "128 \<le> unat b \<Longrightarrow> c OR 0x80 = b"
      by (rule word_byte_eq) (use b c in \<open>simp add: set_high_bit\<close>)
    have lo: "\<not> 128 \<le> unat b \<Longrightarrow> c = b" by (rule word_byte_eq) (use b c in simp)
    have "nat \<bar>num_value v\<bar> = x" "num_value v < 0 \<longleftrightarrow> 128 \<le> unat b" "num_value v \<noteq> 0"
      using x(2) by (simp_all add: nv)
    moreover have "unat c < 128" by (simp add: c)
    ultimately have "num_bytes (num_value v) = u @ [b]"
      using x(1) hi lo by (simp add: num_bytes_def Let_def)
    then show ?thesis by (simp only: snoc)
  qed
qed

lemma length_mag: "m < 256 ^ k \<Longrightarrow> length (mag_bytes m) \<le> k"
proof (induction k arbitrary: m)
  case (Suc k)
  then have "m div 256 < 256 ^ k" by (simp add: less_mult_imp_div_less mult.commute)
  with Suc.IH show ?case by (subst mag_bytes.simps) simp
qed simp

lemma length_num_bytes:
  assumes "\<bar>z\<bar> < 128 * 256 ^ k"
  shows "length (num_bytes z) \<le> Suc k"
proof (rule ccontr)
  assume "\<not> ?thesis"
  then have len: "Suc k \<le> length (num_bytes z) - 1" by simp
  let ?v = "num_bytes z"
  obtain u b where v: "?v = u @ [b]" using len by (cases ?v rule: rev_cases) auto
  have lu: "Suc k \<le> length u" using len v by simp
  define x where "x = le_value u + 256 ^ length u * (unat b mod 128)"
  have "\<bar>z\<bar> = int x"
    using num_bytes_value [of z] unfolding v num_value_snoc x_def [symmetric] Let_def
    by (auto split: if_splits)
  then have xk: "x < 128 * 256 ^ k"
    using assms by (metis (mono_tags) of_nat_less_iff of_nat_mult of_nat_power of_nat_numeral)
  have "(256::nat) ^ Suc k \<le> 256 ^ length u" using lu by (intro power_increasing) auto
  then have big: "256 * (256::nat) ^ k \<le> 256 ^ length u" by simp
  show False
  proof (cases "unat b mod 128 = 0")
    case True
    then have u: "u \<noteq> []" "128 \<le> unat (last u)"
      using num_bytes_minimal [of z] by (simp_all add: v minimal_snoc)
    have "256 ^ length u = 256 * (256::nat) ^ length (butlast u)"
      using u(1) by (cases u rule: rev_cases) simp_all
    moreover have "le_value u = le_value (butlast u) + 256 ^ length (butlast u) * unat (last u)"
      by (subst append_butlast_last_id [OF u(1), symmetric], subst le_value_append) simp
    moreover have "256 ^ length (butlast u) * 128 \<le> 256 ^ length (butlast u) * unat (last u)"
      using u(2) by simp
    moreover have "256 ^ k \<le> (256::nat) ^ length (butlast u)" using lu by (intro power_increasing) auto
    moreover have "x = le_value u" by (simp add: x_def True)
    ultimately show False using xk by linarith
  next
    case False
    then have "256 ^ length u * 1 \<le> 256 ^ length u * (unat b mod 128)" by (intro mult_le_mono) auto
    with big xk show False by (simp add: x_def)
  qed
qed

text \<open>A number read from at most four bytes is in the range of 32 bits without its least value.\<close>

lemma makeScriptNum_range:
  "makeScriptNum v 4 = Inr n \<Longrightarrow> \<bar>sint n\<bar> < 2 ^ 31"
proof -
  assume "makeScriptNum v 4 = Inr n"
  then have v: "length v \<le> 4" "n = word_of_int (num_value v)"
    by (auto simp: makeScriptNum_eq split: if_splits)
  have b: "\<bar>num_value v\<bar> < 2 ^ 31"
  proof (cases "v = []")
    case False
    have "(256::int) ^ (length v - 1) \<le> 256 ^ 3" using v(1) by (intro power_increasing) auto
    with num_value_bound [OF False] show ?thesis by simp
  qed (simp add: num_value_def)
  then have "sint n = num_value v"
    by (simp add: v(2) sint_sbintrunc' signed_take_bit_int_eq_self)
  with b show ?thesis by simp
qed


text \<open>C29: Reading and writing a script number are inverse to each other. Within the length that
  the reader allows, and eight bytes, the bytes read as the number \<open>n\<close> are exactly the bytes
  that \<open>Bytes\<close> writes for \<open>n\<close>: no number has two encodings the reader accepts.
\<close>

theorem script_num_round_trip:
  assumes "int (length v) \<le> k" "length v \<le> 8"
  shows "makeScriptNum v k = Inr n \<longleftrightarrow> script_num_bytes n = Some v"
proof -
  have b: "\<bar>num_value v\<bar> < 2 ^ 63"
  proof (cases "v = []")
    case False
    have "(256::int) ^ (length v - 1) \<le> 256 ^ 7" using assms(2) by (intro power_increasing) auto
    with num_value_bound [OF False] show ?thesis by simp
  qed (simp add: num_value_def)
  then have s: "sint (word_of_int (num_value v) :: i64) = num_value v"
    by (simp add: sint_sbintrunc' signed_take_bit_int_eq_self)
  have "makeScriptNum v k = Inr n \<longleftrightarrow>
      checkMinimalDataEncoding v \<and> n = word_of_int (num_value v)"
    using assms by (auto simp: makeScriptNum_eq)
  also have "\<dots> \<longleftrightarrow> script_num_bytes n = Some v"
  proof
    assume m: "checkMinimalDataEncoding v \<and> n = word_of_int (num_value v)"
    then have "sint n = num_value v" using s by simp
    with m b show "script_num_bytes n = Some v"
      by (simp add: script_num_bytes_eq num_bytes_unique)
  next
    assume "script_num_bytes n = Some v"
    then have v: "num_bytes (sint n) = v" by (simp add: script_num_bytes_eq split: if_splits)
    then have "num_value v = sint n" using num_bytes_value [of "sint n"] by simp
    then show "checkMinimalDataEncoding v \<and> n = word_of_int (num_value v)"
      using num_bytes_minimal [of "sint n"] v by simp
  qed
  finally show ?thesis .
qed

lemma script_num_round_trip_witness:
  "makeScriptNum [0x80, 0x80] 4 = Inr (- 128) \<longleftrightarrow> script_num_bytes (- 128) = Some [0x80, 0x80]"
  by (rule script_num_round_trip) simp_all

end
