(* ===== verification/KaspaStack.thy ===== *)
theory KaspaStack
  imports KaspaScriptNum
begin

text \<open>
  The stack of the kaspa script engine, \<^verbatim>\<open>chain/kaspa/tx/txscript/stack.go\<close>. A stack is the slice
  \<open>stk\<close> of the code as a list, with the top at its end. An operation returns the stack it
  leaves, or its error; the code leaves the stack after an error unspecified and the engine drops
  it. The counts and indices that callers give are \<open>int32\<close>, 32-bit words here, and so is what is computed
  from them: the index \<open>3 * n - 1\<close> wraps around. The index of \<open>PeekByteArray\<close> and \<open>nipN\<close> is the value of an \<open>int32\<close>, and \<^verbatim>\<open>int32(len(s.stk))\<close> is the
  length, which is exact below 2^31 elements; a stack of the engine has at most 248.
\<close>

type_synonym stack = "bytes list"

fun asBool :: "bytes \<Rightarrow> bool" where
  "asBool [] = False"
| "asBool (b # t) = (if b \<noteq> 0 then \<not> (t = [] \<and> b = 0x80) else asBool t)"

definition fromBool :: "bool \<Rightarrow> bytes" where
  "fromBool v = (if v then [1] else [])"

definition Depth :: "stack \<Rightarrow> int" where
  "Depth s = int (length s)"

definition PushByteArray :: "bytes \<Rightarrow> stack \<Rightarrow> stack" where
  "PushByteArray so s = s @ [so]"

definition PushInt :: "i64 \<Rightarrow> stack \<Rightarrow> script_failure + stack" where
  "PushInt val s = (case script_num_bytes val of None \<Rightarrow> Inl Panics | Some b \<Rightarrow> Inr (PushByteArray b s))"

definition PushBool :: "bool \<Rightarrow> stack \<Rightarrow> stack" where
  "PushBool val s = PushByteArray (fromBool val) s"

definition PeekByteArray :: "int \<Rightarrow> stack \<Rightarrow> script_failure + bytes" where
  "PeekByteArray idx s = (let sz = Depth s in
     if idx < 0 \<or> sz \<le> idx then Inl (Fails ErrInvalidStackOperation) else Inr (s ! nat (sz - idx - 1)))"

definition PeekInt :: "int \<Rightarrow> stack \<Rightarrow> script_failure + i64" where
  "PeekInt idx s = andThen (PeekByteArray idx s) (\<lambda>so. makeScriptNum so 4)"

definition PeekBool :: "int \<Rightarrow> stack \<Rightarrow> script_failure + bool" where
  "PeekBool idx s = andThen (PeekByteArray idx s) (\<lambda>so. Inr (asBool so))"

definition nipN :: "int \<Rightarrow> stack \<Rightarrow> script_failure + (bytes \<times> stack)" where
  "nipN idx s = (let sz = Depth s in
     if idx < 0 \<or> sz - 1 < idx then Inl (Fails ErrInvalidStackOperation)
     else Inr (s ! nat (sz - idx - 1),
       if idx = 0 then take (nat (sz - 1)) s
       else if idx = sz - 1 then drop 1 s
       else take (nat (sz - idx - 1)) s @ drop (nat (sz - idx)) s))"

definition NipN :: "i32 \<Rightarrow> stack \<Rightarrow> script_failure + stack" where
  "NipN idx s = andThen (nipN (sint idx) s) (\<lambda>(_, s'). Inr s')"

definition PopByteArray :: "stack \<Rightarrow> script_failure + (bytes \<times> stack)" where
  "PopByteArray s = nipN 0 s"

definition PopInt :: "stack \<Rightarrow> script_failure + (i64 \<times> stack)" where
  "PopInt s = andThen (PopByteArray s) (\<lambda>(so, s'). andThen (makeScriptNum so 4) (\<lambda>n. Inr (n, s')))"

definition PopBool :: "stack \<Rightarrow> script_failure + (bool \<times> stack)" where
  "PopBool s = andThen (PopByteArray s) (\<lambda>(so, s'). Inr (asBool so, s'))"

definition Tuck :: "stack \<Rightarrow> script_failure + stack" where
  "Tuck s = andThen (PopByteArray s) (\<lambda>(so2, s). andThen (PopByteArray s) (\<lambda>(so1, s).
     Inr (PushByteArray so2 (PushByteArray so1 (PushByteArray so2 s)))))"

text \<open>The loops: \<open>k\<close> turns, each over the stack that the last one left.\<close>

fun drop_loop :: "nat \<Rightarrow> stack \<Rightarrow> script_failure + stack" where
  "drop_loop 0 s = Inr s"
| "drop_loop (Suc k) s = andThen (PopByteArray s) (\<lambda>(_, s'). drop_loop k s')"

fun copy_loop :: "int \<Rightarrow> nat \<Rightarrow> stack \<Rightarrow> script_failure + stack" where
  "copy_loop entry 0 s = Inr s"
| "copy_loop entry (Suc k) s =
     andThen (PeekByteArray entry s) (\<lambda>so. copy_loop entry k (PushByteArray so s))"

fun roll_loop :: "int \<Rightarrow> nat \<Rightarrow> stack \<Rightarrow> script_failure + stack" where
  "roll_loop entry 0 s = Inr s"
| "roll_loop entry (Suc k) s =
     andThen (nipN entry s) (\<lambda>(so, s'). roll_loop entry k (PushByteArray so s'))"

definition DropN :: "i32 \<Rightarrow> stack \<Rightarrow> script_failure + stack" where
  "DropN n s = (if n <s 1 then Inl (Fails ErrInvalidStackOperation) else drop_loop (nat (sint n)) s)"

definition DupN :: "i32 \<Rightarrow> stack \<Rightarrow> script_failure + stack" where
  "DupN n s = (if n <s 1 then Inl (Fails ErrInvalidStackOperation) else copy_loop (sint (n - 1)) (nat (sint n)) s)"

definition RotN :: "i32 \<Rightarrow> stack \<Rightarrow> script_failure + stack" where
  "RotN n s = (if n <s 1 then Inl (Fails ErrInvalidStackOperation)
     else let entry = 3 * n - 1 in roll_loop (sint entry) (nat (sint n)) s)"

definition SwapN :: "i32 \<Rightarrow> stack \<Rightarrow> script_failure + stack" where
  "SwapN n s = (if n <s 1 then Inl (Fails ErrInvalidStackOperation)
     else let entry = 2 * n - 1 in roll_loop (sint entry) (nat (sint n)) s)"

definition OverN :: "i32 \<Rightarrow> stack \<Rightarrow> script_failure + stack" where
  "OverN n s = (if n <s 1 then Inl (Fails ErrInvalidStackOperation)
     else let entry = 2 * n - 1 in copy_loop (sint entry) (nat (sint n)) s)"

definition PickN :: "i32 \<Rightarrow> stack \<Rightarrow> script_failure + stack" where
  "PickN n s = andThen (PeekByteArray (sint n) s) (\<lambda>so. Inr (PushByteArray so s))"

definition RollN :: "i32 \<Rightarrow> stack \<Rightarrow> script_failure + stack" where
  "RollN n s = andThen (nipN (sint n) s) (\<lambda>(so, s'). Inr (PushByteArray so s'))"

subsection \<open>What the operations do to the list\<close>

lemma peek_at: "int (length ys) = idx \<Longrightarrow> PeekByteArray idx (xs @ x # ys) = Inr x"
  by (auto simp: PeekByteArray_def Depth_def Let_def nth_append)

lemma peek_short: "int (length s) \<le> idx \<Longrightarrow> PeekByteArray idx s = Inl (Fails ErrInvalidStackOperation)"
  by (simp add: PeekByteArray_def Depth_def Let_def)

lemma nip_at: "int (length ys) = idx \<Longrightarrow> nipN idx (xs @ x # ys) = Inr (x, xs @ ys)"
  by (auto simp: nipN_def Depth_def Let_def nth_append nat_add_distrib)

lemma nip_short: "int (length s) \<le> idx \<Longrightarrow> nipN idx s = Inl (Fails ErrInvalidStackOperation)"
  by (simp add: nipN_def Depth_def Let_def)

lemma pop_simps [simp]:
  "PopByteArray [] = Inl (Fails ErrInvalidStackOperation)"
  "PopByteArray (s @ [x]) = Inr (x, s)"
  using nip_at [of "[]" 0 s x] by (simp_all add: PopByteArray_def nip_short)

lemma pop_int_simps [simp]:
  "PopInt [] = Inl (Fails ErrInvalidStackOperation)"
  "PopInt (s @ [x]) = andThen (makeScriptNum x 4) (\<lambda>n. Inr (n, s))"
  by (simp_all add: PopInt_def)

lemma pop_bool_simps [simp]:
  "PopBool [] = Inl (Fails ErrInvalidStackOperation)"
  "PopBool (s @ [x]) = Inr (asBool x, s)"
  by (simp_all add: PopBool_def)

lemma drop_loop_eq: "drop_loop k s =
   (if k \<le> length s then Inr (take (length s - k) s) else Inl (Fails ErrInvalidStackOperation))"
proof (induction k arbitrary: s)
  case (Suc k)
  then show ?case by (cases s rule: rev_cases) (auto simp: Suc_diff_le)
qed simp

lemma copy_loop_eq:
  "length a = k \<Longrightarrow> int (length a + length b) = entry + 1 \<Longrightarrow>
     copy_loop entry k (xs @ a @ b) = Inr (xs @ a @ b @ a)"
proof (induction k arbitrary: xs a b)
  case (Suc k)
  then obtain x a' where a: "a = x # a'" by (cases a) auto
  have "PeekByteArray entry (xs @ x # (a' @ b)) = Inr x" by (rule peek_at) (use Suc.prems a in auto)
  moreover have "copy_loop entry k ((xs @ [x]) @ a' @ (b @ [x])) = Inr ((xs @ [x]) @ a' @ (b @ [x]) @ a')"
    by (rule Suc.IH) (use Suc.prems a in auto)
  ultimately show ?case by (simp add: a PushByteArray_def)
qed simp

lemma roll_loop_eq:
  "length a = k \<Longrightarrow> int (length a + length b) = entry + 1 \<Longrightarrow>
     roll_loop entry k (xs @ a @ b) = Inr (xs @ b @ a)"
proof (induction k arbitrary: xs a b)
  case (Suc k)
  then obtain x a' where a: "a = x # a'" by (cases a) auto
  have "nipN entry (xs @ x # (a' @ b)) = Inr (x, xs @ (a' @ b))" by (rule nip_at) (use Suc.prems a in auto)
  moreover have "roll_loop entry k (xs @ a' @ (b @ [x])) = Inr (xs @ (b @ [x]) @ a')"
    by (rule Suc.IH) (use Suc.prems a in auto)
  ultimately show ?case by (simp add: a PushByteArray_def)
qed simp

lemma copy_loop_short: "int (length s) \<le> entry \<Longrightarrow> 0 < k \<Longrightarrow>
   copy_loop entry k s = Inl (Fails ErrInvalidStackOperation)"
  by (cases k) (simp_all add: peek_short)

lemma roll_loop_short: "int (length s) \<le> entry \<Longrightarrow> 0 < k \<Longrightarrow>
   roll_loop entry k s = Inl (Fails ErrInvalidStackOperation)"
  by (cases k) (simp_all add: nip_short)

lemma split_top: "n \<le> length s \<Longrightarrow> \<exists>xs a. s = xs @ a \<and> length a = n"
  by (rule exI [of _ "take (length s - n) s"], rule exI [of _ "drop (length s - n) s"]) simp

lemma sint32: "- (2 ^ 31) \<le> k \<Longrightarrow> k < 2 ^ 31 \<Longrightarrow> sint (word_of_int k :: i32) = k"
  by (simp add: sint_sbintrunc' signed_take_bit_int_eq_self)

lemma count_values:
  assumes "0 < n" "3 * n < 2 ^ 31"
  shows "\<not> (of_nat n :: i32) <s 1" "sint (of_nat n :: i32) = int n" "sint (of_nat n - 1 :: i32) = int n - 1"
    "sint (2 * of_nat n - 1 :: i32) = 2 * int n - 1" "sint (3 * of_nat n - 1 :: i32) = 3 * int n - 1"
proof -
  have w: "(of_nat n :: i32) = word_of_int (int n)" "(of_nat n - 1 :: i32) = word_of_int (int n - 1)"
    "(2 * of_nat n - 1 :: i32) = word_of_int (2 * int n - 1)" "(3 * of_nat n - 1 :: i32) = word_of_int (3 * int n - 1)"
    by simp_all
  show n: "sint (of_nat n :: i32) = int n" using assms by (simp only: w) (rule sint32; simp)
  show "sint (of_nat n - 1 :: i32) = int n - 1" "sint (2 * of_nat n - 1 :: i32) = 2 * int n - 1"
    "sint (3 * of_nat n - 1 :: i32) = 3 * int n - 1"
    unfolding w(2-4) by (rule sint32; use assms in simp)+
  show "\<not> (of_nat n :: i32) <s 1" using assms by (simp add: word_sless_alt n)
qed

text \<open>C27: What each of the multi-element operations does, written with the top of the stack at the
  right, as the comments of the code draw it, for counts \<open>n\<close> whose triple is below 2^31: \<open>DupN\<close> repeats the top
  \<open>n\<close> elements, \<open>OverN\<close>
  repeats the \<open>n\<close> below the top \<open>n\<close>, \<open>SwapN\<close> exchanges the two groups of \<open>n\<close>, \<open>RotN\<close> brings the
  third group of \<open>n\<close> to the top and \<open>DropN\<close> removes the top \<open>n\<close>. A stack with too few elements
  is the error \<open>ErrInvalidStackOperation\<close> of every one of them.
\<close>

theorem stack_transformations:
  assumes "0 < n" "3 * n < 2 ^ 31" "length a = n" "length b = n" "length c = n"
  shows "DropN (of_nat n) (xs @ a) = Inr xs \<and>
    DupN (of_nat n) (xs @ a) = Inr (xs @ a @ a) \<and>
    OverN (of_nat n) (xs @ a @ b) = Inr (xs @ a @ b @ a) \<and>
    SwapN (of_nat n) (xs @ a @ b) = Inr (xs @ b @ a) \<and>
    RotN (of_nat n) (xs @ a @ b @ c) = Inr (xs @ b @ c @ a) \<and>
    (length s < n \<longrightarrow> DropN (of_nat n) s = Inl (Fails ErrInvalidStackOperation)
       \<and> DupN (of_nat n) s = Inl (Fails ErrInvalidStackOperation)) \<and>
    (length s < 2 * n \<longrightarrow> OverN (of_nat n) s = Inl (Fails ErrInvalidStackOperation)
       \<and> SwapN (of_nat n) s = Inl (Fails ErrInvalidStackOperation)) \<and>
    (length s < 3 * n \<longrightarrow> RotN (of_nat n) s = Inl (Fails ErrInvalidStackOperation))"
  using assms(1,3-5) copy_loop_eq [of a n "[]" "int n - 1" xs] copy_loop_eq [of a n b "2 * int n - 1" xs]
    roll_loop_eq [of a n b "2 * int n - 1" xs] roll_loop_eq [of a n "b @ c" "3 * int n - 1" xs]
  by (simp add: DropN_def DupN_def OverN_def SwapN_def RotN_def count_values [OF assms(1,2)] drop_loop_eq
      copy_loop_short roll_loop_short)

lemma stack_transformations_witness:
  "RotN 2 ([] @ [[1], [2]] @ [[3], [4]] @ [[5], [6]]) = Inr ([] @ [[3], [4]] @ [[5], [6]] @ [[1], [2]])"
  using stack_transformations [of 2 "[[1], [2]]" "[[3], [4]]" "[[5], [6]]" "[]"] by simp

text \<open>Above that bound the index wraps around: a rotation of far too many groups succeeds on two elements.\<close>

lemma roll_pairs: "roll_loop 1 (2 * k) [x, y] = Inr [x, y]"
proof (induction k)
  case (Suc k)
  have "nipN 1 [u, v] = Inr (u, [v])" for u v using nip_at [of "[v]" 1 "[]" u] by simp
  then show ?case using Suc by (simp add: PushByteArray_def)
qed simp

lemma rot_wraps: "RotN 1431655766 [x, y] = Inr [x, y]"
  using roll_pairs [of 715827883 x y] by (simp add: RotN_def word_sless_alt)

end
