(* ===== verification/KaspaScript.thy ===== *)
theory KaspaScript
  imports KaspaStack
begin

text \<open>
  Scripts of kaspa: the table of opcodes and the methods of a parsed opcode, \<^verbatim>\<open>opcode.go\<close>, and the
  parser with what is read off a parsed script, \<^verbatim>\<open>script.go\<close>, both under
  \<^verbatim>\<open>chain/kaspa/tx/txscript/\<close>. The table is written as the composite literal of the code: the rows
  that it lists, at the indices it gives them; an index that is not listed holds the zero value of
  the struct, with length 0 and no handler. The handlers are named by a datatype; what they do is
  in the theory of the engine. The data of a parsed opcode is \<open>None\<close> where the code leaves the
  slice nil.
\<close>

datatype (plugins only: code) op_handler =
  H_False | H_PushData | H_1Negate | H_Reserved | H_N | H_Nop | H_If | H_NotIf | H_Else | H_Endif
  | H_Verify | H_Return | H_CheckLockTimeVerify | H_CheckSequenceVerify | H_ToAltStack |
  H_FromAltStack | H_2Drop | H_2Dup | H_3Dup | H_2Over | H_2Rot | H_2Swap | H_IfDup | H_Depth |
  H_Drop | H_Dup | H_Nip | H_Over | H_Pick | H_Roll | H_Rot | H_Swap | H_Tuck | H_Disabled |
  H_Size | H_Equal | H_EqualVerify | H_1Add | H_1Sub | H_Negate | H_Abs | H_Not | H_0NotEqual |
  H_Add | H_Sub | H_BoolAnd | H_BoolOr | H_NumEqual | H_NumEqualVerify | H_NumNotEqual |
  H_LessThan | H_GreaterThan | H_LessThanOrEqual | H_GreaterThanOrEqual | H_Min | H_Max | H_Within
  | H_Sha256 | H_Blake2b | H_Invalid

record opcode =
  op_value :: byte
  op_name :: string
  op_length :: int
  op_func :: "op_handler option"

definition op_entry :: "nat \<Rightarrow> string \<Rightarrow> int \<Rightarrow> op_handler \<Rightarrow> opcode" where
  "op_entry v n l f = \<lparr>op_value = of_nat v, op_name = n, op_length = l, op_func = Some f\<rparr>"

definition push_rows :: "(nat \<times> opcode) list" where
  "push_rows = [(0x00, op_entry 0x00 ''OP_0'' 1 H_False)]
     @ map (\<lambda>n. (n, op_entry n (''OP_DATA_'' @ show_nat n) (int n + 1) H_PushData)) [1..<76]
     @ [(0x4c, op_entry 0x4c ''OP_PUSHDATA1'' (- 1) H_PushData),
       (0x4d, op_entry 0x4d ''OP_PUSHDATA2'' (- 2) H_PushData),
       (0x4e, op_entry 0x4e ''OP_PUSHDATA4'' (- 4) H_PushData),
       (0x4f, op_entry 0x4f ''OP_1NEGATE'' 1 H_1Negate),
       (0x50, op_entry 0x50 ''OP_RESERVED'' 1 H_Reserved)]
     @ map (\<lambda>n. (0x50 + n, op_entry (0x50 + n) (''OP_'' @ show_nat n) 1 H_N)) [1..<17]"

definition control_rows :: "(nat \<times> opcode) list" where
  "control_rows = [(0x61, op_entry 0x61 ''OP_NOP'' 1 H_Nop),
    (0x62, op_entry 0x62 ''OP_VER'' 1 H_Reserved),
    (0x63, op_entry 0x63 ''OP_IF'' 1 H_If),
    (0x64, op_entry 0x64 ''OP_NOTIF'' 1 H_NotIf),
    (0x65, op_entry 0x65 ''OP_VERIF'' 1 H_Reserved),
    (0x66, op_entry 0x66 ''OP_VERNOTIF'' 1 H_Reserved),
    (0x67, op_entry 0x67 ''OP_ELSE'' 1 H_Else),
    (0x68, op_entry 0x68 ''OP_ENDIF'' 1 H_Endif),
    (0x69, op_entry 0x69 ''OP_VERIFY'' 1 H_Verify),
    (0x6a, op_entry 0x6a ''OP_RETURN'' 1 H_Return),
    (0xb0, op_entry 0xb0 ''OP_CHECKLOCKTIMEVERIFY'' 1 H_CheckLockTimeVerify),
    (0xb1, op_entry 0xb1 ''OP_CHECKSEQUENCEVERIFY'' 1 H_CheckSequenceVerify)]"

definition stack_rows :: "(nat \<times> opcode) list" where
  "stack_rows = [(0x6b, op_entry 0x6b ''OP_TOALTSTACK'' 1 H_ToAltStack),
    (0x6c, op_entry 0x6c ''OP_FROMALTSTACK'' 1 H_FromAltStack),
    (0x6d, op_entry 0x6d ''OP_2DROP'' 1 H_2Drop),
    (0x6e, op_entry 0x6e ''OP_2DUP'' 1 H_2Dup),
    (0x6f, op_entry 0x6f ''OP_3DUP'' 1 H_3Dup),
    (0x70, op_entry 0x70 ''OP_2OVER'' 1 H_2Over),
    (0x71, op_entry 0x71 ''OP_2ROT'' 1 H_2Rot),
    (0x72, op_entry 0x72 ''OP_2SWAP'' 1 H_2Swap),
    (0x73, op_entry 0x73 ''OP_IFDUP'' 1 H_IfDup),
    (0x74, op_entry 0x74 ''OP_DEPTH'' 1 H_Depth),
    (0x75, op_entry 0x75 ''OP_DROP'' 1 H_Drop),
    (0x76, op_entry 0x76 ''OP_DUP'' 1 H_Dup),
    (0x77, op_entry 0x77 ''OP_NIP'' 1 H_Nip),
    (0x78, op_entry 0x78 ''OP_OVER'' 1 H_Over),
    (0x79, op_entry 0x79 ''OP_PICK'' 1 H_Pick),
    (0x7a, op_entry 0x7a ''OP_ROLL'' 1 H_Roll),
    (0x7b, op_entry 0x7b ''OP_ROT'' 1 H_Rot),
    (0x7c, op_entry 0x7c ''OP_SWAP'' 1 H_Swap),
    (0x7d, op_entry 0x7d ''OP_TUCK'' 1 H_Tuck)]"

definition splice_rows :: "(nat \<times> opcode) list" where
  "splice_rows = [(0x7e, op_entry 0x7e ''OP_CAT'' 1 H_Disabled),
    (0x7f, op_entry 0x7f ''OP_SUBSTR'' 1 H_Disabled),
    (0x80, op_entry 0x80 ''OP_LEFT'' 1 H_Disabled),
    (0x81, op_entry 0x81 ''OP_RIGHT'' 1 H_Disabled),
    (0x82, op_entry 0x82 ''OP_SIZE'' 1 H_Size),
    (0x83, op_entry 0x83 ''OP_INVERT'' 1 H_Disabled),
    (0x84, op_entry 0x84 ''OP_AND'' 1 H_Disabled),
    (0x85, op_entry 0x85 ''OP_OR'' 1 H_Disabled),
    (0x86, op_entry 0x86 ''OP_XOR'' 1 H_Disabled),
    (0x87, op_entry 0x87 ''OP_EQUAL'' 1 H_Equal),
    (0x88, op_entry 0x88 ''OP_EQUALVERIFY'' 1 H_EqualVerify),
    (0x89, op_entry 0x89 ''OP_RESERVED1'' 1 H_Reserved),
    (0x8a, op_entry 0x8a ''OP_RESERVED2'' 1 H_Reserved)]"

definition number_rows :: "(nat \<times> opcode) list" where
  "number_rows = [(0x8b, op_entry 0x8b ''OP_1ADD'' 1 H_1Add),
    (0x8c, op_entry 0x8c ''OP_1SUB'' 1 H_1Sub),
    (0x8d, op_entry 0x8d ''OP_2MUL'' 1 H_Disabled),
    (0x8e, op_entry 0x8e ''OP_2DIV'' 1 H_Disabled),
    (0x8f, op_entry 0x8f ''OP_NEGATE'' 1 H_Negate),
    (0x90, op_entry 0x90 ''OP_ABS'' 1 H_Abs),
    (0x91, op_entry 0x91 ''OP_NOT'' 1 H_Not),
    (0x92, op_entry 0x92 ''OP_0NOTEQUAL'' 1 H_0NotEqual),
    (0x93, op_entry 0x93 ''OP_ADD'' 1 H_Add),
    (0x94, op_entry 0x94 ''OP_SUB'' 1 H_Sub),
    (0x95, op_entry 0x95 ''OP_MUL'' 1 H_Disabled),
    (0x96, op_entry 0x96 ''OP_DIV'' 1 H_Disabled),
    (0x97, op_entry 0x97 ''OP_MOD'' 1 H_Disabled),
    (0x98, op_entry 0x98 ''OP_LSHIFT'' 1 H_Disabled),
    (0x99, op_entry 0x99 ''OP_RSHIFT'' 1 H_Disabled),
    (0x9a, op_entry 0x9a ''OP_BOOLAND'' 1 H_BoolAnd),
    (0x9b, op_entry 0x9b ''OP_BOOLOR'' 1 H_BoolOr),
    (0x9c, op_entry 0x9c ''OP_NUMEQUAL'' 1 H_NumEqual),
    (0x9d, op_entry 0x9d ''OP_NUMEQUALVERIFY'' 1 H_NumEqualVerify),
    (0x9e, op_entry 0x9e ''OP_NUMNOTEQUAL'' 1 H_NumNotEqual),
    (0x9f, op_entry 0x9f ''OP_LESSTHAN'' 1 H_LessThan),
    (0xa0, op_entry 0xa0 ''OP_GREATERTHAN'' 1 H_GreaterThan),
    (0xa1, op_entry 0xa1 ''OP_LESSTHANOREQUAL'' 1 H_LessThanOrEqual),
    (0xa2, op_entry 0xa2 ''OP_GREATERTHANOREQUAL'' 1 H_GreaterThanOrEqual),
    (0xa3, op_entry 0xa3 ''OP_MIN'' 1 H_Min),
    (0xa4, op_entry 0xa4 ''OP_MAX'' 1 H_Max),
    (0xa5, op_entry 0xa5 ''OP_WITHIN'' 1 H_Within)]"

definition crypto_rows :: "(nat \<times> opcode) list" where
  "crypto_rows = [(0xa8, op_entry 0xa8 ''OP_SHA256'' 1 H_Sha256),
    (0xaa, op_entry 0xaa ''OP_BLAKE2B'' 1 H_Blake2b)]"

text \<open>Rows 178 to 187 carry the values 188 to 197, as they do in the code.\<close>

definition undefined_rows :: "(nat \<times> opcode) list" where
  "undefined_rows = [(0xa6, op_entry 0xa6 ''OP_UNKNOWN166'' 1 H_Invalid),
    (0xa7, op_entry 0xa7 ''OP_UNKNOWN167'' 1 H_Invalid)]
     @ map (\<lambda>n. (n, op_entry (n + 10) (''OP_UNKNOWN'' @ show_nat n) 1 H_Invalid)) [178..<188]
     @ map (\<lambda>n. (n, op_entry n (''OP_UNKNOWN'' @ show_nat n) 1 H_Invalid)) [188..<250]
     @ [(0xfa, op_entry 0xfa ''OP_SMALLINTEGER'' 1 H_Invalid),
       (0xfb, op_entry 0xfb ''OP_PUBKEYS'' 1 H_Invalid),
       (0xfc, op_entry 0xfc ''OP_UNKNOWN252'' 1 H_Invalid),
       (0xfd, op_entry 0xfd ''OP_PUBKEYHASH'' 1 H_Invalid),
       (0xfe, op_entry 0xfe ''OP_PUBKEY'' 1 H_Invalid),
       (0xff, op_entry 0xff ''OP_INVALIDOPCODE'' 1 H_Invalid)]"

definition opcode_rows :: "(nat \<times> opcode) list" where
  "opcode_rows = push_rows @ control_rows @ stack_rows @ splice_rows @ number_rows @ crypto_rows
     @ undefined_rows"

definition zero_opcode :: opcode where
  "zero_opcode = \<lparr>op_value = 0, op_name = [], op_length = 0, op_func = None\<rparr>"

definition opcode_at :: "nat \<Rightarrow> opcode" where
  "opcode_at n = (case map_of opcode_rows n of Some op \<Rightarrow> op | None \<Rightarrow> zero_opcode)"

definition opcodeArray :: "byte \<Rightarrow> opcode" where
  "opcodeArray instr = opcode_at (unat instr)"

subsection \<open>A parsed opcode\<close>

record parsedOpcode =
  pop_opcode :: opcode
  pop_data :: "bytes option"

definition data_of :: "parsedOpcode \<Rightarrow> bytes" where
  "data_of pop = (case pop_data pop of None \<Rightarrow> [] | Some d \<Rightarrow> d)"

definition pop_value :: "parsedOpcode \<Rightarrow> byte" where
  "pop_value pop = op_value (pop_opcode pop)"

definition isDisabled :: "parsedOpcode \<Rightarrow> bool" where
  "isDisabled pop \<longleftrightarrow> pop_value pop \<in> {0x7e, 0x7f, 0x80, 0x81, 0x83, 0x84, 0x85, 0x86, 0x8d, 0x8e,
     0x95, 0x96, 0x97, 0x98, 0x99}"

definition alwaysIllegal :: "parsedOpcode \<Rightarrow> bool" where
  "alwaysIllegal pop \<longleftrightarrow> pop_value pop \<in> {0x65, 0x66}"

definition isConditional :: "parsedOpcode \<Rightarrow> bool" where
  "isConditional pop \<longleftrightarrow> pop_value pop \<in> {0x63, 0x64, 0x67, 0x68}"

text \<open>True when \<^verbatim>\<open>checkMinimalDataPush\<close> returns nil; its only error is \<open>ErrMinimalData\<close>.\<close>

definition checkMinimalDataPush :: "parsedOpcode \<Rightarrow> bool" where
  "checkMinimalDataPush pop = (let data = data_of pop; dataLen = length data; opcode = pop_value pop in
     if dataLen = 0 \<and> opcode \<noteq> 0x00 then False
     else if dataLen = 1 \<and> 1 \<le> data ! 0 \<and> data ! 0 \<le> 16 then opcode = 0x51 + data ! 0 - 1
     else if dataLen = 1 \<and> data ! 0 = 0x81 then opcode = 0x4f
     else if dataLen \<le> 75 then unat opcode = dataLen
     else if dataLen \<le> 255 then opcode = 0x4c
     else if dataLen \<le> 65535 then opcode = 0x4d
     else True)"

text \<open>
  \<^verbatim>\<open>bytes\<close> unparses an opcode. The length bytes are the low bytes of the length of the data,
  \<open>nbytes\<close> is the length they then announce, and a difference is \<open>ErrInternal\<close>.
\<close>

definition pop_bytes :: "parsedOpcode \<Rightarrow> script_failure + bytes" where
  "pop_bytes pop = (let l = length (data_of pop); len = op_length (pop_opcode pop) in
     if len = 1 then (if l \<noteq> 0 then Inl (Fails ErrInternal) else Inr [pop_value pop])
     else let (head, nbytes) =
         (if len = - 1 then ([pop_value pop] @ le_bytes 1 l, int (l mod 256) + 2)
          else if len = - 2 then ([pop_value pop] @ le_bytes 2 l, int (l mod 256 ^ 2) + 3)
          else if len = - 4 then ([pop_value pop] @ le_bytes 4 l, int (l mod 256 ^ 4) + 5)
          else ([pop_value pop], len));
         retbytes = head @ data_of pop
       in if int (length retbytes) \<noteq> nbytes then Inl (Fails ErrInternal) else Inr retbytes)"

subsection \<open>Printing\<close>

text \<open>\<^verbatim>\<open>fmt.Sprintf("%x", data)\<close>, and a number in hexadecimal with leading zeros up to a width.\<close>

definition hex_of :: "bytes \<Rightarrow> string" where
  "hex_of d = hex_encode (map unat d)"

fun hex_digits :: "nat \<Rightarrow> string" where
  "hex_digits n = (if n < 16 then [hex_char n] else hex_digits (n div 16) @ [hex_char (n mod 16)])"

declare hex_digits.simps [simp del]

definition hex_pad :: "nat \<Rightarrow> nat \<Rightarrow> string" where
  "hex_pad w n = replicate (w - length (hex_digits n)) CHR ''0'' @ hex_digits n"

definition opcodeOnelineRepls :: "string \<rightharpoonup> string" where
  "opcodeOnelineRepls = map_of ([(''OP_1NEGATE'', ''-1''), (''OP_0'', ''0'')]
     @ map (\<lambda>n. (''OP_'' @ show_nat n, show_nat n)) [1..<17])"

text \<open>\<open>%02x\<close> of the data writes two digits for each byte, as \<open>%x\<close> does, and fills up to two.\<close>

definition hex_02 :: "bytes \<Rightarrow> string" where
  "hex_02 d = (if d = [] then ''00'' else hex_of d)"

definition pop_print :: "bool \<Rightarrow> parsedOpcode \<Rightarrow> string" where
  "pop_print oneline pop = (let name = op_name (pop_opcode pop); len = op_length (pop_opcode pop);
       l = length (data_of pop) in
     if oneline then
       (let name = (case opcodeOnelineRepls name of Some r \<Rightarrow> r | None \<Rightarrow> name)
        in if len = 1 then name else hex_of (data_of pop))
     else if len = 1 then name
     else name @ (if len = - 1 then '' 0x'' @ hex_pad 2 l
         else if len = - 2 then '' 0x'' @ hex_pad 4 l
         else if len = - 4 then '' 0x'' @ hex_pad 8 l else [])
       @ '' 0x'' @ hex_02 (data_of pop))"

text \<open>
  The map \<^verbatim>\<open>OpcodeByName\<close> that \<^verbatim>\<open>init\<close> fills: the entries of the table in the order of their
  indices, the last one with a name winning, and the two aliases.
\<close>

definition OpcodeByName :: "string \<rightharpoonup> byte" where
  "OpcodeByName = (foldl (\<lambda>m n. m(op_name (opcode_at n) \<mapsto> op_value (opcode_at n))) Map.empty [0..<256])
     (''OP_FALSE'' \<mapsto> 0x00, ''OP_TRUE'' \<mapsto> 0x51)"

subsection \<open>The parser\<close>

text \<open>
  The loop of \<^verbatim>\<open>parseScriptTemplate\<close>: the rest of the script, and \<open>retScript\<close>. An entry of length 0
  is in none of the three cases of the code, so it is appended and the index stays where it is: the
  loop does not end, and the function has no result (\<open>None\<close>). With the error the code returns the
  opcodes parsed before it. On a machine of 64 bits \<open>int(l)\<close> is never negative.
\<close>

partial_function (option) parse_loop :: "(byte \<Rightarrow> opcode) \<Rightarrow> bytes \<Rightarrow> parsedOpcode list
    \<Rightarrow> (parsedOpcode list \<times> ErrorCode option) option" where
  "parse_loop opcodes script retScript = (case script of [] \<Rightarrow> Some (retScript, None)
   | instr # rest \<Rightarrow>
       (let op = opcodes instr; len = op_length op in
        if len = 1 then parse_loop opcodes rest (retScript @ [\<lparr>pop_opcode = op, pop_data = None\<rparr>])
        else if 1 < len then
          (if int (length script) < len then Some (retScript, Some ErrMalformedPush)
           else parse_loop opcodes (drop (nat len) script)
             (retScript @ [\<lparr>pop_opcode = op, pop_data = Some (take (nat len - 1) rest)\<rparr>]))
        else if len < 0 then
          (if int (length rest) < - len then Some (retScript, Some ErrMalformedPush)
           else if len \<noteq> - 1 \<and> len \<noteq> - 2 \<and> len \<noteq> - 4 then Some (retScript, Some ErrMalformedPush)
           else let l = le_value (take (nat (- len)) rest); after = drop (nat (- len)) rest in
             if length after < l then Some (retScript, Some ErrMalformedPush)
             else parse_loop opcodes (drop l after)
               (retScript @ [\<lparr>pop_opcode = op, pop_data = Some (take l after)\<rparr>]))
        else parse_loop opcodes script (retScript @ [\<lparr>pop_opcode = op, pop_data = None\<rparr>])))"

definition parseScriptTemplate :: "bytes \<Rightarrow> (byte \<Rightarrow> opcode) \<Rightarrow> (parsedOpcode list \<times> ErrorCode option) option" where
  "parseScriptTemplate script opcodes = parse_loop opcodes script []"

definition parseScript :: "bytes \<Rightarrow> (parsedOpcode list \<times> ErrorCode option) option" where
  "parseScript script = parseScriptTemplate script opcodeArray"

text \<open>
  \<^verbatim>\<open>DisasmString\<close>, with the greatest version that the consensus library knows as a parameter.
\<close>

fun join_space :: "string list \<Rightarrow> string" where
  "join_space [] = []"
| "join_space [w] = w"
| "join_space (w # v # ws) = w @ '' '' @ join_space (v # ws)"

definition DisasmString :: "nat \<Rightarrow> nat \<Rightarrow> bytes \<Rightarrow> (string \<times> ErrorCode option) option" where
  "DisasmString MaxScriptPublicKeyVersion version buf =
     (if version = MaxScriptPublicKeyVersion then
        (case parseScript buf of None \<Rightarrow> None
         | Some (opcodes, err) \<Rightarrow> Some (join_space (map (pop_print True) opcodes)
             @ (if err = None then [] else ''[error]''), err))
      else Some ([], Some ErrPubKeyFormat))"

subsection \<open>What is read off a parsed script\<close>

definition isSmallInt :: "opcode \<Rightarrow> bool" where
  "isSmallInt op \<longleftrightarrow> op_value op = 0x00 \<or> (0x51 \<le> op_value op \<and> op_value op \<le> 0x60)"

definition asSmallInt :: "opcode \<Rightarrow> int" where
  "asSmallInt op = (if op_value op = 0x00 then 0 else uint (op_value op - (0x51 - 1)))"

definition isScriptHash :: "parsedOpcode list \<Rightarrow> bool" where
  "isScriptHash pops \<longleftrightarrow> length pops = 3 \<and> pop_value (pops ! 0) = 0xaa
     \<and> pop_value (pops ! 1) = 0x20 \<and> pop_value (pops ! 2) = 0x87"

definition IsPayToScriptHash :: "bytes \<Rightarrow> bool option" where
  "IsPayToScriptHash script = (case parseScript script of None \<Rightarrow> None
     | Some (pops, err) \<Rightarrow> Some (err = None \<and> isScriptHash pops))"

definition isPushOnly :: "parsedOpcode list \<Rightarrow> bool" where
  "isPushOnly pops \<longleftrightarrow> list_all (\<lambda>pop. \<not> 0x60 < pop_value pop) pops"

definition canonicalPush :: "parsedOpcode \<Rightarrow> bool" where
  "canonicalPush pop = (let opcode = pop_value pop; data = data_of pop; dataLen = length data in
     if 0x60 < opcode then True
     else if opcode < 0x4c \<and> 0x00 < opcode \<and> (dataLen = 1 \<and> data ! 0 \<le> 16) then False
     else if opcode = 0x4c \<and> dataLen < 0x4c then False
     else if opcode = 0x4d \<and> dataLen \<le> 0xff then False
     else if opcode = 0x4e \<and> dataLen \<le> 0xffff then False
     else True)"

text \<open>The loop of \<^verbatim>\<open>getSigOpCount\<close>; \<open>before\<close> is the opcode in front, where there is one.\<close>

fun sig_ops :: "bool \<Rightarrow> parsedOpcode option \<Rightarrow> parsedOpcode list \<Rightarrow> int" where
  "sig_ops precise before [] = 0"
| "sig_ops precise before (pop # pops) =
     (if pop_value pop \<in> {0xac, 0xad, 0xab} then 1
      else if pop_value pop \<in> {0xae, 0xaf, 0xa9} then
        (case before of
           Some p \<Rightarrow> (if precise \<and> 0x51 \<le> pop_value p \<and> pop_value p \<le> 0x60
             then asSmallInt (pop_opcode p) else 20)
         | None \<Rightarrow> 20)
      else 0) + sig_ops precise (Some pop) pops"

definition getSigOpCount :: "parsedOpcode list \<Rightarrow> bool \<Rightarrow> int" where
  "getSigOpCount pops precise = sig_ops precise None pops"

definition GetSigOpCount :: "bytes \<Rightarrow> int option" where
  "GetSigOpCount script = (case parseScript script of None \<Rightarrow> None
     | Some (pops, _) \<Rightarrow> Some (getSigOpCount pops False))"

definition GetPreciseSigOpCount :: "bytes \<Rightarrow> bytes \<Rightarrow> bool \<Rightarrow> int option" where
  "GetPreciseSigOpCount scriptSig scriptPubKey isP2SH =
     (case parseScript scriptPubKey of None \<Rightarrow> None | Some (pops, _) \<Rightarrow>
        if \<not> (isP2SH \<and> isScriptHash pops) then Some (getSigOpCount pops True)
        else (case parseScript scriptSig of None \<Rightarrow> None | Some (sigPops, err) \<Rightarrow>
          if err \<noteq> None then Some 0
          else if \<not> isPushOnly sigPops \<or> sigPops = [] then Some 0
          else let shScript = data_of (last sigPops) in
            if shScript = [] then Some 0
            else (case parseScript shScript of None \<Rightarrow> None
                  | Some (shPops, _) \<Rightarrow> Some (getSigOpCount shPops True))))"

definition IsUnspendable :: "bytes \<Rightarrow> bool option" where
  "IsUnspendable scriptPubKey = (case parseScript scriptPubKey of None \<Rightarrow> None
     | Some (pops, err) \<Rightarrow> Some (if err \<noteq> None then True
         else pops \<noteq> [] \<and> pop_value (pops ! 0) = 0x6a))"

end
