(* ===== verification/KaspaParse.thy ===== *)
theory KaspaParse
  imports KaspaScript
begin

text \<open>
  What the parser of kaspa scripts does: the facts of the table of opcodes, the parser as a total
  function on the length of the script, on which scripts it does not return, and that parsing and
  unparsing are inverse to each other.
\<close>

subsection \<open>The table\<close>

definition row_ok :: "nat \<times> opcode \<Rightarrow> bool" where
  "row_ok = (\<lambda>(k, op). k < 256 \<and> op_func op \<noteq> None
     \<and> op_value op = of_nat (if 178 \<le> k \<and> k < 188 then k + 10 else k)
     \<and> op_length op = (if 1 \<le> k \<and> k \<le> 75 then int k + 1 else if k = 76 then - 1
         else if k = 77 then - 2 else if k = 78 then - 4 else 1)
     \<and> (op_func op = Some H_PushData \<longleftrightarrow> 1 \<le> k \<and> k \<le> 78)
     \<and> (op_func op = Some H_If \<longleftrightarrow> k = 0x63) \<and> (op_func op = Some H_NotIf \<longleftrightarrow> k = 0x64)
     \<and> (op_func op = Some H_Else \<longleftrightarrow> k = 0x67) \<and> (op_func op = Some H_Endif \<longleftrightarrow> k = 0x68))"

lemma push_rows_ok: "list_all row_ok push_rows"
  unfolding push_rows_def
  by (simp add: list_all_iff op_entry_def row_ok_def) (auto split: if_splits)

lemma control_rows_ok: "list_all row_ok control_rows"
  unfolding control_rows_def by (simp add: op_entry_def row_ok_def)

lemma stack_rows_ok: "list_all row_ok stack_rows"
  unfolding stack_rows_def by (simp add: op_entry_def row_ok_def)

lemma splice_rows_ok: "list_all row_ok splice_rows"
  unfolding splice_rows_def by (simp add: op_entry_def row_ok_def)

lemma number_rows_ok: "list_all row_ok number_rows"
  unfolding number_rows_def by (simp add: op_entry_def row_ok_def)

lemma crypto_rows_ok: "list_all row_ok crypto_rows"
  unfolding crypto_rows_def by (simp add: op_entry_def row_ok_def)

lemma undefined_rows_ok: "list_all row_ok undefined_rows"
  unfolding undefined_rows_def
  by (simp add: list_all_iff op_entry_def row_ok_def)

lemma rows_ok: "list_all row_ok opcode_rows"
  by (simp add: opcode_rows_def push_rows_ok control_rows_ok stack_rows_ok splice_rows_ok
    number_rows_ok crypto_rows_ok undefined_rows_ok)

definition keys :: "(nat \<times> opcode) list \<Rightarrow> nat set" where
  "keys rows = fst ` set rows"

lemmas keys_simps = keys_def set_append set_map image_Un image_image fst_conv list.set set_upt
  image_insert image_empty

lemma push_keys: "keys push_rows = {0..<97}"
proof -
  have "keys push_rows = {0} \<union> ({1..<76} \<union> ({76, 77, 78, 79, 80} \<union> (\<lambda>n. 80 + n) ` {1..<17}))"
    by (simp only: push_rows_def keys_simps image_ident)
  also have "(\<lambda>n::nat. 80 + n) ` {1..<17} = {81..<97}" by simp
  finally have "keys push_rows = {0} \<union> ({1..<76} \<union> ({76, 77, 78, 79, 80} \<union> {81..<97}))" .
  then show ?thesis
    by (simp only:) (rule set_eqI, simp only: Un_iff insert_iff empty_iff atLeastLessThan_iff, presburger)
qed

lemma control_keys: "keys control_rows = {97..<107} \<union> {176, 177}"
  unfolding keys_def by (simp add: control_rows_def atLeastLessThan_upt) blast

lemma stack_keys: "keys stack_rows = {107..<126}"
  unfolding keys_def by (simp add: stack_rows_def atLeastLessThan_upt)

lemma splice_keys: "keys splice_rows = {126..<139}"
  unfolding keys_def by (simp add: splice_rows_def atLeastLessThan_upt)

lemma number_keys: "keys number_rows = {139..<166}"
  unfolding keys_def by (simp add: number_rows_def atLeastLessThan_upt)

lemma crypto_keys: "keys crypto_rows = {168, 170}"
  unfolding keys_def by (simp add: crypto_rows_def)

lemma undefined_keys: "keys undefined_rows = {166, 167} \<union> {178..<256}"
proof -
  have "keys undefined_rows = {166, 167} \<union> {178..<188} \<union> {188..<250} \<union> {250, 251, 252, 253, 254, 255}"
    by (simp only: undefined_rows_def keys_simps image_ident) (simp only: Un_assoc Un_insert_left Un_empty_left)
  then show ?thesis
    by (simp only:) (rule set_eqI, simp only: Un_iff Diff_iff insert_iff empty_iff atLeastLessThan_iff, presburger)
qed

lemma row_keys: "keys opcode_rows = {0..<256} - {169, 171, 172, 173, 174, 175}"
proof -
  have "keys opcode_rows = {0..<97} \<union> ({97..<107} \<union> {176, 177}) \<union> {107..<126} \<union> {126..<139}
      \<union> {139..<166} \<union> {168, 170} \<union> ({166, 167} \<union> {178..<256})"
    unfolding push_keys [symmetric] control_keys [symmetric] stack_keys [symmetric]
      splice_keys [symmetric] number_keys [symmetric] crypto_keys [symmetric] undefined_keys [symmetric]
    by (simp only: opcode_rows_def keys_def set_append image_Un Un_assoc)
  also have "{0..<97} \<union> ({97..<107} \<union> {176, 177}) \<union> {107..<126} \<union> {126..<139}
      \<union> {139..<166} \<union> {168, 170} \<union> ({166, 167} \<union> {178..<256}) = {0..<168} \<union> {168, 170, 176, 177} \<union> {178..<256::nat}"
    by (rule set_eqI, simp only: Un_iff insert_iff empty_iff atLeastLessThan_iff) linarith
  also have "\<dots> = {0..<256} - {169, 171, 172, 173, 174, 175}"
    by (rule set_eqI, simp only: Un_iff Diff_iff insert_iff empty_iff atLeastLessThan_iff) presburger
  finally show ?thesis .
qed

lemma distinct_rows: "distinct (map fst opcode_rows)"
proof -
  have "length opcode_rows = 250"
    by (simp only: opcode_rows_def push_rows_def control_rows_def stack_rows_def splice_rows_def
      number_rows_def crypto_rows_def undefined_rows_def length_append length_map length_upt) simp
  moreover have "card (set (map fst opcode_rows)) = 250"
    using row_keys by (simp add: keys_def)
  ultimately show ?thesis by (intro card_distinct) simp
qed

lemma opcode_at_row: "(n, op) \<in> set opcode_rows \<Longrightarrow> opcode_at n = op"
  by (simp add: opcode_at_def map_of_is_SomeI [OF distinct_rows])

definition missing :: "nat set" where
  "missing = {169, 171, 172, 173, 174, 175}"

lemma opcode_row: "n < 256 \<Longrightarrow> n \<notin> missing \<Longrightarrow> row_ok (n, opcode_at n)"
proof -
  assume "n < 256" "n \<notin> missing"
  then have "n \<in> keys opcode_rows" by (simp add: row_keys missing_def)
  then obtain op where m: "(n, op) \<in> set opcode_rows" by (auto simp: keys_def)
  then have "row_ok (n, op)" using rows_ok by (auto simp: list_all_iff)
  with opcode_at_row [OF m] show ?thesis by simp
qed

lemma opcode_missing: "n \<in> missing \<Longrightarrow> opcode_at n = zero_opcode"
proof -
  assume "n \<in> missing"
  then have "n \<notin> fst ` set opcode_rows" using row_keys by (auto simp: keys_def missing_def)
  then have "map_of opcode_rows n = None" by (simp only: map_of_eq_None_iff not_False_eq_True)
  then show ?thesis by (simp add: opcode_at_def)
qed

lemma opcodeArray_row: "unat b \<notin> missing \<Longrightarrow> row_ok (unat b, opcodeArray b)"
  using opcode_row [OF byte_less] by (simp add: opcodeArray_def)

lemma opcodeArray_missing: "unat b \<in> missing \<Longrightarrow> opcodeArray b = zero_opcode"
  by (simp add: opcodeArray_def opcode_missing)

text \<open>The length of an entry by its index: 0 for the six that the table does not list.\<close>

lemma opcodeArray_length:
  "op_length (opcodeArray b) = (if unat b \<in> missing then 0
     else if 1 \<le> unat b \<and> unat b \<le> 75 then int (unat b) + 1 else if unat b = 76 then - 1
     else if unat b = 77 then - 2 else if unat b = 78 then - 4 else 1)"
proof (cases "unat b \<in> missing")
  case True
  then show ?thesis by (simp add: opcodeArray_missing zero_opcode_def)
next
  case False
  from opcodeArray_row [OF False] show ?thesis using False by (simp add: row_ok_def)
qed

lemma opcodeArray_value:
  "unat b \<notin> missing \<Longrightarrow> op_value (opcodeArray b) = (if 178 \<le> unat b \<and> unat b < 188 then b + 10 else b)"
  using opcodeArray_row [of b] by (simp add: row_ok_def)


subsection \<open>The parser as a total function\<close>

text \<open>
  One turn of the loop, over the script that is left: \<open>None\<close> for an entry of length 0, the error,
  or the opcode with the rest of the script, which is shorter.
\<close>

definition parse_one :: "(byte \<Rightarrow> opcode) \<Rightarrow> byte \<Rightarrow> bytes \<Rightarrow> (ErrorCode + (parsedOpcode \<times> bytes)) option" where
  "parse_one opcodes instr rest = (let op = opcodes instr; len = op_length op in
     if len = 1 then Some (Inr (\<lparr>pop_opcode = op, pop_data = None\<rparr>, rest))
     else if 1 < len then
       (if int (length rest) + 1 < len then Some (Inl ErrMalformedPush)
        else Some (Inr (\<lparr>pop_opcode = op, pop_data = Some (take (nat len - 1) rest)\<rparr>, drop (nat len - 1) rest)))
     else if len < 0 then
       (if int (length rest) < - len then Some (Inl ErrMalformedPush)
        else if len \<noteq> - 1 \<and> len \<noteq> - 2 \<and> len \<noteq> - 4 then Some (Inl ErrMalformedPush)
        else let l = le_value (take (nat (- len)) rest); after = drop (nat (- len)) rest in
          if length after < l then Some (Inl ErrMalformedPush)
          else Some (Inr (\<lparr>pop_opcode = op, pop_data = Some (take l after)\<rparr>, drop l after)))
     else None)"

lemma parse_one_shorter: "parse_one t b rest = Some (Inr (pop, s)) \<Longrightarrow> length s \<le> length rest"
  by (auto simp: parse_one_def Let_def split: if_splits)

function parse_total :: "(byte \<Rightarrow> opcode) \<Rightarrow> bytes \<Rightarrow> (parsedOpcode list \<times> ErrorCode option) option" where
  "parse_total t [] = Some ([], None)"
| "parse_total t (b # rest) = (case parse_one t b rest of None \<Rightarrow> None
     | Some (Inl e) \<Rightarrow> Some ([], Some e)
     | Some (Inr (pop, s)) \<Rightarrow> map_option (\<lambda>(pops, e). (pop # pops, e)) (parse_total t s))"
  by pat_completeness auto

termination
  by (relation "measure (length \<circ> snd)") (auto dest: parse_one_shorter)

lemma parse_loop_step:
  "parse_loop t (b # rest) ret = (case parse_one t b rest of
       None \<Rightarrow> parse_loop t (b # rest) (ret @ [\<lparr>pop_opcode = t b, pop_data = None\<rparr>])
     | Some (Inl e) \<Rightarrow> Some (ret, Some e)
     | Some (Inr (pop, s)) \<Rightarrow> parse_loop t s (ret @ [pop]))"
proof -
  have d: "1 < len \<Longrightarrow> drop (nat len) (b # rest) = drop (nat len - 1) rest" for len :: int
    by (cases "nat len") auto
  show ?thesis
    by (subst parse_loop.simps) (auto simp: parse_one_def Let_def d)
qed

lemma parse_loop_total:
  "parse_total t s = Some (ps, e) \<Longrightarrow> parse_loop t s ret = Some (ret @ ps, e)"
proof (induction t s arbitrary: ret ps rule: parse_total.induct)
  case (1 t)
  then show ?case by (subst parse_loop.simps) simp
next
  case (2 t b rest)
  then show ?case
    by (subst parse_loop_step) (force split: option.splits sum.splits prod.splits)
qed

lemma parse_loop_returns:
  assumes returns: "parse_loop t s ret = Some y"
  shows "parse_total t s \<noteq> None"
proof (rule parse_loop.raw_induct [where P = "\<lambda>t s ret y. parse_total t s \<noteq> None", OF _ returns], goal_cases)
  case (1 parse t s ret y)
  show ?case
  proof (cases s)
    case (Cons b rest)
    have d: "1 < len \<Longrightarrow> drop (nat len) (b # rest) = drop (nat len - 1) rest" for len :: int
      by (cases "nat len") auto
    show ?thesis
    proof (cases "parse_one t b rest")
      case None
      then have "parse t s (ret @ [\<lparr>pop_opcode = t b, pop_data = None\<rparr>]) = Some y"
        using 1(2) Cons by (auto simp: parse_one_def Let_def split: if_splits)
      then show ?thesis by (rule 1(1))
    next
      case (Some r)
      show ?thesis
      proof (cases r)
        case (Inl e)
        with Some Cons show ?thesis by simp
      next
        case (Inr p)
        obtain pop s' where p: "p = (pop, s')" by (cases p)
        have "parse t s' (ret @ [pop]) = Some y"
          using 1(2) Cons Some Inr p by (auto simp: parse_one_def Let_def d split: if_splits)
        then have "parse_total t s' \<noteq> None" by (rule 1(1))
        with Some Inr p Cons show ?thesis by auto
      qed
    qed
  qed simp
qed

lemma parse_loop_eq: "parse_loop t s ret = map_option (\<lambda>(ps, e). (ret @ ps, e)) (parse_total t s)"
proof (cases "parse_total t s")
  case None
  then have "parse_loop t s ret = None" using parse_loop_returns [of t s ret] by (cases "parse_loop t s ret") auto
  with None show ?thesis by simp
next
  case (Some y)
  then show ?thesis by (cases y) (simp add: parse_loop_total)
qed

lemma parseScript_total: "parseScript s = parse_total opcodeArray s"
  by (simp add: parseScript_def parseScriptTemplate_def parse_loop_eq option.map_id0)

subsection \<open>Scripts on which the parser does not return\<close>

lemma parse_total_stuck: "unat b \<in> missing \<Longrightarrow> parse_total opcodeArray (b # rest) = None"
  by (simp add: parse_one_def opcodeArray_missing zero_opcode_def Let_def)

lemma unat_small: "n < 256 \<Longrightarrow> unat (of_nat n :: byte) = n"
  by (simp add: unat_of_nat)

lemma parse_one_push:
  assumes "1 \<le> n" "n \<le> 75" "length d = n"
  shows "parse_one opcodeArray (of_nat n) (d @ s) = Some (Inr (\<lparr>pop_opcode = opcodeArray (of_nat n), pop_data = Some d\<rparr>, s))"
proof -
  have "op_length (opcodeArray (of_nat n)) = int n + 1"
    using assms by (simp add: opcodeArray_length unat_small missing_def)
  then show ?thesis using assms by (simp add: parse_one_def)
qed

text \<open>A script made of a data push of 1 to 75 bytes and one of the six signature opcodes never
  parses: the parser does not return. Every script that pays to a public key has this form,
  since the entries of the signature opcodes are commented out of the table.
\<close>

theorem parse_signature_script_diverges:
  assumes "1 \<le> length d" "length d \<le> 75" "unat b \<in> {169, 171, 172, 173, 174, 175}"
  shows "parseScript (of_nat (length d) # d @ b # rest) = None"
  using parse_one_push [OF assms(1,2) refl, of "b # rest"] parse_total_stuck [of b rest] assms(3)
  by (simp add: parseScript_total missing_def)

lemma parse_signature_script_diverges_witness:
  "parseScript (32 # replicate 32 7 @ [0xac]) = None"
  using parse_signature_script_diverges [of "replicate 32 7" "0xac" "[]"] by simp

subsection \<open>Parsing and unparsing\<close>

text \<open>
  An opcode that a script can stand for: its entry is the one of the table at its value, and its
  data has a length that the entry can announce.
\<close>

definition data_fits :: "int \<Rightarrow> bytes option \<Rightarrow> bool" where
  "data_fits len data \<longleftrightarrow> len \<noteq> 0 \<and> (case data of None \<Rightarrow> len = 1
     | Some d \<Rightarrow> len \<noteq> 1 \<and> (if 1 < len then int (length d) = len - 1 else length d < 256 ^ nat (- len)))"

definition wf_pop :: "parsedOpcode \<Rightarrow> bool" where
  "wf_pop pop \<longleftrightarrow> pop_opcode pop = opcodeArray (pop_value pop) \<and>
     data_fits (op_length (opcodeArray (pop_value pop))) (pop_data pop)"

fun unparse :: "parsedOpcode list \<Rightarrow> script_failure + bytes" where
  "unparse [] = Inr []"
| "unparse (pop # pops) = andThen (pop_bytes pop) (\<lambda>b. andThen (unparse pops) (\<lambda>s. Inr (b @ s)))"

lemma opcodeArray_lengths:
  "op_length (opcodeArray b) = len \<Longrightarrow> len \<noteq> 0 \<Longrightarrow> len \<noteq> 1 \<Longrightarrow> \<not> 1 < len \<Longrightarrow> len = - 1 \<or> len = - 2 \<or> len = - 4"
  by (auto simp: opcodeArray_length split: if_splits)

lemma take_le_bytes: "take n (le_bytes n v @ r) = le_bytes n v" "drop n (le_bytes n v @ r) = r"
  by simp_all

lemma wf_pop_bytes:
  assumes "wf_pop pop"
  obtains body where "pop_bytes pop = Inr (pop_value pop # body)"
    "\<And>s. parse_one opcodeArray (pop_value pop) (body @ s) = Some (Inr (pop, s))"
proof -
  define len where "len = op_length (pop_opcode pop)"
  have o: "opcodeArray (pop_value pop) = pop_opcode pop" and fits: "data_fits len (pop_data pop)"
    using assms by (simp_all add: wf_pop_def len_def)
  then have op: "opcodeArray (pop_value pop) = pop_opcode pop" "op_length (opcodeArray (pop_value pop)) = len"
    and len: "len \<noteq> 0" by (simp_all add: len_def data_fits_def)
  show thesis
  proof (cases "pop_data pop")
    case None
    then have "len = 1" using fits by (simp add: data_fits_def)
    with None op show thesis
      by (intro that [of "[]"]) (simp_all add: pop_bytes_def parse_one_def data_of_def Let_def)
  next
    case (Some d)
    then have d: "len \<noteq> 1" "if 1 < len then int (length d) = len - 1 else length d < 256 ^ nat (- len)"
      using fits by (simp_all add: data_fits_def)
    show thesis
    proof (cases "1 < len")
      case True
      with Some d op show thesis
        by (intro that [of d]) (simp_all add: pop_bytes_def parse_one_def data_of_def Let_def)
    next
      case False
      let ?n = "nat (- len)"
      from opcodeArray_lengths [OF op(2) len d(1) False]
      have l: "len = - 1 \<or> len = - 2 \<or> len = - 4" .
      have small: "length d < 256 ^ ?n" using d(2) False by simp
      define h where "h = le_bytes ?n (length d)"
      have h: "length h = ?n" "le_value h = length d" using small by (simp_all add: h_def le_value_le_bytes)
      have "pop_bytes pop = Inr (pop_value pop # h @ d)"
        using l Some small unfolding pop_bytes_def data_of_def Let_def len_def [symmetric] h_def
        by (elim disjE) simp_all
      moreover have "parse_one opcodeArray (pop_value pop) ((h @ d) @ s) = Some (Inr (pop, s))" for s
      proof -
        have "\<not> int (length ((h @ d) @ s)) < - len" "len < 0" using h(1) len d(1) False by simp_all
        moreover have "take ?n ((h @ d) @ s) = h" "drop ?n ((h @ d) @ s) = d @ s" using h(1) by simp_all
        ultimately show ?thesis
          unfolding parse_one_def Let_def op(2) using l h(2) d(1) False Some op(1)
          by (simp only: if_False if_True length_append not_less le_add1) auto
      qed
      ultimately show thesis by (rule that)
    qed
  qed
qed

text \<open>The rest of the script before the turn is determined by the opcode and the rest after it.\<close>

lemma parse_one_neg:
  assumes "len < 0" "\<not> int (length rest) < - len"
    "\<not> length (drop (nat (- len)) rest) < le_value (take (nat (- len)) rest)"
  defines "d \<equiv> take (le_value (take (nat (- len)) rest)) (drop (nat (- len)) rest)"
  shows "length d < 256 ^ nat (- len)"
    "rest = le_bytes (nat (- len)) (length d) @ d @ drop (le_value (take (nat (- len)) rest)) (drop (nat (- len)) rest)"
proof -
  let ?h = "take (nat (- len)) rest"
  have n: "length ?h = nat (- len)" using assms(2) by simp
  have d: "length d = le_value ?h" using assms(3) by (simp add: d_def)
  show "length d < 256 ^ nat (- len)" using le_value_less [of ?h] by (simp only: d n)
  have "le_bytes (nat (- len)) (length d) = ?h" using le_bytes_le_value [of ?h] by (simp only: d n)
  then show "rest = le_bytes (nat (- len)) (length d) @ d @ drop (le_value ?h) (drop (nat (- len)) rest)"
    by (simp only: d_def append_take_drop_id)
qed

lemma parse_one_cases:
  assumes "parse_one t b rest = Some (Inr (pop, s))"
  obtains (op) "op_length (t b) = 1" "pop = \<lparr>pop_opcode = t b, pop_data = None\<rparr>" "rest = s"
  | (fixed) d where "1 < op_length (t b)" "pop = \<lparr>pop_opcode = t b, pop_data = Some d\<rparr>"
      "int (length d) = op_length (t b) - 1" "rest = d @ s"
  | (counted) d where "op_length (t b) < 0" "pop = \<lparr>pop_opcode = t b, pop_data = Some d\<rparr>"
      "length d < 256 ^ nat (- op_length (t b))" "rest = le_bytes (nat (- op_length (t b))) (length d) @ d @ s"
proof -
  define len where "len = op_length (t b)"
  consider "len = 1" | "1 < len" | "len < 0" | "len = 0" by linarith
  then show thesis
  proof cases
    case 1
    with assms show thesis by (intro op) (simp_all add: parse_one_def Let_def len_def)
  next
    case 2
    with assms have "\<not> int (length rest) + 1 < len" "pop = \<lparr>pop_opcode = t b, pop_data = Some (take (nat len - 1) rest)\<rparr>"
      "s = drop (nat len - 1) rest" by (simp_all add: parse_one_def Let_def flip: len_def split: if_splits)
    with 2 show thesis by (intro fixed [of "take (nat len - 1) rest"]) (simp_all flip: len_def)
  next
    case 3
    let ?h = "take (nat (- len)) rest" and ?a = "drop (nat (- len)) rest"
    from 3 assms have c: "\<not> int (length rest) < - len" "\<not> length ?a < le_value ?h"
      and p: "pop = \<lparr>pop_opcode = t b, pop_data = Some (take (le_value ?h) ?a)\<rparr>" "s = drop (le_value ?h) ?a"
      by (simp_all only: parse_one_def Let_def flip: len_def) (simp_all split: if_splits)
    show thesis
      by (rule counted [OF _ p(1)]) (use 3 parse_one_neg [OF 3 c] p(2) in \<open>simp_all flip: len_def\<close>)
  next
    case 4
    with assms show thesis by (simp add: parse_one_def Let_def len_def)
  qed
qed

lemma parse_one_fits:
  "parse_one t b rest = Some (Inr (pop, s)) \<Longrightarrow> pop_opcode pop = t b \<and> data_fits (op_length (t b)) (pop_data pop)"
  by (erule parse_one_cases) (simp_all add: data_fits_def)

lemma parse_one_unique:
  "parse_one opcodeArray b rest = Some (Inr (pop, s)) \<Longrightarrow> parse_one opcodeArray b rest' = Some (Inr (pop, s)) \<Longrightarrow> rest = rest'"
  by (elim parse_one_cases) auto

lemma char_digit_inj: "a < 10 \<Longrightarrow> b < 10 \<Longrightarrow> (char_of (48 + a) :: char) = char_of (48 + b) \<Longrightarrow> a = (b :: nat)"
  by (drule arg_cong [of _ _ "of_char :: char \<Rightarrow> nat"]) simp

lemma show_nat_inj: "show_nat m = show_nat n \<Longrightarrow> m = n"
proof (induction m arbitrary: n rule: show_nat.induct)
  case (1 m)
  have ne: "show_nat k \<noteq> []" for k by (subst show_nat.simps) simp
  show ?case
  proof (cases "m < 10"; cases "n < 10")
    assume "m < 10" "n < 10"
    with 1(2) show ?thesis by (simp add: show_nat.simps [of m] show_nat.simps [of n] char_digit_inj)
  next
    assume "m < 10" "\<not> n < 10"
    with 1(2) ne [of "n div 10"] show ?thesis by (simp add: show_nat.simps [of m] show_nat.simps [of n])
  next
    assume "\<not> m < 10" "n < 10"
    with 1(2) ne [of "m div 10"] show ?thesis by (simp add: show_nat.simps [of m] show_nat.simps [of n])
  next
    assume mn: "\<not> m < 10" "\<not> n < 10"
    then have "show_nat (m div 10) = show_nat (n div 10)" "(char_of (48 + m mod 10) :: char) = char_of (48 + n mod 10)"
      using 1(2) by (simp_all add: show_nat.simps [of m] show_nat.simps [of n])
    then have "m div 10 = n div 10" "m mod 10 = n mod 10"
      using 1(1) mn(1) char_digit_inj by auto
    then show ?thesis by (metis div_mult_mod_eq)
  qed
qed

text \<open>Two entries of the table with the same value are told apart by their names.\<close>

lemma in_rows: "r \<in> set push_rows \<Longrightarrow> r \<in> set opcode_rows" "r \<in> set undefined_rows \<Longrightarrow> r \<in> set opcode_rows"
  by (simp_all add: opcode_rows_def)

lemma undefined_row: "178 \<le> n \<Longrightarrow> n < 188 \<Longrightarrow> opcode_at n = op_entry (n + 10) (''OP_UNKNOWN'' @ show_nat n) 1 H_Invalid"
  by (rule opcode_at_row, rule in_rows(2), unfold undefined_rows_def set_append set_map set_upt)
    (rule UnI2, rule UnI1, rule imageI, simp)

lemma undefined_row': "188 \<le> n \<Longrightarrow> n < 250 \<Longrightarrow> opcode_at n = op_entry n (''OP_UNKNOWN'' @ show_nat n) 1 H_Invalid"
  by (rule opcode_at_row, rule in_rows(2), unfold undefined_rows_def set_append set_map set_upt)
    (rule UnI2, rule UnI2, rule UnI1, rule imageI, simp)

lemma opcodeArray_canonical:
  assumes "unat b \<notin> missing" "opcodeArray b = opcodeArray (op_value (opcodeArray b))"
  shows "op_value (opcodeArray b) = b"
proof (cases "178 \<le> unat b \<and> unat b < 188")
  case True
  have v: "op_value (opcodeArray b) = b + 10" using True assms(1) by (simp add: opcodeArray_value)
  have u: "unat (b + 10) = unat b + 10" using True by (simp add: unat_word_ariths)
  have "op_name (opcodeArray b) = ''OP_UNKNOWN'' @ show_nat (unat b)"
    using True undefined_row [of "unat b"] by (simp add: opcodeArray_def op_entry_def)
  moreover have "op_name (opcodeArray (b + 10)) = ''OP_UNKNOWN'' @ show_nat (unat b + 10)"
    using True undefined_row' [of "unat b + 10"] by (simp add: opcodeArray_def u op_entry_def)
  ultimately have "show_nat (unat b) = show_nat (unat b + 10)" using assms(2) v by simp
  then show ?thesis by (drule_tac show_nat_inj) simp
next
  case False
  with assms(1) show ?thesis by (auto simp: opcodeArray_value)
qed

lemma parse_exact:
  assumes "list_all wf_pop pops"
  shows "parseScript s = Some (pops, None) \<longleftrightarrow> unparse pops = Inr s"
  using assms
proof (induction pops arbitrary: s)
  case Nil
  show ?case
    by (cases s) (auto simp: parseScript_total split: option.splits sum.splits prod.splits)
next
  case (Cons pop pops)
  then have wf: "wf_pop pop" "list_all wf_pop pops" by simp_all
  obtain body where body: "pop_bytes pop = Inr (pop_value pop # body)"
    "\<And>s. parse_one opcodeArray (pop_value pop) (body @ s) = Some (Inr (pop, s))"
    using wf_pop_bytes [OF wf(1)] by blast
  have IH: "parse_total opcodeArray s = Some (pops, None) \<longleftrightarrow> unparse pops = Inr s" for s
    using Cons.IH [OF wf(2)] by (simp add: parseScript_total)
  show ?case
  proof
    assume "unparse (pop # pops) = Inr s"
    then obtain s' where s': "unparse pops = Inr s'" "s = pop_value pop # body @ s'"
      by (auto simp: body(1) andThen_Inr)
    then show "parseScript s = Some (pop # pops, None)"
      using IH [of s'] body(2) [of s'] by (simp add: parseScript_total)
  next
    assume "parseScript s = Some (pop # pops, None)"
    then obtain b rest s' where s: "s = b # rest" and one: "parse_one opcodeArray b rest = Some (Inr (pop, s'))"
      and tot: "parse_total opcodeArray s' = Some (pops, None)"
      by (cases s) (auto simp: parseScript_total split: option.splits sum.splits prod.splits)
    have op: "pop_opcode pop = opcodeArray b" "op_length (opcodeArray b) \<noteq> 0"
      using parse_one_fits [OF one] by (simp_all add: data_fits_def)
    then have "unat b \<notin> missing" by (auto simp: opcodeArray_length)
    moreover have "opcodeArray b = opcodeArray (op_value (opcodeArray b))"
      using wf(1) op(1) by (simp add: wf_pop_def pop_value_def)
    ultimately have b: "b = pop_value pop"
      using opcodeArray_canonical [of b] op(1) by (simp add: pop_value_def)
    have "rest = body @ s'" by (rule parse_one_unique [OF one]) (simp add: b body(2))
    then show "unparse (pop # pops) = Inr s" using IH [of s'] tot by (simp add: s b body(1))
  qed
qed

text \<open>C26: Parsing and unparsing are inverse to each other on opcodes that the table lists under
  their own value: a script parses to them, without an error, exactly when it is the
  concatenation of what \<open>bytes\<close> returns for each of them.
\<close>

theorem parse_unparse:
  assumes "list_all wf_pop pops"
  shows "parseScript s = Some (pops, None) \<longleftrightarrow> unparse pops = Inr s"
  by (rule parse_exact [OF assms])

lemma data_row: "1 \<le> n \<Longrightarrow> n \<le> 75 \<Longrightarrow> opcode_at n = op_entry n (''OP_DATA_'' @ show_nat n) (int n + 1) H_PushData"
  by (rule opcode_at_row, rule in_rows(1), unfold push_rows_def set_append set_map set_upt)
    (rule UnI2, rule UnI1, rule imageI, simp)

lemma parse_unparse_witness:
  "parseScript [2, 7, 8] = Some ([\<lparr>pop_opcode = opcodeArray 2, pop_data = Some [7, 8]\<rparr>], None)
     \<longleftrightarrow> unparse [\<lparr>pop_opcode = opcodeArray 2, pop_data = Some [7, 8]\<rparr>] = Inr [2, 7, 8]"
  by (rule parse_unparse)
    (simp add: wf_pop_def data_fits_def pop_value_def opcodeArray_length opcodeArray_value missing_def)

end
