(* ===== verification/KaspaEngine.thy ===== *)
theory KaspaEngine
  imports KaspaParse
begin

text \<open>
  The engine that runs kaspa scripts: the handlers of the opcodes, \<^verbatim>\<open>opcode.go\<close>, and the machine
  around them, \<^verbatim>\<open>engine.go\<close>, both under \<^verbatim>\<open>chain/kaspa/tx/txscript/\<close>. The record \<open>engine\<close> holds the
  fields of \<^verbatim>\<open>Engine\<close> that the code reads: of the transaction its lock time and the sequence numbers
  of its inputs. The constants and hash functions of other packages are the fields of \<open>script_lib\<close>.
  A handler returns the engine it leaves, or its error.
\<close>

record script_lib =
  MaxScriptPublicKeyVersion :: nat
  LockTimeThreshold :: u64
  MaxTxInSequenceNum :: u64
  SequenceLockTimeDisabled :: u64
  SequenceLockTimeMask :: u64
  lib_sha256 :: "bytes \<Rightarrow> bytes"
  lib_blake2b :: "bytes \<Rightarrow> bytes"

datatype cond_value = OpCondFalse | OpCondTrue | OpCondSkip

record engine =
  scriptVersion :: nat
  scripts :: "parsedOpcode list list"
  scriptIdx :: nat
  scriptOff :: nat
  dstack :: stack
  astack :: stack
  txLockTime :: u64
  txSequences :: "u64 list"
  txIdx :: nat
  condStack :: "cond_value list"
  numOps :: int
  flags :: u32
  isP2SH :: bool
  savedFirstStack :: stack

type_synonym step_result = "script_failure + engine"

definition hasFlag :: "engine \<Rightarrow> u32 \<Rightarrow> bool" where
  "hasFlag vm flag \<longleftrightarrow> flags vm AND flag = flag"

definition isBranchExecuting :: "engine \<Rightarrow> bool" where
  "isBranchExecuting vm \<longleftrightarrow> condStack vm = [] \<or> last (condStack vm) = OpCondTrue"

definition on_dstack :: "(stack \<Rightarrow> script_failure + stack) \<Rightarrow> engine \<Rightarrow> step_result" where
  "on_dstack f vm = andThen (f (dstack vm)) (\<lambda>s. Inr (vm\<lparr>dstack := s\<rparr>))"

subsection \<open>Constants and control\<close>

definition opcodeDisabled :: "engine \<Rightarrow> step_result" where
  "opcodeDisabled vm = Inl (Fails ErrDisabledOpcode)"

definition opcodeReserved :: "engine \<Rightarrow> step_result" where
  "opcodeReserved vm = Inl (Fails ErrReservedOpcode)"

definition opcodeInvalid :: "engine \<Rightarrow> step_result" where
  "opcodeInvalid vm = Inl (Fails ErrReservedOpcode)"

definition opcodeFalse :: "engine \<Rightarrow> step_result" where
  "opcodeFalse vm = Inr (vm\<lparr>dstack := PushByteArray [] (dstack vm)\<rparr>)"

definition opcodePushData :: "parsedOpcode \<Rightarrow> engine \<Rightarrow> step_result" where
  "opcodePushData op vm = Inr (vm\<lparr>dstack := PushByteArray (data_of op) (dstack vm)\<rparr>)"

definition opcode1Negate :: "engine \<Rightarrow> step_result" where
  "opcode1Negate = on_dstack (PushInt (- 1))"

definition opcodeN :: "parsedOpcode \<Rightarrow> engine \<Rightarrow> step_result" where
  "opcodeN op = on_dstack (PushInt (ucast (pop_value op - (0x51 - 1))))"

definition opcodeNop :: "engine \<Rightarrow> step_result" where
  "opcodeNop vm = Inr vm"

definition popIfBool :: "engine \<Rightarrow> script_failure + (bool \<times> engine)" where
  "popIfBool vm = andThen (PopByteArray (dstack vm)) (\<lambda>(so, s).
     if length so = 1 \<and> so ! 0 = 0x01 then Inr (True, vm\<lparr>dstack := s\<rparr>)
     else if length so = 0 then Inr (False, vm\<lparr>dstack := s\<rparr>)
     else Inl (Fails ErrMinimalIf))"

definition opcodeIf :: "engine \<Rightarrow> step_result" where
  "opcodeIf vm = (if isBranchExecuting vm
     then andThen (popIfBool vm) (\<lambda>(ok, vm). Inr (vm\<lparr>condStack := condStack vm @ [if ok then OpCondTrue else OpCondFalse]\<rparr>))
     else Inr (vm\<lparr>condStack := condStack vm @ [OpCondSkip]\<rparr>))"

definition opcodeNotIf :: "engine \<Rightarrow> step_result" where
  "opcodeNotIf vm = (if isBranchExecuting vm
     then andThen (popIfBool vm) (\<lambda>(ok, vm). Inr (vm\<lparr>condStack := condStack vm @ [if \<not> ok then OpCondTrue else OpCondFalse]\<rparr>))
     else Inr (vm\<lparr>condStack := condStack vm @ [OpCondSkip]\<rparr>))"

definition opcodeElse :: "engine \<Rightarrow> step_result" where
  "opcodeElse vm = (if condStack vm = [] then Inl (Fails ErrUnbalancedConditional)
     else Inr (vm\<lparr>condStack := butlast (condStack vm) @ [case last (condStack vm) of
        OpCondTrue \<Rightarrow> OpCondFalse | OpCondFalse \<Rightarrow> OpCondTrue | OpCondSkip \<Rightarrow> OpCondSkip]\<rparr>))"

definition opcodeEndif :: "engine \<Rightarrow> step_result" where
  "opcodeEndif vm = (if condStack vm = [] then Inl (Fails ErrUnbalancedConditional)
     else Inr (vm\<lparr>condStack := butlast (condStack vm)\<rparr>))"

definition abstractVerify :: "ErrorCode \<Rightarrow> engine \<Rightarrow> step_result" where
  "abstractVerify c vm = andThen (PopBool (dstack vm)) (\<lambda>(verified, s).
     if \<not> verified then Inl (Fails c) else Inr (vm\<lparr>dstack := s\<rparr>))"

definition opcodeVerify :: "engine \<Rightarrow> step_result" where
  "opcodeVerify = abstractVerify ErrVerify"

definition opcodeReturn :: "engine \<Rightarrow> step_result" where
  "opcodeReturn vm = Inl (Fails ErrEarlyReturn)"

subsection \<open>Lock times\<close>

definition verifyLockTime :: "u64 \<Rightarrow> u64 \<Rightarrow> script_failure + unit" where
  "verifyLockTime txLock lockTime = (if txLock < lockTime then Inl (Fails ErrUnsatisfiedLockTime) else Inr ())"

definition verifyLockTimeThreshold :: "u64 \<Rightarrow> u64 \<Rightarrow> u64 \<Rightarrow> script_failure + unit" where
  "verifyLockTimeThreshold txLock threshold lockTime =
     (if \<not> ((txLock < threshold \<and> lockTime < threshold) \<or> (threshold \<le> txLock \<and> threshold \<le> lockTime))
      then Inl (Fails ErrUnsatisfiedLockTime) else Inr ())"

definition verifyLockTimeWithThreshold :: "u64 \<Rightarrow> u64 \<Rightarrow> u64 \<Rightarrow> script_failure + unit" where
  "verifyLockTimeWithThreshold txLock threshold lockTime =
     andThen (verifyLockTimeThreshold txLock threshold lockTime) (\<lambda>_. verifyLockTime txLock lockTime)"

text \<open>\<^verbatim>\<open>binary.LittleEndian.Uint64\<close> of at most eight bytes, filled up with zeros at the end.\<close>

definition padded_uint64 :: "bytes \<Rightarrow> u64" where
  "padded_uint64 b = of_nat (le_value (b @ replicate (8 - length b) 0))"

definition input_sequence :: "engine \<Rightarrow> script_failure + u64" where
  "input_sequence vm = (if txIdx vm < length (txSequences vm) then Inr (txSequences vm ! txIdx vm) else Inl Panics)"

definition opcodeCheckLockTimeVerify :: "script_lib \<Rightarrow> engine \<Rightarrow> step_result" where
  "opcodeCheckLockTimeVerify L vm = andThen (PopByteArray (dstack vm)) (\<lambda>(lockTimeBytes, s).
     if 8 < length lockTimeBytes then Inl (Fails ErrNumberTooBig)
     else andThen (verifyLockTimeWithThreshold (txLockTime vm) (LockTimeThreshold L) (padded_uint64 lockTimeBytes)) (\<lambda>_.
       andThen (input_sequence vm) (\<lambda>sequence.
         if sequence = MaxTxInSequenceNum L then Inl (Fails ErrUnsatisfiedLockTime)
         else Inr (vm\<lparr>dstack := s\<rparr>))))"

definition opcodeCheckSequenceVerify :: "script_lib \<Rightarrow> engine \<Rightarrow> step_result" where
  "opcodeCheckSequenceVerify L vm = andThen (PopByteArray (dstack vm)) (\<lambda>(sequenceBytes, s).
     if 8 < length sequenceBytes then Inl (Fails ErrNumberTooBig)
     else let stackSequence = padded_uint64 sequenceBytes in
       if stackSequence AND SequenceLockTimeDisabled L \<noteq> 0 then Inr (vm\<lparr>dstack := s\<rparr>)
       else andThen (input_sequence vm) (\<lambda>txSequence.
         if txSequence AND SequenceLockTimeDisabled L \<noteq> 0 then Inl (Fails ErrUnsatisfiedLockTime)
         else andThen (verifyLockTime (txSequence AND SequenceLockTimeMask L) (stackSequence AND SequenceLockTimeMask L))
           (\<lambda>_. Inr (vm\<lparr>dstack := s\<rparr>))))"

subsection \<open>The stacks\<close>

definition opcodeToAltStack :: "engine \<Rightarrow> step_result" where
  "opcodeToAltStack vm = andThen (PopByteArray (dstack vm)) (\<lambda>(so, s).
     Inr (vm\<lparr>dstack := s, astack := PushByteArray so (astack vm)\<rparr>))"

definition opcodeFromAltStack :: "engine \<Rightarrow> step_result" where
  "opcodeFromAltStack vm = andThen (PopByteArray (astack vm)) (\<lambda>(so, s).
     Inr (vm\<lparr>astack := s, dstack := PushByteArray so (dstack vm)\<rparr>))"

definition opcode2Drop :: "engine \<Rightarrow> step_result" where "opcode2Drop = on_dstack (DropN 2)"
definition opcode2Dup :: "engine \<Rightarrow> step_result" where "opcode2Dup = on_dstack (DupN 2)"
definition opcode3Dup :: "engine \<Rightarrow> step_result" where "opcode3Dup = on_dstack (DupN 3)"
definition opcode2Over :: "engine \<Rightarrow> step_result" where "opcode2Over = on_dstack (OverN 2)"
definition opcode2Rot :: "engine \<Rightarrow> step_result" where "opcode2Rot = on_dstack (RotN 2)"
definition opcode2Swap :: "engine \<Rightarrow> step_result" where "opcode2Swap = on_dstack (SwapN 2)"
definition opcodeDrop :: "engine \<Rightarrow> step_result" where "opcodeDrop = on_dstack (DropN 1)"
definition opcodeDup :: "engine \<Rightarrow> step_result" where "opcodeDup = on_dstack (DupN 1)"
definition opcodeNip :: "engine \<Rightarrow> step_result" where "opcodeNip = on_dstack (NipN 1)"
definition opcodeOver :: "engine \<Rightarrow> step_result" where "opcodeOver = on_dstack (OverN 1)"
definition opcodeRot :: "engine \<Rightarrow> step_result" where "opcodeRot = on_dstack (RotN 1)"
definition opcodeSwap :: "engine \<Rightarrow> step_result" where "opcodeSwap = on_dstack (SwapN 1)"
definition opcodeTuck :: "engine \<Rightarrow> step_result" where "opcodeTuck = on_dstack Tuck"

definition opcodeIfDup :: "engine \<Rightarrow> step_result" where
  "opcodeIfDup = on_dstack (\<lambda>s. andThen (PeekByteArray 0 s) (\<lambda>so. Inr (if asBool so then PushByteArray so s else s)))"

definition opcodeDepth :: "engine \<Rightarrow> step_result" where
  "opcodeDepth = on_dstack (\<lambda>s. PushInt (word_of_int (Depth s)) s)"

definition opcodePick :: "engine \<Rightarrow> step_result" where
  "opcodePick = on_dstack (\<lambda>s. andThen (PopInt s) (\<lambda>(val, s). PickN (Int32 val) s))"

definition opcodeRoll :: "engine \<Rightarrow> step_result" where
  "opcodeRoll = on_dstack (\<lambda>s. andThen (PopInt s) (\<lambda>(val, s). RollN (Int32 val) s))"

definition opcodeSize :: "engine \<Rightarrow> step_result" where
  "opcodeSize = on_dstack (\<lambda>s. andThen (PeekByteArray 0 s) (\<lambda>so. PushInt (of_nat (length so)) s))"

definition opcodeEqual :: "engine \<Rightarrow> step_result" where
  "opcodeEqual = on_dstack (\<lambda>s. andThen (PopByteArray s) (\<lambda>(a, s). andThen (PopByteArray s) (\<lambda>(b, s).
     Inr (PushBool (a = b) s))))"

definition opcodeEqualVerify :: "engine \<Rightarrow> step_result" where
  "opcodeEqualVerify vm = andThen (opcodeEqual vm) (abstractVerify ErrEqualVerify)"

subsection \<open>Numbers\<close>

text \<open>
  A unary operation pops a number and pushes a result; a binary one pops the top element \<open>v0\<close> and
  then the one below it, \<open>v1\<close>. The arithmetic is the one of \<open>int64\<close>.
\<close>

definition unary_op :: "(i64 \<Rightarrow> i64) \<Rightarrow> engine \<Rightarrow> step_result" where
  "unary_op f = on_dstack (\<lambda>s. andThen (PopInt s) (\<lambda>(m, s). PushInt (f m) s))"

definition binary_op :: "(i64 \<Rightarrow> i64 \<Rightarrow> i64) \<Rightarrow> engine \<Rightarrow> step_result" where
  "binary_op f = on_dstack (\<lambda>s. andThen (PopInt s) (\<lambda>(v0, s). andThen (PopInt s) (\<lambda>(v1, s).
     PushInt (f v0 v1) s)))"

definition opcode1Add :: "engine \<Rightarrow> step_result" where "opcode1Add = unary_op (\<lambda>m. m + 1)"
definition opcode1Sub :: "engine \<Rightarrow> step_result" where "opcode1Sub = unary_op (\<lambda>m. m - 1)"
definition opcodeNegate :: "engine \<Rightarrow> step_result" where "opcodeNegate = unary_op (\<lambda>m. - m)"
definition opcodeAbs :: "engine \<Rightarrow> step_result" where "opcodeAbs = unary_op (\<lambda>m. if m <s 0 then - m else m)"
definition opcodeNot :: "engine \<Rightarrow> step_result" where "opcodeNot = unary_op (\<lambda>m. if m = 0 then 1 else 0)"
definition opcode0NotEqual :: "engine \<Rightarrow> step_result" where "opcode0NotEqual = unary_op (\<lambda>m. if m \<noteq> 0 then 1 else m)"
definition opcodeAdd :: "engine \<Rightarrow> step_result" where "opcodeAdd = binary_op (\<lambda>v0 v1. v0 + v1)"
definition opcodeSub :: "engine \<Rightarrow> step_result" where "opcodeSub = binary_op (\<lambda>v0 v1. v1 - v0)"
definition opcodeMin :: "engine \<Rightarrow> step_result" where "opcodeMin = binary_op (\<lambda>v0 v1. if v1 <s v0 then v1 else v0)"
definition opcodeMax :: "engine \<Rightarrow> step_result" where "opcodeMax = binary_op (\<lambda>v0 v1. if v0 <s v1 then v1 else v0)"
definition opcodeBoolAnd :: "engine \<Rightarrow> step_result" where
  "opcodeBoolAnd = binary_op (\<lambda>v0 v1. if v0 \<noteq> 0 \<and> v1 \<noteq> 0 then 1 else 0)"
definition opcodeBoolOr :: "engine \<Rightarrow> step_result" where
  "opcodeBoolOr = binary_op (\<lambda>v0 v1. if v0 \<noteq> 0 \<or> v1 \<noteq> 0 then 1 else 0)"
definition opcodeNumEqual :: "engine \<Rightarrow> step_result" where
  "opcodeNumEqual = binary_op (\<lambda>v0 v1. if v0 = v1 then 1 else 0)"
definition opcodeNumNotEqual :: "engine \<Rightarrow> step_result" where
  "opcodeNumNotEqual = binary_op (\<lambda>v0 v1. if v0 \<noteq> v1 then 1 else 0)"
definition opcodeLessThan :: "engine \<Rightarrow> step_result" where
  "opcodeLessThan = binary_op (\<lambda>v0 v1. if v1 <s v0 then 1 else 0)"
definition opcodeGreaterThan :: "engine \<Rightarrow> step_result" where
  "opcodeGreaterThan = binary_op (\<lambda>v0 v1. if v0 <s v1 then 1 else 0)"
definition opcodeLessThanOrEqual :: "engine \<Rightarrow> step_result" where
  "opcodeLessThanOrEqual = binary_op (\<lambda>v0 v1. if v1 \<le>s v0 then 1 else 0)"
definition opcodeGreaterThanOrEqual :: "engine \<Rightarrow> step_result" where
  "opcodeGreaterThanOrEqual = binary_op (\<lambda>v0 v1. if v0 \<le>s v1 then 1 else 0)"

definition opcodeNumEqualVerify :: "engine \<Rightarrow> step_result" where
  "opcodeNumEqualVerify vm = andThen (opcodeNumEqual vm) (abstractVerify ErrNumEqualVerify)"

definition opcodeWithin :: "engine \<Rightarrow> step_result" where
  "opcodeWithin = on_dstack (\<lambda>s. andThen (PopInt s) (\<lambda>(maxVal, s). andThen (PopInt s) (\<lambda>(minVal, s).
     andThen (PopInt s) (\<lambda>(x, s). PushInt (if minVal \<le>s x \<and> x <s maxVal then 1 else 0) s))))"

definition opcodeSha256 :: "script_lib \<Rightarrow> engine \<Rightarrow> step_result" where
  "opcodeSha256 L = on_dstack (\<lambda>s. andThen (PopByteArray s) (\<lambda>(buf, s). Inr (PushByteArray (lib_sha256 L buf) s)))"

definition opcodeBlake2b :: "script_lib \<Rightarrow> engine \<Rightarrow> step_result" where
  "opcodeBlake2b L = on_dstack (\<lambda>s. andThen (PopByteArray s) (\<lambda>(buf, s). Inr (PushByteArray (lib_blake2b L buf) s)))"

subsection \<open>One opcode\<close>

text \<open>The call \<^verbatim>\<open>pop.opcode.opfunc(pop, vm)\<close>; a nil function panics.\<close>

fun run_handler :: "script_lib \<Rightarrow> op_handler \<Rightarrow> parsedOpcode \<Rightarrow> engine \<Rightarrow> step_result" where
  "run_handler L H_False pop vm = opcodeFalse vm"
| "run_handler L H_PushData pop vm = opcodePushData pop vm"
| "run_handler L H_1Negate pop vm = opcode1Negate vm"
| "run_handler L H_Reserved pop vm = opcodeReserved vm"
| "run_handler L H_N pop vm = opcodeN pop vm"
| "run_handler L H_Nop pop vm = opcodeNop vm"
| "run_handler L H_If pop vm = opcodeIf vm"
| "run_handler L H_NotIf pop vm = opcodeNotIf vm"
| "run_handler L H_Else pop vm = opcodeElse vm"
| "run_handler L H_Endif pop vm = opcodeEndif vm"
| "run_handler L H_Verify pop vm = opcodeVerify vm"
| "run_handler L H_Return pop vm = opcodeReturn vm"
| "run_handler L H_CheckLockTimeVerify pop vm = opcodeCheckLockTimeVerify L vm"
| "run_handler L H_CheckSequenceVerify pop vm = opcodeCheckSequenceVerify L vm"
| "run_handler L H_ToAltStack pop vm = opcodeToAltStack vm"
| "run_handler L H_FromAltStack pop vm = opcodeFromAltStack vm"
| "run_handler L H_2Drop pop vm = opcode2Drop vm"
| "run_handler L H_2Dup pop vm = opcode2Dup vm"
| "run_handler L H_3Dup pop vm = opcode3Dup vm"
| "run_handler L H_2Over pop vm = opcode2Over vm"
| "run_handler L H_2Rot pop vm = opcode2Rot vm"
| "run_handler L H_2Swap pop vm = opcode2Swap vm"
| "run_handler L H_IfDup pop vm = opcodeIfDup vm"
| "run_handler L H_Depth pop vm = opcodeDepth vm"
| "run_handler L H_Drop pop vm = opcodeDrop vm"
| "run_handler L H_Dup pop vm = opcodeDup vm"
| "run_handler L H_Nip pop vm = opcodeNip vm"
| "run_handler L H_Over pop vm = opcodeOver vm"
| "run_handler L H_Pick pop vm = opcodePick vm"
| "run_handler L H_Roll pop vm = opcodeRoll vm"
| "run_handler L H_Rot pop vm = opcodeRot vm"
| "run_handler L H_Swap pop vm = opcodeSwap vm"
| "run_handler L H_Tuck pop vm = opcodeTuck vm"
| "run_handler L H_Disabled pop vm = opcodeDisabled vm"
| "run_handler L H_Size pop vm = opcodeSize vm"
| "run_handler L H_Equal pop vm = opcodeEqual vm"
| "run_handler L H_EqualVerify pop vm = opcodeEqualVerify vm"
| "run_handler L H_1Add pop vm = opcode1Add vm"
| "run_handler L H_1Sub pop vm = opcode1Sub vm"
| "run_handler L H_Negate pop vm = opcodeNegate vm"
| "run_handler L H_Abs pop vm = opcodeAbs vm"
| "run_handler L H_Not pop vm = opcodeNot vm"
| "run_handler L H_0NotEqual pop vm = opcode0NotEqual vm"
| "run_handler L H_Add pop vm = opcodeAdd vm"
| "run_handler L H_Sub pop vm = opcodeSub vm"
| "run_handler L H_BoolAnd pop vm = opcodeBoolAnd vm"
| "run_handler L H_BoolOr pop vm = opcodeBoolOr vm"
| "run_handler L H_NumEqual pop vm = opcodeNumEqual vm"
| "run_handler L H_NumEqualVerify pop vm = opcodeNumEqualVerify vm"
| "run_handler L H_NumNotEqual pop vm = opcodeNumNotEqual vm"
| "run_handler L H_LessThan pop vm = opcodeLessThan vm"
| "run_handler L H_GreaterThan pop vm = opcodeGreaterThan vm"
| "run_handler L H_LessThanOrEqual pop vm = opcodeLessThanOrEqual vm"
| "run_handler L H_GreaterThanOrEqual pop vm = opcodeGreaterThanOrEqual vm"
| "run_handler L H_Min pop vm = opcodeMin vm"
| "run_handler L H_Max pop vm = opcodeMax vm"
| "run_handler L H_Within pop vm = opcodeWithin vm"
| "run_handler L H_Sha256 pop vm = opcodeSha256 L vm"
| "run_handler L H_Blake2b pop vm = opcodeBlake2b L vm"
| "run_handler L H_Invalid pop vm = opcodeInvalid vm"

text \<open>The limits 201 on the operations of a script and 520 on the size of an element.\<close>

definition executeOpcode :: "script_lib \<Rightarrow> parsedOpcode \<Rightarrow> engine \<Rightarrow> step_result" where
  "executeOpcode L pop vm =
     (if isDisabled pop then Inl (Fails ErrDisabledOpcode)
      else if alwaysIllegal pop then Inl (Fails ErrReservedOpcode)
      else andThen
        (if 0x60 < pop_value pop then
           (if 201 < numOps vm + 1 then Inl (Fails ErrTooManyOperations)
            else Inr (vm\<lparr>numOps := numOps vm + 1\<rparr>))
         else if 520 < length (data_of pop) then Inl (Fails ErrElementTooBig)
         else Inr vm) (\<lambda>vm.
      if \<not> isBranchExecuting vm \<and> \<not> isConditional pop then Inr vm
      else if isBranchExecuting vm \<and> pop_value pop \<noteq> 0 \<and> pop_value pop \<le> 0x4e
          \<and> \<not> checkMinimalDataPush pop then Inl (Fails ErrMinimalData)
      else (case op_func (pop_opcode pop) of None \<Rightarrow> Inl Panics
            | Some opfunc \<Rightarrow> run_handler L opfunc pop vm)))"

subsection \<open>The machine\<close>

definition validPC :: "engine \<Rightarrow> script_failure + unit" where
  "validPC vm = (if length (scripts vm) \<le> scriptIdx vm then Inl (Fails ErrInvalidProgramCounter)
     else if length (scripts vm ! scriptIdx vm) \<le> scriptOff vm then Inl (Fails ErrInvalidProgramCounter)
     else Inr ())"

definition curPC :: "engine \<Rightarrow> script_failure + (nat \<times> nat)" where
  "curPC vm = andThen (validPC vm) (\<lambda>_. Inr (scriptIdx vm, scriptOff vm))"

definition disasm :: "engine \<Rightarrow> nat \<Rightarrow> nat \<Rightarrow> string" where
  "disasm vm idx off = hex_pad 2 idx @ '':'' @ hex_pad 4 off @ '': '' @ pop_print False (scripts vm ! idx ! off)"

definition DisasmPC :: "engine \<Rightarrow> script_failure + string" where
  "DisasmPC vm = andThen (curPC vm) (\<lambda>(idx, off). Inr (disasm vm idx off))"

definition DisasmScript :: "engine \<Rightarrow> int \<Rightarrow> script_failure + string" where
  "DisasmScript vm idx = (if idx < 0 then Inl (Fails ErrInvalidIndex)
     else if int (length (scripts vm)) \<le> idx then Inl (Fails ErrInvalidIndex)
     else Inr (concat (map (\<lambda>i. disasm vm (nat idx) i @ [CHR 0x0A]) [0..<length (scripts vm ! nat idx)])))"

text \<open>\<^verbatim>\<open>getStack\<close> fills its array from the end, by peeking; an error leaves an entry nil.\<close>

definition getStack :: "stack \<Rightarrow> bytes list" where
  "getStack s = map (\<lambda>j. case PeekByteArray (int (length s - j - 1)) s of Inr b \<Rightarrow> b | Inl _ \<Rightarrow> []) [0..<length s]"

definition clear_stack :: "stack \<Rightarrow> stack" where
  "clear_stack s = (case DropN (word_of_int (Depth s)) s of Inr s' \<Rightarrow> s' | Inl _ \<Rightarrow> s)"

definition setStack :: "stack \<Rightarrow> bytes list \<Rightarrow> stack" where
  "setStack s data = foldl (\<lambda>s d. PushByteArray d s) (clear_stack s) data"

definition GetStack :: "engine \<Rightarrow> bytes list" where
  "GetStack vm = getStack (dstack vm)"

definition SetStack :: "bytes list \<Rightarrow> engine \<Rightarrow> engine" where
  "SetStack data vm = vm\<lparr>dstack := setStack (dstack vm) data\<rparr>"

definition GetAltStack :: "engine \<Rightarrow> bytes list" where
  "GetAltStack vm = getStack (astack vm)"

definition SetAltStack :: "bytes list \<Rightarrow> engine \<Rightarrow> engine" where
  "SetAltStack data vm = vm\<lparr>astack := setStack (astack vm) data\<rparr>"

definition CheckErrorCondition :: "bool \<Rightarrow> engine \<Rightarrow> step_result" where
  "CheckErrorCondition finalScript vm =
     (if scriptIdx vm < length (scripts vm) then Inl (Fails ErrScriptUnfinished)
      else if finalScript \<and> 1 < Depth (dstack vm) then Inl (Fails ErrCleanStack)
      else if finalScript \<and> Depth (dstack vm) < 1 then Inl (Fails ErrEmptyStack)
      else andThen (PopBool (dstack vm)) (\<lambda>(v, s).
        if \<not> v then Inl (Fails ErrEvalFalse) else Inr (vm\<lparr>dstack := s\<rparr>)))"

text \<open>
  The part of \<^verbatim>\<open>Step\<close> behind the last opcode of a script, in three pieces: the redeem script of a
  pay-to-script-hash pair, what follows the script that has ended, and the end of the step.
  \<open>None\<close> is the parser that does not return. The engine that an error leaves is not used.
\<close>

definition enter_redeem_script :: "engine \<Rightarrow> step_result option" where
  "enter_redeem_script vm = (case CheckErrorCondition False vm of Inl e \<Rightarrow> Some (Inl e)
     | Inr vm \<Rightarrow>
       if savedFirstStack vm = [] then Some (Inl Panics)
       else (case parseScript (last (savedFirstStack vm)) of None \<Rightarrow> None
         | Some (_, Some e) \<Rightarrow> Some (Inl (Fails e))
         | Some (pops, None) \<Rightarrow> Some (Inr (SetStack (butlast (savedFirstStack vm))
             (vm\<lparr>scripts := scripts vm @ [pops]\<rparr>)))))"

definition next_script :: "engine \<Rightarrow> step_result option" where
  "next_script vm =
     (if condStack vm \<noteq> [] then Some (Inl (Fails ErrUnbalancedConditional))
      else let vm = vm\<lparr>astack := clear_stack (astack vm), numOps := 0, scriptOff := 0\<rparr> in
        if scriptIdx vm = 0 \<and> isP2SH vm
        then Some (Inr (vm\<lparr>scriptIdx := scriptIdx vm + 1, savedFirstStack := GetStack vm\<rparr>))
        else if scriptIdx vm = 1 \<and> isP2SH vm
        then enter_redeem_script (vm\<lparr>scriptIdx := scriptIdx vm + 1\<rparr>)
        else Some (Inr (vm\<lparr>scriptIdx := scriptIdx vm + 1\<rparr>)))"

definition finish_script :: "engine \<Rightarrow> bool \<times> engine" where
  "finish_script vm = (let vm =
       (if scriptIdx vm < length (scripts vm) \<and> length (scripts vm ! scriptIdx vm) \<le> scriptOff vm
        then vm\<lparr>scriptIdx := scriptIdx vm + 1\<rparr> else vm)
     in (length (scripts vm) \<le> scriptIdx vm, vm))"

definition Step :: "script_lib \<Rightarrow> engine \<Rightarrow> (script_failure + (bool \<times> engine)) option" where
  "Step L vm = (case validPC vm of Inl e \<Rightarrow> Some (Inl e) | Inr _ \<Rightarrow>
     let opcode = scripts vm ! scriptIdx vm ! scriptOff vm in
     (case executeOpcode L opcode (vm\<lparr>scriptOff := scriptOff vm + 1\<rparr>) of Inl e \<Rightarrow> Some (Inl e) | Inr vm \<Rightarrow>
        if 244 < Depth (dstack vm) + Depth (astack vm) then Some (Inl (Fails ErrStackOverflow))
        else if length (scripts vm ! scriptIdx vm) \<le> scriptOff vm then
          (case next_script vm of None \<Rightarrow> None | Some (Inl e) \<Rightarrow> Some (Inl e)
           | Some (Inr vm) \<Rightarrow> Some (Inr (finish_script vm)))
        else Some (Inr (False, vm))))"

partial_function (option) step_loop :: "script_lib \<Rightarrow> engine \<Rightarrow> step_result option" where
  "step_loop L vm = (case Step L vm of None \<Rightarrow> None | Some (Inl e) \<Rightarrow> Some (Inl e)
     | Some (Inr (done, vm)) \<Rightarrow> if done then Some (Inr vm) else step_loop L vm)"

definition Execute :: "script_lib \<Rightarrow> engine \<Rightarrow> (script_failure + unit) option" where
  "Execute L vm = (if MaxScriptPublicKeyVersion L < scriptVersion vm then Some (Inr ())
     else (case step_loop L vm of None \<Rightarrow> None | Some (Inl e) \<Rightarrow> Some (Inl e)
       | Some (Inr vm) \<Rightarrow> Some (andThen (CheckErrorCondition True vm) (\<lambda>_. Inr ()))))"

end
