(* ===== verification/KaspaLimits.thy ===== *)
theory KaspaLimits
  imports KaspaEngine
begin

text \<open>
  Laws of the kaspa script engine: what no opcode touches, the limits that hold in every state
  that an execution reaches, and that every execution ends.
\<close>

lemmas handler_defs = opcodeDisabled_def opcodeReserved_def opcodeInvalid_def opcodeFalse_def
  opcodePushData_def opcodeNop_def popIfBool_def opcodeIf_def opcodeNotIf_def
  opcodeElse_def opcodeEndif_def opcodeReturn_def
  opcodeCheckLockTimeVerify_def opcodeCheckSequenceVerify_def opcodeToAltStack_def opcodeFromAltStack_def

lemmas dstack_defs = opcode1Negate_def opcodeN_def opcode2Drop_def opcode2Dup_def opcode3Dup_def opcode2Over_def opcode2Rot_def opcode2Swap_def
  opcodeDrop_def opcodeDup_def opcodeNip_def opcodeOver_def opcodeRot_def opcodeSwap_def opcodeTuck_def
  opcodeIfDup_def opcodeDepth_def opcodePick_def opcodeRoll_def opcodeSize_def opcodeEqual_def
  unary_op_def binary_op_def opcode1Add_def opcode1Sub_def opcodeNegate_def opcodeAbs_def opcodeNot_def
  opcode0NotEqual_def opcodeAdd_def opcodeSub_def opcodeMin_def opcodeMax_def opcodeBoolAnd_def opcodeBoolOr_def
  opcodeNumEqual_def opcodeNumNotEqual_def opcodeLessThan_def opcodeGreaterThan_def opcodeLessThanOrEqual_def
  opcodeGreaterThanOrEqual_def opcodeWithin_def opcodeSha256_def opcodeBlake2b_def

subsection \<open>What a handler leaves alone\<close>

definition same_frame :: "engine \<Rightarrow> engine \<Rightarrow> bool" where
  "same_frame vm vm' \<longleftrightarrow> vm' = vm\<lparr>dstack := dstack vm', astack := astack vm', condStack := condStack vm'\<rparr>"

lemma same_frame_refl [simp]: "same_frame vm vm"
  by (simp add: same_frame_def)

lemma same_frame_trans: "same_frame u v \<Longrightarrow> same_frame v w \<Longrightarrow> same_frame u w"
  by (cases u; cases v; cases w) (simp add: same_frame_def)

lemma same_frame_updates [simp]:
  "same_frame vm (vm\<lparr>dstack := d\<rparr>)" "same_frame vm (vm\<lparr>astack := a\<rparr>)" "same_frame vm (vm\<lparr>condStack := c\<rparr>)"
  "same_frame vm (vm\<lparr>dstack := d, condStack := c\<rparr>)" "same_frame vm (vm\<lparr>dstack := d, astack := a\<rparr>)"
  "same_frame vm (vm\<lparr>astack := a, dstack := d\<rparr>)"
  by (simp_all add: same_frame_def)

lemma same_frameD:
  assumes "same_frame vm vm'"
  shows "scriptVersion vm' = scriptVersion vm" "scripts vm' = scripts vm" "scriptIdx vm' = scriptIdx vm"
    "scriptOff vm' = scriptOff vm" "txLockTime vm' = txLockTime vm" "txSequences vm' = txSequences vm"
    "txIdx vm' = txIdx vm" "numOps vm' = numOps vm" "flags vm' = flags vm" "isP2SH vm' = isP2SH vm"
    "savedFirstStack vm' = savedFirstStack vm"
  using assms by (cases vm; cases vm'; simp add: same_frame_def)+

lemma on_dstack_Inr: "on_dstack f vm = Inr vm' \<longleftrightarrow> (\<exists>s. f (dstack vm) = Inr s \<and> vm' = vm\<lparr>dstack := s\<rparr>)"
  by (auto simp: on_dstack_def andThen_Inr)

lemma on_dstack_frame: "on_dstack f vm = Inr vm' \<Longrightarrow> same_frame vm vm'"
  by (auto simp: on_dstack_Inr)

lemma verify_frame: "abstractVerify c vm = Inr vm' \<Longrightarrow> same_frame vm vm'"
  by (auto simp: abstractVerify_def andThen_Inr split: if_splits)

lemma andThen_frame:
  "andThen r f = Inr vm' \<Longrightarrow> (\<And>v. r = Inr v \<Longrightarrow> same_frame vm v) \<Longrightarrow>
     (\<And>v. f v = Inr vm' \<Longrightarrow> same_frame v vm') \<Longrightarrow> same_frame vm vm'"
  by (auto simp: andThen_Inr intro: same_frame_trans)

lemma equal_verify_frame: "opcodeEqualVerify vm = Inr vm' \<Longrightarrow> same_frame vm vm'"
  unfolding opcodeEqualVerify_def opcodeEqual_def
  by (erule andThen_frame) (erule on_dstack_frame, erule verify_frame)

lemma num_equal_verify_frame: "opcodeNumEqualVerify vm = Inr vm' \<Longrightarrow> same_frame vm vm'"
  unfolding opcodeNumEqualVerify_def opcodeNumEqual_def binary_op_def
  by (erule andThen_frame) (erule on_dstack_frame, erule verify_frame)

lemma popIfBool_Inr: "popIfBool vm = Inr (ok, v) \<Longrightarrow> \<exists>s. v = vm\<lparr>dstack := s\<rparr>"
  by (cases "dstack vm" rule: rev_cases) (auto simp: popIfBool_def split: if_splits)

lemma if_frame: "opcodeIf vm = Inr vm' \<Longrightarrow> same_frame vm vm'" "opcodeNotIf vm = Inr vm' \<Longrightarrow> same_frame vm vm'"
proof -
  have *: "same_frame vm vm'"
    if "(if isBranchExecuting vm then andThen (popIfBool vm) (\<lambda>(ok, vm). Inr (vm\<lparr>condStack := f ok vm\<rparr>))
        else Inr (vm\<lparr>condStack := c\<rparr>)) = Inr vm'" for f c
  proof (cases "isBranchExecuting vm")
    case True
    with that obtain ok v where "popIfBool vm = Inr (ok, v)" "vm' = v\<lparr>condStack := f ok v\<rparr>"
      by (cases "popIfBool vm") auto
    then show ?thesis using popIfBool_Inr [of vm ok v] by auto
  qed (use that in auto)
  show "opcodeIf vm = Inr vm' \<Longrightarrow> same_frame vm vm'" "opcodeNotIf vm = Inr vm' \<Longrightarrow> same_frame vm vm'"
    unfolding opcodeIf_def opcodeNotIf_def by (erule *)+
qed

lemma lock_frame: "opcodeCheckLockTimeVerify L vm = Inr vm' \<Longrightarrow> same_frame vm vm'"
  "opcodeCheckSequenceVerify L vm = Inr vm' \<Longrightarrow> same_frame vm vm'"
  by (auto simp: opcodeCheckLockTimeVerify_def opcodeCheckSequenceVerify_def andThen_Inr Let_def split: if_splits)

lemma alt_frame: "opcodeToAltStack vm = Inr vm' \<Longrightarrow> same_frame vm vm'"
  "opcodeFromAltStack vm = Inr vm' \<Longrightarrow> same_frame vm vm'"
  by (auto simp: opcodeToAltStack_def opcodeFromAltStack_def andThen_Inr)

lemmas frame_rules = on_dstack_frame verify_frame equal_verify_frame num_equal_verify_frame if_frame
  lock_frame alt_frame

lemma run_handler_frame: "run_handler L h pop vm = Inr vm' \<Longrightarrow> same_frame vm vm'"
  by (cases h; simp only: run_handler.simps dstack_defs opcodeVerify_def;
    (erule frame_rules | (fastforce simp: handler_defs split: if_splits)))

subsection \<open>The elements on the stacks\<close>

text \<open>
  A property of elements that the empty element, the encoding of every number and the result of
  every hash have is kept by every handler; the data of a push opcode is the only other source.
\<close>

definition good_stack :: "(bytes \<Rightarrow> bool) \<Rightarrow> stack \<Rightarrow> bool" where
  "good_stack P s \<longleftrightarrow> list_all P s"

definition keeps :: "(bytes \<Rightarrow> bool) \<Rightarrow> (stack \<Rightarrow> script_failure + stack) \<Rightarrow> bool" where
  "keeps P f \<longleftrightarrow> (\<forall>s s'. f s = Inr s' \<longrightarrow> list_all P s \<longrightarrow> list_all P s')"

lemma nip_keeps: "nipN i s = Inr (x, s') \<Longrightarrow> list_all P s \<Longrightarrow> P x \<and> list_all P s'"
proof -
  assume n: "nipN i s = Inr (x, s')" and P: "list_all P s"
  have i: "0 \<le> i" "i \<le> Depth s - 1" and x: "x = s ! nat (Depth s - i - 1)"
    and s': "set s' \<subseteq> set s"
    using n by (auto simp: nipN_def Let_def split: if_splits dest: in_set_takeD in_set_dropD)
  have "nat (Depth s - i - 1) < length s" using i by (auto simp: Depth_def)
  with P x s' show ?thesis by (auto simp: list_all_iff)
qed

lemma pop_keeps: "PopByteArray s = Inr (x, s') \<Longrightarrow> list_all P s \<Longrightarrow> P x \<and> list_all P s'"
  by (simp add: PopByteArray_def nip_keeps)

lemma pop_int_keeps: "PopInt s = Inr (n, s') \<Longrightarrow> list_all P s \<Longrightarrow> list_all P s'"
  by (auto simp: PopInt_def andThen_Inr dest: pop_keeps)

lemma peek_keeps: "PeekByteArray i s = Inr x \<Longrightarrow> list_all P s \<Longrightarrow> P x"
  by (auto simp: PeekByteArray_def Depth_def Let_def list_all_iff split: if_splits)

lemma copy_keeps: "copy_loop e k s = Inr s' \<Longrightarrow> list_all P s \<Longrightarrow> list_all P s'"
  by (induction k arbitrary: s) (auto simp: andThen_Inr PushByteArray_def dest: peek_keeps)

lemma roll_keeps: "roll_loop e k s = Inr s' \<Longrightarrow> list_all P s \<Longrightarrow> list_all P s'"
  by (induction k arbitrary: s) (auto simp: andThen_Inr PushByteArray_def dest: nip_keeps)

lemma drop_keeps: "drop_loop k s = Inr s' \<Longrightarrow> list_all P s \<Longrightarrow> list_all P s'"
  by (auto simp: drop_loop_eq list_all_iff split: if_splits dest: in_set_takeD)

lemma push_int_keeps: "PushInt n s = Inr s' \<Longrightarrow> (\<And>n b. script_num_bytes n = Some b \<Longrightarrow> P b) \<Longrightarrow> list_all P s \<Longrightarrow> list_all P s'"
  by (auto simp: PushInt_def PushByteArray_def split: option.splits)

lemmas op_defs = DropN_def DupN_def RotN_def SwapN_def OverN_def PickN_def RollN_def NipN_def Tuck_def

lemma stack_op_keeps:
  "keeps P (DropN n)" "keeps P (DupN n)" "keeps P (RotN n)" "keeps P (SwapN n)" "keeps P (OverN n)"
  "keeps P (PickN n)" "keeps P (RollN n)" "keeps P (NipN n)"
  by (auto simp: keeps_def op_defs andThen_Inr PushByteArray_def split: if_splits
    dest: drop_keeps copy_keeps roll_keeps nip_keeps pop_keeps peek_keeps)

lemma tuck_keeps: "keeps P Tuck"
proof (unfold keeps_def, intro allI impI)
  fix s s' assume t: "Tuck s = Inr s'" and P: "list_all P s"
  then obtain x u y v where u: "PopByteArray s = Inr (x, u)" "PopByteArray u = Inr (y, v)" "s' = v @ [x, y, x]"
    by (auto simp: Tuck_def andThen_Inr PushByteArray_def)
  then show "list_all P s'" using pop_keeps [OF u(1) P] pop_keeps [OF u(2), of P] by simp
qed

lemma keeps_push: "keeps P f \<Longrightarrow> on_dstack f vm = Inr vm' \<Longrightarrow> list_all P (dstack vm) \<Longrightarrow>
    list_all P (dstack vm') \<and> astack vm' = astack vm"
  by (auto simp: on_dstack_Inr keeps_def)

text \<open>A stack operation made of pops, a peek and one push at the end.\<close>

lemma keeps_pop_int: "(\<And>n. keeps P (f n)) \<Longrightarrow> keeps P (\<lambda>s. andThen (PopInt s) (\<lambda>(n, s). f n s))"
  by (fastforce simp: keeps_def andThen_Inr dest: pop_int_keeps)

lemma keeps_pop: "(\<And>x. P x \<Longrightarrow> keeps P (f x)) \<Longrightarrow> keeps P (\<lambda>s. andThen (PopByteArray s) (\<lambda>(x, s). f x s))"
  by (fastforce simp: keeps_def andThen_Inr dest: pop_keeps)

lemma keeps_peek: "(\<And>x. P x \<Longrightarrow> keeps P (f x)) \<Longrightarrow> keeps P (\<lambda>s. andThen (PeekByteArray i s) (\<lambda>x. f x s))"
  by (fastforce simp: keeps_def andThen_Inr dest: peek_keeps)

lemma keeps_const: "P x \<Longrightarrow> keeps P (\<lambda>s. Inr (PushByteArray x s))" "keeps P Inr"
  "P x \<Longrightarrow> keeps P (\<lambda>s. Inr (if b then PushByteArray x s else s))"
  by (auto simp: keeps_def PushByteArray_def)

lemma keeps_push_int: "(\<And>n b. script_num_bytes n = Some b \<Longrightarrow> P b) \<Longrightarrow> keeps P (PushInt n)"
  "(\<And>n b. script_num_bytes n = Some b \<Longrightarrow> P b) \<Longrightarrow> keeps P (\<lambda>s. PushInt (g s) s)"
  by (auto simp: keeps_def push_int_keeps)

definition closed_elements :: "script_lib \<Rightarrow> (bytes \<Rightarrow> bool) \<Rightarrow> bool" where
  "closed_elements L P \<longleftrightarrow> P [] \<and> P [1] \<and> (\<forall>n b. script_num_bytes n = Some b \<longrightarrow> P b)
     \<and> (\<forall>b. P (lib_sha256 L b)) \<and> (\<forall>b. P (lib_blake2b L b))"

lemma keeps_bool: "closed_elements L P \<Longrightarrow> keeps P (\<lambda>s. Inr (PushBool v s))"
  by (auto simp: keeps_def PushBool_def fromBool_def PushByteArray_def closed_elements_def)

lemma verify_keeps: "abstractVerify c vm = Inr vm' \<Longrightarrow> list_all P (dstack vm) \<Longrightarrow>
    list_all P (dstack vm') \<and> astack vm' = astack vm"
  by (auto simp: abstractVerify_def PopBool_def andThen_Inr split: if_splits dest: pop_keeps)

lemma equal_keeps: "closed_elements L P \<Longrightarrow> keeps P (\<lambda>s. andThen (PopByteArray s) (\<lambda>(a, s).
    andThen (PopByteArray s) (\<lambda>(b, s). Inr (PushBool (a = b) s))))"
  by (intro keeps_pop keeps_bool)

lemma closed_push_int: "closed_elements L P \<Longrightarrow> keeps P (PushInt n)" "closed_elements L P \<Longrightarrow> keeps P (\<lambda>s. PushInt (g s) s)"
  by (rule keeps_push_int, simp add: closed_elements_def)+

lemma closed_hash: "closed_elements L P \<Longrightarrow> P (lib_sha256 L b)" "closed_elements L P \<Longrightarrow> P (lib_blake2b L b)"
  by (simp_all add: closed_elements_def)

definition stacks_good :: "(bytes \<Rightarrow> bool) \<Rightarrow> engine \<Rightarrow> bool" where
  "stacks_good P vm \<longleftrightarrow> list_all P (dstack vm) \<and> list_all P (astack vm)"

lemma keeps_good: "on_dstack f vm = Inr vm' \<Longrightarrow> stacks_good P vm \<Longrightarrow> keeps P f \<Longrightarrow> stacks_good P vm'"
  using keeps_push [of P f vm vm'] by (simp add: stacks_good_def)

lemma verify_good: "abstractVerify c vm = Inr vm' \<Longrightarrow> stacks_good P vm \<Longrightarrow> stacks_good P vm'"
  using verify_keeps [of c vm vm' P] by (simp add: stacks_good_def)

lemma equal_verify_good: "opcodeEqualVerify vm = Inr vm' \<Longrightarrow> stacks_good P vm \<Longrightarrow> closed_elements L P \<Longrightarrow> stacks_good P vm'"
  by (auto simp: opcodeEqualVerify_def opcodeEqual_def andThen_Inr intro: verify_good keeps_good [OF _ _ equal_keeps])

lemma binary_keeps: "closed_elements L P \<Longrightarrow> keeps P (\<lambda>s. andThen (PopInt s) (\<lambda>(v0, s). andThen (PopInt s) (\<lambda>(v1, s).
     PushInt (f v0 v1) s)))"
  by (intro keeps_pop_int closed_push_int)

lemma num_equal_verify_good: "opcodeNumEqualVerify vm = Inr vm' \<Longrightarrow> stacks_good P vm \<Longrightarrow> closed_elements L P \<Longrightarrow> stacks_good P vm'"
  by (auto simp: opcodeNumEqualVerify_def opcodeNumEqual_def binary_op_def andThen_Inr
    intro: verify_good keeps_good [OF _ _ binary_keeps])

lemma pop_if_good: "popIfBool vm = Inr (ok, v) \<Longrightarrow> stacks_good P vm \<Longrightarrow> stacks_good P v"
  by (auto simp: popIfBool_def andThen_Inr stacks_good_def split: if_splits dest: pop_keeps)

lemma if_good: "opcodeIf vm = Inr vm' \<Longrightarrow> stacks_good P vm \<Longrightarrow> stacks_good P vm'"
  "opcodeNotIf vm = Inr vm' \<Longrightarrow> stacks_good P vm \<Longrightarrow> stacks_good P vm'"
  using pop_if_good [of vm _ _ P]
  by (force simp: opcodeIf_def opcodeNotIf_def andThen_Inr stacks_good_def split: if_splits)+

lemma lock_good: "opcodeCheckLockTimeVerify L vm = Inr vm' \<Longrightarrow> stacks_good P vm \<Longrightarrow> stacks_good P vm'"
  "opcodeCheckSequenceVerify L vm = Inr vm' \<Longrightarrow> stacks_good P vm \<Longrightarrow> stacks_good P vm'"
  by (auto simp: opcodeCheckLockTimeVerify_def opcodeCheckSequenceVerify_def andThen_Inr Let_def stacks_good_def
    split: if_splits dest: pop_keeps)

lemma alt_good: "opcodeToAltStack vm = Inr vm' \<Longrightarrow> stacks_good P vm \<Longrightarrow> stacks_good P vm'"
  "opcodeFromAltStack vm = Inr vm' \<Longrightarrow> stacks_good P vm \<Longrightarrow> stacks_good P vm'"
  by (auto simp: opcodeToAltStack_def opcodeFromAltStack_def andThen_Inr stacks_good_def PushByteArray_def dest: pop_keeps)

lemma fails_good: "opcodeDisabled vm = Inr vm' \<Longrightarrow> Q" "opcodeReserved vm = Inr vm' \<Longrightarrow> Q"
  "opcodeInvalid vm = Inr vm' \<Longrightarrow> Q" "opcodeReturn vm = Inr vm' \<Longrightarrow> Q"
  by (simp_all add: handler_defs)

lemma plain_good: "opcodeNop vm = Inr vm' \<Longrightarrow> stacks_good P vm \<Longrightarrow> stacks_good P vm'"
  "opcodeElse vm = Inr vm' \<Longrightarrow> stacks_good P vm \<Longrightarrow> stacks_good P vm'"
  "opcodeEndif vm = Inr vm' \<Longrightarrow> stacks_good P vm \<Longrightarrow> stacks_good P vm'"
  "opcodeFalse vm = Inr vm' \<Longrightarrow> stacks_good P vm \<Longrightarrow> P [] \<Longrightarrow> stacks_good P vm'"
  "opcodePushData pop vm = Inr vm' \<Longrightarrow> stacks_good P vm \<Longrightarrow> P (data_of pop) \<Longrightarrow> stacks_good P vm'"
  by (auto simp: handler_defs stacks_good_def PushByteArray_def split: if_splits)

lemma run_handler_good:
  assumes run: "run_handler L h pop vm = Inr vm'" and good: "stacks_good P vm" and closed: "closed_elements L P"
    and data: "h = H_PushData \<longrightarrow> P (data_of pop)"
  shows "stacks_good P vm'"
proof -
  have nil: "P []" using closed by (simp add: closed_elements_def)
  note rules = stack_op_keeps tuck_keeps equal_keeps [OF closed] keeps_pop_int keeps_pop keeps_peek keeps_const
    closed_push_int [OF closed] closed_hash [OF closed]
  have on: "on_dstack f vm = Inr vm' \<Longrightarrow> keeps P f \<Longrightarrow> stacks_good P vm'" for f
    by (rule keeps_good [OF _ good])
  note settled = verify_good [OF _ good] equal_verify_good [OF _ good closed] num_equal_verify_good [OF _ good closed]
    if_good [OF _ good] lock_good [OF _ good] alt_good [OF _ good] fails_good plain_good(1-3) [OF _ good]
    plain_good(4) [OF _ good nil]
  show ?thesis
    by (insert run data, cases h, simp_all only: run_handler.simps dstack_defs opcodeVerify_def op_handler.simps simp_thms)
      (erule settled | (erule plain_good(5) [OF _ good], assumption) | (erule on, (rule rules | assumption)+))+
qed

subsection \<open>One step\<close>

text \<open>An opcode of a parsed script carries an entry of the table.\<close>

definition from_table :: "parsedOpcode \<Rightarrow> bool" where
  "from_table pop \<longleftrightarrow> pop_opcode pop \<in> range opcodeArray"

lemma parse_total_from_table: "parse_total opcodeArray s = Some (pops, e) \<Longrightarrow> list_all from_table pops"
proof (induction opcodeArray s arbitrary: pops rule: parse_total.induct)
  case (2 b rest)
  then show ?case
    by (force simp: from_table_def split: option.splits sum.splits prod.splits dest: parse_one_fits)
qed simp

lemma parseScript_from_table: "parseScript s = Some (pops, e) \<Longrightarrow> list_all from_table pops"
  by (simp add: parseScript_total parse_total_from_table)

lemma push_handler_value:
  assumes "from_table pop" "op_func (pop_opcode pop) = Some H_PushData"
  shows "pop_value pop \<le> 0x4e"
proof -
  obtain b where b: "pop_opcode pop = opcodeArray b" using assms(1) by (auto simp: from_table_def)
  have m: "unat b \<notin> missing" using assms(2) opcodeArray_missing [of b] by (auto simp: b zero_opcode_def)
  from opcodeArray_row [OF m] assms(2) have "1 \<le> unat b \<and> unat b \<le> 78" by (simp add: row_ok_def b)
  then have "pop_value pop = b" "unat b \<le> 78" using m by (auto simp: pop_value_def b opcodeArray_value)
  then show ?thesis by (simp add: word_le_nat_alt)
qed

definition small_element :: "bytes \<Rightarrow> bool" where
  "small_element b \<longleftrightarrow> length b \<le> 520"

lemma small_elements_closed:
  assumes "\<And>b. length (lib_sha256 L b) \<le> 520" "\<And>b. length (lib_blake2b L b) \<le> 520"
  shows "closed_elements L small_element"
proof -
  have "length b \<le> 520" if "script_num_bytes n = Some b" for n b
  proof -
    have b: "b = num_bytes (sint n)" using that by (simp add: script_num_bytes_eq split: if_splits)
    have "\<bar>sint n\<bar> < 128 * 256 ^ 8" using sint_ge [of n] sint_lt [of n] by simp
    from length_num_bytes [OF this] show ?thesis by (simp add: b)
  qed
  with assms show ?thesis by (simp add: closed_elements_def small_element_def)
qed

text \<open>What \<open>executeOpcode\<close> may change beside the stacks: the count of operations, up to the limit.\<close>

lemma executeOpcode_effect:
  assumes run: "executeOpcode L pop vm = Inr vm'"
  obtains n where "same_frame (vm\<lparr>numOps := n\<rparr>) vm'" "n = numOps vm \<or> n = numOps vm + 1 \<and> n \<le> 201"
proof -
  define base where "base = (if 0x60 < pop_value pop then
           (if 201 < numOps vm + 1 then Inl (Fails ErrTooManyOperations)
            else Inr (vm\<lparr>numOps := numOps vm + 1\<rparr>))
         else if 520 < length (data_of pop) then Inl (Fails ErrElementTooBig)
         else (Inr vm :: step_result))"
  from run obtain v where v: "base = Inr v" and rest:
      "(if \<not> isBranchExecuting v \<and> \<not> isConditional pop then Inr v
      else if isBranchExecuting v \<and> pop_value pop \<noteq> 0 \<and> pop_value pop \<le> 0x4e
          \<and> \<not> checkMinimalDataPush pop then Inl (Fails ErrMinimalData)
      else (case op_func (pop_opcode pop) of None \<Rightarrow> Inl Panics
            | Some opfunc \<Rightarrow> run_handler L opfunc pop v)) = Inr vm'"
    by (auto simp: executeOpcode_def andThen_Inr base_def [symmetric] split: if_splits)
  have n: "v = vm\<lparr>numOps := numOps v\<rparr>" "numOps v = numOps vm \<or> numOps v = numOps vm + 1 \<and> numOps v \<le> 201"
    using v by (auto simp: base_def split: if_splits)
  have "same_frame v vm'"
    using rest by (auto split: if_splits option.splits dest: run_handler_frame)
  with n that [of "numOps v"] show thesis by simp
qed

lemma executeOpcode_good:
  assumes run: "executeOpcode L pop vm = Inr vm'" and good: "stacks_good small_element vm"
    and closed: "closed_elements L small_element" and table: "from_table pop"
  shows "stacks_good small_element vm'"
proof -
  have good': "stacks_good small_element (vm\<lparr>numOps := n\<rparr>)" for n using good by (simp add: stacks_good_def)
  have data: "small_element (data_of pop)" if "\<not> 0x60 < pop_value pop"
    using run that by (auto simp: executeOpcode_def small_element_def split: if_splits)
  have push: "h = H_PushData \<longrightarrow> small_element (data_of pop)" if "op_func (pop_opcode pop) = Some h" for h
  proof
    assume "h = H_PushData"
    then have "pop_value pop \<le> 0x4e" using push_handler_value [OF table] that by simp
    then show "small_element (data_of pop)" by (intro data) (simp add: word_le_nat_alt word_less_nat_alt)
  qed
  show ?thesis
    using run good good' run_handler_good [OF _ good closed] run_handler_good [OF _ good' closed] push
    by (auto simp: executeOpcode_def andThen_Inr split: if_splits option.splits)
qed

lemma clear_stack_nil [simp]:
  assumes "length s < 2 ^ 31"
  shows "clear_stack s = []"
proof -
  have n: "sint (word_of_int (int (length s)) :: i32) = int (length s)" by (rule sint32) (use assms in simp_all)
  then have "(word_of_int (int (length s)) :: i32) <s 1 \<longleftrightarrow> s = []" by (simp add: word_sless_alt)
  with n show ?thesis by (cases "s = []") (simp_all add: clear_stack_def DropN_def drop_loop_eq Depth_def)
qed

lemma getStack_id [simp]: "getStack s = s"
proof -
  have "getStack s = map (\<lambda>j. s ! j) [0..<length s]"
    unfolding getStack_def by (rule map_cong) (auto simp: PeekByteArray_def Depth_def Let_def of_nat_diff nat_diff_distrib)
  then show ?thesis by (simp add: map_nth)
qed

lemma setStack_id [simp]:
  assumes "length s < 2 ^ 31"
  shows "setStack s d = d"
proof -
  have "foldl (\<lambda>s d. PushByteArray d s) acc d = acc @ d" for acc
    by (induction d arbitrary: acc) (simp_all add: PushByteArray_def)
  then show ?thesis using assms by (simp add: setStack_def)
qed

text \<open>
  A step that succeeds: the opcode at the program counter runs, the stacks stay within their
  limit, and the script goes on or has ended.
\<close>

lemma Step_cases:
  assumes "Step L vm = Some (Inr (done, w))"
  obtains v where "scriptIdx vm < length (scripts vm)" "scriptOff vm < length (scripts vm ! scriptIdx vm)"
    "executeOpcode L (scripts vm ! scriptIdx vm ! scriptOff vm) (vm\<lparr>scriptOff := scriptOff vm + 1\<rparr>) = Inr v"
    "length (dstack v) + length (astack v) \<le> 244"
    "scriptOff vm + 1 < length (scripts vm ! scriptIdx vm) \<and> w = v \<and> \<not> done
     \<or> scriptOff vm + 1 = length (scripts vm ! scriptIdx vm) \<and>
       (\<exists>u. next_script v = Some (Inr u) \<and> finish_script u = (done, w))"
proof -
  have pc: "scriptIdx vm < length (scripts vm)" "scriptOff vm < length (scripts vm ! scriptIdx vm)"
    using assms by (auto simp: Step_def validPC_def split: if_splits)
  then obtain v where v: "executeOpcode L (scripts vm ! scriptIdx vm ! scriptOff vm) (vm\<lparr>scriptOff := scriptOff vm + 1\<rparr>) = Inr v"
    using assms by (auto simp: Step_def validPC_def Let_def split: sum.splits)
  from executeOpcode_effect [OF v] obtain n
    where "same_frame (vm\<lparr>scriptOff := scriptOff vm + 1, numOps := n\<rparr>) v" by auto
  from same_frameD [OF this] have f: "scripts v = scripts vm" "scriptIdx v = scriptIdx vm" "scriptOff v = scriptOff vm + 1"
    by simp_all
  have depth: "length (dstack v) + length (astack v) \<le> 244"
    using assms pc v by (auto simp: Step_def validPC_def Depth_def Let_def split: if_splits)
  show thesis
  proof (rule that [OF pc v depth], cases "scriptOff vm + 1 < length (scripts vm ! scriptIdx vm)")
    case True
    with assms pc v f depth show "scriptOff vm + 1 < length (scripts vm ! scriptIdx vm) \<and> w = v \<and> \<not> done
     \<or> scriptOff vm + 1 = length (scripts vm ! scriptIdx vm) \<and>
       (\<exists>u. next_script v = Some (Inr u) \<and> finish_script u = (done, w))"
      by (auto simp: Step_def validPC_def Depth_def Let_def)
  next
    case False
    with assms pc v f depth show "scriptOff vm + 1 < length (scripts vm ! scriptIdx vm) \<and> w = v \<and> \<not> done
     \<or> scriptOff vm + 1 = length (scripts vm ! scriptIdx vm) \<and>
       (\<exists>u. next_script v = Some (Inr u) \<and> finish_script u = (done, w))"
      by (auto simp: Step_def validPC_def Depth_def Let_def split: option.splits sum.splits)
  qed
qed

text \<open>What follows the end of a script.\<close>

lemma next_script_cases:
  assumes "next_script v = Some (Inr u)" "length (dstack v) + length (astack v) \<le> 244"
  obtains (plain) "condStack v = []" "u = v\<lparr>astack := [], numOps := 0, scriptOff := 0, scriptIdx := scriptIdx v + 1\<rparr>"
      "\<not> (isP2SH v \<and> scriptIdx v \<le> 1)"
  | (first) "condStack v = []" "isP2SH v" "scriptIdx v = 0"
      "u = v\<lparr>astack := [], numOps := 0, scriptOff := 0, scriptIdx := 1, savedFirstStack := dstack v\<rparr>"
  | (redeem) pops d where "condStack v = []" "isP2SH v" "scriptIdx v = 1" "savedFirstStack v \<noteq> []"
      "parseScript (last (savedFirstStack v)) = Some (pops, None)" "length (scripts v) \<le> 2"
      "PopBool (dstack v) = Inr (True, d)"
      "u = v\<lparr>astack := [], numOps := 0, scriptOff := 0, scriptIdx := 2,
           dstack := butlast (savedFirstStack v), scripts := scripts v @ [pops]\<rparr>"
proof -
  have c: "condStack v = []" using assms(1) by (auto simp: next_script_def split: if_splits)
  have clear: "clear_stack (astack v) = []" by (rule clear_stack_nil) (use assms(2) in simp)
  consider "\<not> (isP2SH v \<and> scriptIdx v \<le> 1)" | "isP2SH v" "scriptIdx v = 0" | "isP2SH v" "scriptIdx v = 1" by linarith
  then show thesis
  proof cases
    case 1
    with assms(1) c show thesis by (intro plain) (auto simp: next_script_def Let_def clear split: if_splits)
  next
    case 2
    with assms(1) c show thesis by (intro first) (auto simp: next_script_def Let_def GetStack_def clear)
  next
    case 3
    let ?v = "v\<lparr>astack := [], numOps := 0, scriptOff := 0, scriptIdx := 2\<rparr>"
    have e: "enter_redeem_script ?v = Some (Inr u)" using assms(1) c 3 by (simp add: next_script_def Let_def clear numeral_2_eq_2)
    then obtain x where x: "CheckErrorCondition False ?v = Inr x" by (auto simp: enter_redeem_script_def split: sum.splits)
    then obtain d where d: "PopBool (dstack v) = Inr (True, d)" "x = ?v\<lparr>dstack := d\<rparr>" "length (scripts v) \<le> 2"
      by (auto simp: CheckErrorCondition_def andThen_Inr split: if_splits)
    have "length d \<le> length (dstack v)"
      using d(1) by (cases "dstack v" rule: rev_cases) auto
    then have set_stack: "setStack d xs = xs" for xs by (intro setStack_id) (use assms(2) in simp)
    from e x d(2) obtain pops where "savedFirstStack v \<noteq> []"
      "parseScript (last (savedFirstStack v)) = Some (pops, None)"
      "u = v\<lparr>astack := [], numOps := 0, scriptOff := 0, scriptIdx := 2,
           dstack := butlast (savedFirstStack v), scripts := scripts v @ [pops]\<rparr>"
      by (auto simp: enter_redeem_script_def SetStack_def set_stack split: if_splits option.splits)
    with c 3 d show thesis by (intro redeem) auto
  qed
qed

subsection \<open>Reachable states\<close>

inductive reaches :: "script_lib \<Rightarrow> engine \<Rightarrow> engine \<Rightarrow> bool" for L :: script_lib where
  start: "reaches L vm vm"
| step: "reaches L vm v \<Longrightarrow> Step L v = Some (Inr (done, w)) \<Longrightarrow> reaches L vm w"

lemma reaches_first: "reaches L v w \<Longrightarrow> Step L vm = Some (Inr (done, v)) \<Longrightarrow> reaches L vm w"
  by (induction rule: reaches.induct) (auto intro: reaches.intros)

text \<open>The contract of an invariant of the machine, and what it gives for whole executions.\<close>

locale engine_invariant =
  fixes L :: script_lib and I :: "engine \<Rightarrow> bool"
  assumes preserved: "I vm \<Longrightarrow> Step L vm = Some (Inr (done, w)) \<Longrightarrow> I w"
begin

lemma reached: "reaches L vm w \<Longrightarrow> I vm \<Longrightarrow> I w"
  by (induction rule: reaches.induct) (auto intro: preserved)

lemma at_end: "step_loop L vm = Some (Inr w) \<Longrightarrow> I vm \<Longrightarrow> I w"
proof -
  assume loop: "step_loop L vm = Some (Inr w)" and "I vm"
  have "L' = L \<longrightarrow> I v \<longrightarrow> (\<forall>w. y = Inr w \<longrightarrow> I w)" if "step_loop L' v = Some y" for L' v y
    using that
  proof (rule step_loop.raw_induct [where P = "\<lambda>L' v y. L' = L \<longrightarrow> I v \<longrightarrow> (\<forall>w. y = Inr w \<longrightarrow> I w)", rotated], goal_cases)
    case (1 loop L' v y)
    then show ?case
      by (auto split: option.splits sum.splits prod.splits if_splits intro: preserved) (blast intro: preserved)
  qed
  with loop \<open>I vm\<close> show "I w" by blast
qed

end

definition limits :: "engine \<Rightarrow> bool" where
  "limits vm \<longleftrightarrow> length (dstack vm) + length (astack vm) \<le> 244 \<and> 0 \<le> numOps vm \<and> numOps vm \<le> 201
     \<and> stacks_good small_element vm \<and> length (savedFirstStack vm) \<le> 244
     \<and> list_all small_element (savedFirstStack vm) \<and> list_all (list_all from_table) (scripts vm)"

definition short_hashes :: "script_lib \<Rightarrow> bool" where
  "short_hashes L \<longleftrightarrow> (\<forall>b. length (lib_sha256 L b) \<le> 520) \<and> (\<forall>b. length (lib_blake2b L b) \<le> 520)"

lemma finish_script_same: "finish_script u = (done, w) \<Longrightarrow> \<exists>i. w = u\<lparr>scriptIdx := i\<rparr>"
  by (rule exI [of _ "scriptIdx w"], cases u) (auto simp: finish_script_def Let_def split: if_splits)

lemma limits_step:
  assumes lim: "limits vm" and hashes: "short_hashes L" and step: "Step L vm = Some (Inr (done, w))"
  shows "limits w"
proof -
  have closed: "closed_elements L small_element"
    using hashes by (intro small_elements_closed) (auto simp: short_hashes_def)
  from step obtain v where v: "scriptIdx vm < length (scripts vm)" "scriptOff vm < length (scripts vm ! scriptIdx vm)"
    "executeOpcode L (scripts vm ! scriptIdx vm ! scriptOff vm) (vm\<lparr>scriptOff := scriptOff vm + 1\<rparr>) = Inr v"
    "length (dstack v) + length (astack v) \<le> 244"
    and w: "w = v \<or> (\<exists>u. next_script v = Some (Inr u) \<and> finish_script u = (done, w))"
    by (rule Step_cases) blast
  have table: "from_table (scripts vm ! scriptIdx vm ! scriptOff vm)"
    using lim v(1,2) by (simp add: limits_def list_all_length)
  have good: "stacks_good small_element v"
    by (rule executeOpcode_good [OF v(3) _ closed table]) (use lim in \<open>simp add: limits_def stacks_good_def\<close>)
  obtain n where f: "same_frame (vm\<lparr>scriptOff := scriptOff vm + 1, numOps := n\<rparr>) v"
    and "n = numOps vm \<or> n = numOps vm + 1 \<and> n \<le> 201"
    by (rule executeOpcode_effect [OF v(3)]) (rule that, assumption, simp)
  then have n: "0 \<le> n" "n \<le> 201" using lim by (auto simp: limits_def)
  have limv: "limits v"
    using same_frameD [OF f] lim good v(4) n by (simp add: limits_def)
  show ?thesis
  proof (cases "w = v")
    case False
    with w obtain u where u: "next_script v = Some (Inr u)" "finish_script u = (done, w)" by auto
    have "limits u"
      using u(1) v(4)
    proof (cases rule: next_script_cases)
      case (redeem pops d)
      have "list_all small_element (butlast (savedFirstStack v))"
        using limv by (auto simp: limits_def list_all_iff dest: in_set_butlastD)
      then show ?thesis
        using limv redeem parseScript_from_table [OF redeem(5)] by (auto simp: limits_def stacks_good_def)
    qed (use limv in \<open>auto simp: limits_def stacks_good_def\<close>)
    then show ?thesis
      using finish_script_same [OF u(2)] by (auto simp: limits_def stacks_good_def)
  qed (simp add: limv)
qed

interpretation limited: engine_invariant L "\<lambda>vm. short_hashes L \<longrightarrow> limits vm" for L
  by unfold_locales (auto intro: limits_step)

lemma p2sh_step: "Step L vm = Some (Inr (done, w)) \<Longrightarrow> isP2SH w = isP2SH vm"
proof -
  assume step: "Step L vm = Some (Inr (done, w))"
  from step obtain v where v: "executeOpcode L (scripts vm ! scriptIdx vm ! scriptOff vm) (vm\<lparr>scriptOff := scriptOff vm + 1\<rparr>) = Inr v"
    and d: "length (dstack v) + length (astack v) \<le> 244"
    and w: "w = v \<or> (\<exists>u. next_script v = Some (Inr u) \<and> finish_script u = (done, w))"
    by (rule Step_cases) blast
  obtain n where f: "same_frame (vm\<lparr>scriptOff := scriptOff vm + 1, numOps := n\<rparr>) v"
    by (rule executeOpcode_effect [OF v]) (rule that)
  have "isP2SH v = isP2SH vm" using same_frameD(10) [OF f] by simp
  with w d show ?thesis
    by (auto elim!: next_script_cases [OF _ d] dest: finish_script_same)
qed

interpretation p2sh: engine_invariant L "\<lambda>vm. isP2SH vm = p" for L p
  by unfold_locales (simp add: p2sh_step)

text \<open>C9: The limits of the engine hold in every state that it reaches, whatever the scripts are:
  at most 244 elements on the two stacks together and on the saved one, at most 201 counted
  operations, and no element longer than 520 bytes. The scripts come from the parser, and the
  hash functions return at most 520 bytes.
\<close>

theorem engine_limits:
  assumes "limits vm" "short_hashes L" "reaches L vm w"
  shows "length (dstack w) + length (astack w) \<le> 244 \<and> length (savedFirstStack w) \<le> 244 \<and> numOps w \<le> 201
    \<and> (\<forall>b\<in>set (dstack w @ astack w @ savedFirstStack w). length b \<le> 520)"
proof -
  have "limits w" using limited.reached [OF assms(3)] assms(1,2) by blast
  then show ?thesis
    by (auto simp: limits_def stacks_good_def list_all_iff small_element_def)
qed

subsection \<open>Every execution ends\<close>

definition remaining :: "engine \<Rightarrow> nat" where
  "remaining vm = sum_list (map length (drop (scriptIdx vm) (scripts vm))) - scriptOff vm"

definition pending :: "engine \<Rightarrow> nat" where
  "pending vm = (if isP2SH vm \<and> scriptIdx vm \<le> 1 then 1 else 0)"

lemma remaining_at: "i < length ss \<Longrightarrow> sum_list (map length (drop i ss)) = length (ss ! i) + sum_list (map length (drop (Suc i) ss))"
  by (simp add: Cons_nth_drop_Suc [symmetric])

lemma step_decreases:
  assumes "Step L vm = Some (Inr (done, w))"
  shows "(w, vm) \<in> measures [pending, remaining]"
proof -
  from assms obtain v where v: "scriptIdx vm < length (scripts vm)" "scriptOff vm < length (scripts vm ! scriptIdx vm)"
    "executeOpcode L (scripts vm ! scriptIdx vm ! scriptOff vm) (vm\<lparr>scriptOff := scriptOff vm + 1\<rparr>) = Inr v"
    and d: "length (dstack v) + length (astack v) \<le> 244"
    and w: "scriptOff vm + 1 < length (scripts vm ! scriptIdx vm) \<and> w = v
     \<or> scriptOff vm + 1 = length (scripts vm ! scriptIdx vm) \<and>
       (\<exists>u. next_script v = Some (Inr u) \<and> finish_script u = (done, w))"
    by (rule Step_cases) blast
  obtain n where f: "same_frame (vm\<lparr>scriptOff := scriptOff vm + 1, numOps := n\<rparr>) v"
    by (rule executeOpcode_effect [OF v(3)]) (rule that)
  have s: "scripts v = scripts vm" "scriptIdx v = scriptIdx vm" "scriptOff v = scriptOff vm + 1" "isP2SH v = isP2SH vm"
    using same_frameD [OF f] by simp_all
  let ?rest = "sum_list (map length (drop (Suc (scriptIdx vm)) (scripts vm)))"
  have r: "remaining vm = length (scripts vm ! scriptIdx vm) + ?rest - scriptOff vm"
    by (simp add: remaining_def remaining_at [OF v(1)])
  show ?thesis
    using w
  proof (elim disjE conjE exE)
    assume "scriptOff vm + 1 < length (scripts vm ! scriptIdx vm)" "w = v"
    then show ?thesis using s r v(1) by (simp add: pending_def remaining_def remaining_at)
  next
    fix u assume last: "scriptOff vm + 1 = length (scripts vm ! scriptIdx vm)"
      and u: "next_script v = Some (Inr u)" "finish_script u = (done, w)"
    have w': "isP2SH w = isP2SH u" "scriptIdx u \<le> scriptIdx w" "scriptOff u = 0 \<Longrightarrow> remaining w = remaining u"
      using u(2) by (auto simp: finish_script_def Let_def remaining_def remaining_at split: if_splits)
    from u(1) d show ?thesis
    proof (cases rule: next_script_cases)
      case plain
      then have "remaining w = ?rest" "pending w = 0" "pending w \<le> pending vm"
        using w' s by (auto simp: remaining_def pending_def)
      then show ?thesis using r last by auto
    next
      case first
      then have "remaining w = ?rest" "pending w \<le> 1" "pending vm = 1"
        using w' s by (auto simp: remaining_def pending_def)
      then show ?thesis using r last by auto
    next
      case (redeem pops d)
      then have "pending w = 0" "pending vm = 1" using w' s by (auto simp: pending_def)
      then show ?thesis by simp
    qed
  qed
qed

lemma step_loop_ends: "step_loop L vm \<noteq> None \<or> (\<exists>v. reaches L vm v \<and> Step L v = None)"
proof (induction vm rule: wf_induct [OF wf_measures [of "[pending, remaining]"]])
  case (1 vm)
  show ?case
  proof (cases "Step L vm")
    case None
    then show ?thesis by (blast intro: reaches.intros)
  next
    case (Some r)
    show ?thesis
    proof (cases r)
      case (Inl e)
      with Some show ?thesis by (subst step_loop.simps) simp
    next
      case (Inr p)
      obtain d w where p: "p = (d, w)" by (cases p)
      with Some Inr have st: "Step L vm = Some (Inr (d, w))" by simp
      have "step_loop L w \<noteq> None \<or> (\<exists>v. reaches L w v \<and> Step L v = None)"
        using 1 step_decreases [OF st] by blast
      then show ?thesis
      proof
        assume "step_loop L w \<noteq> None"
        then have "step_loop L vm \<noteq> None" by (subst step_loop.simps) (simp add: st)
        then show ?thesis ..
      qed (use st in \<open>blast intro: reaches_first\<close>)
    qed
  qed
qed

text \<open>A step has no result only where the parser has none on the redeem script.\<close>

lemma Step_None:
  assumes "Step L vm = None"
  shows "isP2SH vm \<and> savedFirstStack vm \<noteq> [] \<and> parseScript (last (savedFirstStack vm)) = None"
proof -
  obtain v where v: "executeOpcode L (scripts vm ! scriptIdx vm ! scriptOff vm) (vm\<lparr>scriptOff := scriptOff vm + 1\<rparr>) = Inr v"
    and n: "next_script v = None"
    using assms by (auto simp: Step_def Let_def split: sum.splits if_splits option.splits)
  obtain n where f: "same_frame (vm\<lparr>scriptOff := scriptOff vm + 1, numOps := n\<rparr>) v"
    by (rule executeOpcode_effect [OF v]) (rule that)
  have s: "isP2SH v = isP2SH vm" "savedFirstStack v = savedFirstStack vm" using same_frameD [OF f] by simp_all
  have "isP2SH v \<and> savedFirstStack v \<noteq> [] \<and> parseScript (last (savedFirstStack v)) = None"
    using n by (auto simp: next_script_def enter_redeem_script_def CheckErrorCondition_def andThen_Inr Let_def
        split: if_splits option.splits sum.splits)
  with s show ?thesis by simp
qed

text \<open>C16: Every execution returns, unless it is a pay-to-script-hash spend whose redeem script the
  parser does not return on.
\<close>

theorem execute_terminates:
  "(\<exists>r. Execute L vm = Some r) \<or>
   (isP2SH vm \<and> (\<exists>v. reaches L vm v \<and> savedFirstStack v \<noteq> [] \<and> parseScript (last (savedFirstStack v)) = None))"
proof (cases "step_loop L vm")
  case None
  then obtain v where "reaches L vm v" "Step L v = None" using step_loop_ends [of L vm] by auto
  then show ?thesis using Step_None [of L v] p2sh.reached [of L vm v "isP2SH vm"] by auto
next
  case (Some r)
  then show ?thesis by (cases r) (auto simp: Execute_def)
qed

end
