(* ===== verification/KaspaNumbers.thy ===== *)
theory KaspaNumbers
  imports KaspaLimits
begin

text \<open>
  What the numeric opcodes of the kaspa script engine compute: on operands of at most four bytes
  they are the operations on integers, without wrap-around, although the engine works on
  \<open>int64\<close> values and on their encodings.
\<close>

lemma sint_small: "\<bar>z\<bar> < 2 ^ 62 \<Longrightarrow> sint (word_of_int z :: i64) = z"
  by (simp add: sint_sbintrunc' signed_take_bit_int_eq_self)

lemma pop_int_num: "\<bar>z\<bar> < 2 ^ 31 \<Longrightarrow> PopInt (s @ [num_bytes z]) = Inr (word_of_int z, s)"
proof -
  assume "\<bar>z\<bar> < 2 ^ 31"
  then have "length (num_bytes z) \<le> 4" using length_num_bytes [of z 3] by simp
  then have "makeScriptNum (num_bytes z) 4 = Inr (word_of_int z)"
    by (simp add: makeScriptNum_eq num_bytes_minimal num_bytes_value)
  then show ?thesis by simp
qed

lemma push_int_num: "\<bar>z\<bar> < 2 ^ 62 \<Longrightarrow> PushInt (word_of_int z) s = Inr (s @ [num_bytes z])"
  by (simp add: PushInt_def script_num_bytes_eq sint_small PushByteArray_def)

lemma pop_int_two:
  assumes "\<bar>a\<bar> < 2 ^ 31" "\<bar>b\<bar> < 2 ^ 31"
  shows "PopInt (s @ [num_bytes a, num_bytes b]) = Inr (word_of_int b, s @ [num_bytes a])"
  using pop_int_num [OF assms(2), of "s @ [num_bytes a]"] by simp

lemma unary_num:
  assumes "\<bar>a\<bar> < 2 ^ 31" "dstack vm = s @ [num_bytes a]" "f (word_of_int a) = word_of_int y" "\<bar>y\<bar> < 2 ^ 62"
  shows "unary_op f vm = Inr (vm\<lparr>dstack := s @ [num_bytes y]\<rparr>)"
  using assms by (simp add: unary_op_def on_dstack_def pop_int_num push_int_num del: pop_int_simps)

lemma binary_num:
  assumes "\<bar>a\<bar> < 2 ^ 31" "\<bar>b\<bar> < 2 ^ 31" "dstack vm = s @ [num_bytes a, num_bytes b]"
    "f (word_of_int b) (word_of_int a) = word_of_int y" "\<bar>y\<bar> < 2 ^ 62"
  shows "binary_op f vm = Inr (vm\<lparr>dstack := s @ [num_bytes y]\<rparr>)"
  using assms by (simp add: binary_op_def on_dstack_def pop_int_two pop_int_num push_int_num del: pop_int_simps)

lemma word_compare:
  assumes "\<bar>a\<bar> < 2 ^ 62" "\<bar>b\<bar> < 2 ^ 62"
  shows "(word_of_int a :: i64) <s word_of_int b \<longleftrightarrow> a < b" "(word_of_int a :: i64) \<le>s word_of_int b \<longleftrightarrow> a \<le> b"
    "(word_of_int a :: i64) = word_of_int b \<longleftrightarrow> a = b"
    "(word_of_int a :: i64) = 0 \<longleftrightarrow> a = 0" "(word_of_int a :: i64) <s 0 \<longleftrightarrow> a < 0"
proof -
  have s: "sint (word_of_int a :: i64) = a" "sint (word_of_int b :: i64) = b" using assms by (simp_all add: sint_small)
  then show "(word_of_int a :: i64) <s word_of_int b \<longleftrightarrow> a < b" "(word_of_int a :: i64) \<le>s word_of_int b \<longleftrightarrow> a \<le> b"
    "(word_of_int a :: i64) <s 0 \<longleftrightarrow> a < 0"
    by (simp_all add: word_sless_alt word_sle_eq)
  show "(word_of_int a :: i64) = word_of_int b \<longleftrightarrow> a = b" using s by metis
  show "(word_of_int a :: i64) = 0 \<longleftrightarrow> a = 0" using s(1) by (metis of_int_0 signed_0)
qed

lemmas number_defs = opcode1Add_def opcode1Sub_def opcodeNegate_def opcodeAbs_def opcodeNot_def opcode0NotEqual_def
  opcodeAdd_def opcodeSub_def opcodeMin_def opcodeMax_def opcodeBoolAnd_def opcodeBoolOr_def opcodeNumEqual_def
  opcodeNumNotEqual_def opcodeLessThan_def opcodeGreaterThan_def opcodeLessThanOrEqual_def opcodeGreaterThanOrEqual_def

text \<open>Pushing the encoding of a number on what is left of the data stack.\<close>

definition pushes :: "engine \<Rightarrow> stack \<Rightarrow> int \<Rightarrow> step_result" where
  "pushes vm s z = Inr (vm\<lparr>dstack := s @ [num_bytes z]\<rparr>)"

lemma binary_numbers:
  assumes a: "\<bar>a\<bar> < 2 ^ 31" and b: "\<bar>b\<bar> < 2 ^ 31" and st: "dstack vm = s @ [num_bytes a, num_bytes b]"
  shows "opcodeAdd vm = pushes vm s (a + b)" "opcodeSub vm = pushes vm s (a - b)"
    "opcodeMin vm = pushes vm s (min a b)" "opcodeMax vm = pushes vm s (max a b)"
    "opcodeBoolAnd vm = pushes vm s (of_bool (a \<noteq> 0 \<and> b \<noteq> 0))" "opcodeBoolOr vm = pushes vm s (of_bool (a \<noteq> 0 \<or> b \<noteq> 0))"
    "opcodeNumEqual vm = pushes vm s (of_bool (a = b))" "opcodeNumNotEqual vm = pushes vm s (of_bool (a \<noteq> b))"
    "opcodeLessThan vm = pushes vm s (of_bool (a < b))" "opcodeGreaterThan vm = pushes vm s (of_bool (b < a))"
    "opcodeLessThanOrEqual vm = pushes vm s (of_bool (a \<le> b))" "opcodeGreaterThanOrEqual vm = pushes vm s (of_bool (b \<le> a))"
proof -
  have ab: "\<bar>a\<bar> < 2 ^ 62" "\<bar>b\<bar> < 2 ^ 62" using a b by simp_all
  note bin = binary_num [OF a b st]
  show "opcodeAdd vm = pushes vm s (a + b)" "opcodeSub vm = pushes vm s (a - b)"
    unfolding number_defs pushes_def by (rule bin; use a b in simp)+
  show "opcodeMin vm = pushes vm s (min a b)" "opcodeMax vm = pushes vm s (max a b)"
    unfolding number_defs pushes_def
    by (rule bin; use a b in \<open>simp add: word_compare [OF ab] word_compare [OF ab(2,1)] min_def max_def\<close>)+
  show "opcodeBoolAnd vm = pushes vm s (of_bool (a \<noteq> 0 \<and> b \<noteq> 0))" "opcodeBoolOr vm = pushes vm s (of_bool (a \<noteq> 0 \<or> b \<noteq> 0))"
    "opcodeNumEqual vm = pushes vm s (of_bool (a = b))" "opcodeNumNotEqual vm = pushes vm s (of_bool (a \<noteq> b))"
    "opcodeLessThan vm = pushes vm s (of_bool (a < b))" "opcodeGreaterThan vm = pushes vm s (of_bool (b < a))"
    "opcodeLessThanOrEqual vm = pushes vm s (of_bool (a \<le> b))" "opcodeGreaterThanOrEqual vm = pushes vm s (of_bool (b \<le> a))"
    unfolding number_defs pushes_def by (rule bin; use word_compare [OF ab] word_compare [OF ab(2,1)] in auto)+
qed

lemma unary_numbers:
  assumes b: "\<bar>b\<bar> < 2 ^ 31" and st: "dstack vm = s @ [num_bytes b]"
  shows "opcode1Add vm = pushes vm s (b + 1)" "opcode1Sub vm = pushes vm s (b - 1)"
    "opcodeNegate vm = pushes vm s (- b)" "opcodeAbs vm = pushes vm s \<bar>b\<bar>"
    "opcodeNot vm = pushes vm s (of_bool (b = 0))" "opcode0NotEqual vm = pushes vm s (of_bool (b \<noteq> 0))"
proof -
  have b': "\<bar>b\<bar> < 2 ^ 62" using b by simp
  show "opcode1Add vm = pushes vm s (b + 1)" "opcode1Sub vm = pushes vm s (b - 1)" "opcodeNegate vm = pushes vm s (- b)"
    "opcodeAbs vm = pushes vm s \<bar>b\<bar>"
    "opcodeNot vm = pushes vm s (of_bool (b = 0))" "opcode0NotEqual vm = pushes vm s (of_bool (b \<noteq> 0))"
    unfolding number_defs pushes_def
    by (rule unary_num [OF b st]; use b word_compare [OF b' b'] in auto)+
qed

lemma num_asBool: "asBool (num_bytes (of_bool t)) = t"
proof -
  have "asBool (num_bytes 0) = False" "asBool (num_bytes 1) = True" by code_simp+
  then show ?thesis by (cases t) simp_all
qed

lemma numEqualVerify:
  assumes "\<bar>a\<bar> < 2 ^ 31" "\<bar>b\<bar> < 2 ^ 31" "dstack vm = s @ [num_bytes a, num_bytes b]"
  shows "opcodeNumEqualVerify vm = (if a = b then Inr (vm\<lparr>dstack := s\<rparr>) else Inl (Fails ErrNumEqualVerify))"
  by (simp add: opcodeNumEqualVerify_def binary_numbers [OF assms] pushes_def abstractVerify_def PopBool_def
    PopByteArray_def nipN_def Depth_def nth_append num_asBool)

lemma within_number:
  assumes "\<bar>x\<bar> < 2 ^ 31" "\<bar>a\<bar> < 2 ^ 31" "\<bar>b\<bar> < 2 ^ 31" "dstack vm = s @ [num_bytes x, num_bytes a, num_bytes b]"
  shows "opcodeWithin vm = pushes vm s (of_bool (a \<le> x \<and> x < b))"
proof -
  have w: "\<bar>x\<bar> < 2 ^ 62" "\<bar>a\<bar> < 2 ^ 62" "\<bar>b\<bar> < 2 ^ 62" using assms by simp_all
  have p: "PopInt (s @ [num_bytes x, num_bytes a, num_bytes b]) = Inr (word_of_int b, s @ [num_bytes x, num_bytes a])"
    using pop_int_two [OF assms(2,3), of "s @ [num_bytes x]"] by simp
  have q: "PushInt 0 s = Inr (s @ [num_bytes 0])" "PushInt 1 s = Inr (s @ [num_bytes 1])"
    using push_int_num [of 0 s] push_int_num [of 1 s] by simp_all
  show ?thesis
    using assms word_compare(1) [OF w(1,3)] word_compare(2) [OF w(2,1)] q
    by (simp add: opcodeWithin_def on_dstack_def p pop_int_two pop_int_num pushes_def del: pop_int_simps)
qed

text \<open>C28: On the encodings of two integers \<open>a\<close> and \<open>b\<close> of absolute value below \<open>2^31\<close>, \<open>b\<close> on top, every
  arithmetic and comparison opcode leaves the encoding of its result without wrap-around: sum,
  difference, minimum, maximum, the two connectives and the six comparisons with \<open>a\<close> as the left operand,
  a truth value being 1 or 0; the unary ones act on \<open>b\<close>; the verifying one removes both
  or fails; and with a third such integer below, \<open>OP_WITHIN\<close> tells whether it is at least \<open>a\<close> and less than \<open>b\<close>.
\<close>

theorem number_opcodes:
  assumes a: "\<bar>a\<bar> < 2 ^ 31" and b: "\<bar>b\<bar> < 2 ^ 31" and st: "dstack vm = s @ [num_bytes a, num_bytes b]"
  shows "opcodeAdd vm = pushes vm s (a + b) \<and> opcodeSub vm = pushes vm s (a - b)
    \<and> opcodeMin vm = pushes vm s (min a b) \<and> opcodeMax vm = pushes vm s (max a b)
    \<and> opcodeBoolAnd vm = pushes vm s (of_bool (a \<noteq> 0 \<and> b \<noteq> 0)) \<and> opcodeBoolOr vm = pushes vm s (of_bool (a \<noteq> 0 \<or> b \<noteq> 0))
    \<and> opcodeNumEqual vm = pushes vm s (of_bool (a = b)) \<and> opcodeNumNotEqual vm = pushes vm s (of_bool (a \<noteq> b))
    \<and> opcodeLessThan vm = pushes vm s (of_bool (a < b)) \<and> opcodeGreaterThan vm = pushes vm s (of_bool (a > b))
    \<and> opcodeLessThanOrEqual vm = pushes vm s (of_bool (a \<le> b)) \<and> opcodeGreaterThanOrEqual vm = pushes vm s (of_bool (a \<ge> b))
    \<and> opcodeNumEqualVerify vm = (if a = b then Inr (vm\<lparr>dstack := s\<rparr>) else Inl (Fails ErrNumEqualVerify))
    \<and> opcode1Add vm = pushes vm (s @ [num_bytes a]) (b + 1) \<and> opcode1Sub vm = pushes vm (s @ [num_bytes a]) (b - 1)
    \<and> opcodeNegate vm = pushes vm (s @ [num_bytes a]) (- b) \<and> opcodeAbs vm = pushes vm (s @ [num_bytes a]) \<bar>b\<bar>
    \<and> opcodeNot vm = pushes vm (s @ [num_bytes a]) (of_bool (b = 0))
    \<and> opcode0NotEqual vm = pushes vm (s @ [num_bytes a]) (of_bool (b \<noteq> 0))
    \<and> (\<forall>r x. s = r @ [num_bytes x] \<longrightarrow> \<bar>x\<bar> < 2 ^ 31 \<longrightarrow> opcodeWithin vm = pushes vm r (of_bool (a \<le> x \<and> x < b)))"
proof -
  have top: "dstack vm = (s @ [num_bytes a]) @ [num_bytes b]" using st by simp
  have "opcodeWithin vm = pushes vm r (of_bool (a \<le> x \<and> x < b))" if "s = r @ [num_bytes x]" "\<bar>x\<bar> < 2 ^ 31" for r x
    by (rule within_number) (use that a b st in simp_all)
  then show ?thesis
    using binary_numbers [OF a b st] unary_numbers [OF b top] numEqualVerify [OF a b st] by blast
qed

definition empty_engine :: engine where
  "empty_engine = \<lparr>scriptVersion = 0, scripts = [], scriptIdx = 0, scriptOff = 0, dstack = [], astack = [],
     txLockTime = 0, txSequences = [], txIdx = 0, condStack = [], numOps = 0, flags = 0, isP2SH = False,
     savedFirstStack = []\<rparr>"

lemma number_opcodes_witness:
  "opcodeAdd (empty_engine\<lparr>dstack := [num_bytes 50, num_bytes 100, num_bytes 200]\<rparr>)
     = Inr (empty_engine\<lparr>dstack := [num_bytes 50, num_bytes 300]\<rparr>)
   \<and> opcodeWithin (empty_engine\<lparr>dstack := [num_bytes 50, num_bytes 100, num_bytes 200]\<rparr>)
     = Inr (empty_engine\<lparr>dstack := [num_bytes 0]\<rparr>)"
  using number_opcodes [of 100 200 "empty_engine\<lparr>dstack := [num_bytes 50, num_bytes 100, num_bytes 200]\<rparr>" "[num_bytes 50]"]
  by (simp add: pushes_def)

end
