(* ===== verification/KaspaStructured.thy ===== *)
theory KaspaStructured
  imports KaspaNumbers
begin

text \<open>
  The conditionals of kaspa scripts. The engine runs a flat list of opcodes and keeps a stack of
  conditions; \<open>code\<close> is the structured form, where a conditional has a list of branches, separated
  by \<open>OP_ELSE\<close> in the script, that are run and passed over in turn. The meaning of structured code
  is a function that never looks at the stack of conditions, and the engine refines it.
\<close>

datatype code = Done | Do parsedOpcode code | Cond bool branches code
  and branches = Last code | Alt code branches

definition table_op :: "byte \<Rightarrow> parsedOpcode" where
  "table_op b = \<lparr>pop_opcode = opcodeArray b, pop_data = None\<rparr>"

primrec compile_code :: "code \<Rightarrow> parsedOpcode list"
  and compile_branches :: "branches \<Rightarrow> parsedOpcode list" where
  "compile_code Done = []"
| "compile_code (Do pop c) = pop # compile_code c"
| "compile_code (Cond negated bs c) = table_op (if negated then 0x64 else 0x63) # compile_branches bs
     @ table_op 0x68 # compile_code c"
| "compile_branches (Last c) = compile_code c"
| "compile_branches (Alt c bs) = compile_code c @ table_op 0x67 # compile_branches bs"

text \<open>One opcode with the check of the stacks behind it, and a list of them, as \<open>Step\<close> runs them.\<close>

definition fits :: "engine \<Rightarrow> step_result" where
  "fits vm = (if 244 < Depth (dstack vm) + Depth (astack vm) then Inl (Fails ErrStackOverflow) else Inr vm)"

definition advance :: "engine \<Rightarrow> engine" where
  "advance vm = vm\<lparr>scriptOff := scriptOff vm + 1\<rparr>"

definition step_op :: "script_lib \<Rightarrow> parsedOpcode \<Rightarrow> engine \<Rightarrow> step_result" where
  "step_op L pop vm = andThen (executeOpcode L pop (advance vm)) fits"

fun run_ops :: "script_lib \<Rightarrow> parsedOpcode list \<Rightarrow> engine \<Rightarrow> step_result" where
  "run_ops L [] vm = Inr vm"
| "run_ops L (pop # pops) vm = andThen (step_op L pop vm) (run_ops L pops)"

text \<open>
  The meaning of structured code. \<open>count\<close> is what a conditional opcode does beside the condition,
  \<open>pass\<close> what is left of an opcode in a branch that is not taken.
\<close>

definition tick :: "engine \<Rightarrow> step_result" where
  "tick vm = (if 201 < numOps vm + 1 then Inl (Fails ErrTooManyOperations)
     else Inr (vm\<lparr>numOps := numOps vm + 1\<rparr>))"

definition count :: "engine \<Rightarrow> step_result" where
  "count vm = andThen (tick (advance vm)) fits"

definition pass :: "parsedOpcode \<Rightarrow> engine \<Rightarrow> step_result" where
  "pass pop vm = (if isDisabled pop then Inl (Fails ErrDisabledOpcode)
     else if alwaysIllegal pop then Inl (Fails ErrReservedOpcode)
     else andThen (if 0x60 < pop_value pop then tick (advance vm)
       else if 520 < length (data_of pop) then Inl (Fails ErrElementTooBig) else Inr (advance vm)) fits)"

primrec skip_code :: "code \<Rightarrow> engine \<Rightarrow> step_result"
  and skip_branches :: "branches \<Rightarrow> engine \<Rightarrow> step_result" where
  "skip_code Done = Inr"
| "skip_code (Do pop c) = (\<lambda>vm. andThen (pass pop vm) (skip_code c))"
| "skip_code (Cond negated bs c) = (\<lambda>vm. andThen (count vm) (\<lambda>vm. andThen (skip_branches bs vm) (\<lambda>vm.
     andThen (count vm) (skip_code c))))"
| "skip_branches (Last c) = skip_code c"
| "skip_branches (Alt c bs) = (\<lambda>vm. andThen (skip_code c vm) (\<lambda>vm. andThen (count vm) (skip_branches bs)))"

primrec run_code :: "script_lib \<Rightarrow> code \<Rightarrow> engine \<Rightarrow> step_result"
  and run_branches :: "script_lib \<Rightarrow> branches \<Rightarrow> bool \<Rightarrow> engine \<Rightarrow> step_result" where
  "run_code L Done = Inr"
| "run_code L (Do pop c) = (\<lambda>vm. andThen (step_op L pop vm) (run_code L c))"
| "run_code L (Cond negated bs c) = (\<lambda>vm. andThen (tick (advance vm)) (\<lambda>vm. andThen (popIfBool vm) (\<lambda>(ok, vm).
     andThen (fits vm) (\<lambda>vm. andThen (run_branches L bs (ok \<noteq> negated) vm) (\<lambda>vm.
     andThen (count vm) (run_code L c))))))"
| "run_branches L (Last c) = (\<lambda>taken vm. if taken then run_code L c vm else skip_code c vm)"
| "run_branches L (Alt c bs) = (\<lambda>taken vm. andThen (if taken then run_code L c vm else skip_code c vm) (\<lambda>vm.
     andThen (count vm) (run_branches L bs (\<not> taken))))"

text \<open>The opcodes between the conditionals are not conditionals themselves.\<close>

definition plain_op :: "parsedOpcode \<Rightarrow> bool" where
  "plain_op pop \<longleftrightarrow> \<not> isConditional pop \<and> from_table pop"

primrec plain_code :: "code \<Rightarrow> bool" and plain_branches :: "branches \<Rightarrow> bool" where
  "plain_code Done \<longleftrightarrow> True"
| "plain_code (Do pop c) \<longleftrightarrow> plain_op pop \<and> plain_code c"
| "plain_code (Cond negated bs c) \<longleftrightarrow> plain_branches bs \<and> plain_code c"
| "plain_branches (Last c) \<longleftrightarrow> plain_code c"
| "plain_branches (Alt c bs) \<longleftrightarrow> plain_code c \<and> plain_branches bs"

subsection \<open>Opcodes under a stack of conditions\<close>

definition under :: "cond_value list \<Rightarrow> step_result \<Rightarrow> step_result" where
  "under cs r = andThen r (\<lambda>v. Inr (v\<lparr>condStack := cs\<rparr>))"

lemma under_simps [simp]: "under cs (Inl e) = Inl e" "under cs (Inr v) = Inr (v\<lparr>condStack := cs\<rparr>)"
  by (simp_all add: under_def)

lemma run_ops_append: "run_ops L (xs @ ys) vm = andThen (run_ops L xs vm) (run_ops L ys)"
proof (induction xs arbitrary: vm)
  case (Cons x xs)
  then show ?case by (cases "step_op L x vm") simp_all
qed simp

lemma on_dstack_under: "on_dstack f (vm\<lparr>condStack := cs\<rparr>) = under cs (on_dstack f vm)"
  by (cases "f (dstack vm)") (simp_all add: on_dstack_def)

lemma verify_under: "abstractVerify c (vm\<lparr>condStack := cs\<rparr>) = under cs (abstractVerify c vm)"
  by (cases "PopBool (dstack vm)") (auto simp: abstractVerify_def)

lemma under_andThen: "f (vm\<lparr>condStack := cs\<rparr>) = under cs (f vm) \<Longrightarrow> (\<And>v. g (v\<lparr>condStack := cs\<rparr>) = under cs (g v)) \<Longrightarrow>
    andThen (f (vm\<lparr>condStack := cs\<rparr>)) g = under cs (andThen (f vm) g)"
  by (cases "f vm") simp_all

definition cond_handler :: "op_handler \<Rightarrow> bool" where
  "cond_handler h \<longleftrightarrow> h = H_If \<or> h = H_NotIf \<or> h = H_Else \<or> h = H_Endif"

lemma run_handler_under:
  assumes "\<not> cond_handler h"
  shows "run_handler L h pop (vm\<lparr>condStack := cs\<rparr>) = under cs (run_handler L h pop vm)"
proof -
  have eq: "opcodeEqualVerify (vm\<lparr>condStack := cs\<rparr>) = under cs (opcodeEqualVerify vm)"
    "opcodeNumEqualVerify (vm\<lparr>condStack := cs\<rparr>) = under cs (opcodeNumEqualVerify vm)"
    unfolding opcodeEqualVerify_def opcodeNumEqualVerify_def opcodeEqual_def opcodeNumEqual_def binary_op_def
    by (rule under_andThen; rule on_dstack_under verify_under)+
  have lock: "opcodeCheckLockTimeVerify L (vm\<lparr>condStack := cs\<rparr>) = under cs (opcodeCheckLockTimeVerify L vm)"
    "opcodeCheckSequenceVerify L (vm\<lparr>condStack := cs\<rparr>) = under cs (opcodeCheckSequenceVerify L vm)"
    by (auto simp: opcodeCheckLockTimeVerify_def opcodeCheckSequenceVerify_def input_sequence_def Let_def andThen_def
      split: sum.splits)
  have alt: "opcodeToAltStack (vm\<lparr>condStack := cs\<rparr>) = under cs (opcodeToAltStack vm)"
    "opcodeFromAltStack (vm\<lparr>condStack := cs\<rparr>) = under cs (opcodeFromAltStack vm)"
    by (auto simp: opcodeToAltStack_def opcodeFromAltStack_def andThen_def split: sum.splits)
  show ?thesis
    using assms
    by (cases h; simp only: run_handler.simps dstack_defs opcodeVerify_def cond_handler_def op_handler.simps simp_thms)
      (rule on_dstack_under verify_under eq lock alt | (simp add: handler_defs; fail))+
qed

lemma plain_handler: "plain_op pop \<Longrightarrow> op_func (pop_opcode pop) = Some h \<Longrightarrow> \<not> cond_handler h"
proof -
  assume plain: "plain_op pop" and h: "op_func (pop_opcode pop) = Some h"
  then obtain b where b: "pop_opcode pop = opcodeArray b" by (auto simp: plain_op_def from_table_def)
  have m: "unat b \<notin> missing" using h opcodeArray_missing [of b] by (auto simp: b zero_opcode_def)
  have "b = 0x63 \<or> b = 0x64 \<or> b = 0x67 \<or> b = 0x68" if "cond_handler h"
    using opcodeArray_row [OF m] h that by (auto simp: cond_handler_def row_ok_def b word_unat_eq_iff)
  moreover have "pop_value pop = b" if "b = 0x63 \<or> b = 0x64 \<or> b = 0x67 \<or> b = 0x68"
    using that m by (auto simp: pop_value_def b opcodeArray_value)
  ultimately show ?thesis using plain by (auto simp: plain_op_def isConditional_def)
qed

definition executing :: "cond_value list \<Rightarrow> bool" where
  "executing cs \<longleftrightarrow> cs = [] \<or> last cs = OpCondTrue"

lemma executing_iff: "isBranchExecuting vm \<longleftrightarrow> executing (condStack vm)"
  by (simp add: isBranchExecuting_def executing_def)

lemma fits_under: "fits (vm\<lparr>condStack := cs\<rparr>) = under cs (fits vm)"
  by (simp add: fits_def)

lemma tick_under: "tick (vm\<lparr>condStack := cs\<rparr>) = under cs (tick vm)"
  by (simp add: tick_def)

lemma advance_under: "advance (vm\<lparr>condStack := cs\<rparr>) = (advance vm)\<lparr>condStack := cs\<rparr>"
  by (simp add: advance_def)

lemma execute_plain:
  assumes "plain_op pop" "condStack vm = []" "executing cs"
  shows "executeOpcode L pop (vm\<lparr>condStack := cs\<rparr>) = under cs (executeOpcode L pop vm)"
proof -
  have h: "run_handler L h pop (v\<lparr>condStack := cs\<rparr>) = under cs (run_handler L h pop v)"
    if "op_func (pop_opcode pop) = Some h" for h v
    by (rule run_handler_under [OF plain_handler [OF assms(1) that]])
  have h': "run_handler L h pop (v\<lparr>condStack := cs, numOps := n\<rparr>) = under cs (run_handler L h pop (v\<lparr>numOps := n\<rparr>))"
    if "op_func (pop_opcode pop) = Some h" for h v n
  proof -
    have "v\<lparr>condStack := cs, numOps := n\<rparr> = v\<lparr>numOps := n, condStack := cs\<rparr>" by simp
    then show ?thesis by (simp only: h [OF that])
  qed
  have nil: "executing []" by (simp add: executing_def)
  show ?thesis
    using assms(2,3) by (simp add: executeOpcode_def executing_iff nil h h' split: option.splits)
qed

lemma step_plain:
  assumes "plain_op pop" "condStack vm = []" "executing cs"
  shows "step_op L pop (vm\<lparr>condStack := cs\<rparr>) = under cs (step_op L pop vm)"
  unfolding step_op_def advance_under
  by (rule under_andThen) (rule execute_plain [OF assms(1) _ assms(3)], simp add: advance_def assms(2), rule fits_under)

lemma step_skipped:
  assumes "plain_op pop" "\<not> executing cs"
  shows "step_op L pop (vm\<lparr>condStack := cs\<rparr>) = under cs (pass pop vm)"
  using assms
  by (auto simp: step_op_def pass_def executeOpcode_def executing_iff plain_op_def tick_def advance_def fits_under
    andThen_def fits_def split: sum.splits)

subsection \<open>The conditional opcodes\<close>

lemma table_op_facts:
  assumes "unat b \<notin> missing" "unat b < 178"
  shows "pop_value (table_op b) = b" "data_of (table_op b) = []"
  using assms by (simp_all add: table_op_def pop_value_def opcodeArray_value data_of_def)

lemma cond_rows:
  "op_func (pop_opcode (table_op 0x63)) = Some H_If" "op_func (pop_opcode (table_op 0x64)) = Some H_NotIf"
  "op_func (pop_opcode (table_op 0x67)) = Some H_Else" "op_func (pop_opcode (table_op 0x68)) = Some H_Endif"
  using opcodeArray_row [of "0x63"] opcodeArray_row [of "0x64"] opcodeArray_row [of "0x67"] opcodeArray_row [of "0x68"]
  by (simp_all add: row_ok_def missing_def table_op_def)

lemma cond_step:
  assumes "b \<in> {0x63, 0x64, 0x67, 0x68}" "op_func (pop_opcode (table_op b)) = Some h"
  shows "step_op L (table_op b) vm = andThen (andThen (tick (advance vm)) (run_handler L h (table_op b))) fits"
proof -
  have v: "pop_value (table_op b) = b" using assms(1) by (auto simp: table_op_facts missing_def)
  then have "isConditional (table_op b)" "\<not> isDisabled (table_op b)" "\<not> alwaysIllegal (table_op b)" "0x60 < pop_value (table_op b)"
    "\<not> pop_value (table_op b) \<le> 0x4e"
    using assms(1) by (auto simp: isConditional_def isDisabled_def alwaysIllegal_def)
  then show ?thesis
    by (simp add: step_op_def executeOpcode_def tick_def assms(2))
qed

lemma step_if:
  assumes "executing cs"
  shows "step_op L (table_op (if negated then 0x64 else 0x63)) (vm\<lparr>condStack := cs\<rparr>) =
    andThen (tick (advance vm)) (\<lambda>vm. andThen (popIfBool vm) (\<lambda>(ok, vm). andThen (fits vm) (\<lambda>vm.
      Inr (vm\<lparr>condStack := cs @ [if ok \<noteq> negated then OpCondTrue else OpCondFalse]\<rparr>))))"
proof -
  have pop: "popIfBool (v\<lparr>condStack := cs\<rparr>) = andThen (popIfBool v) (\<lambda>(ok, v). Inr (ok, v\<lparr>condStack := cs\<rparr>))" for v
    by (auto simp: popIfBool_def andThen_def split: sum.splits)
  show ?thesis
    using assms
    by (cases negated)
      (auto simp: cond_step cond_rows advance_under tick_under andThen_def under_def opcodeIf_def opcodeNotIf_def
        executing_iff pop fits_def split: sum.splits)
qed

lemma step_if_skipped:
  assumes "\<not> executing cs"
  shows "step_op L (table_op (if negated then 0x64 else 0x63)) (vm\<lparr>condStack := cs\<rparr>) = under (cs @ [OpCondSkip]) (count vm)"
  using assms
  by (cases negated)
    (auto simp: cond_step cond_rows advance_under tick_under andThen_def under_def opcodeIf_def opcodeNotIf_def
      executing_iff count_def fits_def split: sum.splits)

lemma step_else:
  "step_op L (table_op 0x67) (vm\<lparr>condStack := cs @ [c]\<rparr>) = under (cs @ [case c of
     OpCondTrue \<Rightarrow> OpCondFalse | OpCondFalse \<Rightarrow> OpCondTrue | OpCondSkip \<Rightarrow> OpCondSkip]) (count vm)"
  by (auto simp: cond_step cond_rows advance_under tick_under andThen_def under_def opcodeElse_def count_def fits_def
    split: sum.splits)

lemma step_endif:
  "step_op L (table_op 0x68) (vm\<lparr>condStack := cs @ [c]\<rparr>) = under cs (count vm)"
  by (auto simp: cond_step cond_rows advance_under tick_under andThen_def under_def opcodeEndif_def count_def fits_def
    split: sum.splits)

subsection \<open>The engine refines structured code\<close>

text \<open>The meaning of structured code leaves the stack of conditions as it is.\<close>

definition keeps_cond :: "(engine \<Rightarrow> step_result) \<Rightarrow> bool" where
  "keeps_cond f \<longleftrightarrow> (\<forall>vm v. f vm = Inr v \<longrightarrow> condStack vm = [] \<longrightarrow> condStack v = [])"

lemma keeps_cond_andThen: "keeps_cond f \<Longrightarrow> keeps_cond g \<Longrightarrow> keeps_cond (\<lambda>vm. andThen (f vm) g)"
  by (auto simp: keeps_cond_def andThen_Inr)

lemma count_cond: "keeps_cond count" and fits_cond: "keeps_cond fits"
  by (auto simp: keeps_cond_def count_def tick_def fits_def advance_def andThen_Inr split: if_splits)

lemma pass_cond: "keeps_cond (pass pop)"
  by (auto simp: keeps_cond_def pass_def tick_def fits_def advance_def andThen_Inr split: if_splits)

lemma step_plain_cond: "plain_op pop \<Longrightarrow> keeps_cond (step_op L pop)"
proof (unfold keeps_cond_def, intro allI impI)
  fix vm v assume plain: "plain_op pop" and s: "step_op L pop vm = Inr v" and c: "condStack vm = []"
  have vm: "vm\<lparr>condStack := []\<rparr> = vm" using c by simp
  have "step_op L pop vm = under [] (step_op L pop vm)"
    using step_plain [OF plain c, of "[]" L] by (simp add: executing_def vm)
  then have "v = v\<lparr>condStack := []\<rparr>" by (simp add: s)
  from arg_cong [OF this, of condStack] show "condStack v = []" by simp
qed

lemma Inr_cond: "keeps_cond Inr"
  by (simp add: keeps_cond_def)

lemmas cond_rules = keeps_cond_andThen count_cond fits_cond pass_cond step_plain_cond Inr_cond

lemma skip_cond: "plain_code c \<Longrightarrow> keeps_cond (skip_code c)" "plain_branches bs \<Longrightarrow> keeps_cond (skip_branches bs)"
  by (induction c and bs) (simp_all add: cond_rules)

lemma pop_if_cond: "popIfBool vm = Inr (ok, v) \<Longrightarrow> condStack v = condStack vm"
  using popIfBool_Inr [of vm ok v] by auto

lemma tick_cond: "keeps_cond (\<lambda>vm. tick (advance vm))"
  by (auto simp: keeps_cond_def tick_def advance_def split: if_splits)

text \<open>
  Opcodes that are passed over, and the branches of a conditional, up to the opcode behind its end.
\<close>

lemma skip_refines:
  "plain_code c \<Longrightarrow> \<not> executing cs \<Longrightarrow>
     run_ops L (compile_code c @ rest) (vm\<lparr>condStack := cs\<rparr>) = andThen (skip_code c vm) (\<lambda>v. run_ops L rest (v\<lparr>condStack := cs\<rparr>))"
  "plain_branches bs \<Longrightarrow>
     run_ops L (compile_branches bs @ table_op 0x68 # rest) (vm\<lparr>condStack := cs' @ [OpCondSkip]\<rparr>)
       = andThen (skip_branches bs vm) (\<lambda>v. andThen (count v) (\<lambda>v. run_ops L rest (v\<lparr>condStack := cs'\<rparr>)))"
proof (induction c and bs arbitrary: vm cs rest and vm cs' rest)
  case (Do pop c)
  then show ?case by (cases "pass pop vm") (simp_all add: step_skipped)
next
  case (Cond negated bs c)
  then show ?case
    by (cases "count vm"; simp add: step_if_skipped) (auto simp: andThen_def split: sum.splits)
next
  case (Last c)
  have "\<not> executing (cs' @ [OpCondSkip])" by (simp add: executing_def)
  with Last show ?case by (auto simp: step_endif andThen_def under_def split: sum.splits)
next
  case (Alt c bs)
  have "\<not> executing (cs' @ [OpCondSkip])" by (simp add: executing_def)
  with Alt show ?case by (auto simp: step_else andThen_def under_def split: sum.splits)
qed simp

lemma run_cond:
  "plain_code c \<Longrightarrow> keeps_cond (run_code L c)"
  "plain_branches bs \<Longrightarrow> keeps_cond (run_branches L bs taken)"
proof (induction c and bs arbitrary: and taken)
  case (Cond negated bs c)
  have "keeps_cond (\<lambda>vm. andThen (popIfBool vm) (\<lambda>(ok, vm). andThen (fits vm) (\<lambda>vm.
      andThen (run_branches L bs (ok \<noteq> negated) vm) (\<lambda>vm. andThen (count vm) (run_code L c)))))"
  proof -
    have "keeps_cond (\<lambda>vm. andThen (fits vm) (\<lambda>vm. andThen (run_branches L bs b vm) (\<lambda>vm. andThen (count vm) (run_code L c))))" for b
      using Cond by (intro keeps_cond_andThen fits_cond count_cond) simp_all
    then show ?thesis by (fastforce simp: keeps_cond_def andThen_Inr dest: pop_if_cond)
  qed
  then show ?case using keeps_cond_andThen [OF tick_cond] by simp
next
  case (Alt c bs)
  then have "keeps_cond (\<lambda>vm. if taken then run_code L c vm else skip_code c vm)"
    using skip_cond(1) [of c] by (cases taken) simp_all
  with Alt show ?case by (simp add: keeps_cond_andThen count_cond)
next
  case (Last c)
  then show ?case using skip_cond(1) [of c] by (cases taken) simp_all
qed (simp_all add: cond_rules)

lemma run_refines:
  "plain_code c \<Longrightarrow> executing cs \<Longrightarrow> condStack vm = [] \<Longrightarrow>
     run_ops L (compile_code c @ rest) (vm\<lparr>condStack := cs\<rparr>) = andThen (run_code L c vm) (\<lambda>v. run_ops L rest (v\<lparr>condStack := cs\<rparr>))"
  "plain_branches bs \<Longrightarrow> condStack vm = [] \<Longrightarrow>
     run_ops L (compile_branches bs @ table_op 0x68 # rest) (vm\<lparr>condStack := cs' @ [if taken then OpCondTrue else OpCondFalse]\<rparr>)
       = andThen (run_branches L bs taken vm) (\<lambda>v. andThen (count v) (\<lambda>v. run_ops L rest (v\<lparr>condStack := cs'\<rparr>)))"
proof (induction c and bs arbitrary: vm cs rest and vm cs' rest taken)
  case (Do pop c)
  show ?case
  proof (cases "step_op L pop vm")
    case (Inr v)
    moreover have "condStack v = []" using step_plain_cond [of pop L] Do.prems Inr by (auto simp: keeps_cond_def)
    ultimately show ?thesis using Do by (simp add: step_plain)
  qed (use Do.prems in \<open>simp add: step_plain\<close>)
next
  case (Cond negated bs c)
  show ?case
  proof (cases "tick (advance vm)")
    case (Inr u)
    have u: "condStack u = []" using tick_cond Inr Cond.prems by (auto simp: keeps_cond_def)
    show ?thesis
    proof (cases "popIfBool u")
      case p: (Inr q)
      obtain ok v where q: "q = (ok, v)" by (cases q)
      have v: "condStack v = []" using pop_if_cond [of u ok v] p q u by simp
      show ?thesis
      proof (cases "fits v")
        case f: (Inr w)
        then have w: "w = v" by (simp add: fits_def split: if_splits)
        have IH: "run_ops L (compile_branches bs @ table_op 0x68 # compile_code c @ rest)
            (v\<lparr>condStack := cs @ [if ok \<noteq> negated then OpCondTrue else OpCondFalse]\<rparr>)
          = andThen (run_branches L bs (ok \<noteq> negated) v) (\<lambda>v. andThen (count v) (\<lambda>v. run_ops L (compile_code c @ rest) (v\<lparr>condStack := cs\<rparr>)))"
          by (rule Cond.IH(1)) (use Cond.prems v in simp_all)
        show ?thesis
        proof (cases "run_branches L bs (ok \<noteq> negated) v")
          case r: (Inr x)
          have x: "condStack x = []" using run_cond(2) [of bs L] Cond.prems r v by (auto simp: keeps_cond_def)
          show ?thesis
          proof (cases "count x")
            case c: (Inr y)
            have y: "condStack y = []" using count_cond c x by (auto simp: keeps_cond_def)
            have "run_ops L (compile_code c @ rest) (y\<lparr>condStack := cs\<rparr>)
              = andThen (run_code L c y) (\<lambda>v. run_ops L rest (v\<lparr>condStack := cs\<rparr>))"
              by (rule Cond.IH(2)) (use Cond.prems y in simp_all)
            then show ?thesis using Cond.prems Inr p q f w r c IH by (simp add: step_if)
          qed (use Cond.prems Inr p q f w r IH in \<open>simp add: step_if\<close>)
        qed (use Cond.prems Inr p q f w IH in \<open>simp add: step_if\<close>)
      qed (use Cond.prems Inr p q in \<open>simp add: step_if\<close>)
    qed (use Cond.prems Inr in \<open>simp add: step_if\<close>)
  qed (use Cond.prems in \<open>simp add: step_if\<close>)
next
  case (Last c)
  have t: "executing (cs' @ [OpCondTrue])" "\<not> executing (cs' @ [OpCondFalse])" by (simp_all add: executing_def)
  show ?case
  proof (cases taken)
    case True
    have "run_ops L (compile_code c @ table_op 0x68 # rest) (vm\<lparr>condStack := cs' @ [OpCondTrue]\<rparr>)
      = andThen (run_code L c vm) (\<lambda>v. run_ops L (table_op 0x68 # rest) (v\<lparr>condStack := cs' @ [OpCondTrue]\<rparr>))"
      by (rule Last.IH) (use Last.prems t in simp_all)
    then show ?thesis by (simp add: True step_endif) (auto simp: andThen_def under_def split: sum.splits)
  next
    case False
    then show ?thesis using Last.prems t
      by (simp add: skip_refines(1) step_endif) (auto simp: andThen_def under_def split: sum.splits)
  qed
next
  case (Alt c bs)
  have t: "executing (cs' @ [OpCondTrue])" "\<not> executing (cs' @ [OpCondFalse])" by (simp_all add: executing_def)
  define r where "r = (if taken then run_code L c vm else skip_code c vm)"
  define flag where "flag = (if taken then OpCondTrue else OpCondFalse)"
  define flag' where "flag' = (if \<not> taken then OpCondTrue else OpCondFalse)"
  let ?rest = "table_op 0x67 # compile_branches bs @ table_op 0x68 # rest"
  have c: "run_ops L (compile_code c @ ?rest) (vm\<lparr>condStack := cs' @ [flag]\<rparr>)
      = andThen r (\<lambda>v. run_ops L ?rest (v\<lparr>condStack := cs' @ [flag]\<rparr>))"
  proof (cases taken)
    case True
    then show ?thesis using Alt.IH(1) [of "cs' @ [OpCondTrue]" vm ?rest] Alt.prems t by (simp add: r_def flag_def)
  next
    case False
    then show ?thesis using Alt.prems t skip_refines(1) [of c "cs' @ [OpCondFalse]" L ?rest vm] by (simp add: r_def flag_def)
  qed
  have els: "step_op L (table_op 0x67) (v\<lparr>condStack := cs' @ [flag]\<rparr>) = under (cs' @ [flag']) (count v)" for v
    by (simp add: step_else flag_def flag'_def)
  show ?case
  proof (cases r)
    case (Inr v)
    have "condStack v = []"
      using Inr Alt.prems run_cond(1) [of c L] skip_cond(1) [of c] by (auto simp: r_def keeps_cond_def split: if_splits)
    show ?thesis
    proof (cases "count v")
      case d: (Inr w)
      have w: "condStack w = []" using count_cond d \<open>condStack v = []\<close> by (auto simp: keeps_cond_def)
      have "run_ops L (compile_branches bs @ table_op 0x68 # rest) (w\<lparr>condStack := cs' @ [flag']\<rparr>)
        = andThen (run_branches L bs (\<not> taken) w) (\<lambda>v. andThen (count v) (\<lambda>v. run_ops L rest (v\<lparr>condStack := cs'\<rparr>)))"
        unfolding flag'_def by (rule Alt.IH(2)) (use Alt.prems w in simp_all)
      then show ?thesis using c Inr d by (simp add: els r_def [symmetric] flag_def [symmetric])
    qed (use c Inr in \<open>simp add: els r_def [symmetric] flag_def [symmetric]\<close>)
  qed (use c in \<open>simp add: r_def [symmetric] flag_def [symmetric]\<close>)
qed simp

end
