(* ===== verification/KaspaExecute.thy ===== *)
theory KaspaExecute
  imports KaspaStructured
begin

text \<open>
  Whole executions. The scripts of a transaction that is not pay-to-script-hash run one after the
  other on the same data stack; between two of them the alternate stack and the count of operations
  start again, and the last must leave one true element.
\<close>

subsection \<open>From steps to scripts\<close>

lemma frame_run:
  assumes "executeOpcode L pop (advance vm) = Inr v"
  shows "scripts v = scripts vm" "scriptIdx v = scriptIdx vm" "scriptOff v = scriptOff vm + 1"
    "isP2SH v = isP2SH vm" "scriptVersion v = scriptVersion vm"
proof -
  obtain n where "same_frame ((advance vm)\<lparr>numOps := n\<rparr>) v" by (rule executeOpcode_effect [OF assms])
  from same_frameD [OF this] show "scripts v = scripts vm" "scriptIdx v = scriptIdx vm" "scriptOff v = scriptOff vm + 1"
    "isP2SH v = isP2SH vm" "scriptVersion v = scriptVersion vm"
    by (simp_all add: advance_def)
qed

lemma frame_step:
  assumes "step_op L pop vm = Inr v"
  shows "scripts v = scripts vm" "scriptIdx v = scriptIdx vm" "scriptOff v = scriptOff vm + 1"
    "isP2SH v = isP2SH vm" "scriptVersion v = scriptVersion vm"
  using assms by (auto simp: step_op_def andThen_Inr fits_def frame_run split: if_splits)

lemma frame_ops:
  "run_ops L pops vm = Inr v \<Longrightarrow> scripts v = scripts vm \<and> scriptIdx v = scriptIdx vm
     \<and> scriptOff v = scriptOff vm + length pops \<and> isP2SH v = isP2SH vm \<and> scriptVersion v = scriptVersion vm"
  by (induction pops arbitrary: vm) (auto simp: andThen_Inr dest: frame_step)

lemma frame_fits:
  assumes "run_ops L pops vm = Inr v" "pops \<noteq> []"
  shows "length (dstack v) + length (astack v) \<le> 244"
proof -
  obtain ps p where "pops = ps @ [p]" using assms(2) by (cases pops rule: rev_cases) auto
  with assms(1) obtain u where "step_op L p u = Inr v" by (auto simp: run_ops_append andThen_Inr)
  then show ?thesis by (auto simp: step_op_def andThen_Inr fits_def Depth_def split: if_splits)
qed

definition end_script :: "script_lib \<Rightarrow> engine \<Rightarrow> step_result option" where
  "end_script L v = (case next_script v of None \<Rightarrow> None | Some (Inl e) \<Rightarrow> Some (Inl e)
     | Some (Inr u) \<Rightarrow> (case finish_script u of (done, w) \<Rightarrow> if done then Some (Inr w) else step_loop L w))"

lemma Step_advance:
  assumes "scriptIdx vm < length (scripts vm)" "scriptOff vm < length (scripts vm ! scriptIdx vm)"
  shows "Step L vm = (case executeOpcode L (scripts vm ! scriptIdx vm ! scriptOff vm) (advance vm) of
     Inl e \<Rightarrow> Some (Inl e) | Inr vm \<Rightarrow>
        if 244 < Depth (dstack vm) + Depth (astack vm) then Some (Inl (Fails ErrStackOverflow))
        else if length (scripts vm ! scriptIdx vm) \<le> scriptOff vm then
          (case next_script vm of None \<Rightarrow> None | Some (Inl e) \<Rightarrow> Some (Inl e)
           | Some (Inr vm) \<Rightarrow> Some (Inr (finish_script vm)))
        else Some (Inr (False, vm)))"
  using assms by (simp add: Step_def validPC_def Let_def advance_def)

lemma loop_step:
  assumes "scriptIdx vm < length (scripts vm)" "scriptOff vm < length (scripts vm ! scriptIdx vm)"
  shows "step_loop L vm = (case step_op L (scripts vm ! scriptIdx vm ! scriptOff vm) vm of Inl e \<Rightarrow> Some (Inl e)
    | Inr v \<Rightarrow> if scriptOff vm + 1 = length (scripts vm ! scriptIdx vm) then end_script L v else step_loop L v)"
proof (cases "executeOpcode L (scripts vm ! scriptIdx vm ! scriptOff vm) (advance vm)")
  case (Inl e)
  then show ?thesis by (subst step_loop.simps) (simp add: Step_advance assms step_op_def)
next
  case (Inr v)
  have "length (scripts v ! scriptIdx v) \<le> scriptOff v \<longleftrightarrow> scriptOff vm + 1 = length (scripts vm ! scriptIdx vm)"
    using frame_run [OF Inr] assms by auto
  with Inr show ?thesis
    by (subst step_loop.simps)
      (simp add: Step_advance assms step_op_def fits_def end_script_def split: option.split sum.split)
qed

lemma loop_script:
  assumes "scriptIdx vm < length (scripts vm)" "scriptOff vm < length (scripts vm ! scriptIdx vm)"
  shows "step_loop L vm = (case run_ops L (drop (scriptOff vm) (scripts vm ! scriptIdx vm)) vm of
    Inl e \<Rightarrow> Some (Inl e) | Inr v \<Rightarrow> end_script L v)"
  using assms
proof (induction "length (scripts vm ! scriptIdx vm) - scriptOff vm" arbitrary: vm)
  case (Suc k)
  let ?pops = "scripts vm ! scriptIdx vm"
  have d: "drop (scriptOff vm) ?pops = ?pops ! scriptOff vm # drop (scriptOff vm + 1) ?pops"
    using Suc.prems by (simp add: Cons_nth_drop_Suc)
  show ?case
  proof (cases "step_op L (?pops ! scriptOff vm) vm")
    case (Inr v)
    note f = frame_step [OF Inr]
    show ?thesis
    proof (cases "scriptOff vm + 1 = length ?pops")
      case False
      with Suc f Inr have "step_loop L v = (case run_ops L (drop (scriptOff v) (scripts v ! scriptIdx v)) v of
          Inl e \<Rightarrow> Some (Inl e) | Inr v \<Rightarrow> end_script L v)"
        by (intro Suc.hyps) auto
      then show ?thesis using loop_step [OF Suc.prems, of L] Inr f False by (simp add: d)
    qed (use loop_step [OF Suc.prems, of L] Inr in \<open>simp add: d\<close>)
  qed (use loop_step [OF Suc.prems, of L] in \<open>simp add: d\<close>)
qed simp

subsection \<open>Structured scripts\<close>

definition next_start :: "engine \<Rightarrow> engine" where
  "next_start vm = vm\<lparr>astack := [], numOps := 0, scriptOff := 0, scriptIdx := scriptIdx vm + 1\<rparr>"

fun run_scripts :: "script_lib \<Rightarrow> code list \<Rightarrow> engine \<Rightarrow> step_result" where
  "run_scripts L [] vm = Inr vm"
| "run_scripts L (c # cs) vm = andThen (run_code L c vm) (\<lambda>v. run_scripts L cs (next_start v))"

definition accepts :: "stack \<Rightarrow> script_failure + unit" where
  "accepts s = (case s of [] \<Rightarrow> Inl (Fails ErrEmptyStack)
     | [b] \<Rightarrow> if asBool b then Inr () else Inl (Fails ErrEvalFalse) | _ \<Rightarrow> Inl (Fails ErrCleanStack))"

lemma whole_script:
  assumes "plain_code c" "condStack vm = []"
  shows "run_ops L (compile_code c) vm = run_code L c vm"
proof -
  have "run_ops L (compile_code c @ []) (vm\<lparr>condStack := []\<rparr>)
      = andThen (run_code L c vm) (\<lambda>v. run_ops L [] (v\<lparr>condStack := []\<rparr>))"
    by (rule run_refines(1)) (use assms in \<open>simp_all add: executing_def\<close>)
  moreover have "vm\<lparr>condStack := []\<rparr> = vm" using assms by simp
  moreover have "v\<lparr>condStack := []\<rparr> = v" if "run_code L c vm = Inr v" for v
  proof -
    have "condStack v = []" using run_cond(1) [OF assms(1), of L] that assms(2) by (auto simp: keeps_cond_def)
    then show ?thesis by simp
  qed
  ultimately show ?thesis by (cases "run_code L c vm") simp_all
qed

definition ready :: "nat \<Rightarrow> code list \<Rightarrow> engine \<Rightarrow> bool" where
  "ready i cs vm \<longleftrightarrow> scriptIdx vm = i \<and> drop i (scripts vm) = map compile_code cs \<and> scriptOff vm = 0
     \<and> condStack vm = [] \<and> \<not> isP2SH vm"

lemma ready_script:
  assumes "ready i (c # cs) vm" "compile_code c \<noteq> []" "plain_code c"
  shows "step_loop L vm = (case run_code L c vm of Inl e \<Rightarrow> Some (Inl e) | Inr v \<Rightarrow> end_script L v)"
    and "run_code L c vm = Inr v \<Longrightarrow> ready (Suc i) cs (next_start v)"
    and "run_code L c vm = Inr v \<Longrightarrow> next_script v = Some (Inr (next_start v))"
proof -
  have i: "i < length (scripts vm)" using assms(1) by (cases "i < length (scripts vm)") (simp_all add: ready_def)
  have "scripts vm ! i # drop (Suc i) (scripts vm) = compile_code c # map compile_code cs"
    using assms(1) Cons_nth_drop_Suc [OF i] by (simp add: ready_def)
  then have s: "scripts vm ! i = compile_code c" "drop (Suc i) (scripts vm) = map compile_code cs" by simp_all
  have r: "run_ops L (compile_code c) vm = run_code L c vm"
    using assms by (intro whole_script) (simp_all add: ready_def)
  show "step_loop L vm = (case run_code L c vm of Inl e \<Rightarrow> Some (Inl e) | Inr v \<Rightarrow> end_script L v)"
    using loop_script [of vm L] assms i s by (simp add: ready_def r)
  assume v: "run_code L c vm = Inr v"
  have f: "scripts v = scripts vm" "scriptIdx v = i" "isP2SH v = isP2SH vm"
    using frame_ops [of L "compile_code c" vm v] v assms(1) by (simp_all add: r ready_def)
  have cond: "condStack v = []"
    using run_cond(1) [OF assms(3), of L] v assms(1) by (auto simp: keeps_cond_def ready_def)
  have "length (astack v) < 2 ^ 31" using frame_fits [of L "compile_code c" vm v] v assms(2) by (simp add: r)
  then show "ready (Suc i) cs (next_start v)" "next_script v = Some (Inr (next_start v))"
    using f cond s assms(1) by (simp_all add: ready_def next_start_def next_script_def Let_def)
qed

definition whole_code :: "code \<Rightarrow> bool" where
  "whole_code c \<longleftrightarrow> plain_code c \<and> compile_code c \<noteq> []"

lemma ready_end:
  assumes "ready i cs w" "list_all whole_code cs"
  shows "finish_script w = (cs = [], w)"
proof (cases cs)
  case Nil
  then show ?thesis using assms(1) by (simp add: ready_def finish_script_def)
next
  case (Cons c cs')
  have i: "i < length (scripts w)" using assms(1) Cons by (cases "i < length (scripts w)") (simp_all add: ready_def)
  have "scripts w ! i = compile_code c"
    using assms(1) Cons_nth_drop_Suc [OF i] Cons by (simp add: ready_def)
  then show ?thesis using assms Cons i by (simp add: ready_def finish_script_def whole_code_def)
qed

lemma loop_scripts:
  "ready i (c # cs) vm \<Longrightarrow> list_all whole_code (c # cs) \<Longrightarrow> step_loop L vm = Some (run_scripts L (c # cs) vm)"
proof (induction cs arbitrary: i c vm)
  case Nil
  note r = ready_script [OF Nil(1), of L]
  show ?case
  proof (cases "run_code L c vm")
    case (Inr v)
    then show ?thesis
      using r Nil ready_end [OF r(2)] by (simp add: end_script_def whole_code_def)
  qed (use r Nil in \<open>simp add: whole_code_def\<close>)
next
  case (Cons d cs)
  note r = ready_script [OF Cons.prems(1), of L]
  show ?case
  proof (cases "run_code L c vm")
    case (Inr v)
    then have ready: "ready (Suc i) (d # cs) (next_start v)" using r Cons.prems by (simp add: whole_code_def)
    have whole: "list_all whole_code (d # cs)" using Cons.prems(2) by simp
    show ?thesis
      using r Cons.prems(2) ready_end [OF ready whole] Cons.IH [OF ready whole] Inr
      by (simp add: end_script_def whole_code_def)
  qed (use r Cons.prems in \<open>simp add: whole_code_def\<close>)
qed

lemma ready_frame: "run_scripts L cs vm = Inr w \<Longrightarrow> ready i cs vm \<Longrightarrow> list_all whole_code cs \<Longrightarrow>
    length (scripts w) \<le> scriptIdx w"
proof (induction cs arbitrary: i vm)
  case (Cons c cs)
  then obtain v where v: "run_code L c vm = Inr v" "run_scripts L cs (next_start v) = Inr w" by (auto simp: andThen_Inr)
  with Cons ready_script(2) [OF Cons.prems(2), of L v] show ?case by (simp add: whole_code_def)
qed (simp add: ready_def)

lemma check_accepts:
  assumes "length (scripts w) \<le> scriptIdx w"
  shows "andThen (CheckErrorCondition True w) (\<lambda>_. Inr ()) = accepts (dstack w)"
proof (cases "dstack w" rule: rev_cases)
  case Nil
  then show ?thesis using assms by (simp add: CheckErrorCondition_def accepts_def Depth_def)
next
  case (snoc s b)
  then show ?thesis
  proof (cases s)
    case Nil
    have "PopBool [b] = Inr (asBool b, [])"
      by (simp add: PopBool_def PopByteArray_def nipN_def Depth_def)
    then show ?thesis using assms snoc Nil by (simp add: CheckErrorCondition_def accepts_def Depth_def)
  qed (use assms snoc in \<open>simp add: CheckErrorCondition_def accepts_def Depth_def split: list.split\<close>)
qed

text \<open>C8: The engine implements the structured meaning of scripts. Take an engine that is at the start of
  at least one script, with no conditional open, that is not a pay-to-script-hash spend, and whose
  scripts are compiled from structured code: none is empty, and between the conditionals they have
  opcodes of the table that are no conditionals themselves. Unless the script version is one that the
  consensus library does not know, the engine returns the verdict of running the structured scripts
  one after the other on the same data stack: an error of theirs, or what the last of them leaves on
  the stack, which must be one true element. With an unknown version it accepts without running anything.
\<close>

theorem execute_structured:
  assumes "cs \<noteq> []" "list_all (\<lambda>c. plain_code c \<and> compile_code c \<noteq> []) cs"
    and "scripts vm = map compile_code cs" "scriptIdx vm = 0" "scriptOff vm = 0" "condStack vm = []"
    and "\<not> isP2SH vm"
  shows "Execute L vm = Some (if MaxScriptPublicKeyVersion L < scriptVersion vm then Inr ()
    else andThen (run_scripts L cs vm) (\<lambda>w. accepts (dstack w)))"
proof -
  have ready: "ready 0 cs vm" using assms by (simp add: ready_def)
  have whole: "list_all whole_code cs" using assms(2) unfolding whole_code_def [abs_def] .
  obtain c cs' where cs: "cs = c # cs'" using assms(1) by (cases cs) auto
  have loop: "step_loop L vm = Some (run_scripts L cs vm)"
    using loop_scripts [of 0 c cs' vm L] ready whole by (simp add: cs)
  show ?thesis
  proof (cases "run_scripts L cs vm")
    case (Inr w)
    have "andThen (CheckErrorCondition True w) (\<lambda>_. Inr ()) = accepts (dstack w)"
      by (rule check_accepts [OF ready_frame [OF Inr ready whole]])
    then show ?thesis by (simp add: Execute_def loop Inr)
  qed (simp add: Execute_def loop)
qed

text \<open>A spend whose first script pushes a false element and whose second one takes the branch behind its \<open>OP_ELSE\<close>.\<close>

definition example_lib :: script_lib where
  "example_lib = \<lparr>MaxScriptPublicKeyVersion = 0, LockTimeThreshold = 500000000000, MaxTxInSequenceNum = - 1,
     SequenceLockTimeDisabled = 2 ^ 63, SequenceLockTimeMask = 0xffffffff, lib_sha256 = \<lambda>_. [], lib_blake2b = \<lambda>_. []\<rparr>"

definition example_codes :: "code list" where
  "example_codes = [Do (table_op 0) Done,
     Cond False (Alt (Do (table_op 0x6a) Done) (Last (Do (table_op 0x51) Done))) Done]"

definition example_vm :: engine where
  "example_vm = empty_engine\<lparr>scripts := map compile_code example_codes\<rparr>"

lemma example_rows:
  "op_func (pop_opcode (table_op 0)) = Some H_False" "op_func (pop_opcode (table_op 0x51)) = Some H_N"
  by (simp_all add: table_op_def opcodeArray_def opcode_at_def opcode_rows_def push_rows_def op_entry_def upt_rec)

lemma example_run: "andThen (run_scripts example_lib example_codes example_vm) (\<lambda>w. accepts (dstack w)) = Inr ()"
proof -
  have one: "script_num_bytes 1 = Some [1]" "asBool [1]" by code_simp+
  show ?thesis
    by (simp add: example_codes_def example_vm_def empty_engine_def step_op_def executeOpcode_def advance_def tick_def
      pass_def count_def fits_def example_rows table_op_facts missing_def isDisabled_def alwaysIllegal_def
      isBranchExecuting_def isConditional_def opcodeFalse_def PushByteArray_def Depth_def next_start_def popIfBool_def
      PopByteArray_def nipN_def accepts_def opcodeN_def on_dstack_def PushInt_def one)
qed

lemma execute_structured_witness: "Execute example_lib example_vm = Some (Inr ())"
proof -
  have "from_table (table_op b)" for b by (simp add: from_table_def table_op_def)
  moreover have "\<not> isConditional (table_op b)" if "b \<in> {0, 0x51, 0x6a}" for b
    using that by (auto simp: isConditional_def table_op_facts missing_def)
  ultimately have "list_all (\<lambda>c. plain_code c \<and> compile_code c \<noteq> []) example_codes"
    by (simp add: example_codes_def plain_op_def)
  then have "Execute example_lib example_vm = Some (if MaxScriptPublicKeyVersion example_lib < scriptVersion example_vm then Inr ()
      else andThen (run_scripts example_lib example_codes example_vm) (\<lambda>w. accepts (dstack w)))"
    by (intro execute_structured) (simp_all add: example_codes_def example_vm_def empty_engine_def)
  then show ?thesis by (simp add: example_run)
qed

text \<open>The first step of that execution, which ends the first script.\<close>

definition example_next :: engine where
  "example_next = next_start (example_vm\<lparr>dstack := [[]]\<rparr>)"

lemma example_step: "Step example_lib example_vm = Some (Inr (False, example_next))"
  by (simp add: Step_def validPC_def example_codes_def example_next_def example_vm_def empty_engine_def executeOpcode_def
    example_rows table_op_facts missing_def isDisabled_def alwaysIllegal_def isBranchExecuting_def opcodeFalse_def
    PushByteArray_def Depth_def next_script_def finish_script_def next_start_def)

lemma engine_limits_witness:
  "length (dstack example_next) + length (astack example_next) \<le> 244 \<and> length (savedFirstStack example_next) \<le> 244
     \<and> numOps example_next \<le> 201"
proof -
  have "list_all (list_all from_table) (scripts example_vm)"
    by (simp add: example_vm_def example_codes_def from_table_def table_op_def)
  then have start: "limits example_vm"
    by (simp add: limits_def stacks_good_def example_vm_def empty_engine_def)
  have hashes: "short_hashes example_lib" by (simp add: short_hashes_def example_lib_def)
  have "reaches example_lib example_vm example_next"
    by (rule reaches.step [OF reaches.start example_step])
  then show ?thesis using engine_limits [OF start hashes] by blast
qed

end
