(* ===== verification/KaspaStandard.thy ===== *)
theory KaspaStandard
  imports KaspaExecute
begin

text \<open>
  Making scripts and telling their kind: the builder of scripts, \<^verbatim>\<open>scriptbuilder.go\<close>, and the standard
  scripts, \<^verbatim>\<open>standard.go\<close>, both under \<^verbatim>\<open>chain/kaspa/tx/txscript/\<close>. A builder carries its first error
  with it; its only error is \<open>ErrScriptNotCanonical\<close>, whose text is left out. An index out of range
  and the negation of the least number are panics.
\<close>

datatype standard_error = ErrScriptNotCanonical | ScriptError ErrorCode

record ScriptBuilder =
  sb_script :: bytes
  sb_err :: "standard_error option"

definition NewScriptBuilder :: ScriptBuilder where
  "NewScriptBuilder = \<lparr>sb_script = [], sb_err = None\<rparr>"

definition AddOp :: "byte \<Rightarrow> ScriptBuilder \<Rightarrow> ScriptBuilder" where
  "AddOp opcode b = (if sb_err b \<noteq> None then b
     else if 10000 < length (sb_script b) + 1 then b\<lparr>sb_err := Some ErrScriptNotCanonical\<rparr>
     else b\<lparr>sb_script := sb_script b @ [opcode]\<rparr>)"

definition AddOps :: "bytes \<Rightarrow> ScriptBuilder \<Rightarrow> ScriptBuilder" where
  "AddOps opcodes b = (if sb_err b \<noteq> None then b
     else if 10000 < length (sb_script b) + length opcodes then b\<lparr>sb_err := Some ErrScriptNotCanonical\<rparr>
     else b\<lparr>sb_script := sb_script b @ opcodes\<rparr>)"

definition canonicalDataSize :: "bytes \<Rightarrow> nat" where
  "canonicalDataSize data = (let dataLen = length data in
     if dataLen = 0 then 1
     else if dataLen = 1 \<and> data ! 0 \<le> 16 then 1
     else if dataLen = 1 \<and> data ! 0 = 0x81 then 1
     else if dataLen < 0x4c then 1 + dataLen
     else if dataLen \<le> 0xff then 2 + dataLen
     else if dataLen \<le> 0xffff then 3 + dataLen
     else 5 + dataLen)"

definition addData :: "bytes \<Rightarrow> ScriptBuilder \<Rightarrow> ScriptBuilder" where
  "addData data b = (let dataLen = length data in
     if dataLen = 0 \<or> dataLen = 1 \<and> data ! 0 = 0 then b\<lparr>sb_script := sb_script b @ [0x00]\<rparr>
     else if dataLen = 1 \<and> data ! 0 \<le> 16 then b\<lparr>sb_script := sb_script b @ [(0x51 - 1) + data ! 0]\<rparr>
     else if dataLen = 1 \<and> data ! 0 = 0x81 then b\<lparr>sb_script := sb_script b @ [0x4f]\<rparr>
     else let b =
       (if dataLen < 0x4c then b\<lparr>sb_script := sb_script b @ [of_nat ((0x01 - 1) + dataLen)]\<rparr>
        else if dataLen \<le> 0xff then b\<lparr>sb_script := sb_script b @ [0x4c, of_nat dataLen]\<rparr>
        else if dataLen \<le> 0xffff then b\<lparr>sb_script := sb_script b @ [0x4d] @ le_bytes 2 dataLen\<rparr>
        else b\<lparr>sb_script := sb_script b @ [0x4e] @ le_bytes 4 dataLen\<rparr>)
       in b\<lparr>sb_script := sb_script b @ data\<rparr>)"

definition AddFullData :: "bytes \<Rightarrow> ScriptBuilder \<Rightarrow> ScriptBuilder" where
  "AddFullData data b = (if sb_err b \<noteq> None then b else addData data b)"

definition AddData :: "bytes \<Rightarrow> ScriptBuilder \<Rightarrow> ScriptBuilder" where
  "AddData data b = (if sb_err b \<noteq> None then b
     else if 10000 < length (sb_script b) + canonicalDataSize data then b\<lparr>sb_err := Some ErrScriptNotCanonical\<rparr>
     else if 520 < length data then b\<lparr>sb_err := Some ErrScriptNotCanonical\<rparr>
     else addData data b)"

text \<open>\<open>None\<close> is the panic of \<^verbatim>\<open>Bytes\<close> on the least number.\<close>

definition AddInt64 :: "i64 \<Rightarrow> ScriptBuilder \<Rightarrow> ScriptBuilder option" where
  "AddInt64 val b = (if sb_err b \<noteq> None then Some b
     else if 10000 < length (sb_script b) + 1 then Some (b\<lparr>sb_err := Some ErrScriptNotCanonical\<rparr>)
     else if val = 0 then Some (b\<lparr>sb_script := sb_script b @ [0x00]\<rparr>)
     else if val = - 1 \<or> 1 \<le>s val \<and> val \<le>s 16 then
       Some (b\<lparr>sb_script := sb_script b @ [ucast ((0x51 - 1) + val)]\<rparr>)
     else (case script_num_bytes val of None \<Rightarrow> None | Some data \<Rightarrow> Some (AddData data b)))"

text \<open>
  The loop that drops the zero bytes at the end, which has passed the first byte when all are zero:
  the index before it is a panic.
\<close>

fun unpadded :: "bytes \<Rightarrow> nat \<Rightarrow> nat option" where
  "unpadded bs 0 = None"
| "unpadded bs (Suc n) = (if bs ! n = 0 then unpadded bs n else Some (Suc n))"

definition addLockTimeOrSequence :: "u64 \<Rightarrow> ScriptBuilder \<Rightarrow> ScriptBuilder option" where
  "addLockTimeOrSequence lockTimeOrSequence b = (if sb_err b \<noteq> None then Some b
     else let bs = le_bytes 8 (unat lockTimeOrSequence) in
       (case unpadded bs 8 of None \<Rightarrow> None | Some unpaddedSize \<Rightarrow> Some (AddData (take unpaddedSize bs) b)))"

definition AddLockTimeNumber :: "u64 \<Rightarrow> ScriptBuilder \<Rightarrow> ScriptBuilder option" where
  "AddLockTimeNumber lockTime b = addLockTimeOrSequence lockTime b"

definition AddSequenceNumber :: "u64 \<Rightarrow> ScriptBuilder \<Rightarrow> ScriptBuilder option" where
  "AddSequenceNumber sequence b = addLockTimeOrSequence sequence b"

definition Reset :: "ScriptBuilder \<Rightarrow> ScriptBuilder" where
  "Reset b = b\<lparr>sb_script := [], sb_err := None\<rparr>"

text \<open>\<^verbatim>\<open>Script\<close> returns the script with the error; its callers here use the script only without one.\<close>

definition Script :: "ScriptBuilder \<Rightarrow> bytes \<times> standard_error option" where
  "Script b = (sb_script b, sb_err b)"

definition script_or_error :: "bytes \<times> standard_error option \<Rightarrow> standard_error + bytes" where
  "script_or_error r = (case r of (script, None) \<Rightarrow> Inr script | (_, Some e) \<Rightarrow> Inl e)"

subsection \<open>Standard scripts\<close>

type_synonym ScriptClass = byte

definition NonStandardTy :: ScriptClass where "NonStandardTy = 0"
definition PubKeyTy :: ScriptClass where "PubKeyTy = 1"
definition PubKeyECDSATy :: ScriptClass where "PubKeyECDSATy = 2"
definition ScriptHashTy :: ScriptClass where "ScriptHashTy = 3"

definition scriptClassToName :: "string list" where
  "scriptClassToName = [''nonstandard'', ''pubkey'', ''pubkeyecdsa'', ''scripthash'']"

definition class_String :: "ScriptClass \<Rightarrow> string option" where
  "class_String t = (if length scriptClassToName < unat t then Some ''Invalid''
     else if unat t < length scriptClassToName then Some (scriptClassToName ! unat t) else None)"

definition isPayToPubkey :: "parsedOpcode list \<Rightarrow> bool" where
  "isPayToPubkey pops \<longleftrightarrow> length pops = 2 \<and> pop_value (pops ! 0) = 0x20 \<and> pop_value (pops ! 1) = 0xac"

definition isPayToPubkeyECDSA :: "parsedOpcode list \<Rightarrow> bool" where
  "isPayToPubkeyECDSA pops \<longleftrightarrow> length pops = 2 \<and> pop_value (pops ! 0) = 0x21 \<and> pop_value (pops ! 1) = 0xab"

definition typeOfScript :: "parsedOpcode list \<Rightarrow> ScriptClass" where
  "typeOfScript pops = (if isPayToPubkey pops then PubKeyTy
     else if isPayToPubkeyECDSA pops then PubKeyECDSATy
     else if isScriptHash pops then ScriptHashTy else NonStandardTy)"

definition GetScriptClass :: "bytes \<Rightarrow> ScriptClass option" where
  "GetScriptClass script = (case parseScript script of None \<Rightarrow> None
     | Some (pops, err) \<Rightarrow> Some (if err \<noteq> None then NonStandardTy else typeOfScript pops))"

definition expectedInputs :: "ScriptClass \<Rightarrow> int" where
  "expectedInputs class = (if class = PubKeyTy then 1 else if class = ScriptHashTy then 1 else - 1)"

record ScriptInfo =
  si_class :: ScriptClass
  si_num_inputs :: nat
  si_expected_inputs :: int
  si_sig_ops :: int

definition CalcScriptInfo :: "bytes \<Rightarrow> bytes \<Rightarrow> bool \<Rightarrow> (script_failure + ScriptInfo) option" where
  "CalcScriptInfo sigScript scriptPubKey p2sh =
     (case parseScript sigScript of None \<Rightarrow> None | Some (_, Some e) \<Rightarrow> Some (Inl (Fails e)) | Some (sigPops, None) \<Rightarrow>
      (case parseScript scriptPubKey of None \<Rightarrow> None | Some (_, Some e) \<Rightarrow> Some (Inl (Fails e)) | Some (pubPops, None) \<Rightarrow>
        let class = typeOfScript pubPops in
        if \<not> isPushOnly sigPops then Some (Inl (Fails ErrNotPushOnly))
        else let expected = expectedInputs class in
          if class = ScriptHashTy \<and> p2sh then
            if sigPops = [] then Some (Inl Panics)
            else (case parseScript (data_of (last sigPops)) of None \<Rightarrow> None
              | Some (_, Some e) \<Rightarrow> Some (Inl (Fails e))
              | Some (shPops, None) \<Rightarrow>
                let shInputs = expectedInputs (typeOfScript shPops) in
                Some (Inr \<lparr>si_class = class, si_num_inputs = length sigPops,
                  si_expected_inputs = (if shInputs = - 1 then - 1 else expected + shInputs),
                  si_sig_ops = getSigOpCount shPops True\<rparr>))
          else Some (Inr \<lparr>si_class = class, si_num_inputs = length sigPops, si_expected_inputs = expected,
                  si_sig_ops = getSigOpCount pubPops True\<rparr>)))"

definition payToPubKeyScript :: "bytes \<Rightarrow> bytes \<times> standard_error option" where
  "payToPubKeyScript pubKey = Script (AddOp 0xac (AddData pubKey NewScriptBuilder))"

definition payToPubKeyScriptECDSA :: "bytes \<Rightarrow> bytes \<times> standard_error option" where
  "payToPubKeyScriptECDSA pubKey = Script (AddOp 0xab (AddData pubKey NewScriptBuilder))"

definition payToScriptHashScript :: "bytes \<Rightarrow> bytes \<times> standard_error option" where
  "payToScriptHashScript scriptHash =
     Script (AddOp 0x87 (AddData scriptHash (AddOp 0xaa NewScriptBuilder)))"

text \<open>
  The addresses of the kaspa library, each with its \<^verbatim>\<open>ScriptAddress()\<close>; \<open>None\<close> is a nil pointer of the
  type. All versions of script public keys are 0.
\<close>

datatype util_address = AddressPublicKey "bytes option" | AddressPublicKeyECDSA "bytes option"
  | AddressScriptHash "bytes option" | OtherAddress

record ScriptPublicKey =
  spk_script :: bytes
  spk_version :: nat

definition spk_of :: "bytes \<times> standard_error option \<Rightarrow> standard_error + ScriptPublicKey" where
  "spk_of r = andThen (script_or_error r) (\<lambda>script. Inr \<lparr>spk_script = script, spk_version = 0\<rparr>)"

fun PayToAddrScript :: "util_address \<Rightarrow> standard_error + ScriptPublicKey" where
  "PayToAddrScript (AddressPublicKey (Some a)) = spk_of (payToPubKeyScript a)"
| "PayToAddrScript (AddressPublicKeyECDSA (Some a)) = spk_of (payToPubKeyScriptECDSA a)"
| "PayToAddrScript (AddressScriptHash (Some a)) = spk_of (payToScriptHashScript a)"
| "PayToAddrScript _ = Inl (ScriptError ErrUnsupportedAddress)"

text \<open>\<open>HashBlake2b\<close> of the kaspa library is a parameter.\<close>

definition PayToScriptHashScript :: "(bytes \<Rightarrow> bytes) \<Rightarrow> bytes \<Rightarrow> standard_error + bytes" where
  "PayToScriptHashScript HashBlake2b redeemScript = script_or_error (Script
     (AddOp 0x87 (AddData (HashBlake2b redeemScript) (AddOp 0xaa NewScriptBuilder))))"

definition PayToScriptHashSignatureScript :: "bytes \<Rightarrow> bytes \<Rightarrow> standard_error + bytes" where
  "PayToScriptHashSignatureScript redeemScript signature =
     andThen (script_or_error (Script (AddData redeemScript NewScriptBuilder))) (\<lambda>redeemScriptAsData.
       Inr (signature @ redeemScriptAsData))"

definition pushed :: "parsedOpcode \<Rightarrow> bytes option list" where
  "pushed pop = (if pop_data pop \<noteq> None then [pop_data pop] else if pop_value pop = 0x00 then [None] else [])"

definition PushedData :: "bytes \<Rightarrow> (ErrorCode + bytes option list) option" where
  "PushedData script = (case parseScript script of None \<Rightarrow> None | Some (_, Some e) \<Rightarrow> Some (Inl e)
     | Some (pops, None) \<Rightarrow> Some (Inr (concat (map pushed pops))))"

subsection \<open>Atomic swaps\<close>

record AtomicSwapDataPushes =
  as_RecipientBlake2b :: bytes
  as_RefundBlake2b :: bytes
  as_SecretHash :: bytes
  as_SecretSize :: i64
  as_LockTime :: u64

definition isAtomicSwap :: "parsedOpcode list \<Rightarrow> bool" where
  "isAtomicSwap pops \<longleftrightarrow> pop_value (pops ! 0) = 0x63 \<and> pop_value (pops ! 1) = 0x82 \<and> canonicalPush (pops ! 2)
     \<and> pop_value (pops ! 3) = 0x88 \<and> pop_value (pops ! 4) = 0xa8 \<and> pop_value (pops ! 5) = 0x20
     \<and> pop_value (pops ! 6) = 0x88 \<and> pop_value (pops ! 7) = 0x76 \<and> pop_value (pops ! 8) = 0xaa
     \<and> pop_value (pops ! 9) = 0x20 \<and> pop_value (pops ! 10) = 0x67 \<and> canonicalPush (pops ! 11)
     \<and> pop_value (pops ! 12) = 0xb0 \<and> pop_value (pops ! 13) = 0x76 \<and> pop_value (pops ! 14) = 0xaa
     \<and> pop_value (pops ! 15) = 0x20 \<and> pop_value (pops ! 16) = 0x68 \<and> pop_value (pops ! 17) = 0x88
     \<and> pop_value (pops ! 18) = 0xac"

text \<open>\<^verbatim>\<open>copy\<close> into an array of 32 bytes, and the two numbers, \<open>None\<close> where the function returns nil.\<close>

definition copy32 :: "bytes \<Rightarrow> bytes" where
  "copy32 d = take 32 d @ replicate (32 - length d) 0"

definition swap_number :: "parsedOpcode \<Rightarrow> i64 option" where
  "swap_number pop = (case pop_data pop of
       Some d \<Rightarrow> (case makeScriptNum d 8 of Inl _ \<Rightarrow> None | Inr n \<Rightarrow> Some n)
     | None \<Rightarrow> if isSmallInt (pop_opcode pop) then Some (word_of_int (asSmallInt (pop_opcode pop))) else None)"

definition ExtractAtomicSwapDataPushes :: "bytes \<Rightarrow> (ErrorCode + AtomicSwapDataPushes option) option" where
  "ExtractAtomicSwapDataPushes scriptPubKey = (case parseScript scriptPubKey of None \<Rightarrow> None
     | Some (_, Some e) \<Rightarrow> Some (Inl e)
     | Some (pops, None) \<Rightarrow>
        if length pops \<noteq> 19 then Some (Inr None)
        else if \<not> isAtomicSwap pops then Some (Inr None)
        else Some (Inr (case (swap_number (pops ! 2), swap_number (pops ! 11)) of
          (Some secretSize, Some lockTime) \<Rightarrow> Some \<lparr>
            as_RecipientBlake2b = copy32 (data_of (pops ! 9)), as_RefundBlake2b = copy32 (data_of (pops ! 15)),
            as_SecretHash = copy32 (data_of (pops ! 5)), as_SecretSize = secretSize, as_LockTime = lockTime\<rparr>
        | _ \<Rightarrow> None)))"

end
