(* ===== verification/KaspaBuilt.thy ===== *)
theory KaspaBuilt
  imports KaspaStandard
begin

text \<open>
  What the builder, the parser and the engine of kaspa scripts do together: data that is added to a
  script is what the script pushes. The scripts of signatures, on the other hand, are not recognised
  once they are made.
\<close>

subsection \<open>The opcode that pushes data\<close>

definition push_pop :: "bytes \<Rightarrow> parsedOpcode" where
  "push_pop d =
     (if d = [] \<or> d = [0] then \<lparr>pop_opcode = opcodeArray 0, pop_data = None\<rparr>
      else if length d = 1 \<and> d ! 0 \<le> 16 then \<lparr>pop_opcode = opcodeArray (0x50 + d ! 0), pop_data = None\<rparr>
      else if d = [0x81] then \<lparr>pop_opcode = opcodeArray 0x4f, pop_data = None\<rparr>
      else \<lparr>pop_opcode = opcodeArray (if length d < 76 then of_nat (length d)
         else if length d \<le> 255 then 0x4c else 0x4d), pop_data = Some d\<rparr>)"

lemma push_cases [case_names empty small negate fixed one two]:
  assumes "length d \<le> 520"
  obtains "d = [] \<or> d = [0]" "push_pop d = \<lparr>pop_opcode = opcodeArray 0, pop_data = None\<rparr>"
  | n where "1 \<le> unat n" "unat n \<le> 16" "d = [n]" "push_pop d = \<lparr>pop_opcode = opcodeArray (0x50 + n), pop_data = None\<rparr>"
  | "d = [0x81]" "push_pop d = \<lparr>pop_opcode = opcodeArray 0x4f, pop_data = None\<rparr>"
  | "1 \<le> length d" "length d \<le> 75" "length d = 1 \<longrightarrow> \<not> d ! 0 \<le> 16 \<and> d ! 0 \<noteq> 0x81"
      "push_pop d = \<lparr>pop_opcode = opcodeArray (of_nat (length d)), pop_data = Some d\<rparr>"
  | "76 \<le> length d" "length d \<le> 255" "push_pop d = \<lparr>pop_opcode = opcodeArray 0x4c, pop_data = Some d\<rparr>"
  | "256 \<le> length d" "push_pop d = \<lparr>pop_opcode = opcodeArray 0x4d, pop_data = Some d\<rparr>"
proof -
  consider "d = []" | b where "d = [b]" | "2 \<le> length d" "length d \<le> 75" | "76 \<le> length d" "length d \<le> 255" | "256 \<le> length d"
    by (cases d rule: remdups_adj.cases) (auto simp: not_le, force)
  then show thesis
  proof cases
    case (2 b)
    consider "b = 0" | "1 \<le> unat b" "unat b \<le> 16" | "b = 0x81" | "b \<noteq> 0" "\<not> b \<le> 16" "b \<noteq> 0x81"
      by (cases "b \<le> 16"; cases "b = 0") (auto simp: word_le_nat_alt unat_gt_0 Suc_le_eq)
    then show thesis
    proof cases
      case 2
      with \<open>d = [b]\<close> show thesis by (intro that(2) [of b]) (auto simp: push_pop_def word_le_nat_alt)
    qed (use 2 that(1,3,4) in \<open>auto simp: push_pop_def\<close>)
  next
    case 3
    then show thesis by (intro that(4)) (auto simp: push_pop_def)
  next
    case 4
    then show thesis by (intro that(5)) (auto simp: push_pop_def)
  next
    case 5
    then show thesis by (intro that(6)) (auto simp: push_pop_def)
  qed (auto intro: that(1) simp: push_pop_def)
qed

text \<open>The opcode is one that unparses to what \<open>addData\<close> appends.\<close>

definition added :: "bytes \<Rightarrow> bytes" where
  "added d = sb_script (addData d NewScriptBuilder)"

lemma addData_added: "addData d b = b\<lparr>sb_script := sb_script b @ added d\<rparr>"
  by (simp add: added_def addData_def Let_def NewScriptBuilder_def Let_def)

lemma small_code: "1 \<le> unat n \<Longrightarrow> unat n \<le> 16 \<Longrightarrow> unat (0x50 + n :: byte) = 0x50 + unat n"
  by (simp add: unat_word_ariths)

lemma push_pop_facts:
  assumes "length d \<le> 520"
  shows "pop_opcode (push_pop d) = opcodeArray (pop_value (push_pop d)) \<and> wf_pop (push_pop d)
    \<and> pop_bytes (push_pop d) = Inr (added d)"
  using assms
proof (cases rule: push_cases)
  case empty
  then show ?thesis
    by (auto simp: pop_value_def opcodeArray_value missing_def wf_pop_def data_fits_def opcodeArray_length
      pop_bytes_def data_of_def added_def addData_def Let_def NewScriptBuilder_def)
next
  case (small n)
  then have v: "pop_value (push_pop d) = 0x50 + n" "op_length (opcodeArray (0x50 + n)) = 1"
    by (simp_all add: pop_value_def opcodeArray_value opcodeArray_length missing_def small_code)
  have n: "n \<noteq> 0" "n \<le> 16" using small by (auto simp: word_le_nat_alt)
  show ?thesis
    using small v n by (simp_all add: wf_pop_def data_fits_def pop_bytes_def data_of_def added_def addData_def Let_def NewScriptBuilder_def)
next
  case negate
  then show ?thesis
    by (auto simp: pop_value_def opcodeArray_value missing_def wf_pop_def data_fits_def opcodeArray_length
      pop_bytes_def data_of_def added_def addData_def Let_def NewScriptBuilder_def)
next
  case fixed
  then have v: "pop_value (push_pop d) = of_nat (length d)" "op_length (opcodeArray (of_nat (length d))) = int (length d) + 1"
    by (simp_all add: pop_value_def opcodeArray_value opcodeArray_length missing_def unat_small)
  show ?thesis
    using fixed v by (auto simp: wf_pop_def data_fits_def pop_bytes_def data_of_def added_def addData_def Let_def NewScriptBuilder_def)
next
  case one
  then have v: "pop_value (push_pop d) = 0x4c" "op_length (opcodeArray 0x4c) = - 1"
    by (simp_all add: pop_value_def opcodeArray_value opcodeArray_length missing_def)
  have b: "le_bytes 1 (length d) = [of_nat (length d)]" "length d mod 256 = length d" "length d < 256" using one by simp_all
  have p: "pop_bytes (push_pop d) = Inr (0x4c # of_nat (length d) # d)"
    by (simp add: pop_bytes_def one(3) v [unfolded one(3)] b data_of_def Let_def del: One_nat_def)
  have "added d = 0x4c # of_nat (length d) # d"
    using one(1,2) by (cases "d = []") (simp_all add: added_def addData_def Let_def NewScriptBuilder_def)
  with p show ?thesis
    using b(3) by (simp add: wf_pop_def data_fits_def v) (simp add: one(3))
next
  case two
  then have v: "pop_value (push_pop d) = 0x4d" "op_length (opcodeArray 0x4d) = - 2"
    by (simp_all add: pop_value_def opcodeArray_value opcodeArray_length missing_def)
  have b: "length d mod 256 ^ 2 = length d" "length d < 256 ^ 2" "length d \<le> 0xffff" using assms by simp_all
  have p: "pop_bytes (push_pop d) = Inr (0x4d # le_bytes 2 (length d) @ d)"
    by (simp only: pop_bytes_def two(2) v [unfolded two(2)] b data_of_def Let_def parsedOpcode.simps option.case) simp
  have "added d = 0x4d # le_bytes 2 (length d) @ d"
    using two(1) b(3) by (cases "d = []") (simp_all add: added_def addData_def Let_def NewScriptBuilder_def)
  with p show ?thesis
    using b(2) by (simp add: wf_pop_def data_fits_def v) (simp add: two(2))
qed

lemma push_pop_wf: "length d \<le> 520 \<Longrightarrow> wf_pop (push_pop d)"
  and push_pop_bytes: "length d \<le> 520 \<Longrightarrow> pop_bytes (push_pop d) = Inr (added d)"
  and push_pop_table: "length d \<le> 520 \<Longrightarrow> from_table (push_pop d)"
  using push_pop_facts [of d] by (auto simp: from_table_def)

subsection \<open>Built pushes in the engine\<close>

text \<open>The element that the opcode leaves: the single byte 0 becomes the empty element.\<close>

definition pushed_element :: "bytes \<Rightarrow> bytes" where
  "pushed_element d = (if d = [0] then [] else d)"

lemma small_rows: "1 \<le> n \<Longrightarrow> n \<le> 16 \<Longrightarrow> op_func (opcode_at (0x50 + n)) = Some H_N"
proof -
  assume "1 \<le> n" "n \<le> 16"
  then have "(0x50 + n, op_entry (0x50 + n) (''OP_'' @ show_nat n) 1 H_N) \<in> set push_rows"
    unfolding push_rows_def set_append set_map set_upt by (intro UnI2 imageI) simp
  then show ?thesis using opcode_at_row [OF in_rows(1)] by (simp add: op_entry_def)
qed

lemma negate_row: "op_func (opcode_at 0x4f) = Some H_1Negate"
proof -
  have "(0x4f, op_entry 0x4f ''OP_1NEGATE'' 1 H_1Negate) \<in> set push_rows"
    unfolding push_rows_def set_append by simp
  then show ?thesis using opcode_at_row [OF in_rows(1)] by (simp add: op_entry_def)
qed

lemma small_numbers: "list_all (\<lambda>n. script_num_bytes (ucast n) = Some [n]) [1, 2, 3, 4, 5, 6, 7, 8, 9, 10, 11, 12, 13, 14, 15, 16 :: byte]"
  by code_simp

lemma small_number:
  assumes "1 \<le> unat n" "unat n \<le> 16"
  shows "script_num_bytes (ucast n) = Some [n :: byte]"
proof -
  have "n \<in> set [1, 2, 3, 4, 5, 6, 7, 8, 9, 10, 11, 12, 13, 14, 15, 16]"
    using assms by (simp add: word_unat_eq_iff) presburger
  with small_numbers show ?thesis unfolding list_all_iff by blast
qed

lemma negative_one: "script_num_bytes (- 1) = Some [0x81]"
  by code_simp

lemma push_handler:
  assumes "length d \<le> 520"
  shows "\<exists>h. op_func (pop_opcode (push_pop d)) = Some h \<and> (\<forall>L vm. run_handler L h (push_pop d) vm =
    Inr (vm\<lparr>dstack := dstack vm @ [pushed_element d]\<rparr>)) \<and> pop_value (push_pop d) \<le> 0x60 \<and> length (data_of (push_pop d)) \<le> 520
    \<and> (pop_value (push_pop d) \<noteq> 0 \<and> pop_value (push_pop d) \<le> 0x4e \<longrightarrow> checkMinimalDataPush (push_pop d))"
  using assms
proof (cases rule: push_cases)
  case empty
  then show ?thesis
    using example_rows(1)
    by (intro exI [of _ H_False]) (auto simp: table_op_def opcodeFalse_def PushByteArray_def pushed_element_def
      pop_value_def opcodeArray_value missing_def data_of_def)
next
  case (small n)
  then have v: "pop_value (push_pop d) = 0x50 + n"
    by (simp add: pop_value_def opcodeArray_value missing_def small_code)
  have le: "0x50 + n \<le> 0x60" "\<not> 0x50 + n \<le> 0x4e" "n \<noteq> 0" using small by (auto simp: word_le_nat_alt small_code)
  have "op_func (opcodeArray (0x50 + n)) = Some H_N"
    using small_rows [of "unat n"] small by (simp add: opcodeArray_def small_code)
  then show ?thesis
    using small le v small_number [OF small(1,2)]
    by (intro exI [of _ H_N]) (simp add: opcodeN_def on_dstack_def PushInt_def PushByteArray_def pushed_element_def data_of_def)
next
  case negate
  then have v: "pop_value (push_pop d) = 0x4f" by (simp add: pop_value_def opcodeArray_value missing_def)
  have "op_func (opcodeArray 0x4f) = Some H_1Negate" using negate_row by (simp add: opcodeArray_def)
  then show ?thesis
    using negate v negative_one
    by (intro exI [of _ H_1Negate]) (simp add: opcode1Negate_def on_dstack_def PushInt_def PushByteArray_def pushed_element_def data_of_def)
next
  case fixed
  then have u: "unat (of_nat (length d) :: byte) = length d" by (simp add: unat_small)
  then have v: "pop_value (push_pop d) = of_nat (length d)" "op_func (opcodeArray (of_nat (length d))) = Some H_PushData"
    using fixed opcodeArray_row [of "of_nat (length d)"]
    by (simp_all add: pop_value_def opcodeArray_value missing_def row_ok_def)
  have "d \<noteq> [0]" using fixed(3) by auto
  then show ?thesis
    using fixed v u assms
    by (intro exI [of _ H_PushData]) (auto simp: opcodePushData_def PushByteArray_def pushed_element_def data_of_def
      checkMinimalDataPush_def Let_def word_le_nat_alt)
next
  case one
  then have v: "pop_value (push_pop d) = 0x4c" "op_func (opcodeArray 0x4c) = Some H_PushData"
    using opcodeArray_row [of "0x4c"] by (simp_all add: pop_value_def opcodeArray_value missing_def row_ok_def)
  have "d \<noteq> [0]" "d \<noteq> []" "length d \<noteq> 1" using one by auto
  then show ?thesis
    using one v assms
    by (intro exI [of _ H_PushData]) (simp add: opcodePushData_def PushByteArray_def pushed_element_def data_of_def
      checkMinimalDataPush_def Let_def)
next
  case two
  then have v: "pop_value (push_pop d) = 0x4d" "op_func (opcodeArray 0x4d) = Some H_PushData"
    using opcodeArray_row [of "0x4d"] by (simp_all add: pop_value_def opcodeArray_value missing_def row_ok_def)
  have "d \<noteq> [0]" "d \<noteq> []" "length d \<noteq> 1" using two by auto
  then show ?thesis
    using two v assms
    by (intro exI [of _ H_PushData]) (simp add: opcodePushData_def PushByteArray_def pushed_element_def data_of_def
      checkMinimalDataPush_def Let_def)
qed

lemma push_execute:
  assumes "length d \<le> 520" "isBranchExecuting vm"
  shows "executeOpcode L (push_pop d) vm = Inr (vm\<lparr>dstack := dstack vm @ [pushed_element d]\<rparr>)"
proof -
  obtain h where h: "op_func (pop_opcode (push_pop d)) = Some h"
    "\<And>L vm. run_handler L h (push_pop d) vm = Inr (vm\<lparr>dstack := dstack vm @ [pushed_element d]\<rparr>)"
    "pop_value (push_pop d) \<le> 0x60" "length (data_of (push_pop d)) \<le> 520"
    "pop_value (push_pop d) \<noteq> 0 \<and> pop_value (push_pop d) \<le> 0x4e \<longrightarrow> checkMinimalDataPush (push_pop d)"
    using push_handler [OF assms(1)] by blast
  have "pop_value (push_pop d) \<noteq> w" if "0x60 < w" for w using h(3) that by auto
  then have "\<not> isDisabled (push_pop d)" "\<not> alwaysIllegal (push_pop d)"
    by (auto simp: isDisabled_def alwaysIllegal_def)
  then show ?thesis using h assms(2) by (auto simp: executeOpcode_def)
qed

lemma push_step:
  assumes "length d \<le> 520" "isBranchExecuting vm" "length (dstack vm) + length (astack vm) < 244"
  shows "step_op L (push_pop d) vm = Inr (vm\<lparr>scriptOff := scriptOff vm + 1, dstack := dstack vm @ [pushed_element d]\<rparr>)"
proof -
  have "isBranchExecuting (advance vm)" using assms(2) by (simp add: isBranchExecuting_def advance_def)
  from push_execute [OF assms(1) this] show ?thesis
    using assms(3) by (simp add: step_op_def fits_def advance_def Depth_def)
qed

lemma run_pushes:
  "list_all (\<lambda>d. length d \<le> 520) ds \<Longrightarrow> isBranchExecuting vm \<Longrightarrow>
     length (dstack vm) + length (astack vm) + length ds \<le> 244 \<Longrightarrow>
   run_ops L (map push_pop ds) vm =
     Inr (vm\<lparr>scriptOff := scriptOff vm + length ds, dstack := dstack vm @ map pushed_element ds\<rparr>)"
proof (induction ds arbitrary: vm)
  case (Cons d ds)
  let ?v = "vm\<lparr>scriptOff := scriptOff vm + 1, dstack := dstack vm @ [pushed_element d]\<rparr>"
  have "run_ops L (map push_pop ds) ?v = Inr (?v\<lparr>scriptOff := scriptOff ?v + length ds,
      dstack := dstack ?v @ map pushed_element ds\<rparr>)"
    by (rule Cons.IH) (use Cons.prems in \<open>simp_all add: isBranchExecuting_def\<close>)
  then show ?case using Cons.prems by (simp add: push_step)
qed simp

lemma run_pushes_overflow:
  "list_all (\<lambda>d. length d \<le> 520) ds \<Longrightarrow> isBranchExecuting vm \<Longrightarrow>
     length (dstack vm) + length (astack vm) \<le> 244 \<Longrightarrow> 244 < length (dstack vm) + length (astack vm) + length ds \<Longrightarrow>
   run_ops L (map push_pop ds) vm = Inl (Fails ErrStackOverflow)"
proof (induction ds arbitrary: vm)
  case (Cons d ds)
  let ?v = "vm\<lparr>scriptOff := scriptOff vm + 1, dstack := dstack vm @ [pushed_element d]\<rparr>"
  show ?case
  proof (cases "length (dstack vm) + length (astack vm) < 244")
    case True
    have "run_ops L (map push_pop ds) ?v = Inl (Fails ErrStackOverflow)"
      by (rule Cons.IH) (use Cons.prems True in \<open>simp_all add: isBranchExecuting_def\<close>)
    then show ?thesis using Cons.prems True by (simp add: push_step)
  next
    case False
    have "isBranchExecuting (advance vm)" using Cons.prems by (simp add: isBranchExecuting_def advance_def)
    from push_execute [OF _ this, of d L] show ?thesis
      using Cons.prems False by (simp add: step_op_def fits_def advance_def Depth_def)
  qed
qed simp

lemma data_size:
  assumes "length d \<le> 520"
  shows "canonicalDataSize d = length (added d)"
  using assms
proof (cases rule: push_cases)
  case two
  moreover have "d \<noteq> []" using two by auto
  ultimately show ?thesis
    using assms by (simp add: canonicalDataSize_def added_def addData_def NewScriptBuilder_def Let_def)
next
  case one
  moreover have "d \<noteq> []" using one by auto
  ultimately show ?thesis
    by (simp add: canonicalDataSize_def added_def addData_def NewScriptBuilder_def Let_def)
next
  case (small n)
  then have "n \<le> 16" by (simp add: word_le_nat_alt)
  with small show ?thesis by (simp add: canonicalDataSize_def added_def addData_def NewScriptBuilder_def Let_def)
next
  case fixed
  then have "d \<noteq> []" by auto
  moreover have "length d = 1 \<longrightarrow> d ! 0 \<noteq> 0" using fixed(3) by (cases "d ! 0 = 0") simp_all
  ultimately show ?thesis
    using fixed by (simp add: canonicalDataSize_def added_def addData_def NewScriptBuilder_def Let_def)
qed (auto simp: canonicalDataSize_def added_def addData_def NewScriptBuilder_def Let_def)

lemma AddData_added:
  assumes "sb_err (AddData d b) = None"
  shows "sb_err b = None" "length d \<le> 520" "sb_script (AddData d b) = sb_script b @ added d"
    "length (sb_script (AddData d b)) \<le> 10000"
proof -
  have c: "sb_err b = None" "\<not> 10000 < length (sb_script b) + canonicalDataSize d" "\<not> 520 < length d"
    using assms by (auto simp: AddData_def split: if_splits)
  then show "sb_err b = None" "length d \<le> 520" by simp_all
  show s: "sb_script (AddData d b) = sb_script b @ added d" using c by (simp add: AddData_def addData_added)
  show "length (sb_script (AddData d b)) \<le> 10000" using c data_size [of d] by (simp add: s)
qed

lemma built_script:
  "sb_err (foldl (\<lambda>b d. AddData d b) b ds) = None \<Longrightarrow>
     sb_err b = None \<and> list_all (\<lambda>d. length d \<le> 520) ds
     \<and> sb_script (foldl (\<lambda>b d. AddData d b) b ds) = sb_script b @ concat (map added ds)"
proof (induction ds arbitrary: b)
  case (Cons d ds)
  then show ?case using AddData_added [of d b] by fastforce
qed simp

lemma built_length:
  "ds \<noteq> [] \<Longrightarrow> sb_err (foldl (\<lambda>b d. AddData d b) b ds) = None \<Longrightarrow> length (sb_script (foldl (\<lambda>b d. AddData d b) b ds)) \<le> 10000"
  by (cases ds rule: rev_cases) (auto dest: AddData_added)

lemma unparse_pushes:
  "list_all (\<lambda>d. length d \<le> 520) ds \<Longrightarrow> unparse (map push_pop ds) = Inr (concat (map added ds))"
  by (induction ds) (simp_all add: push_pop_bytes)

lemma push_only: "length d \<le> 520 \<Longrightarrow> \<not> 0x60 < pop_value (push_pop d)"
  using push_handler [of d] by auto

text \<open>C17: A script that is built from pieces of data runs as pushes of that data: when the builder reports no
  error, the script has at most 10000 bytes and parses to push opcodes only. Running it, where opcodes are
  executed (outside conditionals or in a branch that is taken) and from stacks of at most 244 elements
  together, puts the pieces on the data stack in order, if at most 244 elements then lie on both stacks; with more it is
  a stack overflow. A piece that is the single byte 0 arrives as the empty element.\<close>

theorem built_pushes_run:
  assumes "script = foldl (\<lambda>b d. AddData d b) NewScriptBuilder ds" "sb_err script = None"
    and "isBranchExecuting vm" "length (dstack vm) + length (astack vm) \<le> 244"
  shows "length (sb_script script) \<le> 10000 \<and> (\<exists>pops. parseScript (sb_script script) = Some (pops, None) \<and> isPushOnly pops \<and>
    run_ops L pops vm = (if length (dstack vm) + length (astack vm) + length ds \<le> 244
      then Inr (vm\<lparr>scriptOff := scriptOff vm + length ds, dstack := dstack vm @ map (\<lambda>d. if d = [0] then [] else d) ds\<rparr>)
      else Inl (Fails ErrStackOverflow)))"
proof -
  have b: "list_all (\<lambda>d. length d \<le> 520) ds" "sb_script script = concat (map added ds)"
    using built_script [of NewScriptBuilder ds] assms(1,2) by (simp_all add: NewScriptBuilder_def)
  have "list_all wf_pop (map push_pop ds)" using b(1) by (auto simp: list_all_iff push_pop_wf)
  then have "parseScript (sb_script script) = Some (map push_pop ds, None)"
    by (simp only: parse_exact unparse_pushes [OF b(1)] b(2))
  moreover have "isPushOnly (map push_pop ds)"
    using b(1) by (auto simp: isPushOnly_def list_all_iff dest: push_only)
  moreover have "run_ops L (map push_pop ds) vm = (if length (dstack vm) + length (astack vm) + length ds \<le> 244
      then Inr (vm\<lparr>scriptOff := scriptOff vm + length ds, dstack := dstack vm @ map (\<lambda>d. if d = [0] then [] else d) ds\<rparr>)
      else Inl (Fails ErrStackOverflow))"
    using run_pushes [OF b(1) assms(3)] run_pushes_overflow [OF b(1) assms(3,4)]
    unfolding pushed_element_def [abs_def] by simp
  moreover have "length (sb_script script) \<le> 10000"
    using built_length [of ds NewScriptBuilder] assms(1,2) by (cases "ds = []") (simp_all add: NewScriptBuilder_def)
  ultimately show ?thesis by blast
qed

lemma built_pushes_run_witness:
  "\<exists>pops. parseScript (sb_script (foldl (\<lambda>b d. AddData d b) NewScriptBuilder [[7, 8], [0]])) = Some (pops, None) \<and> isPushOnly pops
     \<and> run_ops example_lib pops empty_engine = Inr (empty_engine\<lparr>scriptOff := scriptOff empty_engine + length [[7, 8], [0 :: byte]],
         dstack := dstack empty_engine @ [[7, 8], []]\<rparr>)"
  using built_pushes_run [OF refl, of "[[7, 8], [0]]" empty_engine example_lib]
  by (simp add: AddData_def addData_def canonicalDataSize_def NewScriptBuilder_def empty_engine_def isBranchExecuting_def)

subsection \<open>The scripts of addresses\<close>

lemma wf_code: "unat b \<notin> missing \<Longrightarrow> op_length (opcodeArray b) = 1 \<Longrightarrow> unat b < 178 \<Longrightarrow>
    wf_pop (table_op b) \<and> pop_bytes (table_op b) = Inr [b]"
  by (simp add: wf_pop_def table_op_def data_fits_def pop_value_def opcodeArray_value pop_bytes_def data_of_def)

lemma code_ops:
  "wf_pop (table_op 0xaa) \<and> pop_bytes (table_op 0xaa) = Inr [0xaa]" "wf_pop (table_op 0x87) \<and> pop_bytes (table_op 0x87) = Inr [0x87]"
  by (rule wf_code; simp add: opcodeArray_length missing_def)+

lemma hash_script_parses:
  assumes "length h \<le> 520"
  shows "parseScript (0xaa # added h @ [0x87]) = Some ([table_op 0xaa, push_pop h, table_op 0x87], None)"
proof -
  have "list_all wf_pop [table_op 0xaa, push_pop h, table_op 0x87]" using code_ops push_pop_wf [OF assms] by simp
  moreover have "unparse [table_op 0xaa, push_pop h, table_op 0x87] = Inr (0xaa # added h @ [0x87])"
    using code_ops push_pop_bytes [OF assms] by simp
  ultimately show ?thesis by (simp only: parse_exact)
qed

lemma AddOp_added:
  assumes "sb_err (AddOp opcode b) = None"
  shows "sb_err b = None" "sb_script (AddOp opcode b) = sb_script b @ [opcode]"
  using assms by (auto simp: AddOp_def split: if_splits)

lemma script_or_error_Inr: "script_or_error (Script b) = Inr s \<longleftrightarrow> sb_err b = None \<and> s = sb_script b"
  by (auto simp: script_or_error_def Script_def split: option.splits)

lemma hash_script_built:
  assumes "script_or_error (payToScriptHashScript h) = Inr s"
  shows "s = 0xaa # added h @ [0x87]" "length h \<le> 520"
proof -
  from assms have e: "sb_err (AddOp 0x87 (AddData h (AddOp 0xaa NewScriptBuilder))) = None"
    and s: "s = sb_script (AddOp 0x87 (AddData h (AddOp 0xaa NewScriptBuilder)))"
    by (simp_all add: payToScriptHashScript_def script_or_error_Inr)
  note a = AddOp_added [OF e] and d = AddData_added [OF AddOp_added(1) [OF e]]
  show "length h \<le> 520" by (rule d(2))
  show "s = 0xaa # added h @ [0x87]"
    unfolding s a(2) d(3) AddOp_added(2) [OF d(1)] by (simp add: NewScriptBuilder_def)
qed

lemma key_script_built:
  assumes "script_or_error (Script (AddOp c (AddData k NewScriptBuilder))) = Inr s"
  shows "s = added k @ [c]" "length k \<le> 520"
proof -
  from assms have e: "sb_err (AddOp c (AddData k NewScriptBuilder)) = None"
    and s: "s = sb_script (AddOp c (AddData k NewScriptBuilder))"
    by (simp_all add: script_or_error_Inr)
  note d = AddData_added [OF AddOp_added(1) [OF e]]
  show "length k \<le> 520" by (rule d(2))
  show "s = added k @ [c]" unfolding s AddOp_added(2) [OF e] d(3) by (simp add: NewScriptBuilder_def)
qed

lemma key_script_parses:
  assumes "length k \<le> 520" "unat c \<in> missing"
  shows "parseScript (added k @ [c]) = None"
proof -
  obtain body where body: "pop_bytes (push_pop k) = Inr (pop_value (push_pop k) # body)"
    "\<And>s. parse_one opcodeArray (pop_value (push_pop k)) (body @ s) = Some (Inr (push_pop k, s))"
    using wf_pop_bytes [OF push_pop_wf [OF assms(1)]] by blast
  then have "added k = pop_value (push_pop k) # body" using push_pop_bytes [OF assms(1)] by simp
  then show ?thesis using parse_total_stuck [OF assms(2), of "[]"] by (simp add: parseScript_total body(2))
qed

lemma push_value_32:
  assumes "length h \<le> 520"
  shows "pop_value (push_pop h) = 0x20 \<longleftrightarrow> length h = 32"
  using assms
proof (cases rule: push_cases)
  case (small n)
  have "0x50 + n \<noteq> (0x20 :: byte)" using small by (simp add: word_unat_eq_iff small_code)
  with small show ?thesis by (simp add: pop_value_def opcodeArray_value missing_def small_code)
next
  case fixed
  then have "pop_value (push_pop h) = of_nat (length h)" by (simp add: pop_value_def opcodeArray_value missing_def unat_small)
  moreover have "(of_nat (length h) :: byte) = 0x20 \<longleftrightarrow> length h = 32" using fixed by (simp add: word_unat_eq_iff unat_small)
  ultimately show ?thesis by simp
qed (auto simp: pop_value_def opcodeArray_value missing_def)

text \<open>C18: What \<open>GetScriptClass\<close> says of the scripts that pay to addresses: those of script hashes of 32 bytes are
  recognised, and on those of public keys, of either kind, it never returns.\<close>

theorem address_script_class:
  assumes "PayToAddrScript a = Inr spk"
  shows "GetScriptClass (spk_script spk) = (case a of
     AddressScriptHash (Some h) \<Rightarrow> Some (if length h = 32 then ScriptHashTy else NonStandardTy) | _ \<Rightarrow> None)"
  using assms
proof (cases a rule: PayToAddrScript.cases)
  case (1 k)
  then have "script_or_error (Script (AddOp 0xac (AddData k NewScriptBuilder))) = Inr (spk_script spk)"
    using assms by (auto simp: spk_of_def payToPubKeyScript_def andThen_Inr)
  from key_script_built [OF this] show ?thesis
    by (simp add: 1 GetScriptClass_def key_script_parses missing_def)
next
  case (2 k)
  then have "script_or_error (Script (AddOp 0xab (AddData k NewScriptBuilder))) = Inr (spk_script spk)"
    using assms by (auto simp: spk_of_def payToPubKeyScriptECDSA_def andThen_Inr)
  from key_script_built [OF this] show ?thesis
    by (simp add: 2 GetScriptClass_def key_script_parses missing_def)
next
  case (3 h)
  then have "script_or_error (payToScriptHashScript h) = Inr (spk_script spk)"
    using assms by (auto simp: spk_of_def andThen_Inr)
  note s = hash_script_built [OF this]
  have v: "pop_value (table_op 0xaa) = 0xaa" "pop_value (table_op 0x87) = 0x87" by (simp_all add: table_op_facts missing_def)
  show ?thesis
    using s(2) by (simp add: 3 GetScriptClass_def s(1) hash_script_parses typeOfScript_def isPayToPubkey_def
      isPayToPubkeyECDSA_def isScriptHash_def v push_value_32 numeral_3_eq_3 nth_Cons')
qed simp_all

definition example_hash_script :: ScriptPublicKey where
  "example_hash_script = \<lparr>spk_script = [0xaa, 0x20] @ replicate 32 7 @ [0x87], spk_version = 0\<rparr>"

lemma address_script_class_witness: "GetScriptClass (spk_script example_hash_script) = Some ScriptHashTy"
proof -
  have "PayToAddrScript (AddressScriptHash (Some (replicate 32 7))) = Inr example_hash_script"
    by code_simp
  from address_script_class [OF this] show ?thesis by simp
qed

subsection \<open>Panics\<close>

text \<open>
  The lock time 0, the class behind the last one, and a signature script without opcodes in front of
  the script of a hash.
\<close>

lemma lock_time_zero_panics: "AddLockTimeNumber 0 NewScriptBuilder = None" "AddSequenceNumber 0 NewScriptBuilder = None"
  by code_simp+

lemma class_four_panics: "class_String 4 = None" "class_String 5 = Some ''Invalid''"
  by code_simp+

lemma empty_signature_panics:
  assumes "length h = 32"
  shows "CalcScriptInfo [] (0xaa # added h @ [0x87]) True = Some (Inl Panics)"
proof -
  have v: "pop_value (table_op 0xaa) = 0xaa" "pop_value (table_op 0x87) = 0x87" by (simp_all add: table_op_facts missing_def)
  have "parseScript [] = Some ([], None)" by (simp add: parseScript_total)
  then show ?thesis
    using assms by (simp add: CalcScriptInfo_def hash_script_parses typeOfScript_def isPayToPubkey_def isPayToPubkeyECDSA_def
      isScriptHash_def v push_value_32 numeral_3_eq_3 nth_Cons' isPushOnly_def)
qed

subsection \<open>Signature opcodes are never seen\<close>

definition in_table :: "parsedOpcode \<Rightarrow> bool" where
  "in_table pop \<longleftrightarrow> (\<exists>b. unat b \<notin> missing \<and> pop_opcode pop = opcodeArray b)"

lemma parsed_in_table: "parse_total opcodeArray s = Some (pops, e) \<Longrightarrow> list_all in_table pops"
proof (induction opcodeArray s arbitrary: pops rule: parse_total.induct)
  case (2 b rest)
  have "in_table pop" if one: "parse_one opcodeArray b rest = Some (Inr (pop, s))" for pop s
  proof -
    have "pop_opcode pop = opcodeArray b" "op_length (opcodeArray b) \<noteq> 0"
      using parse_one_fits [OF one] by (simp_all add: data_fits_def)
    moreover from this(2) have "unat b \<notin> missing" by (auto simp: opcodeArray_length)
    ultimately show ?thesis unfolding in_table_def by blast
  qed
  with 2 show ?case by (force split: option.splits sum.splits prod.splits)
qed simp

lemma in_table_value: "in_table pop \<Longrightarrow> unat (pop_value pop) \<notin> missing"
proof -
  assume "in_table pop"
  then obtain b where b: "unat b \<notin> missing" "pop_opcode pop = opcodeArray b" by (auto simp: in_table_def)
  have "unat (b + 10) = unat b + 10" if "unat b < 188" using that by (simp add: unat_word_ariths)
  then show ?thesis using b by (auto simp: pop_value_def opcodeArray_value missing_def)
qed

lemma parsed_value:
  assumes "parseScript s = Some (pops, e)" "i < length pops"
  shows "pop_value (pops ! i) \<noteq> 0xac" "pop_value (pops ! i) \<noteq> 0xab"
proof -
  have "unat (pop_value (pops ! i)) \<notin> missing"
    using parsed_in_table [of s pops e] assms in_table_value by (simp add: parseScript_total list_all_length)
  then show "pop_value (pops ! i) \<noteq> 0xac" "pop_value (pops ! i) \<noteq> 0xab" by (auto simp: missing_def)
qed

text \<open>C19: No script is ever recognised as one that pays to a public key, and none as an atomic swap, whatever its
  bytes are.\<close>

theorem signatures_never_recognised:
  "GetScriptClass s \<noteq> Some PubKeyTy \<and> GetScriptClass s \<noteq> Some PubKeyECDSATy
     \<and> ExtractAtomicSwapDataPushes s \<noteq> Some (Inr (Some p))"
proof (cases "parseScript s")
  case None
  then show ?thesis by (simp add: GetScriptClass_def ExtractAtomicSwapDataPushes_def)
next
  case (Some q)
  obtain pops e where q: "parseScript s = Some (pops, e)" using Some by (cases q) auto
  note v = parsed_value [OF q]
  have "\<not> isPayToPubkey pops" "\<not> isPayToPubkeyECDSA pops" using v [of 1] by (auto simp: isPayToPubkey_def isPayToPubkeyECDSA_def)
  moreover have "\<not> isAtomicSwap pops" if "length pops = 19" using v [of 18] that by (simp add: isAtomicSwap_def)
  ultimately show ?thesis
    by (auto simp: GetScriptClass_def ExtractAtomicSwapDataPushes_def q typeOfScript_def
      NonStandardTy_def PubKeyTy_def PubKeyECDSATy_def ScriptHashTy_def split: option.splits)
qed

end
