(* ===== verification/KaspaP2SH.thy ===== *)
theory KaspaP2SH
  imports KaspaBuilt
begin

text \<open>
  Spending from a script hash: what the engine does with the scripts that the package makes for it,
  from the first opcode to the start of the redeem script.
\<close>

subsection \<open>The script of a hash\<close>

lemma hash_rows: "op_func (opcode_at 0xaa) = Some H_Blake2b" "op_func (opcode_at 0x87) = Some H_Equal"
proof -
  have "(0xaa, op_entry 0xaa ''OP_BLAKE2B'' 1 H_Blake2b) \<in> set opcode_rows" "(0x87, op_entry 0x87 ''OP_EQUAL'' 1 H_Equal) \<in> set opcode_rows"
    unfolding opcode_rows_def set_append crypto_rows_def splice_rows_def by simp_all
  from this [THEN opcode_at_row] show "op_func (opcode_at 0xaa) = Some H_Blake2b" "op_func (opcode_at 0x87) = Some H_Equal"
    by (simp_all add: op_entry_def)
qed

lemma table_step:
  assumes "unat b \<notin> missing" "unat b < 178" "0x60 < b" "op_func (opcode_at (unat b)) = Some h" "condStack vm = []" "numOps vm < 201"
    and "\<not> isDisabled (table_op b)" "\<not> alwaysIllegal (table_op b)"
  shows "step_op L (table_op b) vm = andThen (run_handler L h (table_op b) ((advance vm)\<lparr>numOps := numOps vm + 1\<rparr>)) fits"
proof -
  have v: "pop_value (table_op b) = b" by (rule table_op_facts) fact+
  have "\<not> b \<le> 0x4e" using assms(3) by (auto simp: word_le_nat_alt word_less_nat_alt)
  then show ?thesis
    using assms v by (simp add: step_op_def executeOpcode_def isBranchExecuting_def advance_def table_op_def opcodeArray_def)
qed

lemma hash_codes: "\<not> isDisabled (table_op 0xaa)" "\<not> alwaysIllegal (table_op 0xaa)" "\<not> isDisabled (table_op 0x87)" "\<not> alwaysIllegal (table_op 0x87)"
  by (simp_all add: isDisabled_def alwaysIllegal_def table_op_facts missing_def)

definition hash_pops :: "bytes \<Rightarrow> parsedOpcode list" where
  "hash_pops h = [table_op 0xaa, push_pop h, table_op 0x87]"

lemma run_hash_script:
  assumes "condStack vm = []" "numOps vm = 0" "astack vm = []" "length (dstack vm) < 244" "length h = 32"
  shows "run_ops L (hash_pops h) vm = (case rev (dstack vm) of [] \<Rightarrow> Inl (Fails ErrInvalidStackOperation)
    | r # s \<Rightarrow> Inr (vm\<lparr>scriptOff := scriptOff vm + 3, numOps := 2,
        dstack := rev s @ [fromBool (h = lib_blake2b L r)]\<rparr>))"
proof (cases "dstack vm" rule: rev_cases)
  case Nil
  then show ?thesis
    using assms table_step [of "0xaa" H_Blake2b vm L] hash_rows hash_codes
    by (simp add: hash_pops_def missing_def opcodeBlake2b_def on_dstack_def advance_def PopByteArray_def nipN_def Depth_def)
next
  case (snoc s r)
  let ?u = "vm\<lparr>scriptOff := scriptOff vm + 1, numOps := 1, dstack := s @ [lib_blake2b L r]\<rparr>"
  let ?v = "?u\<lparr>scriptOff := scriptOff ?u + 1, dstack := dstack ?u @ [pushed_element h]\<rparr>"
  have pop: "PopByteArray (xs @ [x]) = Inr (x, xs)" for xs x
    by (simp add: PopByteArray_def nipN_def Depth_def nth_append)
  have h: "pushed_element h = h" using assms(5) by (auto simp: pushed_element_def)
  have one: "step_op L (table_op 0xaa) vm = Inr ?u"
    using assms snoc table_step [of "0xaa" H_Blake2b vm L] hash_rows hash_codes
    by (simp add: missing_def opcodeBlake2b_def on_dstack_def advance_def pop PushByteArray_def fits_def Depth_def)
  have two: "step_op L (push_pop h) ?u = Inr ?v"
    by (rule push_step) (use assms snoc in \<open>simp_all add: isBranchExecuting_def\<close>)
  have three: "step_op L (table_op 0x87) ?v = Inr (vm\<lparr>scriptOff := scriptOff vm + 3, numOps := 2,
      dstack := s @ [fromBool (h = lib_blake2b L r)]\<rparr>)"
    using assms snoc table_step [of "0x87" H_Equal ?v L] hash_rows hash_codes
      pop [of "s @ [lib_blake2b L r]" h] pop [of s "lib_blake2b L r"]
    by (simp add: missing_def opcodeEqual_def on_dstack_def advance_def PushByteArray_def PushBool_def fits_def Depth_def
      h numeral_3_eq_3)
  show ?thesis using one two three by (simp add: hash_pops_def snoc)
qed

subsection \<open>The spend\<close>

definition redeem_start :: "parsedOpcode list \<Rightarrow> engine \<Rightarrow> engine" where
  "redeem_start pops v = v\<lparr>astack := [], numOps := 0, scriptOff := 0, scriptIdx := 2,
     savedFirstStack := dstack v, dstack := butlast (dstack v), scripts := scripts v @ [pops]\<rparr>"

lemma asBool_from: "asBool (fromBool v) = v"
  by (simp add: fromBool_def)

lemma pop_last: "PopByteArray (xs @ [x]) = Inr (x, xs)"
  by (simp add: PopByteArray_def nipN_def Depth_def nth_append)

text \<open>What follows the two scripts, for the element \<open>r\<close> that the first one leaves on top.\<close>

definition p2sh_verdict :: "script_lib \<Rightarrow> bytes \<Rightarrow> engine \<Rightarrow> (script_failure + unit) option" where
  "p2sh_verdict L h v = (case rev (dstack v) of [] \<Rightarrow> Some (Inl (Fails ErrInvalidStackOperation))
     | r # s \<Rightarrow>
        if h \<noteq> lib_blake2b L r then Some (Inl (Fails ErrEvalFalse))
        else (case parseScript r of None \<Rightarrow> None
          | Some (_, Some e) \<Rightarrow> Some (Inl (Fails e))
          | Some ([], None) \<Rightarrow> Some (accepts (rev s))
          | Some (pops, None) \<Rightarrow> Execute L (redeem_start pops v)))"

lemma hash_length: "length (hash_pops h) = 3" "hash_pops h \<noteq> []"
  by (simp_all add: hash_pops_def)

lemma p2sh_execution:
  assumes "scripts vm = [first, hash_pops h]" "first \<noteq> []" "length h = 32" "scriptIdx vm = 0" "scriptOff vm = 0"
    and "isP2SH vm" "scriptVersion vm \<le> MaxScriptPublicKeyVersion L"
    and run: "run_ops L first vm = Inr v" and "condStack v = []" "length (dstack v) < 244"
  shows "Execute L vm = p2sh_verdict L h v"
proof -
  note f = frame_ops [OF run]
  have small: "length (astack v) < 2 ^ 31" using frame_fits [OF run assms(2)] by simp
  define u where "u = v\<lparr>astack := [], numOps := 0, scriptOff := 0, scriptIdx := 1, savedFirstStack := dstack v\<rparr>"
  have u: "next_script v = Some (Inr u)" "finish_script u = (False, u)"
    using f assms small by (simp_all add: next_script_def finish_script_def u_def GetStack_def Let_def hash_length)
  have "step_loop L vm = step_loop L u"
    using loop_script [of vm L] assms u by (simp add: end_script_def)
  also have "\<dots> = (case run_ops L (hash_pops h) u of Inl e \<Rightarrow> Some (Inl e) | Inr v \<Rightarrow> end_script L v)"
    using loop_script [of u L] f assms by (simp add: u_def hash_length)
  finally have loop: "step_loop L vm = (case run_ops L (hash_pops h) u of Inl e \<Rightarrow> Some (Inl e) | Inr v \<Rightarrow> end_script L v)" .
  have runh: "run_ops L (hash_pops h) u = (case rev (dstack u) of [] \<Rightarrow> Inl (Fails ErrInvalidStackOperation)
    | r # s \<Rightarrow> Inr (u\<lparr>scriptOff := scriptOff u + 3, numOps := 2, dstack := rev s @ [fromBool (h = lib_blake2b L r)]\<rparr>))"
    by (rule run_hash_script) (use assms in \<open>simp_all add: u_def\<close>)
  show ?thesis
  proof (cases "dstack v" rule: rev_cases)
    case Nil
    then have "rev (dstack u) = []" by (simp add: u_def)
    then show ?thesis using assms(7) by (simp add: Execute_def loop runh p2sh_verdict_def Nil)
  next
    case (snoc s r)
    define w where "w = u\<lparr>scriptOff := 3, numOps := 2, dstack := s @ [fromBool (h = lib_blake2b L r)]\<rparr>"
    have loop': "step_loop L vm = end_script L w" by (simp add: loop runh w_def) (simp add: u_def snoc)
    define x where "x = w\<lparr>astack := [], numOps := 0, scriptOff := 0, scriptIdx := 2\<rparr>"
    have sc: "scripts x = [first, hash_pops h]" "scriptIdx x = 2" "savedFirstStack x = s @ [r]"
      "dstack x = s @ [fromBool (h = lib_blake2b L r)]"
      using f assms snoc by (simp_all add: x_def w_def u_def)
    have next': "next_script w = enter_redeem_script x"
      using f assms by (simp add: next_script_def w_def u_def x_def Let_def numeral_2_eq_2)
    have check: "CheckErrorCondition False x = (if h = lib_blake2b L r then Inr (x\<lparr>dstack := s\<rparr>) else Inl (Fails ErrEvalFalse))"
      by (simp add: CheckErrorCondition_def sc PopBool_def pop_last asBool_from)
    show ?thesis
    proof (cases "h = lib_blake2b L r")
      case False
      then show ?thesis
        using assms(7) by (simp add: Execute_def loop' end_script_def next' enter_redeem_script_def check p2sh_verdict_def snoc)
    next
      case True
      have start: "SetStack (butlast (savedFirstStack x)) ((x\<lparr>dstack := s\<rparr>)\<lparr>scripts := scripts x @ [pops]\<rparr>) = redeem_start pops v" for pops
        using f assms snoc by (simp add: SetStack_def sc) (simp add: x_def w_def u_def redeem_start_def)
      have enter: "enter_redeem_script x = (case parseScript r of None \<Rightarrow> None | Some (_, Some e) \<Rightarrow> Some (Inl (Fails e))
         | Some (pops, None) \<Rightarrow> Some (Inr (redeem_start pops v)))"
        using True start by (simp add: enter_redeem_script_def check sc split: option.split)
      have version: "\<not> MaxScriptPublicKeyVersion L < scriptVersion (redeem_start pops v)" for pops
        using f assms(7) by (simp add: redeem_start_def)
      have scripts: "scripts v = [first, hash_pops h]" using f assms by simp
      define y where "y = (redeem_start [] v)\<lparr>scriptIdx := 3\<rparr>"
      have empty: "finish_script (redeem_start [] v) = (True, y)"
        by (simp add: finish_script_def redeem_start_def scripts y_def numeral_2_eq_2 numeral_3_eq_3)
      have accept: "andThen (CheckErrorCondition True y) (\<lambda>_. Inr ()) = accepts s"
        using check_accepts [of y] by (simp add: y_def redeem_start_def scripts snoc)
      have more: "finish_script (redeem_start (p # pops) v) = (False, redeem_start (p # pops) v)" for p pops
        by (simp add: finish_script_def redeem_start_def scripts numeral_2_eq_2)
      show ?thesis
      proof (cases "parseScript r")
        case None
        then show ?thesis
          using assms(7) True by (simp add: Execute_def loop' end_script_def next' enter p2sh_verdict_def snoc)
      next
        case (Some q)
        obtain pops e where q: "q = (pops, e)" by (cases q)
        show ?thesis
          using assms(7) True Some accept more version
          by (cases e; cases pops) (simp_all add: Execute_def loop' end_script_def next' enter p2sh_verdict_def snoc q empty)
      qed
    qed
  qed
qed

subsection \<open>Scripts that the package makes\<close>

lemma parse_one_append:
  assumes "parse_one t b rest = Some (Inr (pop, s))"
  shows "parse_one t b (rest @ r) = Some (Inr (pop, s @ r))"
proof -
  define len where "len = op_length (t b)"
  have cut: "take (nat k) (rest @ r) = take (nat k) rest" "drop (nat k) (rest @ r) = drop (nat k) rest @ r"
    if "k \<le> int (length rest)" for k
    using that by simp_all
  consider "len = 1" | "1 < len" "\<not> int (length rest) + 1 < len" | "len < 0" "\<not> int (length rest) < - len"
    using assms by (auto simp: parse_one_def Let_def len_def split: if_splits)
  then show ?thesis
  proof cases
    case 2
    then have "nat len - 1 \<le> length rest" by linarith
    then show ?thesis using 2 assms by (simp add: parse_one_def Let_def flip: len_def)
  next
    case 3
    then have c: "take (nat (- len)) (rest @ r) = take (nat (- len)) rest" "drop (nat (- len)) (rest @ r) = drop (nat (- len)) rest @ r"
      by simp_all
    let ?l = "le_value (take (nat (- len)) rest)"
    have l: "\<not> length (drop (nat (- len)) rest) < ?l"
      using 3 assms by (auto simp: parse_one_def Let_def simp flip: len_def split: if_splits)
    then have "\<not> length (drop (nat (- len)) rest @ r) < ?l" "take ?l (drop (nat (- len)) rest @ r) = take ?l (drop (nat (- len)) rest)"
      "drop ?l (drop (nat (- len)) rest @ r) = drop ?l (drop (nat (- len)) rest) @ r" by simp_all
    moreover have "\<not> int (length (rest @ r)) < - len" using 3 by simp
    ultimately show ?thesis
      using 3 l assms unfolding parse_one_def Let_def len_def [symmetric] c by (simp split: if_splits) auto
  qed (use assms in \<open>simp add: parse_one_def Let_def flip: len_def\<close>)
qed

lemma parse_append:
  "parse_total t s = Some (pops, None) \<Longrightarrow>
     parse_total t (s @ r) = map_option (\<lambda>(qs, e). (pops @ qs, e)) (parse_total t r)"
proof (induction t s arbitrary: pops rule: parse_total.induct)
  case (1 t)
  then show ?case by (simp add: option.map_ident case_prod_beta')
next
  case (2 t b rest)
  then obtain pop s ps where one: "parse_one t b rest = Some (Inr (pop, s))" and ps: "parse_total t s = Some (ps, None)"
    and pops: "pops = pop # ps" by (auto split: option.splits sum.splits)
  show ?case
    using 2(1) [OF one refl refl ps] parse_one_append [OF one, of r]
    by (simp add: pops option.map_comp comp_def case_prod_beta')
qed

lemma signature_script_parses:
  assumes "PayToScriptHashSignatureScript redeem signature = Inr spend" "parseScript signature = Some (pops, None)"
  shows "parseScript spend = Some (pops @ [push_pop redeem], None)" "length redeem \<le> 520"
proof -
  from assms(1) have e: "sb_err (AddData redeem NewScriptBuilder) = None"
    and s: "spend = signature @ sb_script (AddData redeem NewScriptBuilder)"
    by (auto simp: PayToScriptHashSignatureScript_def andThen_Inr script_or_error_Inr)
  note a = AddData_added [OF e]
  show len: "length redeem \<le> 520" by (rule a(2))
  have "spend = signature @ added redeem" by (simp add: s a(3)) (simp add: NewScriptBuilder_def)
  moreover have "parseScript (added redeem) = Some ([push_pop redeem], None)"
  proof -
    have "list_all wf_pop [push_pop redeem]" "unparse [push_pop redeem] = Inr (added redeem)"
      using push_pop_wf [OF len] push_pop_bytes [OF len] by simp_all
    then show ?thesis by (simp only: parse_exact)
  qed
  ultimately show "parseScript spend = Some (pops @ [push_pop redeem], None)"
    using parse_append assms(2) by (simp add: parseScript_total)
qed

lemma hash_script_made:
  assumes "PayToScriptHashScript H redeem = Inr pub"
  shows "parseScript pub = Some (hash_pops (H redeem), None)"
proof -
  have "script_or_error (payToScriptHashScript (H redeem)) = Inr pub"
    using assms by (simp add: PayToScriptHashScript_def payToScriptHashScript_def)
  note h = hash_script_built [OF this]
  show ?thesis using hash_script_parses [OF h(2)] by (simp add: h(1) hash_pops_def)
qed

text \<open>C10: The scripts that the package makes for a script hash spend each other: the engine that runs the script of
  \<open>PayToScriptHashSignatureScript\<close> and then that of \<open>PayToScriptHashScript\<close>, for the same redeem script and
  with the hash function of the engine, ends as it does when it goes on with the redeem script on the stack
  that the signature part alone leaves. This is for hashes of 32 bytes, a redeem script that parses without
  error to at least one opcode and is not the single byte 0 (that byte arrives as the empty element),
  and a signature part that parses, runs without error, leaves no conditional open and fewer than 243 elements
  on both stacks; for every script version.\<close>

theorem p2sh_made_scripts:
  assumes "PayToScriptHashScript (lib_blake2b L) redeem = Inr pub"
    and "PayToScriptHashSignatureScript redeem signature = Inr spend"
    and "parseScript spend = Some (first, None)" "parseScript pub = Some (second, None)" "scripts vm = [first, second]"
    and "scriptIdx vm = 0" "scriptOff vm = 0" "isP2SH vm"
    and "parseScript signature = Some (pops, None)" "run_ops L pops vm = Inr v" "condStack v = []"
    and "length (dstack v) + length (astack v) < 243"
    and "length (lib_blake2b L redeem) = 32" "redeem \<noteq> [0]" "parseScript redeem = Some (rpops, None)" "rpops \<noteq> []"
  shows "Execute L vm = Execute L (v\<lparr>scripts := scripts vm @ [rpops], scriptIdx := 2, scriptOff := 0, numOps := 0,
    astack := [], savedFirstStack := dstack v @ [redeem]\<rparr>)"
proof (cases "scriptVersion vm \<le> MaxScriptPublicKeyVersion L")
  case False
  then show ?thesis using frame_ops [OF assms(10)] by (simp add: Execute_def)
next
  case True
  have first: "first = pops @ [push_pop redeem]" and len: "length redeem \<le> 520"
    using signature_script_parses [OF assms(2,9)] assms(3) by simp_all
  have second: "second = hash_pops (lib_blake2b L redeem)" using hash_script_made [OF assms(1)] assms(4) by simp
  define u where "u = v\<lparr>scriptOff := scriptOff v + 1, dstack := dstack v @ [redeem]\<rparr>"
  have "step_op L (push_pop redeem) v = Inr u"
    using push_step [OF len, of v L] assms(11,12,14) by (simp add: isBranchExecuting_def pushed_element_def u_def)
  then have run: "run_ops L first vm = Inr u" by (simp add: first run_ops_append assms(10))
  have "Execute L vm = p2sh_verdict L (lib_blake2b L redeem) u"
    by (rule p2sh_execution [OF _ _ _ _ _ _ _ run]) (use assms True second first in \<open>simp_all add: u_def\<close>)
  also have "\<dots> = Execute L (redeem_start rpops u)"
    using assms(15,16) by (cases rpops) (simp_all add: p2sh_verdict_def u_def)
  also have "redeem_start rpops u = v\<lparr>scripts := scripts vm @ [rpops], scriptIdx := 2, scriptOff := 0, numOps := 0,
      astack := [], savedFirstStack := dstack v @ [redeem]\<rparr>"
    using frame_ops [OF assms(10)] by (simp add: redeem_start_def u_def)
  finally show ?thesis .
qed

text \<open>A redeem script \<open>OP_1\<close>, spent with the signature part \<open>OP_2\<close>; the hash function is constant.\<close>

definition p2sh_lib :: script_lib where
  "p2sh_lib = example_lib\<lparr>lib_blake2b := \<lambda>_. replicate 32 7\<rparr>"

definition p2sh_vm :: engine where
  "p2sh_vm = empty_engine\<lparr>scripts := [[push_pop [2], push_pop [0x51]], hash_pops (replicate 32 7)], isP2SH := True\<rparr>"

lemma p2sh_made_scripts_witness:
  "Execute p2sh_lib p2sh_vm = Execute p2sh_lib (p2sh_vm\<lparr>dstack := [[2]], scripts := scripts p2sh_vm @ [[table_op 0x51]],
     scriptIdx := 2, savedFirstStack := [[2], [0x51]]\<rparr>)"
proof -
  let ?v = "p2sh_vm\<lparr>scriptOff := 1, dstack := [[2]]\<rparr>"
  have op: "wf_pop (table_op 0x51)" "unparse [table_op 0x51] = Inr [0x51]"
    using wf_code [of "0x51"] by (simp_all add: opcodeArray_length missing_def)
  have push: "parseScript [0x52] = Some ([push_pop [2]], None)"
  proof -
    have "added [2] = [0x52]" by (simp add: added_def addData_def NewScriptBuilder_def)
    then have "list_all wf_pop [push_pop [2]]" "unparse [push_pop [2]] = Inr [0x52]"
      using push_pop_wf [of "[2]"] push_pop_bytes [of "[2]"] by simp_all
    then show ?thesis by (simp only: parse_exact)
  qed
  have redeem: "parseScript [0x51] = Some ([table_op 0x51], None)"
    using parse_exact [of "[table_op 0x51]" "[0x51]"] op by simp
  have pub: "PayToScriptHashScript (lib_blake2b p2sh_lib) [0x51] = Inr (0xaa # 0x20 # replicate 32 7 @ [0x87])"
    by code_simp
  have spend: "PayToScriptHashSignatureScript [0x51] [0x52] = Inr [0x52, 1, 0x51]" by code_simp
  have "step_op p2sh_lib (push_pop [2]) p2sh_vm = Inr ?v"
    using push_step [of "[2]" p2sh_vm p2sh_lib]
    by (simp add: p2sh_vm_def empty_engine_def isBranchExecuting_def pushed_element_def)
  then have run: "run_ops p2sh_lib [push_pop [2]] p2sh_vm = Inr ?v" by simp
  have "Execute p2sh_lib p2sh_vm = Execute p2sh_lib (?v\<lparr>scripts := scripts p2sh_vm @ [[table_op 0x51]], scriptIdx := 2,
      scriptOff := 0, numOps := 0, astack := [], savedFirstStack := dstack ?v @ [[0x51]]\<rparr>)"
    by (rule p2sh_made_scripts [OF pub spend, where first = "[push_pop [2], push_pop [0x51]]" and second = "hash_pops (replicate 32 7)"
        and pops = "[push_pop [2]]"])
      (use signature_script_parses [OF spend push] hash_script_made [OF pub] push redeem run
        in \<open>simp_all add: p2sh_vm_def empty_engine_def p2sh_lib_def example_lib_def\<close>)
  then show ?thesis by (simp add: p2sh_vm_def empty_engine_def)
qed

end
