(* ===== verification/KaspaTx.thy ===== *)
theory KaspaTx
  imports KaspaBuilt Builder UtxoInputs
begin

text \<open>
  The transactions of kaspa, \<^verbatim>\<open>chain/kaspa/tx/tx.go\<close> and \<^verbatim>\<open>serde.go\<close>, with the builder of \<^verbatim>\<open>chain/kaspa/builder\<close>.
  What the code calls of the kaspa library is the record \<open>kaspa_sdk\<close>: the decoder of addresses, the
  parsing and printing of transaction ids, the hash to sign. Amounts are 64-bit words: they are
  cut to 64 bits and their sums wrap around. The printing of the message as JSON is a parameter too.
\<close>

record domain_outpoint =
  out_txid :: bytes
  out_index :: u32

record domain_input =
  in_outpoint :: domain_outpoint
  in_signature_script :: bytes
  in_sequence :: u64
  in_sig_op_count :: byte
  in_amount :: u64
  in_script :: ScriptPublicKey

record domain_output =
  out_value :: u64
  out_script :: ScriptPublicKey

record domain_transaction =
  kd_version :: nat
  kd_inputs :: "domain_input list"
  kd_outputs :: "domain_output list"
  kd_lock_time :: u64
  kd_subnetwork :: bytes
  kd_gas :: u64
  kd_payload :: "bytes option"

record kaspa_sdk =
  DecodeAddress :: "address \<Rightarrow> u64 \<Rightarrow> util_address option"
  txid_FromBytes :: "bytes \<Rightarrow> bytes option"
  txid_String :: "bytes \<Rightarrow> string"
  subnetwork_String :: "bytes \<Rightarrow> string"
  SignatureHashSchnorr :: "domain_transaction \<Rightarrow> nat \<Rightarrow> bytes option"
  TransactionID :: "domain_transaction \<Rightarrow> bytes"
  MaxTransactionVersion :: nat
  SubnetworkIDNative :: bytes
  SigHashAll :: byte

datatype kaspa_error = KaspaBadHex | KaspaBadTxId | KaspaBadAddress | KaspaNoScript standard_error
  | KaspaNoSighash | KaspaSignatureCount nat nat | KaspaBadSignature standard_error | KaspaNotSigned

record kaspa_tx =
  kx_args :: transfer_args
  kx_input :: kaspa_input
  kx_prefix :: u64
  kx_signed :: "domain_transaction option"
  kx_signatures :: "bytes list"

definition kaspa_NewTx :: "transfer_args \<Rightarrow> kaspa_input \<Rightarrow> u64 \<Rightarrow> kaspa_tx" where
  "kaspa_NewTx args input chainPrefix = \<lparr>kx_args = args, kx_input = input, kx_prefix = chainPrefix,
     kx_signed = None, kx_signatures = []\<rparr>"

text \<open>The builder; \<open>None\<close> is the panic of the type assertion on an input of another chain.\<close>

definition kaspa_Transfer :: "u64 \<Rightarrow> transfer_args \<Rightarrow> 'd tx_input option \<Rightarrow> kaspa_tx option" where
  "kaspa_Transfer prefixInt args input = (case input of
     Some (KaspaIn i) \<Rightarrow> Some (kaspa_NewTx args i prefixInt) | _ \<Rightarrow> None)"

definition script_of :: "kaspa_sdk \<Rightarrow> u64 \<Rightarrow> address \<Rightarrow> kaspa_error + ScriptPublicKey" where
  "script_of S pre a = (case DecodeAddress S a pre of None \<Rightarrow> Inl KaspaBadAddress
     | Some addr \<Rightarrow> (case PayToAddrScript addr of Inl e \<Rightarrow> Inl (KaspaNoScript e) | Inr s \<Rightarrow> Inr s))"

definition build_input :: "kaspa_sdk \<Rightarrow> kaspa_tx \<Rightarrow> kaspa_utxo \<Rightarrow> kaspa_error + domain_input" where
  "build_input S tx u = (case hex_decode (ku_transaction_id u) of None \<Rightarrow> Inl KaspaBadHex
     | Some txIdBytes \<Rightarrow> (case txid_FromBytes S (map of_nat txIdBytes) of None \<Rightarrow> Inl KaspaBadTxId
     | Some transactionID \<Rightarrow> andThen (script_of S (kx_prefix tx) (ta_from (kx_args tx))) (\<lambda>scriptPublicKey.
         Inr \<lparr>in_outpoint = \<lparr>out_txid = transactionID, out_index = ucast (ku_index u)\<rparr>,
           in_signature_script = [], in_sequence = 0, in_sig_op_count = 1,
           in_amount = big_uint64 (ku_amount u), in_script = scriptPublicKey\<rparr>)))"

fun build_inputs :: "kaspa_sdk \<Rightarrow> kaspa_tx \<Rightarrow> kaspa_utxo list \<Rightarrow> u64 \<Rightarrow> kaspa_error + (domain_input list \<times> u64)" where
  "build_inputs S tx [] totalInput = Inr ([], totalInput)"
| "build_inputs S tx (u # us) totalInput = andThen (build_input S tx u) (\<lambda>i.
     andThen (build_inputs S tx us (totalInput + big_uint64 (ku_amount u))) (\<lambda>(is, spent). Inr (i # is, spent)))"

definition BuildUnsignedDomainTransaction :: "kaspa_sdk \<Rightarrow> kaspa_tx \<Rightarrow> kaspa_error + domain_transaction" where
  "BuildUnsignedDomainTransaction S tx =
     andThen (build_inputs S tx (ka_utxos (kx_input tx)) 0) (\<lambda>(inputs, totalInput).
     andThen (script_of S (kx_prefix tx) (ta_to (kx_args tx))) (\<lambda>scriptPublicKey.
       let toAmount = big_uint64 (ta_amount (kx_args tx));
           outputs = [\<lparr>out_value = toAmount, out_script = scriptPublicKey\<rparr>];
           fee = big_uint64 (fst (kaspa_get_fee_limit (kx_input tx)))
       in andThen
         (if toAmount + fee < totalInput then
            let change = totalInput - (toAmount + fee) in
            andThen (script_of S (kx_prefix tx) (ta_from (kx_args tx))) (\<lambda>changeScript.
              Inr (outputs @ [\<lparr>out_value = change, out_script = changeScript\<rparr>]))
          else Inr outputs) (\<lambda>outputs.
       Inr \<lparr>kd_version = MaxTransactionVersion S, kd_inputs = inputs, kd_outputs = outputs, kd_lock_time = 0,
         kd_subnetwork = SubnetworkIDNative S, kd_gas = 0, kd_payload = None\<rparr>)))"

fun sighash_loop :: "kaspa_sdk \<Rightarrow> domain_transaction \<Rightarrow> nat list \<Rightarrow> kaspa_error + bytes list" where
  "sighash_loop S dt [] = Inr []"
| "sighash_loop S dt (i # is) = (case SignatureHashSchnorr S dt i of None \<Rightarrow> Inl KaspaNoSighash
     | Some h \<Rightarrow> andThen (sighash_loop S dt is) (\<lambda>hs. Inr (h # hs)))"

definition kaspa_Sighashes :: "kaspa_sdk \<Rightarrow> kaspa_tx \<Rightarrow> kaspa_error + bytes list" where
  "kaspa_Sighashes S tx = andThen (BuildUnsignedDomainTransaction S tx) (\<lambda>dt.
     sighash_loop S dt [0..<length (kd_inputs dt)])"

text \<open>
  The loop of \<^verbatim>\<open>SetSignatures\<close>: the inputs with their scripts, and the signatures that are kept; those
  behind an error stay empty.
\<close>

fun sign_loop :: "kaspa_sdk \<Rightarrow> domain_input list \<Rightarrow> bytes list \<Rightarrow> domain_input list \<times> bytes list \<times> kaspa_error option" where
  "sign_loop S (i # is) (signature # signatures) =
     (case script_or_error (Script (AddData (signature @ [SigHashAll S]) NewScriptBuilder)) of
        Inl e \<Rightarrow> (i # is, replicate (Suc (length signatures)) [], Some (KaspaBadSignature e))
      | Inr signatureScript \<Rightarrow> (case sign_loop S is signatures of (is', kept, e) \<Rightarrow>
          (i\<lparr>in_signature_script := signatureScript\<rparr> # is', signature # kept, e)))"
| "sign_loop S is _ = (is, [], None)"

definition kaspa_SetSignatures :: "kaspa_sdk \<Rightarrow> bytes list \<Rightarrow> kaspa_tx \<Rightarrow> kaspa_tx \<times> kaspa_error option" where
  "kaspa_SetSignatures S signatures tx = (case BuildUnsignedDomainTransaction S tx of
     Inl e \<Rightarrow> (tx, Some e)
   | Inr dt \<Rightarrow>
      if length signatures \<noteq> length (kd_inputs dt)
      then (tx, Some (KaspaSignatureCount (length (kd_inputs dt)) (length signatures)))
      else (case sign_loop S (kd_inputs dt) signatures of
          (inputs, kept, Some e) \<Rightarrow> (tx\<lparr>kx_signatures := kept\<rparr>, Some e)
        | (inputs, kept, None) \<Rightarrow> (tx\<lparr>kx_signatures := kept, kx_signed := Some (dt\<lparr>kd_inputs := inputs\<rparr>)\<rparr>, None)))"

text \<open>\<^verbatim>\<open>Hash\<close> of a transaction that is not signed gives the library a nil pointer: \<open>None\<close>.\<close>

definition kaspa_Hash :: "kaspa_sdk \<Rightarrow> kaspa_tx \<Rightarrow> string option" where
  "kaspa_Hash S tx = map_option (\<lambda>dt. hex_of (TransactionID S dt)) (kx_signed tx)"

subsection \<open>The message\<close>

record message_input =
  mi_txid :: string
  mi_index :: u32
  mi_signature_script :: string
  mi_sequence :: u64
  mi_sig_op_count :: u32

record message_output =
  mo_amount :: u64
  mo_version :: nat
  mo_script :: string

record transaction_message =
  tm_version :: nat
  tm_inputs :: "message_input list"
  tm_outputs :: "message_output list"
  tm_lock_time :: u64
  tm_subnetwork :: string
  tm_allow_orphan :: bool

definition message_of :: "kaspa_sdk \<Rightarrow> domain_transaction \<Rightarrow> transaction_message" where
  "message_of S dt = \<lparr>tm_version = kd_version dt,
     tm_inputs = map (\<lambda>i. \<lparr>mi_txid = txid_String S (out_txid (in_outpoint i)), mi_index = out_index (in_outpoint i),
       mi_signature_script = hex_of (in_signature_script i), mi_sequence = in_sequence i,
       mi_sig_op_count = ucast (in_sig_op_count i)\<rparr>) (kd_inputs dt),
     tm_outputs = map (\<lambda>out. \<lparr>mo_amount = out_value out, mo_version = spk_version (out_script out),
       mo_script = hex_of (spk_script (out_script out))\<rparr>) (kd_outputs dt),
     tm_lock_time = kd_lock_time dt, tm_subnetwork = subnetwork_String S (kd_subnetwork dt), tm_allow_orphan = False\<rparr>"

definition kaspa_Serialize :: "kaspa_sdk \<Rightarrow> (transaction_message \<Rightarrow> bytes) \<Rightarrow> kaspa_tx \<Rightarrow> kaspa_error + bytes" where
  "kaspa_Serialize S marshal tx = (case kx_signed tx of None \<Rightarrow> Inl KaspaNotSigned
     | Some dt \<Rightarrow> Inr (marshal (message_of S dt)))"

subsection \<open>What a transaction spends and pays\<close>

lemma build_inputs_Inr:
  "build_inputs S tx us t = Inr (inputs, spent) \<Longrightarrow>
     map in_amount inputs = map (big_uint64 \<circ> ku_amount) us \<and> spent = t + sum_list (map (big_uint64 \<circ> ku_amount) us)
     \<and> list_all (\<lambda>i. in_signature_script i = []) inputs"
proof (induction us arbitrary: t inputs)
  case (Cons u us)
  then obtain i ins where i: "build_input S tx u = Inr i" "inputs = i # ins"
    "build_inputs S tx us (t + big_uint64 (ku_amount u)) = Inr (ins, spent)"
    by (auto simp: andThen_Inr)
  have "in_amount i = big_uint64 (ku_amount u)" "in_signature_script i = []"
    using i(1) by (auto simp: build_input_def andThen_Inr split: option.splits)
  with Cons.IH [OF i(3)] i(2) show ?case by (simp add: add.assoc)
qed simp

lemma word_sum:
  "\<forall>u\<in>set us. 0 \<le> ku_amount u \<Longrightarrow> sum_list (map (big_uint64 \<circ> ku_amount) us) = word_of_int (sum_list (map ku_amount us))"
  by (induction us) (simp_all add: big_uint64_def)

text \<open>The id of an unspent output, as the library reads it, and the input that spends the output.\<close>

definition utxo_txid :: "kaspa_sdk \<Rightarrow> kaspa_utxo \<Rightarrow> bytes option" where
  "utxo_txid S u = (case hex_decode (ku_transaction_id u) of None \<Rightarrow> None | Some b \<Rightarrow> txid_FromBytes S (map of_nat b))"

definition spends_utxo :: "kaspa_sdk \<Rightarrow> ScriptPublicKey \<Rightarrow> kaspa_utxo \<Rightarrow> domain_input \<Rightarrow> bool" where
  "spends_utxo S own u i \<longleftrightarrow> utxo_txid S u = Some (out_txid (in_outpoint i))
     \<and> out_index (in_outpoint i) = ucast (ku_index u) \<and> uint (in_amount i) = ku_amount u
     \<and> in_script i = own \<and> in_signature_script i = []"

lemma build_inputs_ok:
  assumes "script_of S (kx_prefix tx) (ta_from (kx_args tx)) = Inr own"
  shows "\<forall>u\<in>set us. utxo_txid S u \<noteq> None \<and> 0 \<le> ku_amount u \<and> ku_amount u < 2 ^ 64 \<Longrightarrow>
    \<exists>inputs spent. build_inputs S tx us t = Inr (inputs, spent) \<and> list_all2 (spends_utxo S own) us inputs"
proof (induction us arbitrary: t)
  case (Cons u us)
  then obtain b txid where u: "hex_decode (ku_transaction_id u) = Some b" "txid_FromBytes S (map of_nat b) = Some txid"
    by (auto simp: utxo_txid_def split: option.splits)
  let ?i = "\<lparr>in_outpoint = \<lparr>out_txid = txid, out_index = ucast (ku_index u)\<rparr>, in_signature_script = [], in_sequence = 0,
    in_sig_op_count = 1, in_amount = big_uint64 (ku_amount u), in_script = own\<rparr>"
  have i: "build_input S tx u = Inr ?i" "spends_utxo S own u ?i"
    using u Cons.prems assms by (simp_all add: build_input_def spends_utxo_def utxo_txid_def uint_big_uint64)
  obtain inputs spent where "build_inputs S tx us (t + big_uint64 (ku_amount u)) = Inr (inputs, spent)"
    "list_all2 (spends_utxo S own) us inputs"
    using Cons by force
  with i show ?case by simp
qed simp

lemma spent_amounts:
  "list_all2 (spends_utxo S own) us is \<Longrightarrow> sum_list (map (\<lambda>i. uint (in_amount i)) is) = sum_list (map ku_amount us)"
  by (induction rule: list_all2_induct) (simp_all add: spends_utxo_def)

text \<open>C24: What a kaspa transfer spends and pays. When the ids of the unspent outputs can be read, both addresses
  have a script and no amount or sum leaves 64 bits, the transfer is built: its inputs spend the unspent outputs in
  order, each by the transaction id and index (its low 32 bits) it has, with its amount and the
  script of the sender; the first output pays the amount to the receiver; and only where the inputs exceed
  amount and fee together is there one more output, which returns exactly the rest to the sender, so that
  inputs are outputs plus fee. It is built also where the inputs do not even cover the amount.\<close>

theorem kaspa_transfer_exact:
  assumes "fee = fst (kaspa_get_fee_limit (kx_input tx))" "amount = ta_amount (kx_args tx)"
    and "us = ka_utxos (kx_input tx)" "spent = sum_list (map ku_amount us)"
    and "\<forall>u\<in>set us. utxo_txid S u \<noteq> None \<and> 0 \<le> ku_amount u"
    and "script_of S (kx_prefix tx) (ta_from (kx_args tx)) = Inr own"
    and "script_of S (kx_prefix tx) (ta_to (kx_args tx)) = Inr receiver"
    and "0 \<le> amount" "0 \<le> fee" "spent < 2 ^ 64" "amount + fee < 2 ^ 64"
  shows "\<exists>dt. BuildUnsignedDomainTransaction S tx = Inr dt \<and> list_all2 (spends_utxo S own) us (kd_inputs dt)
    \<and> map (\<lambda>out. (uint (out_value out), out_script out)) (kd_outputs dt)
        = (amount, receiver) # (if amount + fee < spent then [(spent - amount - fee, own)] else [])
    \<and> (amount + fee \<le> spent \<longrightarrow> sum_list (map (\<lambda>i. uint (in_amount i)) (kd_inputs dt)) =
         sum_list (map (\<lambda>out. uint (out_value out)) (kd_outputs dt)) + fee)"
proof -
  have nonneg: "0 \<le> spent" using assms(4,5) by (auto intro!: sum_list_nonneg)
  have each: "ku_amount u < 2 ^ 64" if "u \<in> set us" for u
  proof -
    have "ku_amount u \<le> sum_list (map ku_amount us)" using that assms(5) by (intro member_le_sum_list) auto
    then show ?thesis using assms(4,10) by simp
  qed
  obtain inputs t where ins: "build_inputs S tx us 0 = Inr (inputs, t)" and sp: "list_all2 (spends_utxo S own) us inputs"
    using build_inputs_ok [OF assms(6), of us 0] assms(5) each by blast
  have "\<forall>u\<in>set us. 0 \<le> ku_amount u" using assms(5) by blast
  from word_sum [OF this] have t: "uint t = spent"
    using build_inputs_Inr [OF ins] nonneg assms(4,10) by (simp add: uint_word_of_int)
  let ?a = "big_uint64 amount" and ?f = "big_uint64 fee"
  have af: "uint ?a = amount" "uint ?f = fee" using assms(8,9,11) by (simp_all add: uint_big_uint64)
  have sum: "uint (?a + ?f) = amount + fee" using assms(8,9,11) by (simp add: uint_word_ariths af)
  have less: "?a + ?f < t \<longleftrightarrow> amount + fee < spent" by (simp add: word_less_def sum t)
  have change: "uint (t - (?a + ?f)) = spent - amount - fee" if "amount + fee < spent"
    using that sum t by (simp add: uint_sub_if')
  define dt where "dt = \<lparr>kd_version = MaxTransactionVersion S, kd_inputs = inputs,
    kd_outputs = \<lparr>out_value = ?a, out_script = receiver\<rparr>
      # (if amount + fee < spent then [\<lparr>out_value = t - (?a + ?f), out_script = own\<rparr>] else []),
    kd_lock_time = 0, kd_subnetwork = SubnetworkIDNative S, kd_gas = 0, kd_payload = None\<rparr>"
  have built: "BuildUnsignedDomainTransaction S tx = Inr dt"
    using ins less assms(6,7) by (simp add: BuildUnsignedDomainTransaction_def Let_def dt_def flip: assms(1-3))
  have dt: "kd_inputs dt = inputs" "map (\<lambda>out. (uint (out_value out), out_script out)) (kd_outputs dt)
        = (amount, receiver) # (if amount + fee < spent then [(spent - amount - fee, own)] else [])"
    using change af by (simp_all add: dt_def)
  have "sum_list (map (\<lambda>out. uint (out_value out)) (kd_outputs dt)) = spent - fee" if "amount + fee \<le> spent"
  proof -
    have "map (\<lambda>out. uint (out_value out)) (kd_outputs dt) = map fst (map (\<lambda>out. (uint (out_value out), out_script out)) (kd_outputs dt))"
      by simp
    then show ?thesis using that unfolding dt(2) by simp
  qed
  then show ?thesis using built dt sp spent_amounts [OF sp] assms(4) by simp
qed

text \<open>An amount above 64 bits is cut.\<close>

lemma amount_cut: "big_uint64 (2 ^ 64 + 5) = 5"
  by code_simp

subsection \<open>What is signed and sent\<close>

lemma sign_loop_ok:
  "length xs = length ss \<Longrightarrow> sign_loop S xs ss = (ys, kept, None) \<Longrightarrow> kept = ss \<and>
     list_all2 (\<lambda>i i'. i' = i\<lparr>in_signature_script := in_signature_script i'\<rparr>) xs ys \<and>
     list_all2 (\<lambda>s i'. script_or_error (Script (AddData (s @ [SigHashAll S]) NewScriptBuilder)) = Inr (in_signature_script i')) ss ys"
proof (induction xs ss arbitrary: ys kept rule: list_induct2')
  case (4 i xs s ss)
  then obtain sc ys' kept' where sc: "script_or_error (Script (AddData (s @ [SigHashAll S]) NewScriptBuilder)) = Inr sc"
    and rest: "sign_loop S xs ss = (ys', kept', None)"
    and r: "ys = i\<lparr>in_signature_script := sc\<rparr> # ys'" "kept = s # kept'"
    by (auto split: sum.splits prod.splits)
  show ?case using 4(1) [OF _ rest] 4(2) sc by (simp add: r)
qed simp_all

lemma cleared:
  "list_all2 (\<lambda>i i'. i' = i\<lparr>in_signature_script := in_signature_script i'\<rparr>) xs ys \<Longrightarrow>
     list_all (\<lambda>i. in_signature_script i = []) xs \<Longrightarrow> map (\<lambda>i. i\<lparr>in_signature_script := []\<rparr>) ys = xs"
proof (induction rule: list_all2_induct)
  case (Cons i xs i' ys)
  have "i'\<lparr>in_signature_script := []\<rparr> = i\<lparr>in_signature_script := []\<rparr>" by (subst Cons(1)) simp
  also have "\<dots> = i" using Cons.prems by (cases i) simp
  finally show ?case using Cons by simp
qed simp

lemma signature_pushed:
  assumes "script_or_error (Script (AddData d NewScriptBuilder)) = Inr s" "d \<noteq> [0]"
  shows "\<exists>pop. parseScript s = Some ([pop], None) \<and>
    step_op L pop empty_engine = Inr (empty_engine\<lparr>scriptOff := 1, dstack := [d]\<rparr>)"
proof -
  have e: "sb_err (AddData d NewScriptBuilder) = None" and s: "s = sb_script (AddData d NewScriptBuilder)"
    using assms(1) by (simp_all add: script_or_error_Inr)
  note a = AddData_added [OF e]
  have "s = added d" unfolding s a(3) by (simp add: NewScriptBuilder_def)
  moreover have "list_all wf_pop [push_pop d]" "unparse [push_pop d] = Inr (added d)"
    using push_pop_wf [OF a(2)] push_pop_bytes [OF a(2)] by simp_all
  ultimately have "parseScript s = Some ([push_pop d], None)" by (simp only: parse_exact)
  moreover have "step_op L (push_pop d) empty_engine = Inr (empty_engine\<lparr>scriptOff := 1, dstack := [d]\<rparr>)"
    using push_step [OF a(2), of empty_engine L] assms(2)
    by (simp add: isBranchExecuting_def empty_engine_def pushed_element_def)
  ultimately show ?thesis by blast
qed

text \<open>C25: What is sent is what was signed. Signing succeeds only with one signature per input; the transaction that
  is kept is, but for the signature scripts of its inputs, the one the hashes to sign are of,
  and the script of each input parses to one opcode that pushes its signature with the hash type behind it.\<close>

theorem kaspa_signs_what_it_sends:
  assumes "kaspa_SetSignatures S signatures tx = (tx', None)" "SigHashAll S \<noteq> 0"
  shows "\<exists>unsigned signed. BuildUnsignedDomainTransaction S tx = Inr unsigned \<and> kx_signed tx' = Some signed \<and>
    signed\<lparr>kd_inputs := map (\<lambda>i. i\<lparr>in_signature_script := []\<rparr>) (kd_inputs signed)\<rparr> = unsigned \<and>
    kaspa_Sighashes S tx = sighash_loop S unsigned [0..<length signatures] \<and> kx_signatures tx' = signatures \<and>
    list_all2 (\<lambda>s i. \<exists>pop. parseScript (in_signature_script i) = Some ([pop], None) \<and>
      step_op L pop empty_engine = Inr (empty_engine\<lparr>scriptOff := 1, dstack := [s @ [SigHashAll S]]\<rparr>)) signatures (kd_inputs signed)"
proof -
  from assms(1) obtain dt inputs kept where b: "BuildUnsignedDomainTransaction S tx = Inr dt"
    and len: "length (kd_inputs dt) = length signatures" and loop: "sign_loop S (kd_inputs dt) signatures = (inputs, kept, None)"
    and tx': "tx' = tx\<lparr>kx_signatures := kept, kx_signed := Some (dt\<lparr>kd_inputs := inputs\<rparr>)\<rparr>"
    by (auto simp: kaspa_SetSignatures_def split: sum.splits if_splits prod.splits option.splits)
  obtain ins t where ins: "build_inputs S tx (ka_utxos (kx_input tx)) 0 = Inr (ins, t)" "kd_inputs dt = ins"
    using b by (auto simp: BuildUnsignedDomainTransaction_def andThen_Inr Let_def split: if_splits)
  have empty: "list_all (\<lambda>i. in_signature_script i = []) (kd_inputs dt)" using build_inputs_Inr [OF ins(1)] ins(2) by simp
  note l = sign_loop_ok [OF len loop]
  have "map (\<lambda>i. i\<lparr>in_signature_script := []\<rparr>) inputs = kd_inputs dt" using l empty by (intro cleared) auto
  moreover have "list_all2 (\<lambda>s i. \<exists>pop. parseScript (in_signature_script i) = Some ([pop], None) \<and>
      step_op L pop empty_engine = Inr (empty_engine\<lparr>scriptOff := 1, dstack := [s @ [SigHashAll S]]\<rparr>)) signatures inputs"
    by (rule list_all2_mono [OF l [THEN conjunct2, THEN conjunct2]]) (rule signature_pushed, assumption, use assms(2) in simp)
  moreover have "kaspa_Sighashes S tx = sighash_loop S dt [0..<length signatures]" by (simp add: kaspa_Sighashes_def b len)
  ultimately show ?thesis using b l tx' by simp
qed

subsection \<open>A transfer of 60 out of 100, with a fee of 10\<close>

definition example_sdk :: kaspa_sdk where
  "example_sdk = \<lparr>DecodeAddress = \<lambda>_ _. Some (AddressPublicKey (Some (replicate 32 1))), txid_FromBytes = Some,
     txid_String = \<lambda>_. [], subnetwork_String = \<lambda>_. [], SignatureHashSchnorr = \<lambda>_ _. Some [5], TransactionID = \<lambda>_. [6],
     MaxTransactionVersion = 0, SubnetworkIDNative = [], SigHashAll = 1\<rparr>"

definition example_tx :: kaspa_tx where
  "example_tx = kaspa_NewTx \<lparr>ta_applied_options = [], ta_options = newBuilderOptions, ta_from = ''from'', ta_to = ''to'', ta_amount = 60\<rparr>
     \<lparr>ka_address = ''from'', ka_utxos = [\<lparr>ku_transaction_id = ''0a'', ku_index = 3, ku_amount = 100\<rparr>],
       ka_fee_per_gram = 0, ka_mass = 0, ka_min_fee = 10\<rparr> 0"

definition example_unsigned :: domain_transaction where
  "example_unsigned = projr (BuildUnsignedDomainTransaction example_sdk example_tx)"

lemma example_built: "BuildUnsignedDomainTransaction example_sdk example_tx = Inr example_unsigned"
proof -
  have "\<not> isl (BuildUnsignedDomainTransaction example_sdk example_tx)" by code_simp
  then show ?thesis by (simp add: example_unsigned_def)
qed

lemma example_fee: "fst (kaspa_get_fee_limit (kx_input example_tx)) = 10"
  by code_simp

definition example_script :: ScriptPublicKey where
  "example_script = projr (script_of example_sdk 0 ''from'')"

lemma kaspa_transfer_exact_witness:
  "\<exists>dt. BuildUnsignedDomainTransaction example_sdk example_tx = Inr dt
     \<and> list_all2 (spends_utxo example_sdk example_script) (ka_utxos (kx_input example_tx)) (kd_inputs dt)
     \<and> map (\<lambda>out. (uint (out_value out), out_script out)) (kd_outputs dt) = [(60, example_script), (30, example_script)]"
proof -
  have "\<not> isl (script_of example_sdk 0 ''from'')" by code_simp
  then have own: "script_of example_sdk (kx_prefix example_tx) (ta_from (kx_args example_tx)) = Inr example_script"
    by (simp add: example_script_def example_tx_def kaspa_NewTx_def)
  then have receiver: "script_of example_sdk (kx_prefix example_tx) (ta_to (kx_args example_tx)) = Inr example_script"
    by (simp add: script_of_def example_sdk_def)
  have id: "\<forall>u\<in>set (ka_utxos (kx_input example_tx)). utxo_txid example_sdk u \<noteq> None \<and> 0 \<le> ku_amount u" by code_simp
  have "\<exists>dt. BuildUnsignedDomainTransaction example_sdk example_tx = Inr dt
     \<and> list_all2 (spends_utxo example_sdk example_script) (ka_utxos (kx_input example_tx)) (kd_inputs dt)
     \<and> map (\<lambda>out. (uint (out_value out), out_script out)) (kd_outputs dt)
       = (60, example_script) # (if 60 + 10 < (100 :: int) then [(100 - 60 - 10, example_script)] else [])
     \<and> (60 + 10 \<le> (100 :: int) \<longrightarrow> sum_list (map (\<lambda>i. uint (in_amount i)) (kd_inputs dt)) =
         sum_list (map (\<lambda>out. uint (out_value out)) (kd_outputs dt)) + 10)"
    by (rule kaspa_transfer_exact [OF example_fee [symmetric] _ refl _ id own receiver])
      (simp_all add: example_tx_def kaspa_NewTx_def)
  then show ?thesis by (rule ex_forward) simp
qed

lemma kaspa_signs_what_it_sends_witness:
  "\<exists>unsigned signed. BuildUnsignedDomainTransaction example_sdk example_tx = Inr unsigned \<and>
     kx_signed (fst (kaspa_SetSignatures example_sdk [[1, 2]] example_tx)) = Some signed \<and>
     list_all2 (\<lambda>s i. \<exists>pop. parseScript (in_signature_script i) = Some ([pop], None) \<and>
      step_op example_lib pop empty_engine = Inr (empty_engine\<lparr>scriptOff := 1, dstack := [s @ [1]]\<rparr>)) [[1, 2]] (kd_inputs signed)"
proof -
  have "snd (kaspa_SetSignatures example_sdk [[1, 2]] example_tx) = None" by code_simp
  then have "kaspa_SetSignatures example_sdk [[1, 2]] example_tx = (fst (kaspa_SetSignatures example_sdk [[1, 2]] example_tx), None)"
    by (metis prod.collapse)
  from kaspa_signs_what_it_sends [OF this, of example_lib] show ?thesis by (fastforce simp: example_sdk_def)
qed

end
