(* ===== verification/Normalize.thy ===== *)
theory Normalize
  imports Assets
begin

text \<open>
  \<^verbatim>\<open>normalize/normalize.go\<close>: the canonical form of addresses, contracts and transaction hashes of
  each chain. TON addresses are parsed by \<^verbatim>\<open>tonutils-go\<close>, the parameter \<open>ton\<close>: the printed form of
  the address a string parses to, if it does. Strings are ASCII.
\<close>

subsection \<open>Base64\<close>

text \<open>
  \<^verbatim>\<open>encoding/base64\<close> with the last two characters of the alphabet as parameters; line breaks are
  skipped, trailing bits ignored. \<open>pad\<close>: the final quantum is padded (the standard encoding) or
  not (the raw one).
\<close>

definition b64_value :: "char \<Rightarrow> char \<Rightarrow> char \<Rightarrow> nat option" where
  "b64_value p q c = (let n = of_char c :: nat in
     if 65 \<le> n \<and> n \<le> 90 then Some (n - 65)
     else if 97 \<le> n \<and> n \<le> 122 then Some (n - 71)
     else if 48 \<le> n \<and> n \<le> 57 then Some (n + 4)
     else if c = p then Some 62 else if c = q then Some 63 else None)"

definition b64_two :: "nat \<Rightarrow> nat \<Rightarrow> nat list" where
  "b64_two a b = [a * 4 + b div 16]"

definition b64_three :: "nat \<Rightarrow> nat \<Rightarrow> nat \<Rightarrow> nat list" where
  "b64_three a b c = [a * 4 + b div 16, b mod 16 * 16 + c div 4]"

fun b64_quanta :: "bool \<Rightarrow> (char \<Rightarrow> nat option) \<Rightarrow> string \<Rightarrow> nat list option" where
  "b64_quanta pad v [] = Some []"
| "b64_quanta pad v [a] = None"
| "b64_quanta pad v [a, b] = (if pad then None
     else (case (v a, v b) of (Some x, Some y) \<Rightarrow> Some (b64_two x y) | _ \<Rightarrow> None))"
| "b64_quanta pad v [a, b, c] = (if pad then None
     else (case (v a, v b, v c) of (Some x, Some y, Some z) \<Rightarrow> Some (b64_three x y z) | _ \<Rightarrow> None))"
| "b64_quanta pad v (a # b # c # d # s) = (case (v a, v b) of
     (Some x, Some y) \<Rightarrow>
       (if pad \<and> c = CHR ''='' \<and> d = CHR ''='' \<and> s = [] then Some (b64_two x y)
        else (case v c of None \<Rightarrow> None
          | Some z \<Rightarrow>
             if pad \<and> d = CHR ''='' \<and> s = [] then Some (b64_three x y z)
             else (case (v d, b64_quanta pad v s) of
                 (Some w, Some bs) \<Rightarrow> Some (b64_three x y z @ (z mod 4 * 64 + w) # bs)
               | _ \<Rightarrow> None)))
   | _ \<Rightarrow> None)"

definition b64_decode :: "bool \<Rightarrow> char \<Rightarrow> char \<Rightarrow> string \<Rightarrow> nat list option" where
  "b64_decode pad p q s = b64_quanta pad (b64_value p q)
     (filter (\<lambda>c. c \<noteq> CHR 0x0A \<and> c \<noteq> CHR 0x0D) s)"

subsection \<open>Move addresses\<close>

text \<open>The leftmost match of \<^verbatim>\<open>0[xX][0-9a-fA-F]+\<close>, empty if there is none.\<close>

definition hex_match_here :: "string \<Rightarrow> string" where
  "hex_match_here s = (case s of
       z # x # t \<Rightarrow> if z = CHR ''0'' \<and> (x = CHR ''x'' \<or> x = CHR ''X'') \<and> takeWhile is_hex_digit t \<noteq> []
         then z # x # takeWhile is_hex_digit t else []
     | _ \<Rightarrow> [])"

fun find_hex :: "string \<Rightarrow> string" where
  "find_hex [] = []"
| "find_hex (c # s) = (if hex_match_here (c # s) \<noteq> [] then hex_match_here (c # s) else find_hex s)"

definition NormalizeMoveAddress :: "string \<Rightarrow> string" where
  "NormalizeMoveAddress address =
    (let address = (if contains_str address ''coin::Coin<''
           then replace_first (replace_first address ''coin::Coin<'' []) ''>'' [] else address);
         address = (if \<not> has_prefix address ''0x''
           then (if takeWhile is_hex_digit address \<noteq> [] then ''0x'' @ address else address)
           else address);
         match = find_hex address
     in if match \<noteq> [] then replace_first address match (to_lower match)
        else if is_hex_string address then to_lower address else address)"

subsection \<open>Addresses\<close>

text \<open>The loops that prepend zeros up to the target length.\<close>

definition pad_zeros :: "nat \<Rightarrow> string \<Rightarrow> string" where
  "pad_zeros n s = replicate (n - length s) CHR ''0'' @ s"

definition zeroPadHex :: "string \<Rightarrow> string \<Rightarrow> nat \<Rightarrow> string" where
  "zeroPadHex prefix addr targetLength =
    (let addr = trim_prefix addr prefix;
         addr = pad_zeros targetLength addr
     in prefix @ to_lower addr)"

definition normalize_aptos :: "string \<Rightarrow> string" where
  "normalize_aptos address =
    (let address = NormalizeMoveAddress address
     in if has_prefix address ''0x'' \<and> \<not> contains_str address '':'' \<and> \<not> contains_str address ''-''
        then ''0x'' @ pad_zeros 64 (trim_prefix address ''0x'') else address)"

definition normalize_evm :: "native_asset \<Rightarrow> string \<Rightarrow> string" where
  "normalize_evm nativeAsset address =
    (let prefix = ''0x'';
         (address, prefix) = (if nativeAsset = ''XDC'' then (trim_prefix address prefix, ''xdc'')
           else (address, prefix));
         prefix = (if nativeAsset = ''HYPE'' then [] else prefix)
     in to_lower (prefix @ trim_prefix address prefix))"

definition normalize_hyperliquid :: "string \<Rightarrow> string" where
  "normalize_hyperliquid address =
    (if address \<noteq> ''USDCPerps'' then
       (let sep = (if contains_str address ''-'' \<and> \<not> contains_str address '':'' then CHR ''-'' else CHR '':'');
            parts = split_char sep address;
            lastPart = to_lower (''0x'' @ trim_prefix (last parts) ''0x'')
        in join_char sep (butlast parts @ [lastPart]))
     else address)"

definition normalize_hedera :: "string \<Rightarrow> string" where
  "normalize_hedera address =
    (if \<not> (contains_str address ''.'' \<or> contains_str address ''-'')
     then to_lower (''0x'' @ trim_prefix address ''0x'') else address)"

definition ton_normalize :: "(string \<Rightarrow> string option) \<Rightarrow> string \<Rightarrow> string" where
  "ton_normalize ton address = (case ton address of None \<Rightarrow> address | Some a \<Rightarrow> a)"

definition Normalize :: "(string \<Rightarrow> string option) \<Rightarrow> string \<Rightarrow> native_asset \<Rightarrow> string" where
  "Normalize ton address nativeAsset =
    (if address = [] then []
     else if address = nativeAsset then address
     else
      (let nativeAsset = (if nativeAsset = [] \<and> has_prefix address ''0x'' then ''ETH'' else nativeAsset);
           address = trim_space address;
           driver = native_driver nativeAsset
       in if driver = DriverAptos then normalize_aptos address
          else if driver \<in> {DriverBitcoinCash, DriverBitcoin}
          then (if contains_str address '':'' then split_char (CHR '':'') address ! 1 else address)
          else if driver \<in> {DriverEVM, DriverEVMLegacy} then normalize_evm nativeAsset address
          else if driver = DriverTon then ton_normalize ton address
          else if driver = DriverInternetComputerProtocol then to_lower (trim_prefix address ''0x'')
          else if driver = DriverSui then NormalizeMoveAddress address
          else if driver = DriverHyperliquid then normalize_hyperliquid address
          else if driver = DriverHedera then normalize_hedera address
          else if driver = DriverNear
          then (if \<not> (contains_str address ''.'' \<or> contains_str address ''-'') then to_lower address
                else address)
          else address))"

definition NormalizeAddressString :: "(string \<Rightarrow> string option) \<Rightarrow> string \<Rightarrow> native_asset \<Rightarrow> string" where
  "NormalizeAddressString ton address nativeAsset = Normalize ton address nativeAsset"

definition AddressEqual :: "(string \<Rightarrow> string option) \<Rightarrow> string \<Rightarrow> string \<Rightarrow> native_asset \<Rightarrow> bool" where
  "AddressEqual ton address1 address2 nativeAsset \<longleftrightarrow>
     NormalizeAddressString ton address1 nativeAsset = NormalizeAddressString ton address2 nativeAsset"

subsection \<open>Transaction hashes\<close>

definition ton_tx_normalize :: "string \<Rightarrow> string" where
  "ton_tx_normalize txhash =
    (let txhash = trim_prefix txhash ''0x''
     in case hex_decode txhash of Some bz \<Rightarrow> hex_encode bz
        | None \<Rightarrow> (case b64_decode True (CHR ''+'') (CHR ''/'') txhash of Some bz \<Rightarrow> hex_encode bz
        | None \<Rightarrow> (case b64_decode False (CHR ''-'') (CHR ''_'') txhash of Some bz \<Rightarrow> hex_encode bz
        | None \<Rightarrow> txhash)))"

definition prefixed_hash :: "string \<Rightarrow> string \<Rightarrow> string" where
  "prefixed_hash prefix hash =
    (let hash = zeroPadHex prefix hash 64 in to_lower (prefix @ trim_prefix hash prefix))"

definition plain_hash :: "string \<Rightarrow> string" where
  "plain_hash hash = to_lower (zeroPadHex [] (trim_prefix hash ''0x'') 64)"

definition TransactionHash :: "string \<Rightarrow> native_asset \<Rightarrow> string" where
  "TransactionHash hash nativeAsset =
    (if hash = [] then []
     else
      (let hash = trim_space hash; driver = native_driver nativeAsset
       in if driver \<in> {DriverEVM, DriverEVMLegacy, DriverSubstrate}
          then (if nativeAsset = ''XDC'' then prefixed_hash ''xdc'' (trim_prefix hash ''0x'')
                else prefixed_hash ''0x'' hash)
          else if driver \<in> {DriverBitcoinCash, DriverBitcoin} then to_lower (trim_prefix hash ''0x'')
          else if driver = DriverAptos
          then (if has_prefix hash ''0x'' then NormalizeMoveAddress hash else hash)
          else if driver \<in> {DriverCosmos, DriverKaspa, DriverTron, DriverXlm, DriverXrp, DriverEOS}
          then plain_hash hash
          else if driver = DriverTon then ton_tx_normalize hash
          else if driver = DriverHedera
          then (if \<not> contains_str hash ''.'' then prefixed_hash ''0x'' hash else hash)
          else hash))"

subsection \<open>Lemmas on strings\<close>

lemma of_char_lower: "(of_char (char_lower c) :: nat) =
    (if 65 \<le> (of_char c :: nat) \<and> (of_char c :: nat) \<le> 90 then of_char c + 32 else of_char c)"
  by (simp add: char_lower_def Let_def)

lemma char_lower_eq:
  assumes "(of_char d :: nat) < 65"
  shows "char_lower c = d \<longleftrightarrow> c = d"
proof -
  have "char_lower c = d \<longleftrightarrow> (of_char (char_lower c) :: nat) = of_char d"
    by (simp add: of_char_eq_iff)
  also have "\<dots> \<longleftrightarrow> (of_char c :: nat) = of_char d"
    using assms by (auto simp: of_char_lower)
  finally show ?thesis by (simp add: of_char_eq_iff)
qed

lemma is_space_lower [simp]: "is_space (char_lower c) \<longleftrightarrow> is_space c"
  by (auto simp: is_space_def of_char_lower Let_def)

lemma to_lower_simps [simp]:
  "to_lower (s @ t) = to_lower s @ to_lower t" "length (to_lower s) = length s"
  by (simp_all add: to_lower_def)

lemma to_lower_literals [simp]: "to_lower ''0x'' = ''0x''" "to_lower ''xdc'' = ''xdc''"
  by code_simp+

lemma to_lower_replicate_zero [simp]:
  "to_lower (replicate n CHR ''0'') = replicate n CHR ''0''"
proof -
  have "char_lower CHR ''0'' = CHR ''0''" by code_simp
  then show ?thesis by (simp add: to_lower_def)
qed

lemma has_prefix_append [simp]: "has_prefix (p @ s) p"
  by (simp add: has_prefix_def)

lemma trim_prefix_append [simp]: "trim_prefix (p @ s) p = s"
  by (simp add: trim_prefix_def)

lemma contains_char: "contains_str s [c] \<longleftrightarrow> c \<in> set s"
  by (induction s) (auto simp: has_prefix_def)

lemma mem_lower: "(of_char d :: nat) < 65 \<Longrightarrow> d \<in> set (to_lower s) \<longleftrightarrow> d \<in> set s"
proof -
  assume "(of_char d :: nat) < 65"
  then have "d = char_lower c \<longleftrightarrow> c = d" for c using char_lower_eq [of d c] by auto
  then show ?thesis by (simp add: to_lower_def image_iff)
qed

lemma dots_lower [simp]:
  "CHR ''.'' \<in> set (to_lower s) \<longleftrightarrow> CHR ''.'' \<in> set s"
  "CHR ''-'' \<in> set (to_lower s) \<longleftrightarrow> CHR ''-'' \<in> set s"
  by (simp_all add: mem_lower)

text \<open>A trimmed string has no space at its ends.\<close>

definition trimmed :: "string \<Rightarrow> bool" where
  "trimmed s \<longleftrightarrow> s = [] \<or> \<not> is_space (hd s) \<and> \<not> is_space (last s)"

lemma trim_space_trimmed: "trimmed s \<Longrightarrow> trim_space s = s"
  by (auto simp: trimmed_def trim_space_def dropWhile_eq_self_iff [THEN iffD2] hd_rev)

lemma trimmed_trim_space: "trimmed (trim_space s)"
proof -
  define t where "t = rev (dropWhile is_space s)"
  have last: "u \<noteq> [] \<Longrightarrow> dropWhile is_space u \<noteq> [] \<Longrightarrow> last (dropWhile is_space u) = last u" for u
    by (induction u) auto
  have "\<not> is_space (last t)" if "t \<noteq> []"
    using that hd_dropWhile [of is_space s] by (simp add: t_def last_rev)
  then show ?thesis
    using last [of t] hd_dropWhile [of is_space t]
    by (cases "t = []"; cases "dropWhile is_space t = []")
      (simp_all add: trimmed_def trim_space_def hd_rev last_rev flip: t_def)
qed

definition tail_ok :: "string \<Rightarrow> bool" where
  "tail_ok s \<longleftrightarrow> s = [] \<or> \<not> is_space (last s)"

lemma tail_ok_trim_space [simp]: "tail_ok (trim_space s)"
  using trimmed_trim_space [of s] by (auto simp: trimmed_def tail_ok_def)

lemma tail_ok_trim_prefix [simp]: "tail_ok s \<Longrightarrow> tail_ok (trim_prefix s p)"
  by (auto simp: tail_ok_def trim_prefix_def)

lemma tail_ok_lower [simp]: "tail_ok (to_lower s) \<longleftrightarrow> tail_ok s"
  by (auto simp: tail_ok_def to_lower_def last_map)

lemma trimmed_prepend: "p \<noteq> [] \<Longrightarrow> \<not> is_space (hd p) \<Longrightarrow> \<not> is_space (last p) \<Longrightarrow> tail_ok s \<Longrightarrow>
    trimmed (p @ s)"
  by (auto simp: trimmed_def tail_ok_def last_append)

lemma prefix_ends [simp]: "\<not> is_space (CHR ''0'')" "\<not> is_space (CHR ''x'')" "\<not> is_space (CHR ''c'')"
  by code_simp+

lemma trimmed_no_space: "\<forall>c\<in>set s. \<not> is_space c \<Longrightarrow> trimmed s"
  by (auto simp: trimmed_def)

subsection \<open>Properties\<close>

lemma normalize_evm_0x:
  "chain \<noteq> ''XDC'' \<Longrightarrow> chain \<noteq> ''HYPE'' \<Longrightarrow>
     normalize_evm chain a = ''0x'' @ to_lower (trim_prefix a ''0x'')"
  by (simp add: normalize_evm_def to_lower_def char_lower_def)

lemma native_driver_Nil [simp]: "native_driver [] = []"
  by (simp add: native_driver_def)

lemma native_driver_HYPE [simp]: "native_driver ''HYPE'' = DriverHyperliquid"
  by (simp add: native_driver_def)

lemma Normalize_evm:
  assumes "native_driver c \<in> {DriverEVM, DriverEVMLegacy}" and "a \<noteq> []" and "a \<noteq> c"
  shows "Normalize ton a c = normalize_evm c (trim_space a)"
proof -
  have "c \<noteq> []" using assms(1) by (cases "c = []") simp_all
  moreover have "native_driver c = DriverEVM \<or> native_driver c = DriverEVMLegacy"
    using assms(1) by simp
  ultimately show ?thesis
    using assms(2,3) by (elim disjE) (simp_all add: Normalize_def Let_def)
qed

lemma Normalize_self [simp]: "Normalize ton c c = c"
  by (simp add: Normalize_def)

lemma evm_chain_not_HYPE: "native_driver c \<in> {DriverEVM, DriverEVMLegacy} \<Longrightarrow> c \<noteq> ''HYPE''"
  by (cases "c = ''HYPE''") simp_all

lemma normalize_evm_XDC:
  "normalize_evm ''XDC'' a = ''xdc'' @ to_lower (trim_prefix (trim_prefix a ''0x'') ''xdc'')"
  by (simp add: normalize_evm_def to_lower_def char_lower_def)

lemma normalize_evm_again:
  assumes "c \<noteq> ''HYPE''" and "tail_ok a"
  shows "trim_space (normalize_evm c a) = normalize_evm c a"
    and "normalize_evm c (normalize_evm c a) = normalize_evm c a"
proof -
  have xdc: "trim_prefix (''xdc'' @ t) ''0x'' = ''xdc'' @ t" for t
    by (simp add: trim_prefix_def has_prefix_def)
  show "trim_space (normalize_evm c a) = normalize_evm c a"
    using assms by (cases "c = ''XDC''")
      (simp_all add: normalize_evm_XDC normalize_evm_0x trim_space_trimmed trimmed_prepend
        del: append.simps)
  show "normalize_evm c (normalize_evm c a) = normalize_evm c a"
    using assms(1) by (cases "c = ''XDC''")
      (simp_all add: normalize_evm_XDC normalize_evm_0x xdc del: append.simps)
qed

text \<open>Normalizing an address of an EVM chain twice is the same as once: the canonical form is
  lower case with the chain's prefix, and it is its own canonical form.\<close>

theorem evm_normalize_idempotent:
  assumes "native_driver c \<in> {DriverEVM, DriverEVMLegacy}"
  shows "Normalize ton (Normalize ton a c) c = Normalize ton a c"
proof (cases "a = [] \<or> a = c")
  case True
  then show ?thesis by (auto simp: Normalize_def)
next
  case False
  define r where "r = normalize_evm c (trim_space a)"
  have c: "c \<noteq> ''HYPE''" by (rule evm_chain_not_HYPE [OF assms])
  have r: "Normalize ton a c = r" using False by (simp add: Normalize_evm [OF assms] r_def)
  have "r \<noteq> []" using c by (cases "c = ''XDC''") (simp_all add: r_def normalize_evm_XDC normalize_evm_0x)
  then show ?thesis
    using normalize_evm_again [OF c tail_ok_trim_space, of a] Normalize_evm [OF assms, of r ton]
    by (cases "r = c") (simp_all add: r flip: r_def)
qed

theorem evm_normalize_idempotent_witness:
  "Normalize (\<lambda>_. None) (Normalize (\<lambda>_. None) '' 0xAbC'' ''ETH'') ''ETH''
     = Normalize (\<lambda>_. None) '' 0xAbC'' ''ETH''"
  by (rule evm_normalize_idempotent) (simp add: native_driver_def)

text \<open>Two prefixed addresses without spaces on an EVM chain (other than XDC) are equal exactly when they
  agree up to the case of their letters after the prefix.\<close>

theorem evm_address_equal_iff:
  assumes "native_driver c \<in> {DriverEVM, DriverEVMLegacy}" and "c \<noteq> ''XDC''"
    and "\<forall>d\<in>set x \<union> set y. \<not> is_space d" and "''0x'' @ x \<noteq> c" and "''0x'' @ y \<noteq> c"
  shows "AddressEqual ton (''0x'' @ x) (''0x'' @ y) c \<longleftrightarrow> equal_fold x y"
proof -
  have t: "trim_space (''0x'' @ z) = ''0x'' @ z" if "\<forall>d\<in>set z. \<not> is_space d" for z
    using that by (intro trim_space_trimmed trimmed_no_space) simp
  have "Normalize ton (''0x'' @ z) c = ''0x'' @ to_lower z"
    if "\<forall>d\<in>set z. \<not> is_space d" and "''0x'' @ z \<noteq> c" for z
    using that(2) by (subst Normalize_evm [OF assms(1)])
      (simp_all add: t [OF that(1)] normalize_evm_0x [OF assms(2) evm_chain_not_HYPE [OF assms(1)]]
        del: append.simps)
  then show ?thesis
    using assms(3-5) by (simp add: AddressEqual_def NormalizeAddressString_def equal_fold_def)
qed

theorem evm_address_equal_iff_witness: "AddressEqual (\<lambda>_. None) ''0xAb'' ''0xaB'' ''ETH''"
proof -
  have "\<forall>d\<in>set ''Ab'' \<union> set ''aB''. \<not> is_space d" by code_simp
  moreover have "equal_fold ''Ab'' ''aB''" by code_simp
  ultimately show ?thesis
    using evm_address_equal_iff [of "''ETH''" "''Ab''" "''aB''" "\<lambda>_. None"] by (simp add: native_driver_def)
qed

lemma TransactionHash_evm:
  assumes "native_driver c \<in> {DriverEVM, DriverEVMLegacy}" and "c \<noteq> ''XDC''" and "h \<noteq> []"
    and "\<forall>d\<in>set h. \<not> is_space d"
  shows "TransactionHash h c = ''0x'' @ to_lower (pad_zeros 64 (trim_prefix h ''0x''))"
proof -
  have "native_driver c = DriverEVM \<or> native_driver c = DriverEVMLegacy" using assms(1) by simp
  moreover have "trim_space h = h"
    using assms(4) by (intro trim_space_trimmed trimmed_no_space)
  ultimately show ?thesis
    using assms(2,3) by (elim disjE)
      (simp_all add: TransactionHash_def prefixed_hash_def zeroPadHex_def Let_def del: append.simps)
qed

lemma pad_zeros_lower: "to_lower (pad_zeros n s) = pad_zeros n (to_lower s)"
  by (simp add: pad_zeros_def)

lemma pad_zeros_zeros: "k + length s \<le> n \<Longrightarrow> pad_zeros n (replicate k CHR ''0'' @ s) = pad_zeros n s"
  by (simp add: pad_zeros_def flip: replicate_add append_assoc)

lemma trim_prefix_none: "\<not> has_prefix s p \<Longrightarrow> trim_prefix s p = s"
  by (simp add: trim_prefix_def)

lemma has_prefix_lower: "has_prefix s p \<Longrightarrow> has_prefix (to_lower s) (to_lower p)"
  by (auto simp: has_prefix_def to_lower_def take_map)

text \<open>The canonical form of an EVM transaction hash does not depend on leading zeros, on the case of the
  digits or on the prefix, and has 66 characters for up to 64 digits.\<close>

theorem evm_hash_canonical:
  assumes "native_driver c \<in> {DriverEVM, DriverEVMLegacy}" and "c \<noteq> ''XDC''"
    and "\<forall>d\<in>set h. \<not> is_space d" and "k + length h \<le> 64" and "h \<noteq> []"
    and "\<not> has_prefix (to_lower h) ''0x''"
  shows "TransactionHash (''0x'' @ replicate k CHR ''0'' @ h) c = TransactionHash h c
    \<and> TransactionHash (to_lower h) c = TransactionHash h c
    \<and> length (TransactionHash h c) = 66"
proof -
  have np: "\<not> has_prefix h ''0x''"
    using assms(6) has_prefix_lower [of h "''0x''"] by auto
  have lower: "\<forall>d\<in>set (to_lower h). \<not> is_space d" "to_lower h \<noteq> []"
    using assms(3,5) by (auto simp: to_lower_def)
  have h: "TransactionHash h c = ''0x'' @ pad_zeros 64 (to_lower h)"
    using TransactionHash_evm [OF assms(1,2,5,3)] by (simp add: trim_prefix_none np pad_zeros_lower)
  have "TransactionHash (to_lower h) c = ''0x'' @ pad_zeros 64 (to_lower h)"
    using TransactionHash_evm [OF assms(1,2) lower(2,1)]
    by (simp add: trim_prefix_none assms(6) pad_zeros_lower)
  moreover have "TransactionHash (''0x'' @ replicate k CHR ''0'' @ h) c = ''0x'' @ pad_zeros 64 (to_lower h)"
    using assms(3,4) by (subst TransactionHash_evm [OF assms(1,2)])
      (auto simp: pad_zeros_lower pad_zeros_zeros simp del: append.simps)
  ultimately show ?thesis
    using h assms(4) by (simp add: pad_zeros_def)
qed

theorem evm_hash_canonical_witness: "TransactionHash ''0x00aB'' ''ETH'' = TransactionHash ''aB'' ''ETH''"
proof -
  have "\<forall>d\<in>set ''aB''. \<not> is_space d" "\<not> has_prefix (to_lower ''aB'') ''0x''" by code_simp+
  then show ?thesis
    using evm_hash_canonical [of "''ETH''" "''aB''" 2] by (simp add: native_driver_def eval_nat_numeral)
qed

subsection \<open>Hexadecimal round trip\<close>

text \<open>A TON transaction hash has one canonical form, lower-case hexadecimal: normalizing the canonical
  form of a hexadecimal hash gives it back, and every spelling with the same bytes has the same one.\<close>

theorem ton_hash_canonical:
  assumes "hex_decode (trim_prefix h ''0x'') = Some bs"
  shows "ton_tx_normalize h = hex_encode bs \<and> ton_tx_normalize (hex_encode bs) = hex_encode bs"
proof -
  have "hex_char n \<noteq> CHR ''x''" if "n < 16" for n
  proof
    assume "hex_char n = CHR ''x''"
    then have "hex_value CHR ''x'' = Some n" using hex_value_char [OF that] by simp
    then show False by (simp add: hex_value_def)
  qed
  then have "\<not> has_prefix (hex_encode bs) ''0x''"
    by (cases bs) (auto simp: has_prefix_def)
  then show ?thesis
    using assms hex_decode_encode [OF hex_decode_bytes [OF assms]]
    by (simp add: ton_tx_normalize_def trim_prefix_none)
qed

theorem ton_hash_canonical_witness: "ton_tx_normalize ''0xAb1F'' = hex_encode [171, 31]"
proof -
  have "hex_decode (trim_prefix ''0xAb1F'' ''0x'') = Some [171, 31]" by code_simp
  from ton_hash_canonical [OF this] show ?thesis by simp
qed

lemma contains_str_set: "contains_str s p \<Longrightarrow> set p \<subseteq> set s"
proof (induction s)
  case (Cons c s)
  have "set (take (length p) (c # s)) \<subseteq> set (c # s)" by (rule set_take_subset)
  then show ?case using Cons by (auto simp: has_prefix_def)
qed simp

lemma hex_digit_not_space: "is_hex_digit c \<Longrightarrow> \<not> is_space c"
  by (auto simp: is_hex_digit_def is_space_def Let_def)

lemma hex_no_colon: "\<forall>d\<in>set h. is_hex_digit d \<Longrightarrow> CHR '':'' \<notin> set h"
  by (auto simp: is_hex_digit_def)

lemma takeWhile_hex: "\<forall>d\<in>set h. is_hex_digit d \<Longrightarrow> takeWhile is_hex_digit h = h"
  by (simp add: takeWhile_eq_all_conv)

lemma hex_digit_literals [simp]: "is_hex_digit CHR ''0''" "\<not> is_hex_digit CHR ''x''" "\<not> is_hex_digit CHR ''X''"
  by (simp_all add: is_hex_digit_def)

lemma move_0x:
  assumes "\<forall>d\<in>set h. is_hex_digit d" and "h \<noteq> []"
  shows "NormalizeMoveAddress (''0x'' @ h) = ''0x'' @ to_lower h"
proof -
  have "\<not> contains_str (''0x'' @ h) ''coin::Coin<''"
    using contains_str_set [of "''0x'' @ h" "''coin::Coin<''"] hex_no_colon [OF assms(1)] by auto
  moreover have "find_hex (''0x'' @ h) = ''0x'' @ h"
    using assms by (simp add: hex_match_here_def takeWhile_hex)
  moreover have "replace_first (''0x'' @ h) (''0x'' @ h) s = s" for s
    by (simp add: has_prefix_def)
  ultimately show ?thesis
    by (simp add: NormalizeMoveAddress_def has_prefix_def to_lower_def char_lower_def)
qed

lemma move_0X:
  assumes "\<forall>d\<in>set h. is_hex_digit d"
  shows "NormalizeMoveAddress (''0X'' @ h) = ''0x0X'' @ h"
proof -
  have "\<not> contains_str (''0X'' @ h) ''coin::Coin<''"
    using contains_str_set [of "''0X'' @ h" "''coin::Coin<''"] hex_no_colon [OF assms(1)] by auto
  moreover have "find_hex (''0x0X'' @ h) = ''0x0''"
    by (simp add: hex_match_here_def)
  moreover have "replace_first (''0x0X'' @ h) ''0x0'' ''0x0'' = ''0x0X'' @ h"
    by (simp add: has_prefix_def)
  moreover have "to_lower ''0x0'' = ''0x0''" by code_simp
  ultimately show ?thesis
    by (simp add: NormalizeMoveAddress_def has_prefix_def)
qed

text \<open>A Move address whose hexadecimal prefix is written \<open>0X\<close> is not recognised as prefixed: a second
  prefix is put in front and the digits keep their case, so it never equals the same address written with \<open>0x\<close>.\<close>

theorem move_address_upper_prefix:
  assumes "\<forall>d\<in>set h. is_hex_digit d" and "h \<noteq> []"
  shows "Normalize ton (''0X'' @ h) ''SUI'' = ''0x0X'' @ h
    \<and> Normalize ton (''0x'' @ h) ''SUI'' = ''0x'' @ to_lower h
    \<and> \<not> AddressEqual ton (''0X'' @ h) (''0x'' @ h) ''SUI''"
proof -
  have "native_driver ''SUI'' = DriverSui" by (simp add: native_driver_def)
  moreover have "trim_space (x # y # h) = x # y # h" if "\<not> is_space x" "\<not> is_space y" for x y
    using that hex_digit_not_space assms(1) by (intro trim_space_trimmed trimmed_no_space) auto
  moreover have "\<not> is_space CHR ''X''" by code_simp
  moreover have "''0x0X'' @ h \<noteq> ''0x'' @ to_lower h"
    by (auto dest!: arg_cong [of _ _ length])
  ultimately show ?thesis
    using move_0x [OF assms] move_0X [OF assms(1)]
    by (simp add: Normalize_def Let_def AddressEqual_def NormalizeAddressString_def)
qed

theorem move_address_upper_prefix_witness:
  "Normalize (\<lambda>_. None) ''0Xa1'' ''SUI'' = ''0x0Xa1'' \<and> Normalize (\<lambda>_. None) ''0xA1'' ''SUI'' = ''0xa1''"
proof -
  have "\<forall>d\<in>set ''a1''. is_hex_digit d" "\<forall>d\<in>set ''A1''. is_hex_digit d" "to_lower ''A1'' = ''a1''"
    by code_simp+
  then show ?thesis
    using move_address_upper_prefix [of "''a1''" "\<lambda>_. None"] move_address_upper_prefix [of "''A1''" "\<lambda>_. None"]
    by simp
qed

end
