(* ===== verification/OrderedMap.thy ===== *)
theory OrderedMap
  imports Prelude "HOL-Library.RBT"
begin

text \<open>
  The ordered map \<^verbatim>\<open>github.com/tidwall/btree\<close> is not part of the repository: a record of the
  operations the code calls, with the laws it relies on as the locale \<open>ordered_map\<close>. Keys are
  strings in their byte order. The library's red-black trees interpret it.
\<close>

record ('m, 'v) ordmap_lib =
  omEmpty :: 'm
  omGet :: "'m \<Rightarrow> string \<Rightarrow> 'v option"
  omSet :: "'m \<Rightarrow> string \<Rightarrow> 'v \<Rightarrow> 'm"
  omAscend :: "'m \<Rightarrow> (string \<times> 'v) list"

locale ordered_map =
  fixes M :: "('m, 'v) ordmap_lib"
  assumes get_empty [simp]: "omGet M (omEmpty M) k = None"
    and get_set: "omGet M (omSet M m k v) j = (if j = k then Some v else omGet M m j)"
    and ascend_sorted: "sorted_wrt (<) (map fst (omAscend M m))"
    and ascend_get: "(k, v) \<in> set (omAscend M m) \<longleftrightarrow> omGet M m k = Some v"
begin

lemma ascend_eq:
  assumes "finite A" and "\<And>k. omGet M m k = (if k \<in> A then Some (f k) else None)"
  shows "omAscend M m = map (\<lambda>k. (k, f k)) (sorted_list_of_set A)"
proof -
  have "set (omAscend M m) = (\<lambda>k. (k, f k)) ` A"
    using assms(2) by (force simp: ascend_get split: if_splits)
  then have "set (map fst (omAscend M m)) = A" by (simp add: image_image)
  moreover have "sorted (map fst (omAscend M m))" "distinct (map fst (omAscend M m))"
    using ascend_sorted [of m] by (simp_all add: strict_sorted_iff)
  ultimately have keys: "map fst (omAscend M m) = sorted_list_of_set A"
    by (metis sorted_list_of_set.idem_if_sorted_distinct)
  have "omAscend M m = map (\<lambda>k. (k, f k)) (map fst (omAscend M m))"
  proof -
    have "\<forall>p\<in>set (omAscend M m). p = (fst p, f (fst p))"
      using \<open>set (omAscend M m) = _\<close> by auto
    then show ?thesis by (simp add: map_idI)
  qed
  then show ?thesis by (simp add: keys)
qed

end

definition rbt_map :: "((string, 'v) rbt, 'v) ordmap_lib" where
  "rbt_map = \<lparr>omEmpty = RBT.empty, omGet = RBT.lookup, omSet = (\<lambda>m k v. RBT.insert k v m),
     omAscend = RBT.entries\<rparr>"

interpretation rbt: ordered_map rbt_map
proof unfold_locales
  fix m :: "(string, 'v) rbt" and k j :: string and v :: 'v
  show "omGet rbt_map (omEmpty rbt_map) k = (None :: 'v option)" by (simp add: rbt_map_def)
  show "omGet rbt_map (omSet rbt_map m k v) j = (if j = k then Some v else omGet rbt_map m j)"
    by (simp add: rbt_map_def)
  show "sorted_wrt (<) (map fst (omAscend rbt_map m))"
    by (simp add: rbt_map_def strict_sorted_iff RBT.sorted_entries RBT.distinct_entries)
  show "(k, v) \<in> set (omAscend rbt_map m) \<longleftrightarrow> omGet rbt_map m k = Some v"
    by (simp add: rbt_map_def RBT.lookup_in_tree)
qed

end
