(* ===== verification/TxInfo.thy ===== *)
theory TxInfo
  imports Normalize OrderedMap Amounts
begin

text \<open>
  The package \<^verbatim>\<open>client/tx_info\<close>: what a chain's client reports of a transaction. Movements of
  assets between addresses, the fees as what the movements do not balance, the merging of
  movements and the translation of the older format. The functions that name things take the TON
  parser \<open>ton\<close> of the normalization; \<^verbatim>\<open>Amount\<close>, which these functions leave nil, is left out.
\<close>

subsection \<open>Names\<close>

text \<open>\<^verbatim>\<open>filepath.Join\<close> of parts of which the first is a plain name: the empty parts dropped, then
  \<^verbatim>\<open>filepath.Clean\<close> on the components.\<close>

fun clean_parts :: "string list \<Rightarrow> string list \<Rightarrow> string list" where
  "clean_parts acc [] = rev acc"
| "clean_parts acc (p # ps) =
     (if p = [] \<or> p = ''.'' then clean_parts acc ps
      else if p = ''..'' then
        (case acc of [] \<Rightarrow> clean_parts [p] ps
         | a # as \<Rightarrow> if a = ''..'' then clean_parts (p # acc) ps else clean_parts as ps)
      else clean_parts (p # acc) ps)"

definition path_join :: "string list \<Rightarrow> string" where
  "path_join ps = (let parts = clean_parts [] (split_char (CHR ''/'') (join_char (CHR ''/'') (filter (\<lambda>p. p \<noteq> []) ps)))
     in if parts = [] then ''.'' else join_char (CHR ''/'') parts)"

definition NewTransactionName :: "native_asset \<Rightarrow> string \<Rightarrow> string" where
  "NewTransactionName chain txHash =
    (let txHash = TransactionHash txHash chain
     in path_join [''chains'', chain, ''transactions'', txHash])"

definition NewAssetName :: "(string \<Rightarrow> string option) \<Rightarrow> native_asset \<Rightarrow> string \<Rightarrow> string" where
  "NewAssetName ton chain contractOrNativeAsset =
    (let c = (if contractOrNativeAsset = [] then chain else contractOrNativeAsset);
         c = (if c \<noteq> chain then Normalize ton c chain else c)
     in path_join [''chains'', chain, ''assets'', c])"

definition NewAddressName :: "(string \<Rightarrow> string option) \<Rightarrow> native_asset \<Rightarrow> string \<Rightarrow> string" where
  "NewAddressName ton chain address =
    (let address = (if address \<noteq> chain then Normalize ton address chain else address)
     in path_join [''chains'', chain, ''addresses'', address])"

definition transaction_name_chain :: "string \<Rightarrow> string" where
  "transaction_name_chain name = (let p = split_char (CHR ''/'') name in
     if length p > 3 then p ! 1 else [])"

subsection \<open>Movements\<close>

abbreviation MovementVariantFee :: string where "MovementVariantFee \<equiv> ''fee''"

record event =
  ev_id :: string
  ev_variant :: string

definition NewEventFromIndex :: "u64 \<Rightarrow> string \<Rightarrow> event" where
  "NewEventFromIndex index variant = \<lparr>ev_id = show_nat (unat index), ev_variant = variant\<rparr>"

record balance_change =
  bc_balance :: int
  bc_x_address :: string
  bc_address_id :: address
  bc_event :: "event option"

definition NewBalanceChange :: "(string \<Rightarrow> string option) \<Rightarrow> native_asset \<Rightarrow> address \<Rightarrow> int
    \<Rightarrow> balance_change" where
  "NewBalanceChange ton chain addressId bal =
    (let addressId = (if addressId \<noteq> chain then Normalize ton addressId chain else addressId);
         addressName = NewAddressName ton chain addressId
     in \<lparr>bc_balance = bal, bc_x_address = addressName, bc_address_id = addressId, bc_event = None\<rparr>)"

record movement =
  mv_x_asset :: string
  mv_x_contract :: contract_address
  mv_asset_id :: contract_address
  mv_contract_id :: contract_address
  mv_from :: "balance_change list"
  mv_to :: "balance_change list"
  mv_memo :: string
  mv_event :: "event option"
  mv_chain :: native_asset

definition NewMovement :: "(string \<Rightarrow> string option) \<Rightarrow> native_asset \<Rightarrow> contract_address \<Rightarrow> movement" where
  "NewMovement ton chain contract =
    (let contract = (if contract = [] then chain else contract)
     in \<lparr>mv_x_asset = NewAssetName ton chain contract, mv_x_contract = contract,
         mv_asset_id = contract, mv_contract_id = [], mv_from = [], mv_to = [], mv_memo = [],
         mv_event = None, mv_chain = chain\<rparr>)"

text \<open>
  \<open>AddSource\<close> and \<open>AddDestination\<close> also return the new change, to which the caller may attach an
  event: \<open>ev\<close> is that event.
\<close>

definition AddSource :: "(string \<Rightarrow> string option) \<Rightarrow> address \<Rightarrow> int \<Rightarrow> event option
    \<Rightarrow> movement \<Rightarrow> movement" where
  "AddSource ton sender bal ev tf =
     tf\<lparr>mv_from := mv_from tf @ [(NewBalanceChange ton (mv_chain tf) sender bal)\<lparr>bc_event := ev\<rparr>]\<rparr>"

definition AddDestination :: "(string \<Rightarrow> string option) \<Rightarrow> address \<Rightarrow> int \<Rightarrow> event option
    \<Rightarrow> movement \<Rightarrow> movement" where
  "AddDestination ton receiver bal ev tf =
     tf\<lparr>mv_to := mv_to tf @ [(NewBalanceChange ton (mv_chain tf) receiver bal)\<lparr>bc_event := ev\<rparr>]\<rparr>"

definition AddEventMeta :: "event \<Rightarrow> movement \<Rightarrow> movement" where
  "AddEventMeta ev tf = tf\<lparr>mv_event := Some ev\<rparr>"

definition SetMemo :: "string \<Rightarrow> movement \<Rightarrow> movement" where
  "SetMemo memo tf = tf\<lparr>mv_memo := memo\<rparr>"

record balance =
  ba_asset :: string
  ba_contract :: contract_address
  ba_balance :: int

definition NewBalance :: "(string \<Rightarrow> string option) \<Rightarrow> native_asset \<Rightarrow> contract_address \<Rightarrow> int
    \<Rightarrow> balance" where
  "NewBalance ton chain contract bal =
     \<lparr>ba_asset = NewAssetName ton chain contract, ba_contract = contract, ba_balance = bal\<rparr>"

subsection \<open>Transactions\<close>

record block =
  bl_chain :: native_asset
  bl_height :: int
  bl_hash :: string
  bl_time :: i64

definition NewBlock :: "native_asset \<Rightarrow> u64 \<Rightarrow> string \<Rightarrow> i64 \<Rightarrow> block" where
  "NewBlock chain height hash time = \<lparr>bl_chain = chain,
     bl_height = NewAmountBlockchainFromUint64 height, bl_hash = hash, bl_time = time\<rparr>"

record stake =
  sk_balance :: int
  sk_validator :: string
  sk_account :: string
  sk_address :: string

datatype stake_event = StakeEvent stake | UnstakeEvent stake

datatype state = Succeeded | Failed | Mining

record tx_info =
  ti_name :: string
  ti_hash :: string
  ti_x_chain :: native_asset
  ti_lookup_id :: string
  ti_state :: state
  ti_final :: bool
  ti_block :: block
  ti_movements :: "movement list"
  ti_fees :: "balance list"
  ti_stakes :: "stake list"
  ti_unstakes :: "stake list"
  ti_confirmations :: u64
  ti_error :: "string option"

definition NewTxInfo :: "block \<Rightarrow> 'd chain_config \<Rightarrow> string \<Rightarrow> u64 \<Rightarrow> string option \<Rightarrow> tx_info" where
  "NewTxInfo block cfg hash confirmations err =
    (let state = (if err \<noteq> None \<and> err \<noteq> Some [] then Failed
           else if big_uint64 (bl_height block) = 0 then Mining else Succeeded);
         final = (sint confirmations \<ge> cc_confirmations_final cfg)
     in \<lparr>ti_name = NewTransactionName (cc_chain cfg) hash, ti_hash = hash,
         ti_x_chain = cc_chain cfg, ti_lookup_id = [], ti_state = state, ti_final = final,
         ti_block = block, ti_movements = [], ti_fees = [], ti_stakes = [], ti_unstakes = [],
         ti_confirmations = confirmations, ti_error = err\<rparr>)"

definition AddMovement :: "movement \<Rightarrow> tx_info \<Rightarrow> tx_info" where
  "AddMovement tf info = info\<lparr>ti_movements := ti_movements info @ [tf]\<rparr>"

text \<open>\<open>finish\<close> is what the caller does with the returned movement, which the list shares.\<close>

definition AddSimpleTransfer :: "(string \<Rightarrow> string option) \<Rightarrow> address \<Rightarrow> address \<Rightarrow> contract_address
    \<Rightarrow> int \<Rightarrow> string \<Rightarrow> (movement \<Rightarrow> movement) \<Rightarrow> tx_info \<Rightarrow> tx_info" where
  "AddSimpleTransfer ton sender receiver contract bal memo finish info =
    (let tf = NewMovement ton (ti_x_chain info) contract;
         tf = SetMemo memo tf;
         tf = AddSource ton sender bal None tf;
         tf = AddDestination ton receiver bal None tf
     in info\<lparr>ti_movements := ti_movements info @ [finish tf]\<rparr>)"

definition AddFee :: "(string \<Rightarrow> string option) \<Rightarrow> address \<Rightarrow> contract_address \<Rightarrow> int
    \<Rightarrow> tx_info \<Rightarrow> tx_info" where
  "AddFee ton sender contract bal info =
    (let tf = NewMovement ton (ti_x_chain info) contract;
         tf = AddSource ton sender bal None tf;
         tf = AddEventMeta (NewEventFromIndex 0 MovementVariantFee) tf
     in info\<lparr>ti_movements := ti_movements info @ [tf]\<rparr>)"

text \<open>
  The fee calculation: a zero for every asset, then every source added and every destination
  subtracted in place (\<open>None\<close> would be the nil pointer of an absent key), then the non-zero
  nets in key order.
\<close>

definition add_net :: "('m, int) ordmap_lib \<Rightarrow> string \<Rightarrow> int \<Rightarrow> 'm option \<Rightarrow> 'm option" where
  "add_net M k d m = (case m of None \<Rightarrow> None | Some m \<Rightarrow>
     (case omGet M m k of None \<Rightarrow> None | Some bal \<Rightarrow> Some (omSet M m k (bal + d))))"

definition zero_nets :: "('m, int) ordmap_lib \<Rightarrow> movement list \<Rightarrow> 'm" where
  "zero_nets M tfs = fold (\<lambda>tf m. omSet M m (mv_asset_id tf) 0) tfs (omEmpty M)"

definition movement_nets :: "('m, int) ordmap_lib \<Rightarrow> movement \<Rightarrow> 'm option \<Rightarrow> 'm option" where
  "movement_nets M tf m =
    (let m = fold (\<lambda>f. add_net M (mv_asset_id tf) (bc_balance f)) (mv_from tf) m
     in fold (\<lambda>t. add_net M (mv_asset_id tf) (- bc_balance t)) (mv_to tf) m)"

definition CalculateFees :: "('m, int) ordmap_lib \<Rightarrow> (string \<Rightarrow> string option) \<Rightarrow> tx_info
    \<Rightarrow> balance list option" where
  "CalculateFees M ton info =
    (case fold (movement_nets M) (ti_movements info) (Some (zero_nets M (ti_movements info))) of
       None \<Rightarrow> None
     | Some netBalances \<Rightarrow> Some (map (\<lambda>(asset, net). NewBalance ton (ti_x_chain info) asset net)
         (filter (\<lambda>(asset, net). net \<noteq> 0) (omAscend M netBalances))))"

text \<open>Merging the movements of an asset into its first one.\<close>

definition merge_movements :: "movement list \<Rightarrow> movement list" where
  "merge_movements value = (case value of [] \<Rightarrow> []
     | first # rest \<Rightarrow> [fold (\<lambda>m f. f\<lparr>mv_from := mv_from f @ mv_from m, mv_to := mv_to f @ mv_to m\<rparr>)
         rest first])"

definition coalesece :: "('m, movement list) ordmap_lib \<Rightarrow> movement list \<Rightarrow> movement list" where
  "coalesece M movements =
    (let mapping = fold (\<lambda>m mp. omSet M mp (mv_asset_id m)
           ((case omGet M mp (mv_asset_id m) of Some arr \<Rightarrow> arr | None \<Rightarrow> []) @ [m]))
         movements (omEmpty M)
     in concat (map (\<lambda>(_, value). merge_movements value) (omAscend M mapping)))"

definition Coalesece :: "('m, movement list) ordmap_lib \<Rightarrow> tx_info \<Rightarrow> tx_info" where
  "Coalesece M info = info\<lparr>ti_movements := coalesece M (ti_movements info)\<rparr>"

definition SetContractIdForNativeAsset :: "contract_address \<Rightarrow> tx_info \<Rightarrow> tx_info" where
  "SetContractIdForNativeAsset contractId tx = tx\<lparr>ti_movements := map (\<lambda>m.
     if mv_asset_id m = ti_x_chain tx then m\<lparr>mv_contract_id := contractId\<rparr> else m) (ti_movements tx)\<rparr>"

definition SyncDeprecatedFields :: "(string \<Rightarrow> string option) \<Rightarrow> tx_info \<Rightarrow> tx_info" where
  "SyncDeprecatedFields ton tx = tx\<lparr>ti_movements := map (\<lambda>m.
     let m = (if mv_x_contract m = [] then m\<lparr>mv_x_contract := mv_asset_id m\<rparr> else m);
         m = (if mv_asset_id m = [] then m\<lparr>mv_asset_id := mv_x_contract m\<rparr> else m)
     in if mv_x_asset m = [] then m\<lparr>mv_x_asset := NewAssetName ton (ti_x_chain tx) (mv_asset_id m)\<rparr> else m)
     (ti_movements tx)\<rparr>"

subsection \<open>The older format\<close>

record endpoint =
  ep_address :: address
  ep_contract_address :: contract_address
  ep_amount :: int
  ep_memo :: string
  ep_contract_id :: contract_address
  ep_event :: "event option"

record legacy_tx_info =
  lt_block_hash :: string
  lt_tx_id :: string
  lt_from :: address
  lt_contract_address :: contract_address
  lt_fee :: int
  lt_fee_payer :: address
  lt_fee_contract :: contract_address
  lt_block_index :: i64
  lt_block_time :: i64
  lt_confirmations :: i64
  lt_failed :: bool
  lt_sources :: "endpoint list"
  lt_destinations :: "endpoint list"
  lt_error :: string
  lt_dropped :: "endpoint list"
  lt_stake_events :: "stake_event list"
  lt_lookup_id :: string

definition InsertDestinationAtIndex :: "int \<Rightarrow> endpoint \<Rightarrow> legacy_tx_info \<Rightarrow> legacy_tx_info" where
  "InsertDestinationAtIndex index v info =
    (if index < 0 \<or> index > int (length (lt_destinations info)) then info
     else info\<lparr>lt_destinations := take (nat index) (lt_destinations info) @ [v]
       @ drop (nat index) (lt_destinations info)\<rparr>)"

definition AddDroppedDestination :: "int \<Rightarrow> endpoint \<Rightarrow> legacy_tx_info \<Rightarrow> legacy_tx_info" where
  "AddDroppedDestination index dest info = info\<lparr>lt_dropped := lt_dropped info @ [dest]\<rparr>"

definition AddStakeEvent :: "stake_event \<Rightarrow> legacy_tx_info \<Rightarrow> legacy_tx_info" where
  "AddStakeEvent ev info = info\<lparr>lt_stake_events := lt_stake_events info @ [ev]\<rparr>"

definition ResetStakeEvents :: "legacy_tx_info \<Rightarrow> legacy_tx_info" where
  "ResetStakeEvents info = info\<lparr>lt_stake_events := []\<rparr>"

datatype mapping_type = Utxo | Account

definition source_movement :: "(string \<Rightarrow> string option) \<Rightarrow> native_asset \<Rightarrow> endpoint \<Rightarrow> movement" where
  "source_movement ton chain s = AddSource ton (ep_address s) (ep_amount s) (ep_event s)
     ((NewMovement ton chain (ep_contract_address s))\<lparr>mv_contract_id := ep_contract_id s\<rparr>)"

definition dest_movement :: "(string \<Rightarrow> string option) \<Rightarrow> native_asset \<Rightarrow> endpoint \<Rightarrow> movement" where
  "dest_movement ton chain d = AddDestination ton (ep_address d) (ep_amount d) (ep_event d)
     ((NewMovement ton chain (ep_contract_address d))\<lparr>mv_contract_id := ep_contract_id d\<rparr>)"

text \<open>The one-to-one mapping, with the index of the destination.\<close>

fun account_movements :: "(string \<Rightarrow> string option) \<Rightarrow> legacy_tx_info \<Rightarrow> nat \<Rightarrow> endpoint list
    \<Rightarrow> tx_info \<Rightarrow> tx_info" where
  "account_movements ton tx i [] info = info"
| "account_movements ton tx i (dest # ds) info =
    (let fromAddr = (if i < length (lt_sources tx) then ep_address (lt_sources tx ! i) else lt_from tx);
         eventMeta = (if i < length (lt_sources tx) \<and> ep_event dest = None
           then ep_event (lt_sources tx ! i) else ep_event dest);
         finish = (\<lambda>m. let m = m\<lparr>mv_contract_id := ep_contract_id dest\<rparr>
           in case eventMeta of None \<Rightarrow> m | Some ev \<Rightarrow> AddEventMeta ev m)
     in account_movements ton tx (Suc i) ds
          (AddSimpleTransfer ton fromAddr (ep_address dest) (ep_contract_address dest)
            (ep_amount dest) (ep_memo dest) finish info))"

definition legacy_fee_payer :: "native_asset \<Rightarrow> legacy_tx_info \<Rightarrow> address" where
  "legacy_fee_payer chain tx =
    (let feePayer = lt_fee_payer tx;
         feePayer = (if feePayer = [] then lt_from tx else feePayer)
     in if feePayer = [] then
          fold (\<lambda>s p. if ep_contract_address s = lt_contract_address tx \<or> ep_contract_address s = chain
                  then ep_address s else p) (lt_sources tx) feePayer
        else feePayer)"

definition add_stake_event :: "stake_event \<Rightarrow> tx_info \<Rightarrow> tx_info" where
  "add_stake_event ev info = (case ev of
       StakeEvent s \<Rightarrow> info\<lparr>ti_stakes := ti_stakes info @ [s]\<rparr>
     | UnstakeEvent s \<Rightarrow> info\<lparr>ti_unstakes := ti_unstakes info @ [s]\<rparr>)"

definition TxInfoFromLegacy :: "('m, int) ordmap_lib \<Rightarrow> ('n, movement list) ordmap_lib
    \<Rightarrow> (string \<Rightarrow> string option) \<Rightarrow> 'd chain_config \<Rightarrow> legacy_tx_info \<Rightarrow> mapping_type
    \<Rightarrow> tx_info option" where
  "TxInfoFromLegacy M N ton cfg tx mappingType =
    (let chain = cc_chain cfg;
         errMsg = (if lt_failed tx then Some ''transaction failed'' else None);
         errMsg = (if lt_error tx \<noteq> [] then Some (lt_error tx) else errMsg);
         info = NewTxInfo (NewBlock chain (lt_block_index tx) (lt_block_hash tx) (lt_block_time tx))
           cfg (lt_tx_id tx) (lt_confirmations tx) errMsg;
         info = info\<lparr>ti_lookup_id := lt_lookup_id tx\<rparr>;
         info = (case mappingType of
             Utxo \<Rightarrow> fold AddMovement (coalesece N (map (source_movement ton chain) (lt_sources tx)
               @ map (dest_movement ton chain) (lt_destinations tx))) info
           | Account \<Rightarrow> account_movements ton tx 0 (lt_destinations tx) info);
         info = (if amt_cmp (lt_fee tx) 0 \<noteq> 0
           then AddFee ton (legacy_fee_payer chain tx) (lt_fee_contract tx) (lt_fee tx) info else info)
     in case CalculateFees M ton info of None \<Rightarrow> None
        | Some fees \<Rightarrow>
          (let info = info\<lparr>ti_fees := fees\<rparr>;
               info = fold add_stake_event (lt_stake_events tx) info;
               info = (if cc_chain_coin cfg \<noteq> [] then SetContractIdForNativeAsset (cc_chain_coin cfg) info
                 else info)
           in Some (SyncDeprecatedFields ton info)))"

subsection \<open>Net balances\<close>

definition movement_net :: "movement \<Rightarrow> int" where
  "movement_net tf = sum_list (map bc_balance (mv_from tf)) - sum_list (map bc_balance (mv_to tf))"

definition net_of :: "movement list \<Rightarrow> contract_address \<Rightarrow> int" where
  "net_of tfs k = sum_list (map movement_net (filter (\<lambda>tf. mv_asset_id tf = k) tfs))"

definition assets_of :: "movement list \<Rightarrow> contract_address set" where
  "assets_of tfs = mv_asset_id ` set tfs"

lemma net_of_simps [simp]:
  "net_of [] k = 0"
  "net_of (tf # tfs) k = (if mv_asset_id tf = k then movement_net tf else 0) + net_of tfs k"
  "net_of (xs @ ys) k = net_of xs k + net_of ys k"
  by (simp_all add: net_of_def)

lemma assets_of_simps [simp]:
  "assets_of [] = {}" "assets_of (tf # tfs) = insert (mv_asset_id tf) (assets_of tfs)"
  "assets_of (xs @ ys) = assets_of xs \<union> assets_of ys" "finite (assets_of tfs)"
  by (auto simp: assets_of_def)

lemma net_of_absent: "k \<notin> assets_of tfs \<Longrightarrow> net_of tfs k = 0"
  by (induction tfs) auto

lemma sum_list_neg: "sum_list (map (\<lambda>t. - f t) ts) = - sum_list (map (f :: 'a \<Rightarrow> int) ts)"
  by (induction ts) simp_all

lemma sum_list_concat_map: "sum_list (map g (concat (map f vs))) =
    sum_list (map (\<lambda>v. sum_list (map (g :: 'a \<Rightarrow> int) (f v))) vs)"
  by (induction vs) simp_all

text \<open>The ordered map at the two types the code uses it at.\<close>

locale net_map = ordered_map M for M :: "('m, int) ordmap_lib"
begin

lemma zero_nets_get:
  "omGet M (zero_nets M tfs) k = (if k \<in> assets_of tfs then Some 0 else None)"
proof -
  have "omGet M (fold (\<lambda>tf m. omSet M m (mv_asset_id tf) 0) tfs m) k =
      (if k \<in> assets_of tfs then Some 0 else omGet M m k)" for m
    by (induction tfs arbitrary: m) (auto simp: get_set)
  then show ?thesis by (simp add: zero_nets_def)
qed

lemma fold_add_net:
  "omGet M m k = Some b \<Longrightarrow> \<exists>m'. fold (\<lambda>f. add_net M k (g f)) fs (Some m) = Some m'
     \<and> (\<forall>j. omGet M m' j = (if j = k then Some (b + sum_list (map g fs)) else omGet M m j))"
proof (induction fs arbitrary: m b)
  case (Cons f fs)
  then have "add_net M k (g f) (Some m) = Some (omSet M m k (b + g f))"
    by (simp add: add_net_def)
  moreover have "omGet M (omSet M m k (b + g f)) k = Some (b + g f)" by (simp add: get_set)
  ultimately show ?case
    using Cons.IH [of "omSet M m k (b + g f)" "b + g f"] by (auto simp: get_set add.assoc)
qed simp

lemma movement_nets_get:
  assumes "omGet M m (mv_asset_id tf) = Some b"
  shows "\<exists>m'. movement_nets M tf (Some m) = Some m'
    \<and> (\<forall>j. omGet M m' j = (if j = mv_asset_id tf then Some (b + movement_net tf) else omGet M m j))"
proof -
  let ?k = "mv_asset_id tf"
  obtain m1 where m1: "fold (\<lambda>f. add_net M ?k (bc_balance f)) (mv_from tf) (Some m) = Some m1"
    "\<forall>j. omGet M m1 j = (if j = ?k then Some (b + sum_list (map bc_balance (mv_from tf))) else omGet M m j)"
    using fold_add_net [OF assms, of bc_balance] by blast
  then have "omGet M m1 ?k = Some (b + sum_list (map bc_balance (mv_from tf)))" by simp
  from fold_add_net [OF this, of "\<lambda>t. - bc_balance t" "mv_to tf"] obtain m2 where
    m2: "fold (\<lambda>t. add_net M ?k (- bc_balance t)) (mv_to tf) (Some m1) = Some m2"
    "\<forall>j. omGet M m2 j = (if j = ?k then Some (b + sum_list (map bc_balance (mv_from tf))
        + sum_list (map (\<lambda>t. - bc_balance t) (mv_to tf))) else omGet M m1 j)"
    by blast
  have "movement_nets M tf (Some m) = Some m2" using m1(1) m2(1) by (simp add: movement_nets_def)
  with m1(2) m2(2) show ?thesis by (auto simp: movement_net_def sum_list_neg)
qed

lemma fold_movement_nets:
  "assets_of tfs \<subseteq> {k. omGet M m k \<noteq> None} \<Longrightarrow>
     \<exists>m'. fold (movement_nets M) tfs (Some m) = Some m'
       \<and> (\<forall>j. omGet M m' j = map_option (\<lambda>b. b + net_of tfs j) (omGet M m j))"
proof (induction tfs arbitrary: m)
  case Nil
  then show ?case by (simp add: option.map_ident)
next
  case (Cons tf tfs)
  obtain b where b: "omGet M m (mv_asset_id tf) = Some b" using Cons.prems by auto
  from movement_nets_get [OF b] obtain m1 where m1: "movement_nets M tf (Some m) = Some m1"
    "\<forall>j. omGet M m1 j = (if j = mv_asset_id tf then Some (b + movement_net tf) else omGet M m j)"
    by blast
  have "assets_of tfs \<subseteq> {k. omGet M m1 k \<noteq> None}" using Cons.prems m1(2) by auto
  from Cons.IH [OF this] obtain m2 where m2: "fold (movement_nets M) tfs (Some m1) = Some m2"
    "\<forall>j. omGet M m2 j = map_option (\<lambda>b. b + net_of tfs j) (omGet M m1 j)" by blast
  have "omGet M m2 j = map_option (\<lambda>b. b + net_of (tf # tfs) j) (omGet M m j)" for j
    using m1(2) m2(2) b by (cases "omGet M m j") (auto simp: add.assoc)
  with m1(1) m2(1) show ?case by auto
qed

lemma CalculateFees_eq:
  "CalculateFees M ton info = Some (map (\<lambda>k. NewBalance ton (ti_x_chain info) k (net_of (ti_movements info) k))
     (filter (\<lambda>k. net_of (ti_movements info) k \<noteq> 0) (sorted_list_of_set (assets_of (ti_movements info)))))"
proof -
  let ?ms = "ti_movements info"
  have "assets_of ?ms \<subseteq> {k. omGet M (zero_nets M ?ms) k \<noteq> None}"
    by (auto simp: zero_nets_get)
  from fold_movement_nets [OF this] obtain m where
    m: "fold (movement_nets M) ?ms (Some (zero_nets M ?ms)) = Some m" and
    get: "\<And>j. omGet M m j = (if j \<in> assets_of ?ms then Some (net_of ?ms j) else None)"
    by (auto simp: zero_nets_get)
  have "omAscend M m = map (\<lambda>k. (k, net_of ?ms k)) (sorted_list_of_set (assets_of ?ms))"
    using get by (intro ascend_eq) simp_all
  then show ?thesis
    by (simp add: CalculateFees_def m filter_map comp_def)
qed

end

interpretation net_rbt: net_map rbt_map ..

subsection \<open>Merging\<close>

definition merged :: "movement list \<Rightarrow> movement" where
  "merged value = (hd value)\<lparr>mv_from := concat (map mv_from value), mv_to := concat (map mv_to value)\<rparr>"

lemma merge_movements_eq:
  assumes "value \<noteq> []"
  shows "merge_movements value = [merged value]"
proof -
  have "fold (\<lambda>m f. f\<lparr>mv_from := mv_from f @ mv_from m, mv_to := mv_to f @ mv_to m\<rparr>) rest first
      = first\<lparr>mv_from := concat (map mv_from (first # rest)), mv_to := concat (map mv_to (first # rest))\<rparr>"
    for first rest
    by (induction rest arbitrary: first) simp_all
  then show ?thesis using assms by (cases "value") (simp_all add: merge_movements_def merged_def)
qed

lemma movement_net_merged: "movement_net (merged value) = sum_list (map movement_net value)"
  by (simp add: movement_net_def [abs_def] merged_def sum_list_subtractf sum_list_concat_map)

lemma filter_asset_nonempty: "k \<in> assets_of ms \<Longrightarrow> filter (\<lambda>m. mv_asset_id m = k) ms \<noteq> []"
  by (auto simp: assets_of_def filter_empty_conv)

lemma merged_asset:
  assumes "k \<in> assets_of ms"
  shows "mv_asset_id (merged (filter (\<lambda>m. mv_asset_id m = k) ms)) = k"
  using hd_in_set [OF filter_asset_nonempty [OF assms]] by (simp add: merged_def)

locale group_map = ordered_map M for M :: "('m, movement list) ordmap_lib"
begin

lemma group_get:
  fixes ms :: "movement list"
  defines "step \<equiv> \<lambda>m mp. omSet M mp (mv_asset_id m)
     ((case omGet M mp (mv_asset_id m) of Some arr \<Rightarrow> arr | None \<Rightarrow> []) @ [m])"
  shows "omGet M (fold step ms (omEmpty M)) k =
    (if k \<in> assets_of ms then Some (filter (\<lambda>m. mv_asset_id m = k) ms) else None)"
proof (induction ms rule: rev_induct)
  case (snoc m ms)
  have "filter (\<lambda>x. mv_asset_id x = k) ms = []" if "k \<notin> assets_of ms"
    using that by (auto simp: assets_of_def filter_empty_conv)
  then show ?case using snoc by (simp add: step_def get_set) (auto simp: step_def get_set)
qed simp

lemma coalesece_eq:
  "coalesece M ms = map (\<lambda>k. merged (filter (\<lambda>m. mv_asset_id m = k) ms)) (sorted_list_of_set (assets_of ms))"
proof -
  let ?f = "\<lambda>k. filter (\<lambda>m. mv_asset_id m = k) ms" and ?A = "sorted_list_of_set (assets_of ms)"
  have "coalesece M ms = concat (map (\<lambda>k. merge_movements (?f k)) ?A)"
    unfolding coalesece_def Let_def by (subst ascend_eq [OF _ group_get]) (simp_all add: comp_def)
  also have "\<dots> = concat (map (\<lambda>k. [merged (?f k)]) ?A)"
    by (intro arg_cong [of _ _ concat] map_cong refl merge_movements_eq filter_asset_nonempty) simp
  finally show ?thesis by (simp add: concat_map_singleton)
qed

lemma coalesece_assets: "map mv_asset_id (coalesece M ms) = sorted_list_of_set (assets_of ms)"
  unfolding coalesece_eq map_map comp_def by (rule map_idI) (simp add: merged_asset)

lemma coalesece_net: "net_of (coalesece M ms) k = net_of ms k"
proof -
  let ?A = "sorted_list_of_set (assets_of ms)"
  let ?g = "\<lambda>k. merged (filter (\<lambda>m. mv_asset_id m = k) ms)"
  have net: "movement_net (?g j) = net_of ms j" for j
    by (simp add: movement_net_merged net_of_def)
  have id: "mv_asset_id (?g j) = j" if "j \<in> set ?A" for j
    using that by (intro merged_asset) simp
  have "net_of (map ?g xs) k = (if k \<in> set xs then net_of ms k else 0)"
    if "distinct xs" and "set xs \<subseteq> set ?A" for xs
    using that
  proof (induction xs)
    case (Cons x xs)
    then show ?case using id [of x] net [of x] by auto
  qed simp
  from this [of ?A] show ?thesis
    using net_of_absent [of k ms] by (auto simp: coalesece_eq)
qed

end

interpretation group_rbt: group_map rbt_map ..

subsection \<open>Properties\<close>

text \<open>C3: The calculated fees are exactly what the movements leave unbalanced: one entry for every asset
  whose sources and destinations differ, with the difference, in the byte order of the assets, and
  never a missing key.\<close>

theorem fees_are_imbalances:
  assumes "ordered_map (M :: ('m, int) ordmap_lib)"
  shows "CalculateFees M ton info = Some (map
      (\<lambda>k. NewBalance ton (ti_x_chain info) k (net_of (ti_movements info) k))
      (filter (\<lambda>k. net_of (ti_movements info) k \<noteq> 0) (sorted_list_of_set (assets_of (ti_movements info)))))"
  using assms by (intro net_map.CalculateFees_eq net_map.intro)

definition change_example :: "int \<Rightarrow> balance_change" where
  "change_example v = \<lparr>bc_balance = v, bc_x_address = [], bc_address_id = [], bc_event = None\<rparr>"

definition movement_example :: "string \<Rightarrow> int list \<Rightarrow> int list \<Rightarrow> movement" where
  "movement_example a ins outs = \<lparr>mv_x_asset = [], mv_x_contract = a, mv_asset_id = a,
     mv_contract_id = [], mv_from = map change_example ins, mv_to = map change_example outs,
     mv_memo = [], mv_event = None, mv_chain = ''BTC''\<rparr>"

definition info_example :: "movement list \<Rightarrow> tx_info" where
  "info_example ms = \<lparr>ti_name = [], ti_hash = [], ti_x_chain = ''BTC'', ti_lookup_id = [],
     ti_state = Succeeded, ti_final = True,
     ti_block = \<lparr>bl_chain = ''BTC'', bl_height = 1, bl_hash = [], bl_time = 0\<rparr>,
     ti_movements = ms, ti_fees = [], ti_stakes = [], ti_unstakes = [], ti_confirmations = 1,
     ti_error = None\<rparr>"

theorem fees_are_imbalances_witness:
  "map_option (map ba_balance) (CalculateFees rbt_map (\<lambda>_. None)
     (info_example [movement_example ''BTC'' [100, 50] [120], movement_example ''BTC'' [] [10]])) = Some [20]"
  using fees_are_imbalances [OF rbt.ordered_map_axioms, of "\<lambda>_. None"
      "info_example [movement_example ''BTC'' [100, 50] [120], movement_example ''BTC'' [] [10]]"]
  by (simp add: info_example_def movement_example_def movement_net_def change_example_def NewBalance_def)

text \<open>C37: Merging movements leaves exactly one movement per asset, in the byte order of the assets, and does
  not change the fees of the transaction.\<close>

theorem coalesce_preserves_fees:
  assumes "ordered_map (M :: ('m, int) ordmap_lib)" and "ordered_map (N :: ('n, movement list) ordmap_lib)"
  shows "CalculateFees M ton (Coalesece N info) = CalculateFees M ton info
    \<and> map mv_asset_id (ti_movements (Coalesece N info)) = sorted_list_of_set (assets_of (ti_movements info))"
proof -
  have N: "group_map N" using assms(2) by (rule group_map.intro)
  have ids: "map mv_asset_id (coalesece N (ti_movements info)) = sorted_list_of_set (assets_of (ti_movements info))"
    by (rule group_map.coalesece_assets [OF N])
  have "assets_of (coalesece N (ti_movements info)) = set (map mv_asset_id (coalesece N (ti_movements info)))"
    by (simp add: assets_of_def)
  then have "assets_of (coalesece N (ti_movements info)) = assets_of (ti_movements info)"
    by (simp add: ids)
  then show ?thesis
    using ids by (simp add: net_map.CalculateFees_eq [OF net_map.intro [OF assms(1)]] Coalesece_def group_map.coalesece_net [OF N])
qed

theorem coalesce_preserves_fees_witness:
  "map mv_asset_id (ti_movements (Coalesece rbt_map (info_example
     [movement_example ''BTC'' [100, 50] [], movement_example ''BTC'' [] [10]]))) = [''BTC'']"
  using coalesce_preserves_fees [OF rbt.ordered_map_axioms rbt.ordered_map_axioms, of "\<lambda>_. None"
      "info_example [movement_example ''BTC'' [100, 50] [], movement_example ''BTC'' [] [10]]"]
  by (simp add: info_example_def movement_example_def)

subsection \<open>The older format\<close>

lemma movement_net_simple:
  "movement_net (AddDestination ton r b None (AddSource ton s b None (SetMemo memo (NewMovement ton chain c)))) = 0"
  by (simp add: movement_net_def AddDestination_def AddSource_def SetMemo_def NewMovement_def
      NewBalanceChange_def Let_def)

lemma AddSimpleTransfer_net:
  assumes "\<And>m. mv_from (f m) = mv_from m \<and> mv_to (f m) = mv_to m"
  shows "net_of (ti_movements (AddSimpleTransfer ton s r c b memo f info)) k = net_of (ti_movements info) k"
proof -
  have "movement_net (f m) = movement_net m" for m using assms by (simp add: movement_net_def)
  then show ?thesis by (simp add: AddSimpleTransfer_def Let_def movement_net_simple)
qed

lemma AddSimpleTransfer_chain [simp]: "ti_x_chain (AddSimpleTransfer ton s r c b memo f info) = ti_x_chain info"
  by (simp add: AddSimpleTransfer_def Let_def)

lemma account_movements_net:
  "net_of (ti_movements (account_movements ton tx i ds info)) k = net_of (ti_movements info) k
   \<and> ti_x_chain (account_movements ton tx i ds info) = ti_x_chain info"
proof (induction ton tx i ds info rule: account_movements.induct)
  case (2 ton tx i d ds info)
  show ?case
    using 2 [OF refl refl refl]
    by (simp add: Let_def AddSimpleTransfer_net AddEventMeta_def split: option.split)
qed simp

lemma AddFee_net:
  "net_of (ti_movements (AddFee ton s c b info)) k = net_of (ti_movements info) k
     + (if (if c = [] then ti_x_chain info else c) = k then b else 0)"
  by (simp add: AddFee_def AddSource_def AddEventMeta_def NewMovement_def NewBalanceChange_def
      movement_net_def Let_def)


lemma add_stake_events_fields [simp]:
  "ti_fees (fold add_stake_event evs info) = ti_fees info"
  "ti_movements (fold add_stake_event evs info) = ti_movements info"
  "ti_state (fold add_stake_event evs info) = ti_state info"
  "ti_final (fold add_stake_event evs info) = ti_final info"
  "ti_x_chain (fold add_stake_event evs info) = ti_x_chain info"
  by (induction evs arbitrary: info) (simp_all add: add_stake_event_def split: stake_event.split)

lemma add_movements_fields [simp]:
  "ti_movements (fold AddMovement ms info) = ti_movements info @ ms"
  "ti_state (fold AddMovement ms info) = ti_state info"
  "ti_final (fold AddMovement ms info) = ti_final info"
  "ti_x_chain (fold AddMovement ms info) = ti_x_chain info"
  by (induction ms arbitrary: info) (simp_all add: AddMovement_def)

lemma account_movements_fields [simp]:
  "ti_state (account_movements ton tx i ds info) = ti_state info"
  "ti_final (account_movements ton tx i ds info) = ti_final info"
  "ti_x_chain (account_movements ton tx i ds info) = ti_x_chain info"
  "length (ti_movements (account_movements ton tx i ds info)) = length (ti_movements info) + length ds"
  by (induction ton tx i ds info rule: account_movements.induct)
    (simp_all add: Let_def AddSimpleTransfer_def)

lemma AddFee_fields [simp]:
  "ti_state (AddFee ton s c b info) = ti_state info"
  "ti_final (AddFee ton s c b info) = ti_final info"
  "ti_x_chain (AddFee ton s c b info) = ti_x_chain info"
  "length (ti_movements (AddFee ton s c b info)) = Suc (length (ti_movements info))"
  by (simp_all add: AddFee_def Let_def)

lemma AddFee_assets:
  "assets_of (ti_movements (AddFee ton s c b info)) =
     insert (if c = [] then ti_x_chain info else c) (assets_of (ti_movements info))"
  by (simp add: AddFee_def AddSource_def AddEventMeta_def NewMovement_def Let_def)

lemma legacy_finish_fields [simp]:
  "ti_fees (SetContractIdForNativeAsset c info) = ti_fees info"
  "ti_state (SetContractIdForNativeAsset c info) = ti_state info"
  "ti_final (SetContractIdForNativeAsset c info) = ti_final info"
  "length (ti_movements (SetContractIdForNativeAsset c info)) = length (ti_movements info)"
  "ti_fees (SyncDeprecatedFields ton info) = ti_fees info"
  "ti_state (SyncDeprecatedFields ton info) = ti_state info"
  "ti_final (SyncDeprecatedFields ton info) = ti_final info"
  "length (ti_movements (SyncDeprecatedFields ton info)) = length (ti_movements info)"
  by (simp_all add: SetContractIdForNativeAsset_def SyncDeprecatedFields_def)

lemma source_movement_net:
  "movement_net (source_movement ton chain s) = ep_amount s"
  "mv_asset_id (source_movement ton chain s) = (if ep_contract_address s = [] then chain else ep_contract_address s)"
  by (simp_all add: source_movement_def AddSource_def NewMovement_def NewBalanceChange_def movement_net_def Let_def)

lemma dest_movement_net:
  "movement_net (dest_movement ton chain s) = - ep_amount s"
  "mv_asset_id (dest_movement ton chain s) = (if ep_contract_address s = [] then chain else ep_contract_address s)"
  by (simp_all add: dest_movement_def AddDestination_def NewMovement_def NewBalanceChange_def movement_net_def Let_def)

definition endpoint_sum :: "native_asset \<Rightarrow> contract_address \<Rightarrow> endpoint list \<Rightarrow> int" where
  "endpoint_sum chain k eps = sum_list (map ep_amount
     (filter (\<lambda>e. (if ep_contract_address e = [] then chain else ep_contract_address e) = k) eps))"

lemma endpoint_movements_net:
  "net_of (map (source_movement ton chain) es) k = endpoint_sum chain k es"
  "net_of (map (dest_movement ton chain) es) k = - endpoint_sum chain k es"
  by (induction es) (auto simp: endpoint_sum_def source_movement_net dest_movement_net)

definition legacy_error :: "legacy_tx_info \<Rightarrow> string option" where
  "legacy_error tx = (if lt_error tx \<noteq> [] then Some (lt_error tx)
     else if lt_failed tx then Some ''transaction failed'' else None)"

definition legacy_moved :: "('n, movement list) ordmap_lib \<Rightarrow> (string \<Rightarrow> string option) \<Rightarrow> 'd chain_config
    \<Rightarrow> legacy_tx_info \<Rightarrow> mapping_type \<Rightarrow> tx_info" where
  "legacy_moved N ton cfg tx mt =
    (let chain = cc_chain cfg;
         info = (NewTxInfo (NewBlock chain (lt_block_index tx) (lt_block_hash tx) (lt_block_time tx))
           cfg (lt_tx_id tx) (lt_confirmations tx) (legacy_error tx))\<lparr>ti_lookup_id := lt_lookup_id tx\<rparr>;
         info = (case mt of
             Utxo \<Rightarrow> fold AddMovement (coalesece N (map (source_movement ton chain) (lt_sources tx)
               @ map (dest_movement ton chain) (lt_destinations tx))) info
           | Account \<Rightarrow> account_movements ton tx 0 (lt_destinations tx) info)
     in if lt_fee tx \<noteq> 0
        then AddFee ton (legacy_fee_payer chain tx) (lt_fee_contract tx) (lt_fee tx) info else info)"

lemma NewTxInfo_fields [simp]:
  "ti_movements (NewTxInfo b cfg h c e) = []"
  "ti_x_chain (NewTxInfo b cfg h c e) = cc_chain cfg"
  by (simp_all add: NewTxInfo_def Let_def)

lemma legacy_moved_chain [simp]: "ti_x_chain (legacy_moved N ton cfg tx mt) = cc_chain cfg"
  by (cases mt) (simp_all add: legacy_moved_def Let_def)

lemma TxInfoFromLegacy_fields:
  assumes M: "ordered_map M"
  shows "\<exists>info. TxInfoFromLegacy M N ton cfg tx mt = Some info
    \<and> CalculateFees M ton (legacy_moved N ton cfg tx mt) = Some (ti_fees info)
    \<and> ti_state info = ti_state (legacy_moved N ton cfg tx mt)
    \<and> ti_final info = ti_final (legacy_moved N ton cfg tx mt)
    \<and> length (ti_movements info) = length (ti_movements (legacy_moved N ton cfg tx mt))"
proof -
  let ?info = "legacy_moved N ton cfg tx mt"
  obtain fees where fees: "CalculateFees M ton ?info = Some fees"
    using net_map.CalculateFees_eq [OF net_map.intro [OF M]] by blast
  have "TxInfoFromLegacy M N ton cfg tx mt =
    (case CalculateFees M ton ?info of None \<Rightarrow> None
     | Some fees \<Rightarrow> (let info = fold add_stake_event (lt_stake_events tx) (?info\<lparr>ti_fees := fees\<rparr>);
          info = (if cc_chain_coin cfg \<noteq> [] then SetContractIdForNativeAsset (cc_chain_coin cfg) info else info)
         in Some (SyncDeprecatedFields ton info)))"
    unfolding TxInfoFromLegacy_def legacy_moved_def legacy_error_def Let_def amt_cmp_def by simp
  then show ?thesis by (simp add: fees Let_def)
qed


lemma legacy_moved_state:
  "ti_state (legacy_moved N ton cfg tx mt) =
     (if lt_failed tx \<or> lt_error tx \<noteq> [] then Failed else if lt_block_index tx = 0 then Mining else Succeeded)"
  "ti_final (legacy_moved N ton cfg tx mt) = (cc_confirmations_final cfg \<le> sint (lt_confirmations tx))"
  by (cases mt; auto simp: legacy_moved_def Let_def NewTxInfo_def legacy_error_def NewBlock_def
      NewAmountBlockchainFromUint64_def big_uint64_def)+

lemma account_moved_length:
  "length (ti_movements (legacy_moved N ton cfg tx Account)) =
     length (lt_destinations tx) + (if lt_fee tx = 0 then 0 else 1)"
  by (simp add: legacy_moved_def Let_def)

lemma account_moved_net:
  "net_of (ti_movements (legacy_moved N ton cfg tx Account)) k =
     (if k = (if lt_fee_contract tx = [] then cc_chain cfg else lt_fee_contract tx) then lt_fee tx else 0)"
  by (simp add: legacy_moved_def Let_def AddFee_net account_movements_net [THEN conjunct1])

lemma account_moved_asset:
  "lt_fee tx \<noteq> 0 \<Longrightarrow> (if lt_fee_contract tx = [] then cc_chain cfg else lt_fee_contract tx)
     \<in> assets_of (ti_movements (legacy_moved N ton cfg tx Account))"
  by (simp add: legacy_moved_def Let_def AddFee_assets)

lemma filter_single: "distinct xs \<Longrightarrow> filter (\<lambda>k. k = a) xs = (if a \<in> set xs then [a] else [])"
  by (induction xs) auto

text \<open>For an account chain, translating the older format always succeeds and reports
  exactly the fee it states: one fee, of the fee contract or else the native asset, when it is not zero, and no
  other fee; with one movement for each destination and one for the fee.\<close>

theorem legacy_account_fee:
  assumes "ordered_map (M :: ('m, int) ordmap_lib)"
  shows "\<exists>info. TxInfoFromLegacy M N ton cfg tx Account = Some info
    \<and> ti_fees info = (if lt_fee tx = 0 then [] else [NewBalance ton (cc_chain cfg)
        (if lt_fee_contract tx = [] then cc_chain cfg else lt_fee_contract tx) (lt_fee tx)])
    \<and> length (ti_movements info) = length (lt_destinations tx) + (if lt_fee tx = 0 then 0 else 1)"
proof -
  let ?i = "legacy_moved N ton cfg tx Account" and ?c = "if lt_fee_contract tx = [] then cc_chain cfg else lt_fee_contract tx"
  have "filter (\<lambda>k. net_of (ti_movements ?i) k \<noteq> 0) (sorted_list_of_set (assets_of (ti_movements ?i)))
      = (if lt_fee tx = 0 then [] else [?c])"
  proof (cases "lt_fee tx = 0")
    case False
    then have "(\<lambda>k. net_of (ti_movements ?i) k \<noteq> 0) = (\<lambda>k. k = ?c)"
      by (auto simp: account_moved_net)
    then show ?thesis
      using account_moved_asset [OF False, of cfg N ton] False by (simp add: filter_single)
  qed (simp add: account_moved_net)
  then have "CalculateFees M ton ?i = Some (if lt_fee tx = 0 then [] else [NewBalance ton (cc_chain cfg) ?c (lt_fee tx)])"
    by (simp add: net_map.CalculateFees_eq [OF net_map.intro [OF assms]] account_moved_net)
  with TxInfoFromLegacy_fields [OF assms, of N ton cfg tx Account] account_moved_length [of N ton cfg tx]
  show ?thesis by auto
qed

definition legacy_config :: "unit chain_config" where
  "legacy_config = \<lparr>cc_chain = ''BTC'', cc_driver = ''bitcoin'', cc_decimals = 8, cc_chain_coin = [],
     cc_native_assets = [], cc_fee_limit = (), cc_url = [], cc_crosschain_url = [],
     cc_confirmations_final = 6\<rparr>"

definition legacy_example :: "int \<Rightarrow> legacy_tx_info" where
  "legacy_example fee = \<lparr>lt_block_hash = ''00'', lt_tx_id = ''ab'', lt_from = ''A'', lt_contract_address = [],
     lt_fee = fee, lt_fee_payer = [], lt_fee_contract = [], lt_block_index = 7, lt_block_time = 0,
     lt_confirmations = 3, lt_failed = False,
     lt_sources = [\<lparr>ep_address = ''A'', ep_contract_address = [], ep_amount = 100, ep_memo = [],
        ep_contract_id = [], ep_event = None\<rparr>],
     lt_destinations = [\<lparr>ep_address = ''B'', ep_contract_address = [], ep_amount = 90, ep_memo = [],
        ep_contract_id = [], ep_event = None\<rparr>],
     lt_error = [], lt_dropped = [], lt_stake_events = [], lt_lookup_id = []\<rparr>"

theorem legacy_account_fee_witness:
  "\<exists>info. TxInfoFromLegacy rbt_map rbt_map (\<lambda>_. None) legacy_config (legacy_example 5) Account = Some info
     \<and> map ba_balance (ti_fees info) = [5] \<and> length (ti_movements info) = 2"
  using legacy_account_fee [OF rbt.ordered_map_axioms, of rbt_map "\<lambda>_. None" legacy_config "legacy_example 5"]
  by (auto simp: legacy_example_def NewBalance_def)

lemma distinct_set_single: "distinct ks \<Longrightarrow> set ks = {a} \<Longrightarrow> ks = [a]"
  by (cases ks; cases "tl ks") auto

text \<open>What the endpoints and the stated fee leave unbalanced of an asset.\<close>

definition utxo_imbalance :: "'d chain_config \<Rightarrow> legacy_tx_info \<Rightarrow> contract_address \<Rightarrow> int" where
  "utxo_imbalance cfg tx k =
     endpoint_sum (cc_chain cfg) k (lt_sources tx) - endpoint_sum (cc_chain cfg) k (lt_destinations tx)
     + (if k = (if lt_fee_contract tx = [] then cc_chain cfg else lt_fee_contract tx) then lt_fee tx else 0)"

lemma utxo_moved_net:
  assumes "ordered_map N"
  shows "net_of (ti_movements (legacy_moved N ton cfg tx Utxo)) k = utxo_imbalance cfg tx k"
  by (simp add: legacy_moved_def Let_def AddFee_net group_map.coalesece_net [OF group_map.intro [OF assms]]
      endpoint_movements_net utxo_imbalance_def)

text \<open>C34: For a UTXO chain, translating the older format always succeeds and reports as the fees,
  for every asset, exactly its inputs less its outputs (and a stated fee): no asset whose inputs and
  outputs differ is missed, none is reported twice, and a balanced one is not reported.\<close>

theorem legacy_utxo_fees:
  assumes "ordered_map (M :: ('m, int) ordmap_lib)" and "ordered_map (N :: ('n, movement list) ordmap_lib)"
  shows "\<exists>info ks. TxInfoFromLegacy M N ton cfg tx Utxo = Some info
    \<and> distinct ks \<and> set ks = {k. utxo_imbalance cfg tx k \<noteq> 0}
    \<and> ti_fees info = map (\<lambda>k. NewBalance ton (cc_chain cfg) k (utxo_imbalance cfg tx k)) ks"
proof -
  let ?i = "legacy_moved N ton cfg tx Utxo"
  let ?ks = "filter (\<lambda>k. utxo_imbalance cfg tx k \<noteq> 0) (sorted_list_of_set (assets_of (ti_movements ?i)))"
  have fees: "CalculateFees M ton ?i = Some (map (\<lambda>k. NewBalance ton (cc_chain cfg) k (utxo_imbalance cfg tx k)) ?ks)"
    by (simp add: net_map.CalculateFees_eq [OF net_map.intro [OF assms(1)]] utxo_moved_net [OF assms(2)])
  have "utxo_imbalance cfg tx k = 0" if "k \<notin> assets_of (ti_movements ?i)" for k
    using net_of_absent [OF that] by (simp add: utxo_moved_net [OF assms(2)])
  then have "set ?ks = {k. utxo_imbalance cfg tx k \<noteq> 0}" "distinct ?ks" by auto
  moreover obtain info where "TxInfoFromLegacy M N ton cfg tx Utxo = Some info"
    "CalculateFees M ton ?i = Some (ti_fees info)"
    using TxInfoFromLegacy_fields [OF assms(1), of N ton cfg tx Utxo] by blast
  moreover have "ti_fees info = map (\<lambda>k. NewBalance ton (cc_chain cfg) k (utxo_imbalance cfg tx k)) ?ks"
    using fees \<open>CalculateFees M ton ?i = Some (ti_fees info)\<close> by simp
  ultimately show ?thesis by (intro exI [of _ info] exI [of _ ?ks] conjI)
qed

theorem legacy_utxo_fees_witness:
  "\<exists>info. TxInfoFromLegacy rbt_map rbt_map (\<lambda>_. None) legacy_config (legacy_example 0) Utxo = Some info
     \<and> map ba_balance (ti_fees info) = [10]"
proof -
  have net: "utxo_imbalance legacy_config (legacy_example 0) = (\<lambda>k. if k = ''BTC'' then 10 else 0)"
    by (auto simp: utxo_imbalance_def legacy_example_def legacy_config_def endpoint_sum_def)
  show ?thesis
    using legacy_utxo_fees [OF rbt.ordered_map_axioms rbt.ordered_map_axioms, of "\<lambda>_. None"
        legacy_config "legacy_example 0"]
    by (auto simp: net NewBalance_def dest!: distinct_set_single)
qed

text \<open>The state of a translated transaction: failed exactly when the old record says so or carries an error,
  else mining while it has no block, else succeeded; and final exactly from the configured number of confirmations on, whatever the state.\<close>

theorem legacy_state:
  assumes "ordered_map (M :: ('m, int) ordmap_lib)"
  shows "\<exists>info. TxInfoFromLegacy M N ton cfg tx mt = Some info
    \<and> ti_state info = (if lt_failed tx \<or> lt_error tx \<noteq> [] then Failed
        else if lt_block_index tx = 0 then Mining else Succeeded)
    \<and> (ti_final info \<longleftrightarrow> cc_confirmations_final cfg \<le> sint (lt_confirmations tx))"
  using TxInfoFromLegacy_fields [OF assms, of N ton cfg tx mt] legacy_moved_state [of N ton cfg tx mt] by auto

theorem legacy_state_witness:
  "\<exists>info. TxInfoFromLegacy rbt_map rbt_map (\<lambda>_. None) legacy_config (legacy_example 5) Utxo = Some info
     \<and> ti_state info = Succeeded \<and> \<not> ti_final info"
  using legacy_state [OF rbt.ordered_map_axioms, of rbt_map "\<lambda>_. None" legacy_config "legacy_example 5" Utxo]
  by (auto simp: legacy_example_def legacy_config_def)

end
