(* ===== verification/Spec2Isabelle.thy ===== *)
theory Spec2Isabelle
  imports InputConflicts Selection Fees Builder Bitcoin HashTree CandidMessages CandidTermination CantonChecked CantonAccount KaspaP2SH KaspaTx Normalize TxInfo
begin

text \<open>
  A verification library for \<^verbatim>\<open>crosschain\<close>, a Go library that builds, signs and follows
  transactions of some twenty kinds of chains behind one interface.

  \<^bold>\<open>The program.\<close> A caller makes the arguments of a transaction (\<^verbatim>\<open>builder/\<close>), a client fetches a
  transaction input, the chain data the transaction needs (\<^verbatim>\<open>chain/*/tx_input\<close>: nonces, unspent
  outputs, fees, expiries), the caller adjusts its fee by a priority (\<^verbatim>\<open>gas_priority.go\<close>) and checks
  it against a limit, and a chain builder turns both into a transaction. When a transaction seems
  lost, the interface \<^verbatim>\<open>TxInputConflicts\<close> of \<^verbatim>\<open>tx.go\<close> tells whether a new input may be signed without
  risk of a double spend, and whether two inputs may be signed side by side. Afterwards the
  client reports the transaction as movements of assets and fees (\<^verbatim>\<open>client/tx_info\<close>), with
  addresses and hashes in a normal form (\<^verbatim>\<open>normalize/normalize.go\<close>).

  \<^bold>\<open>The theories\<close>, in the order they build on each other.
  \<^item> \<^verbatim>\<open>Prelude\<close>: machine integers as words, \<^verbatim>\<open>big.Int\<close> as \<open>int\<close> with its conversions and truncated
    division, the Go functions on strings. Strings are lists of bytes; case is that of ASCII.
  \<^item> \<^verbatim>\<open>Floats\<close>, \<^verbatim>\<open>Decimals\<close>: rounding to float64, written out on rationals, and the decimal library as a
    record of operations with its laws as the locale \<open>decimal_library\<close>, interpreted by exact decimals.
  \<^item> \<^verbatim>\<open>Assets\<close>, \<^verbatim>\<open>Amounts\<close>, \<^verbatim>\<open>GasPriority\<close>: \<^verbatim>\<open>asset.go\<close>, \<^verbatim>\<open>amount.go\<close>, \<^verbatim>\<open>gas_priority.go\<close> and the fee
    check of \<^verbatim>\<open>tx.go\<close>.
  \<^item> \<^verbatim>\<open>InputTypes\<close>: a record per chain input; the embedding of a chain's input in its staking, call and
    batch variants as constructors of \<open>tx_input\<close>. \<^verbatim>\<open>UtxoInputs\<close>, \<^verbatim>\<open>NonceInputs\<close>, \<^verbatim>\<open>ExpiringInputs\<close>,
    \<^verbatim>\<open>ObjectInputs\<close>: the methods of the inputs, by what their transactions consume, one definition
    per method, named after the chain (\<open>evm_independent_of\<close> is \<^verbatim>\<open>TxInput.IndependentOf\<close> of
    \<^verbatim>\<open>chain/evm/tx_input\<close>). \<^verbatim>\<open>TxInputs\<close>: the dynamic dispatch over them.
  \<^item> \<^verbatim>\<open>Conflicts\<close>: the abstract specification of \<^verbatim>\<open>TxInputConflicts\<close>, two ledgers (of consumed
    resources, and with a clock) as inductive step relations, with the locales \<open>exclusive_inputs\<close>
    and \<open>expiring_inputs\<close>. \<^verbatim>\<open>InputConflicts\<close> interprets both on the dispatch of \<^verbatim>\<open>TxInputs\<close>.
  \<^item> \<^verbatim>\<open>Selection\<close>: the choice of outputs a Bitcoin transfer spends. \<^verbatim>\<open>Fees\<close>: what the priorities and
    the fee check guarantee.
  \<^item> \<^verbatim>\<open>Builder\<close>: options and arguments of transfers, batches, stakes, calls; the locale \<open>option_field\<close>
    (a later option overrides) interpreted on four of the fields.
  \<^item> \<^verbatim>\<open>Bitcoin\<close>: the transfers and batches of \<^verbatim>\<open>chain/bitcoin/builder\<close>, with the address decoder of btcd as a
    parameter.
  \<^item> The Internet Computer. \<^verbatim>\<open>Leb128\<close> (\<^verbatim>\<open>candid/leb128\<close>) and \<^verbatim>\<open>HashTree\<close> (\<^verbatim>\<open>certification/hashtree\<close>): integers of
    any size, certified trees. \<^verbatim>\<open>CandidTypes\<close>, \<^verbatim>\<open>CandidValues\<close>, \<^verbatim>\<open>CandidDecode\<close>, \<^verbatim>\<open>Candid\<close>: the types with
    their definition table, the encoding and decoding of values, and whole messages (\<^verbatim>\<open>candid/idl\<close>,
    \<^verbatim>\<open>encode.go\<close>, \<^verbatim>\<open>decode.go\<close>); \<^verbatim>\<open>CandidIntegers\<close>, \<^verbatim>\<open>CandidRoundTrip\<close>, \<^verbatim>\<open>CandidMessages\<close>, \<^verbatim>\<open>CandidSafety\<close>,
    \<^verbatim>\<open>CandidTermination\<close>: what is shown of them.
  \<^item> Canton. \<^verbatim>\<open>CantonValues\<close>, \<^verbatim>\<open>CantonHash\<close>: the hash of a prepared transaction (\<^verbatim>\<open>tx_input/hash_validation.go\<close>).
    \<^verbatim>\<open>CantonCodes\<close> is a theory of prefix codes, a locale interpreted by the encodings that delimit
    themselves; \<^verbatim>\<open>CantonNodes\<close>, \<^verbatim>\<open>CantonTrees\<close>, \<^verbatim>\<open>CantonBinding\<close>, \<^verbatim>\<open>CantonTermination\<close> use it. \<^verbatim>\<open>CantonAddress\<close>:
    party ids. \<^verbatim>\<open>CantonTransfer\<close> (\<^verbatim>\<open>tx/tx.go\<close>, \<^verbatim>\<open>builder/builder.go\<close>) and \<^verbatim>\<open>CantonChecked\<close>: the checks of a transfer
    before it is signed. \<^verbatim>\<open>CantonAccount\<close>: the registration of accounts.
  \<^item> Kaspa. The script engine of \<^verbatim>\<open>chain/kaspa/tx/txscript\<close>: \<^verbatim>\<open>KaspaScriptNum\<close> (numbers as bytes), \<^verbatim>\<open>KaspaStack\<close>
    (the data stack, with counts of 32 bits), \<^verbatim>\<open>KaspaScript\<close> (the table of opcodes, parser and printer), \<^verbatim>\<open>KaspaEngine\<close>
    (every opcode, the step and the execution), \<^verbatim>\<open>KaspaStandard\<close> (the builder of scripts and the standard
    scripts). \<^verbatim>\<open>KaspaParse\<close>, \<^verbatim>\<open>KaspaLimits\<close>, \<^verbatim>\<open>KaspaNumbers\<close>, \<^verbatim>\<open>KaspaStructured\<close>, \<^verbatim>\<open>KaspaExecute\<close>, \<^verbatim>\<open>KaspaBuilt\<close>, \<^verbatim>\<open>KaspaP2SH\<close>:
    what is shown of them; \<open>KaspaStructured\<close> gives scripts with properly nested conditionals a meaning by
    recursion, which the engine refines. \<^verbatim>\<open>KaspaTx\<close> (\<^verbatim>\<open>tx.go\<close>, \<^verbatim>\<open>serde.go\<close>, \<^verbatim>\<open>chain/kaspa/builder\<close>): transfers, from the
    unspent outputs to the message sent.
  \<^item> \<^verbatim>\<open>Normalize\<close>: addresses and hashes. \<^verbatim>\<open>OrderedMap\<close>: the btree as a record with the locale
    \<open>ordered_map\<close>, interpreted by red-black trees. \<^verbatim>\<open>TxInfo\<close>: movements, fees, the older format.

  \<^bold>\<open>What is shown.\<close>
  \<^item> Conflicts: on inputs of one chain that may meet, the two checks are exact: independent inputs
    consume nothing in common, and an input is safe to sign again exactly when the attempts
    exclude each other; hence no sequence of steps of the ledger lands two attempts. For the chains with
    expiry, when an attempt is judged safe, all before it have expired. The MultiversX check is
    shown to break this.
  \<^item> Selection: the selected outputs are among the given ones and cover the amount whenever the
    wallet does, with the least number of outputs, up to the minimum asked for.
  \<^item> Fees: exactness of the limit check, monotonicity of the EVM priorities, the bounds of the
    others; round trip of amounts; \<^verbatim>\<open>MultiplyByFloat\<close> on the multipliers that occur.
  \<^item> Arguments: the transfers of a batch are those asked for, under the options in order; the fee
    deduction changes exactly one receiver that can bear it; the checks of batches and stakes.
  \<^item> Bitcoin: a transfer creates and loses no value, up to the fee, within 63 bits; and so does a batch, where
    its inputs suffice (where they do not, it is built all the same).
  \<^item> Internet Computer: integers and trees are read back from their encodings, no pruned tree misleads a
    lookup; a Candid message arrives as it was sent, whatever is decoded has the type announced, and
    decoding comes to an end whenever no type contains itself.
  \<^item> Canton: two prepared transactions with the same hash are read alike by the ledger, unless SHA-256
    collides; the hash is computed when no node is below itself. A transfer that passes the checks pays the
    receiver, and its outermost payments are within the amount asked for; but nodes that are
    not hashed count, and with one of them any transaction refused for its amount passes, under the same hash.
  \<^item> Kaspa: executions end, within the limits on stacks and operations; the engine refines the structured meaning
    of scripts; parsing inverts printing; numbers, arithmetic and stack opcodes are exact; scripts built from
    data push it, and the scripts made for a hash spend each other, while those for public keys are
    never recognised. A transfer spends the given outputs and returns exactly what is left, and what
    is sent is what was signed.
  \<^item> Normal forms are idempotent and identify what they should.
  \<^item> Transaction infos: the fees are exactly what the movements leave unbalanced, whatever the order,
    unchanged by merging, and for the translated older records exactly the stated fee (account
    chains) or inputs less outputs (UTXO chains).

  \<^bold>\<open>Conventions.\<close> A Go pointer that may be nil is an \<open>option\<close>, an error a sum or an \<open>option\<close>, a panic the
  value \<open>None\<close> of the definitions that say so. Methods that update their receiver return it.
  Interfaces the code asserts on (\<^verbatim>\<open>GetNonce\<close>, \<^verbatim>\<open>UtxoGetter\<close>) are functions \<open>as_\<dots>\<close> into options that answer
  for the types implementing them. The functions are total, by recursion on their data, but for four loops of the
  code that have no bound of their own: the decoder of Candid values, the hash of Canton nodes, the parser of kaspa
  scripts (which does not end on the opcodes the table has no row for) and the execution of the
  kaspa engine. They are partial functions, where the value \<open>None\<close> is a computation that does not return, and
  it is shown when they do. No fuel is used. Integers that Go keeps in 64 or 32 bits are words here, and
  timestamps compare as signed words. The depth of a kaspa stack is read exactly, as the code does below \<open>2^31\<close>
  elements; the engine keeps it below 245.
  Parameters stand for what is not in the repository: the decimal library, the btree, the parser
  of TON addresses, the base58 check of Solana keys, SHA-256 (of which only the length of its values and, where
  said so, the absence of collisions on the strings at hand are assumed), the marshalling of protocol
  buffers, the kaspa library (addresses, ids, hashes to sign, its constants, BLAKE2b).

  \<^bold>\<open>Not modelled.\<close> The other chain builders and transaction formats, which are little code around the SDKs they call
  (Tron votes, EVM fee payers, the addresses of Bitcoin Cash and Filecoin), the registry of input types,
  query arguments, the reflection of Candid (\<^verbatim>\<open>Marshal\<close>, \<^verbatim>\<open>UnmarshalGo\<close>) and its textual form; clients (network
  input and output), signing (libraries), generated protocol buffers, the command line.
\<close>

end
